(* ===== verification/Prelude.thy ===== *)
theory Prelude
  imports Main "HOL-Library.AList" "HOL-Library.Multiset" "HOL-Library.Char_ord" "HOL-Library.List_Lexorder"
    "HOL-Library.Product_Lexorder"
begin

text \<open>
  What every theory of the development shares: Go maps as association lists with an explicit
  iteration order, the functions of the packages \<open>strings\<close> and \<open>sort\<close> the code calls, the clock,
  and the interface \<open>stable_order\<close> under which each call of \<open>sort.SliceStable\<close> is reasoned about
  once.

  A Go \<open>string\<close> is a sequence of bytes, here a list of 8-bit characters. \<open>ToLower\<close>, \<open>TrimSpace\<close> and
  \<open>EqualFold\<close> are Go's functions on ASCII; bytes above 127 are letters of no case and no white
  space here, so the Unicode tables of Go are not modelled.
\<close>

section \<open>Automation collections\<close>

named_theorems sort_facts \<open>what a stable sort keeps and what it establishes\<close>

section \<open>Clock\<close>

text \<open>
  A \<open>time.Time\<close> is a number of nanoseconds since the zero value \<open>time.Time{}\<close>; a \<open>time.Duration\<close> is a
  number of nanoseconds. \<open>After\<close> is strict.
\<close>

type_synonym time = int
type_synonym duration = int

abbreviation (input) zero_time :: time where "zero_time \<equiv> 0"

definition After :: "time \<Rightarrow> time \<Rightarrow> bool" where
  "After now t \<longleftrightarrow> t < now"

definition Second :: duration where "Second = 1000000000"
definition Minute :: duration where "Minute = 60 * Second"
definition Hour :: duration where "Hour = 60 * Minute"

lemma durations_pos [simp]: "0 < Second" "0 < Minute" "0 < Hour"
  by (simp_all add: Second_def Minute_def Hour_def)

definition unix_epoch :: time where "unix_epoch = 62135596800 * Second"

definition UnixNano :: "time \<Rightarrow> int" where "UnixNano t = t - unix_epoch"

definition Unix :: "time \<Rightarrow> int" where "Unix t = UnixNano t div Second"

definition Milliseconds :: "duration \<Rightarrow> int" where
  "Milliseconds d = sgn d * (\<bar>d\<bar> div 1000000)"

section \<open>Go maps\<close>

text \<open>
  A map is an association list without repeated keys. Reading a missing key gives the zero value
  of the element type, which the caller of \<open>gm_at\<close> names.
\<close>

type_synonym ('k, 'v) gomap = "('k \<times> 'v) list"

definition gm_at :: "'v \<Rightarrow> ('k, 'v) gomap \<Rightarrow> 'k \<Rightarrow> 'v" where
  "gm_at d m k = (case map_of m k of None \<Rightarrow> d | Some v \<Rightarrow> v)"

definition gm_has :: "('k, 'v) gomap \<Rightarrow> 'k \<Rightarrow> bool" where
  "gm_has m k \<longleftrightarrow> map_of m k \<noteq> None"

abbreviation (input) gm_set :: "'k \<Rightarrow> 'v \<Rightarrow> ('k, 'v) gomap \<Rightarrow> ('k, 'v) gomap" where
  "gm_set \<equiv> AList.update"

abbreviation (input) gm_del :: "'k \<Rightarrow> ('k, 'v) gomap \<Rightarrow> ('k, 'v) gomap" where
  "gm_del \<equiv> AList.delete"

abbreviation (input) gm_ok :: "('k, 'v) gomap \<Rightarrow> bool" where
  "gm_ok m \<equiv> distinct (map fst m)"

lemma gm_get_set [simp]: "map_of (gm_set k v m) k' = (if k' = k then Some v else map_of m k')"
  by (simp add: update_conv')

lemma gm_get_del [simp]: "map_of (gm_del k m) k' = (if k' = k then None else map_of m k')"
  by (simp add: delete_conv')

lemma gm_at_set [simp]: "gm_at d (gm_set k v m) k' = (if k' = k then v else gm_at d m k')"
  by (simp add: gm_at_def)

lemma gm_at_del [simp]: "gm_at d (gm_del k m) k' = (if k' = k then d else gm_at d m k')"
  by (simp add: gm_at_def)

lemma gm_at_Nil [simp]: "gm_at d [] k = d"
  by (simp add: gm_at_def)

lemma gm_has_set [simp]: "gm_has (gm_set k v m) k' \<longleftrightarrow> k' = k \<or> gm_has m k'"
  by (simp add: gm_has_def)

lemma gm_has_del [simp]: "gm_has (gm_del k m) k' \<longleftrightarrow> k' \<noteq> k \<and> gm_has m k'"
  by (simp add: gm_has_def)

lemma gm_has_keys: "gm_has m k \<longleftrightarrow> k \<in> fst ` set m"
  by (simp add: gm_has_def map_of_eq_None_iff)

lemma gm_keys_set: "fst ` set (gm_set k v m) = insert k (fst ` set m)"
  by (induction m) auto

lemma gm_ok_set [simp]: "gm_ok m \<Longrightarrow> gm_ok (gm_set k v m)"
  by (rule distinct_update)

lemma gm_ok_del [simp]: "gm_ok m \<Longrightarrow> gm_ok (gm_del k m)"
  by (rule distinct_delete)

text \<open>
  A \<open>range\<close> over a map visits its entries in an order the run time chooses. Where the code ranges
  over a map and the order can matter, the model takes the order as the list of keys visited.
\<close>

definition range_order :: "'k list \<Rightarrow> ('k, 'v) gomap \<Rightarrow> bool" where
  "range_order ord m \<longleftrightarrow> distinct ord \<and> set ord = fst ` set m"

definition range_vals :: "'k list \<Rightarrow> ('k, 'v) gomap \<Rightarrow> 'v list" where
  "range_vals ord m = List.map_filter (map_of m) ord"

lemma set_range_vals: "set (range_vals ord m) = {v. \<exists>k \<in> set ord. map_of m k = Some v}"
  by (auto simp: range_vals_def map_filter_def) force+

lemma set_range_vals_all:
  assumes "range_order ord m"
  shows "set (range_vals ord m) = {v. \<exists>k. map_of m k = Some v}"
  using assms by (auto simp: set_range_vals range_order_def dest: map_of_SomeD) (metis fst_conv imageI map_of_SomeD)

lemma range_order_exists: "gm_ok m \<Longrightarrow> range_order (map fst m) m"
  by (simp add: range_order_def)


section \<open>Package strings\<close>

definition lower_char :: "char \<Rightarrow> char" where
  "lower_char c = (let n = of_char c :: nat in if 65 \<le> n \<and> n \<le> 90 then char_of (n + 32) else c)"

definition ToLower :: "string \<Rightarrow> string" where
  "ToLower s = map lower_char s"

definition EqualFold :: "string \<Rightarrow> string \<Rightarrow> bool" where
  "EqualFold a b \<longleftrightarrow> ToLower a = ToLower b"

definition is_space :: "char \<Rightarrow> bool" where
  "is_space c \<longleftrightarrow> c \<in> set [CHR 0x09, CHR 0x0A, CHR 0x0B, CHR 0x0C, CHR 0x0D, CHR '' '']"

definition trim_left :: "(char \<Rightarrow> bool) \<Rightarrow> string \<Rightarrow> string" where
  "trim_left p s = dropWhile p s"

definition trim_right :: "(char \<Rightarrow> bool) \<Rightarrow> string \<Rightarrow> string" where
  "trim_right p s = rev (dropWhile p (rev s))"

definition TrimSpace :: "string \<Rightarrow> string" where
  "TrimSpace s = trim_right is_space (trim_left is_space s)"

fun HasPrefix :: "string \<Rightarrow> string \<Rightarrow> bool" where
  "HasPrefix s [] = True"
| "HasPrefix [] (p # ps) = False"
| "HasPrefix (c # s) (p # ps) = (c = p \<and> HasPrefix s ps)"

definition TrimPrefix :: "string \<Rightarrow> string \<Rightarrow> string" where
  "TrimPrefix s p = (if HasPrefix s p then drop (length p) s else s)"

fun Contains :: "string \<Rightarrow> string \<Rightarrow> bool" where
  "Contains [] t = (t = [])"
| "Contains (c # s) t = (HasPrefix (c # s) t \<or> Contains s t)"

definition contains_any :: "string \<Rightarrow> string list \<Rightarrow> bool" where
  "contains_any s markers \<longleftrightarrow> (\<exists>m \<in> set markers. Contains s m)"

text \<open>\<open>strings.Cut\<close> at a one-byte separator: what is before it, what is after it, and whether it was found.\<close>

definition Cut :: "string \<Rightarrow> char \<Rightarrow> string \<times> string \<times> bool" where
  "Cut s c = (case dropWhile (\<lambda>x. x \<noteq> c) s of
      [] \<Rightarrow> (s, [], False)
    | _ # rest \<Rightarrow> (takeWhile (\<lambda>x. x \<noteq> c) s, rest, True))"

fun Join :: "string list \<Rightarrow> string \<Rightarrow> string" where
  "Join [] sep = []"
| "Join [x] sep = x"
| "Join (x # y # zs) sep = x @ sep @ Join (y # zs) sep"

definition TrimRight :: "string \<Rightarrow> string \<Rightarrow> string" where
  "TrimRight s cutset = trim_right (\<lambda>c. c \<in> set cutset) s"

definition ContainsAny :: "string \<Rightarrow> string \<Rightarrow> bool" where
  "ContainsAny s chars \<longleftrightarrow> (\<exists>c \<in> set s. c \<in> set chars)"

text \<open>\<open>strings.Split\<close> at a one-byte separator: always at least one piece.\<close>

fun Split :: "string \<Rightarrow> char \<Rightarrow> string list" where
  "Split [] c = [[]]"
| "Split (x # s) c = 
     (if x = c then [] # Split s c
      else case Split s c of [] \<Rightarrow> [[x]] | p # ps \<Rightarrow> (x # p) # ps)"

definition replace_char :: "char \<Rightarrow> char \<Rightarrow> string \<Rightarrow> string" where
  "replace_char a b s = map (\<lambda>c. if c = a then b else c) s"

lemma HasPrefix_iff: "HasPrefix s p \<longleftrightarrow> (\<exists>r. s = p @ r)"
  by (induction s p rule: HasPrefix.induct) auto

lemma Contains_Nil [simp]: "Contains s []"
  by (cases s) simp_all

lemma Contains_iff: "Contains s t \<longleftrightarrow> (\<exists>a b. s = a @ t @ b)"
proof (induction s)
  case Nil
  then show ?case by auto
next
  case (Cons c s)
  show ?case
  proof
    assume "Contains (c # s) t"
    then consider "HasPrefix (c # s) t" | "Contains s t" by auto
    then show "\<exists>a b. c # s = a @ t @ b"
    proof cases
      case 1
      then show ?thesis by (auto simp: HasPrefix_iff intro: exI [of _ "[]"])
    next
      case 2
      then obtain a b where "s = a @ t @ b" using Cons.IH by blast
      then have "c # s = (c # a) @ t @ b" by simp
      then show ?thesis by blast
    qed
  next
    assume "\<exists>a b. c # s = a @ t @ b"
    then obtain a b where ab: "c # s = a @ t @ b" by blast
    show "Contains (c # s) t"
    proof (cases a)
      case Nil
      with ab have "HasPrefix (c # s) t" by (auto simp: HasPrefix_iff)
      then show ?thesis by simp
    next
      case (Cons x a')
      with ab have "s = a' @ t @ b" by simp
      with Cons.IH show ?thesis by auto
    qed
  qed
qed

lemma Contains_append: "Contains s t \<Longrightarrow> Contains (a @ s @ b) t"
  unfolding Contains_iff by (metis append.assoc)

lemma contains_any_append: "contains_any s ms \<Longrightarrow> contains_any (a @ s @ b) ms"
  by (auto simp: contains_any_def intro: Contains_append)

lemma lower_char_idem [simp]: "lower_char (lower_char c) = lower_char c"
  by (auto simp: lower_char_def Let_def)

lemma ToLower_idem [simp]: "ToLower (ToLower s) = ToLower s"
  by (simp add: ToLower_def)

lemma ToLower_append [simp]: "ToLower (a @ b) = ToLower a @ ToLower b"
  by (simp add: ToLower_def)

lemma EqualFold_refl [simp]: "EqualFold s s"
  by (simp add: EqualFold_def)

lemma Cut_found: "Cut s c = (a, b, True) \<Longrightarrow> s = a @ c # b \<and> c \<notin> set a"
proof -
  assume cut: "Cut s c = (a, b, True)"
  then obtain x where d: "dropWhile (\<lambda>x. x \<noteq> c) s = x # b" and a: "a = takeWhile (\<lambda>x. x \<noteq> c) s"
    by (auto simp: Cut_def split: list.splits)
  from d have "x = c" by (auto dest: dropWhile_eq_Cons_conv [THEN iffD1])
  with d a have "s = a @ c # b" by (metis takeWhile_dropWhile_id)
  with a show ?thesis using set_takeWhileD [of c "\<lambda>x. x \<noteq> c" s] by auto
qed

lemma Cut_not_found: "Cut s c = (a, b, False) \<Longrightarrow> a = s \<and> b = [] \<and> c \<notin> set s"
  by (auto simp: Cut_def dropWhile_eq_Nil_conv split: list.splits)

lemma TrimSpace_Nil [simp]: "TrimSpace [] = []"
  by (simp add: TrimSpace_def trim_left_def trim_right_def)

lemma trim_left_fixed: "xs = [] \<or> \<not> p (hd xs) \<Longrightarrow> trim_left p xs = xs"
  by (cases xs) (auto simp: trim_left_def)

lemma trim_right_prefix: "\<exists>zs. xs = trim_right p xs @ zs"
  unfolding trim_right_def by (metis rev_append rev_rev_ident takeWhile_dropWhile_id)

lemma trim_right_idem [simp]: "trim_right p (trim_right p xs) = trim_right p xs"
  by (simp add: trim_right_def)

lemma TrimSpace_idem [simp]: "TrimSpace (TrimSpace s) = TrimSpace s"
proof -
  obtain zs where zs: "trim_left is_space s = TrimSpace s @ zs"
    unfolding TrimSpace_def using trim_right_prefix by blast
  have "TrimSpace s = [] \<or> \<not> is_space (hd (TrimSpace s))"
  proof (cases "TrimSpace s = []")
    case False
    then have "trim_left is_space s \<noteq> []" and hd: "hd (TrimSpace s) = hd (trim_left is_space s)"
      using zs by (auto simp: hd_append)
    then show ?thesis unfolding hd unfolding trim_left_def using hd_dropWhile by blast
  qed simp
  then have "trim_left is_space (TrimSpace s) = TrimSpace s" by (rule trim_left_fixed)
  then show ?thesis by (simp add: TrimSpace_def)
qed

text \<open>Decimal digits, as \<open>%d\<close> and \<open>strconv.Itoa\<close> write them.\<close>

fun nat_digits :: "nat \<Rightarrow> string" where
  "nat_digits n = (if n < 10 then [char_of (48 + n)] else nat_digits (n div 10) @ [char_of (48 + n mod 10)])"

declare nat_digits.simps [simp del]

definition Itoa :: "int \<Rightarrow> string" where
  "Itoa n = (if n < 0 then CHR ''-'' # nat_digits (nat (- n)) else nat_digits (nat n))"

text \<open>\<open>strconv.Atoi\<close>: an optional sign and at least one decimal digit, within 64 bits.\<close>

definition digit_val :: "char \<Rightarrow> int option" where
  "digit_val c = (let n = of_char c :: nat in if 48 \<le> n \<and> n \<le> 57 then Some (int n - 48) else None)"

fun digits_val :: "int \<Rightarrow> string \<Rightarrow> int option" where
  "digits_val acc [] = Some acc"
| "digits_val acc (c # s) = (case digit_val c of None \<Rightarrow> None | Some d \<Rightarrow> digits_val (10 * acc + d) s)"

definition in_int64 :: "int \<Rightarrow> bool" where
  "in_int64 n \<longleftrightarrow> - (2 ^ 63) \<le> n \<and> n < 2 ^ 63"

text \<open>The wrap-around of Go's \<open>int\<close> on a 64-bit machine.\<close>

definition wrap64 :: "int \<Rightarrow> int" where
  "wrap64 n = (n + 2 ^ 63) mod 2 ^ 64 - 2 ^ 63"

lemma wrap64_in_range [simp]: "in_int64 n \<Longrightarrow> wrap64 n = n"
  by (simp add: wrap64_def in_int64_def)

lemma in_int64_wrap64 [simp]: "in_int64 (wrap64 n)"
  using pos_mod_bound [of "2 ^ 64" "n + 2 ^ 63"] by (simp add: wrap64_def in_int64_def)

definition Atoi :: "string \<Rightarrow> int option" where
  "Atoi s =
     (let neg = HasPrefix s ''-'';
          ds = (if neg \<or> HasPrefix s ''+'' then tl s else s) in
      if ds = [] then None
      else case digits_val 0 ds of
          None \<Rightarrow> None
        | Some n \<Rightarrow> let v = (if neg then - n else n) in if in_int64 v then Some v else None)"

lemma digit_val_digit [simp]: "n < 10 \<Longrightarrow> digit_val (char_of (48 + n)) = Some (int n)"
  by (simp add: digit_val_def)

lemma digits_val_append: "digits_val acc (a @ b) = Option.bind (digits_val acc a) (\<lambda>n. digits_val n b)"
  by (induction acc a rule: digits_val.induct) (simp_all split: option.splits)

lemma digits_val_nat_digits [simp]: "digits_val 0 (nat_digits n) = Some (int n)"
proof (induction n rule: nat_digits.induct)
  case (1 n)
  show ?case
  proof (cases "n < 10")
    case True
    then show ?thesis by (simp add: nat_digits.simps [of n])
  next
    case False
    have "10 * int (n div 10) + int (n mod 10) = int (10 * (n div 10) + n mod 10)"
      by (simp only: of_nat_add of_nat_mult of_nat_numeral)
    also have "\<dots> = int n" by simp
    finally show ?thesis
      using 1 [OF False] False by (simp only: nat_digits.simps [of n] digits_val_append) (simp add: digits_val_append)
  qed
qed

lemma nat_digits_not_Nil [simp]: "nat_digits n \<noteq> []"
  by (simp add: nat_digits.simps [of n])

lemma nat_digits_no_sign: "\<not> HasPrefix (nat_digits n) ''-'' \<and> \<not> HasPrefix (nat_digits n) ''+''"
proof -
  have "48 \<le> (of_char (hd (nat_digits n)) :: nat)"
  proof (induction n rule: nat_digits.induct)
    case (1 n)
    show ?case
      using 1 by (cases "n < 10") (simp_all add: nat_digits.simps [of n])
  qed
  then have "hd (nat_digits n) \<noteq> CHR ''-''" "hd (nat_digits n) \<noteq> CHR ''+''"
    by auto
  then show ?thesis by (cases "nat_digits n") auto
qed

lemma Atoi_Itoa: "in_int64 n \<Longrightarrow> Atoi (Itoa n) = Some n"
  using nat_digits_no_sign [of "nat n"] by (simp add: Atoi_def Itoa_def)

section \<open>Package sort\<close>

text \<open>
  \<open>sort.SliceStable\<close> documents a stable sort by a less function. The model is the insertion sort Go
  runs on a short slice: each element moves left past the elements it is less than. Under the
  interface \<open>stable_order\<close> (a less function given by a key) it is the only stable sort there is, so
  the block merges of a longer slice give the same list.
\<close>

definition insert_back :: "('a \<Rightarrow> 'a \<Rightarrow> bool) \<Rightarrow> 'a \<Rightarrow> 'a list \<Rightarrow> 'a list" where
  "insert_back lt x xs =
     rev (dropWhile (lt x) (rev xs)) @ x # rev (takeWhile (lt x) (rev xs))"

definition slice_stable :: "('a \<Rightarrow> 'a \<Rightarrow> bool) \<Rightarrow> 'a list \<Rightarrow> 'a list" where
  "slice_stable lt xs = foldl (\<lambda>acc x. insert_back lt x acc) [] xs"

lemma mset_insert_back [simp]: "mset (insert_back lt x xs) = add_mset x (mset xs)"
proof -
  have "mset xs = mset (rev (takeWhile (lt x) (rev xs) @ dropWhile (lt x) (rev xs)))"
    by simp
  then show ?thesis
    unfolding insert_back_def by (simp only: rev_append mset_append mset.simps mset_rev) simp
qed

lemma foldl_insert_back_mset:
  "mset (foldl (\<lambda>acc x. insert_back lt x acc) acc xs) = mset acc + mset xs"
  by (induction xs arbitrary: acc) simp_all

lemma mset_slice_stable [sort_facts, simp]: "mset (slice_stable lt xs) = mset xs"
  by (simp add: slice_stable_def foldl_insert_back_mset)

lemma set_slice_stable [sort_facts, simp]: "set (slice_stable lt xs) = set xs"
  by (metis mset_slice_stable set_mset_mset)

lemma length_slice_stable [sort_facts, simp]: "length (slice_stable lt xs) = length xs"
  by (metis mset_slice_stable size_mset)

lemma slice_stable_eq_Nil [simp]: "slice_stable lt xs = [] \<longleftrightarrow> xs = []"
  by (metis mset_slice_stable mset_zero_iff)

lemma distinct_slice_stable [sort_facts, simp]: "distinct (slice_stable lt xs) \<longleftrightarrow> distinct xs"
  by (metis mset_slice_stable mset_eq_imp_distinct_iff)


text \<open>
  The interface: the less function of a call compares a key taken from a linear order. What the call
  returns is then the library's stable sort by that key.
\<close>

locale stable_order =
  fixes lt :: "'a \<Rightarrow> 'a \<Rightarrow> bool" and key :: "'a \<Rightarrow> 'k::linorder"
  assumes lt_key: "lt x y \<longleftrightarrow> key x < key y"
begin

lemma sorted_insert_back:
  assumes "sorted (map key xs)"
  shows "sorted (map key (insert_back lt x xs))"
  using assms
proof (induction xs rule: rev_induct)
  case Nil
  then show ?case by (simp add: insert_back_def)
next
  case (snoc y xs)
  show ?case
  proof (cases "lt x y")
    case False
    with snoc.prems show ?thesis
      by (force simp: insert_back_def sorted_append lt_key)
  next
    case True
    have "sorted (map key (insert_back lt x xs))"
      using snoc by (simp add: sorted_append)
    moreover have "\<forall>z \<in> set (insert_back lt x xs). key z \<le> key y"
      using snoc.prems True
      by (auto simp: sorted_append lt_key simp flip: set_mset_mset)
    ultimately show ?thesis
      using True by (simp add: insert_back_def sorted_append)
  qed
qed

lemma sorted_slice_stable: "sorted (map key (slice_stable lt xs))"
proof -
  have "sorted (map key acc) \<Longrightarrow>
      sorted (map key (foldl (\<lambda>acc x. insert_back lt x acc) acc xs))" for acc
    by (induction xs arbitrary: acc) (simp_all add: sorted_insert_back)
  then show ?thesis by (simp add: slice_stable_def)
qed

lemma filter_insert_back:
  assumes "sorted (map key xs)"
  shows "filter (\<lambda>y. key y = k) (insert_back lt x xs) = filter (\<lambda>y. key y = k) (xs @ [x])"
  using assms
proof (induction xs rule: rev_induct)
  case Nil
  then show ?case by (simp add: insert_back_def)
next
  case (snoc y xs)
  show ?case
  proof (cases "lt x y")
    case False
    then show ?thesis by (simp add: insert_back_def)
  next
    case True
    have "insert_back lt x (xs @ [y]) = insert_back lt x xs @ [y]"
      using True by (simp add: insert_back_def)
    moreover have "filter (\<lambda>y. key y = k) (insert_back lt x xs) = filter (\<lambda>y. key y = k) (xs @ [x])"
      using snoc by (simp add: sorted_append)
    ultimately show ?thesis using True by (auto simp del: lt_key simp: lt_key [of x y])
  qed
qed

lemma stable: "filter (\<lambda>y. key y = k) (slice_stable lt xs) = filter (\<lambda>y. key y = k) xs"
proof -
  have "sorted (map key acc) \<Longrightarrow>
      filter (\<lambda>y. key y = k) (foldl (\<lambda>acc x. insert_back lt x acc) acc xs)
        = filter (\<lambda>y. key y = k) (acc @ xs)" for acc
    by (induction xs arbitrary: acc) (simp_all add: sorted_insert_back filter_insert_back)
  from this [of "[]"] show ?thesis by (simp add: slice_stable_def)
qed

lemma slice_stable_eq: "slice_stable lt xs = sort_key key xs"
proof (rule properties_for_sort_key [symmetric])
  show "filter (\<lambda>x. key k = key x) (slice_stable lt xs) = filter (\<lambda>x. key k = key x) xs" for k
    using stable [of "key k" xs] by (simp only: eq_commute [of "key k"])
qed (simp_all add: sorted_slice_stable)

lemma hd_minimal:
  assumes "xs \<noteq> []" and "x \<in> set xs"
  shows "key (hd (slice_stable lt xs)) \<le> key x"
proof -
  obtain y ys where ys: "slice_stable lt xs = y # ys"
    using assms(1) by (cases "slice_stable lt xs") simp_all
  then have "x \<in> set (y # ys)" using assms(2) by (metis set_slice_stable)
  moreover have "sorted (map key (y # ys))" using sorted_slice_stable [of xs] ys by simp
  ultimately show ?thesis using ys by auto
qed

lemma unique_stable_sort:
  assumes "mset ys = mset xs" and "sorted (map key ys)"
    and "\<And>k. filter (\<lambda>y. key y = k) ys = filter (\<lambda>y. key y = k) xs"
  shows "slice_stable lt xs = ys"
  unfolding slice_stable_eq
proof (rule properties_for_sort_key)
  show "filter (\<lambda>x. key k = key x) ys = filter (\<lambda>x. key k = key x) xs" for k
    using assms(3) [of "key k"] by (simp only: eq_commute [of "key k"])
qed (simp_all add: assms)

lemma stable_cong:
  assumes "\<And>k. filter (\<lambda>y. key y = k) xs = filter (\<lambda>y. key y = k) ys"
  shows "slice_stable lt xs = slice_stable lt ys"
proof (rule unique_stable_sort)
  show "mset (slice_stable lt ys) = mset xs"
  proof (rule multiset_eqI)
    fix x
    have "count (mset xs) x = count (mset (filter (\<lambda>y. key y = key x) xs)) x" by simp
    also have "\<dots> = count (mset (filter (\<lambda>y. key y = key x) ys)) x" by (simp only: assms)
    finally show "count (mset (slice_stable lt ys)) x = count (mset xs) x" by simp
  qed
qed (simp_all add: sorted_slice_stable stable assms)

lemma already_sorted:
  assumes "\<And>x y. x \<in> set xs \<Longrightarrow> y \<in> set xs \<Longrightarrow> \<not> lt x y"
  shows "slice_stable lt xs = xs"
proof (rule unique_stable_sort)
  have "key x = key y" if "x \<in> set xs" "y \<in> set xs" for x y
    using assms that by (metis antisym_conv3 lt_key)
  then have "map key xs = map (\<lambda>_. key (hd xs)) xs" by (cases xs) auto
  then show "sorted (map key xs)" by (metis map_replicate_const sorted_replicate)
qed simp_all

lemma filter_commute: "filter P (slice_stable lt xs) = slice_stable lt (filter P xs)"
  by (simp add: slice_stable_eq filter_sort)

end

end
