(* ===== verification/Specs.thy ===== *)
theory Specs
  imports Prelude
begin

text \<open>
  \<open>internal/provider/specs.go\<close>: what an upstream is (\<open>Spec\<close>), the built-in presets, validation, the
  choice of dialect, and the registry built from a list of specs.
\<close>

section \<open>Specs\<close>

type_synonym Kind = string

definition KindOpenAI :: Kind where "KindOpenAI = ''openai''"
definition KindAnthropic :: Kind where "KindAnthropic = ''anthropic''"
definition KindGoogle :: Kind where "KindGoogle = ''google''"

lemmas kind_defs = KindOpenAI_def KindAnthropic_def KindGoogle_def

record Spec =
  Name :: string
  BaseURL :: string
  SpecKind :: Kind
  Label :: string
  ConsoleURL :: string
  FreeTier :: bool
  PublicModels :: bool

definition empty_spec :: Spec where
  "empty_spec = \<lparr>Name = [], BaseURL = [], SpecKind = [], Label = [], ConsoleURL = [],
     FreeTier = False, PublicModels = False\<rparr>"

definition preset :: "string \<Rightarrow> Kind \<Rightarrow> string \<Rightarrow> string \<Rightarrow> string \<Rightarrow> bool \<Rightarrow> bool \<Rightarrow> Spec" where
  "preset n k url lbl console free public =
     \<lparr>Name = n, BaseURL = url, SpecKind = k, Label = lbl, ConsoleURL = console, FreeTier = free,
      PublicModels = public\<rparr>"

definition presets :: "Spec list" where
  "presets =
     [preset ''openai'' KindOpenAI ''https://api.openai.com/v1''
        ''OpenAI'' ''https://platform.openai.com/api-keys'' False False,
      preset ''anthropic'' KindAnthropic ''https://api.anthropic.com/v1''
        ''Anthropic'' ''https://console.anthropic.com/settings/keys'' False False,
      preset ''google'' KindGoogle ''https://generativelanguage.googleapis.com/v1beta''
        ''Google Gemini'' ''https://aistudio.google.com/apikey'' True False,
      preset ''openrouter'' KindOpenAI ''https://openrouter.ai/api/v1''
        ''OpenRouter'' ''https://openrouter.ai/keys'' True True,
      preset ''groq'' KindOpenAI ''https://api.groq.com/openai/v1''
        ''Groq'' ''https://console.groq.com/keys'' True False,
      preset ''sambanova'' KindOpenAI ''https://api.sambanova.ai/v1''
        ''SambaNova'' ''https://cloud.sambanova.ai/apis'' True True,
      preset ''mistral'' KindOpenAI ''https://api.mistral.ai/v1''
        ''Mistral'' ''https://console.mistral.ai/api-keys'' True False,
      preset ''nvidia'' KindOpenAI ''https://integrate.api.nvidia.com/v1''
        ''NVIDIA NIM'' ''https://build.nvidia.com'' True True,
      preset ''huggingface'' KindOpenAI ''https://router.huggingface.co/v1''
        ''Hugging Face'' ''https://huggingface.co/settings/tokens'' True True,
      preset ''gmicloud'' KindOpenAI ''https://api.gmi-serving.com/v1''
        ''GMI Cloud'' ''https://console.gmicloud.ai'' True False,
      preset ''xai'' KindOpenAI ''https://api.x.ai/v1''
        ''xAI Grok'' ''https://console.x.ai'' False False,
      preset ''deepseek'' KindOpenAI ''https://api.deepseek.com/v1''
        ''DeepSeek'' ''https://platform.deepseek.com/api_keys'' False False,
      preset ''together'' KindOpenAI ''https://api.together.xyz/v1''
        ''Together AI'' ''https://api.together.ai/settings/api-keys'' False False,
      preset ''cerebras'' KindOpenAI ''https://api.cerebras.ai/v1''
        ''Cerebras'' ''https://cloud.cerebras.ai'' True False,
      preset ''xkiro'' KindOpenAI ''https://api.xkiro.com/v1''
        ''xKiro'' ''https://xkiro.com'' False True,
      preset ''teamorouter'' KindOpenAI ''https://api.teamorouter.com/v1''
        ''TeamoRouter'' ''https://teamorouter.com'' False False,
      preset ''bai'' KindOpenAI ''https://api.b.ai/v1''
        ''B.AI'' ''https://chat.b.ai'' False False]"

definition Preset :: "string \<Rightarrow> Spec option" where
  "Preset name = find (\<lambda>s. Name s = name) presets"

datatype SpecError =
    SpecMissingName
  | SpecNamePunctuation string
  | SpecNeedsHTTP string string
  | SpecUnknownKind string Kind
  | SpecDefinedTwice string

definition http_url :: "string \<Rightarrow> bool" where
  "http_url u \<longleftrightarrow> HasPrefix u ''http://'' \<or> HasPrefix u ''https://''"

definition ValidateSpec :: "Spec \<Rightarrow> SpecError option" where
  "ValidateSpec s =
     (if TrimSpace (Name s) = [] then Some SpecMissingName
      else if ContainsAny (Name s) '' /?&#'' then Some (SpecNamePunctuation (Name s))
      else if \<not> http_url (BaseURL s) then Some (SpecNeedsHTTP (Name s) (BaseURL s))
      else if SpecKind s \<notin> {KindOpenAI, KindAnthropic, KindGoogle} then Some (SpecUnknownKind (Name s) (SpecKind s))
      else None)"

definition DisplayName :: "Spec \<Rightarrow> string" where
  "DisplayName s = (if Label s \<noteq> [] then Label s else Name s)"

section \<open>Clients and the registry\<close>

text \<open>The three implementations of the interface \<open>Client\<close>, with their base URL and provider name.\<close>

datatype Client =
    AnthropicClient string string
  | GoogleClient string string
  | OpenAIClient string string

definition newClient :: "Spec \<Rightarrow> Client" where
  "newClient s =
     (let base = TrimRight (BaseURL s) ''/'' in
      if SpecKind s = KindAnthropic then AnthropicClient base (Name s)
      else if SpecKind s = KindGoogle then GoogleClient base (Name s)
      else OpenAIClient base (Name s))"

fun ClientName :: "Client \<Rightarrow> string" where
  "ClientName (AnthropicClient base n) = n"
| "ClientName (GoogleClient base n) = n"
| "ClientName (OpenAIClient base n) = n"

type_synonym Registry = "(string, Client) gomap"

fun registry_of :: "Registry \<Rightarrow> Spec list \<Rightarrow> SpecError + Registry" where
  "registry_of reg [] = Inr reg"
| "registry_of reg (s # ss) =
     (case ValidateSpec s of
        Some e \<Rightarrow> Inl e
      | None \<Rightarrow>
          if gm_has reg (Name s) then Inl (SpecDefinedTwice (Name s))
          else registry_of (gm_set (Name s) (newClient s) reg) ss)"

definition NewRegistry :: "Spec list \<Rightarrow> SpecError + Registry" where
  "NewRegistry specs = registry_of [] specs"

section \<open>What the registry promises\<close>

lemma ClientName_newClient [simp]: "ClientName (newClient s) = Name s"
  by (simp add: newClient_def Let_def)

lemma registry_of_valid:
  "registry_of reg specs = Inr reg' \<Longrightarrow>
    distinct (map Name specs) \<and> (\<forall>s \<in> set specs. ValidateSpec s = None \<and> \<not> gm_has reg (Name s))"
proof (induction specs arbitrary: reg)
  case (Cons s ss)
  from Cons.prems have v: "ValidateSpec s = None" and new: "\<not> gm_has reg (Name s)"
    and r: "registry_of (gm_set (Name s) (newClient s) reg) ss = Inr reg'"
    by (auto split: option.splits if_splits)
  from Cons.IH [OF r] have d: "distinct (map Name ss)"
    and "\<forall>t \<in> set ss. ValidateSpec t = None \<and> Name t \<noteq> Name s \<and> \<not> gm_has reg (Name t)"
    by simp_all
  then have "Name s \<notin> Name ` set ss" by force
  with Cons.IH [OF r] v new show ?case by simp
qed simp

lemma registry_of_lookup:
  "registry_of reg specs = Inr reg' \<Longrightarrow>
    map_of reg' n = (case find (\<lambda>s. Name s = n) specs of Some s \<Rightarrow> Some (newClient s) | None \<Rightarrow> map_of reg n)"
proof (induction specs arbitrary: reg)
  case (Cons s ss)
  from Cons.prems have r: "registry_of (gm_set (Name s) (newClient s) reg) ss = Inr reg'"
    by (auto split: option.splits if_splits)
  have "find (\<lambda>t. Name t = Name s) ss = None"
    using registry_of_valid [OF Cons.prems] unfolding find_None_iff by (metis distinct.simps(2) image_eqI list.map(2) list.set_map)
  with Cons.IH [OF r] show ?case by (auto split: option.splits)
qed simp

lemma registry_of_complete:
  "\<forall>s \<in> set specs. ValidateSpec s = None \<and> \<not> gm_has reg (Name s) \<Longrightarrow> distinct (map Name specs) \<Longrightarrow>
    \<exists>reg'. registry_of reg specs = Inr reg'"
proof (induction specs arbitrary: reg)
  case (Cons s ss)
  then have "\<forall>t \<in> set ss. ValidateSpec t = None \<and> \<not> gm_has (gm_set (Name s) (newClient s) reg) (Name t)"
    by (auto simp: image_iff)
  with Cons show ?case by auto
qed simp

text \<open>
  The registry is built exactly when every spec is valid and no name occurs twice; then it has one
  client per spec, speaking the spec's dialect under the spec's name, and none besides.
\<close>

theorem NewRegistry_correct:
  "(\<exists>reg. NewRegistry specs = Inr reg) = (list_all (\<lambda>s. ValidateSpec s = None) specs \<and> distinct (map Name specs)) \<and>
   (case NewRegistry specs of
      Inl _ \<Rightarrow> True
    | Inr reg \<Rightarrow> \<forall>n. map_of reg n = map_option newClient (find (\<lambda>s. Name s = n) specs))"
proof (cases "NewRegistry specs")
  case (Inl e)
  then show ?thesis
    using registry_of_complete [of specs "[]"] by (auto simp: NewRegistry_def gm_has_def list_all_iff)
next
  case (Inr reg)
  then have r: "registry_of [] specs = Inr reg" by (simp add: NewRegistry_def)
  with Inr registry_of_valid [OF r] show ?thesis
    by (auto simp: list_all_iff registry_of_lookup [OF r] split: option.splits)
qed

lemma presets_valid: "list_all (\<lambda>s. ValidateSpec s = None) presets \<and> distinct (map Name presets)"
  by code_simp

end
