(* ===== verification/Float64.thy ===== *)
theory Float64
  imports Complex_Main "HOL-Library.Log_Nat" Prelude
begin

text \<open>
  Go's \<open>float64\<close>. Prices, scores and rates are binary64 values, so each operation of the code is the
  exact rational operation followed by rounding to the nearest binary64 value, ties to even. The
  type is \<open>rat\<close> and \<open>fl\<close> is the rounding: 53 bits of mantissa, exponents from -1074 up. Values are
  finite: overflow to infinity and NaN are outside the model (no price or latency of the program
  comes near them), and expressions are rounded after every operation, as on amd64, where the
  compiler does not fuse a multiplication with an addition.
\<close>

type_synonym float64 = rat

section \<open>Rounding to an integer, ties to even\<close>

definition round_even :: "rat \<Rightarrow> int" where
  "round_even x =
     (let n = \<lfloor>x\<rfloor>; r = x - of_int n in
      if r < 1/2 then n else if 1/2 < r then n + 1 else if even n then n else n + 1)"

lemma round_even_of_int [simp]: "round_even (of_int n) = n"
  by (simp add: round_even_def)

lemma round_even_ge_floor: "\<lfloor>x\<rfloor> \<le> round_even x"
  by (simp add: round_even_def Let_def)

lemma round_even_le_Suc: "round_even x \<le> \<lfloor>x\<rfloor> + 1"
  by (simp add: round_even_def Let_def)

lemma round_even_mono: "x \<le> y \<Longrightarrow> round_even x \<le> round_even y"
proof -
  assume le: "x \<le> y"
  then have f: "\<lfloor>x\<rfloor> \<le> \<lfloor>y\<rfloor>" by (rule floor_mono)
  show ?thesis
  proof (cases "\<lfloor>x\<rfloor> = \<lfloor>y\<rfloor>")
    case True
    with le show ?thesis by (simp add: round_even_def Let_def)
  next
    case False
    with f have "\<lfloor>x\<rfloor> + 1 \<le> \<lfloor>y\<rfloor>" by simp
    with round_even_le_Suc [of x] round_even_ge_floor [of y] show ?thesis by linarith
  qed
qed

lemma round_even_bounds: "of_int a \<le> x \<Longrightarrow> x \<le> of_int b \<Longrightarrow> a \<le> round_even x \<and> round_even x \<le> b"
  using round_even_mono [of "of_int a" x] round_even_mono [of x "of_int b"] by simp

section \<open>The exponent of a positive rational\<close>

definition floor_log2 :: "rat \<Rightarrow> int" where
  "floor_log2 x =
     (let (n, d) = quotient_of x; g = bitlen n - bitlen d
      in if 2 powi g \<le> x then g else g - 1)"

lemma pow2_mono: "(i :: int) \<le> j \<Longrightarrow> (2 :: rat) powi i \<le> 2 powi j"
  by (rule power_int_increasing) simp_all

lemma pow2_less_cancel: "(2 :: rat) powi i < 2 powi j \<Longrightarrow> i < j"
  using pow2_mono [of j i] by (simp add: not_le [symmetric]) (meson leI not_le)

lemma pow2_pos [simp]: "0 < (2 :: rat) powi i"
  by (simp add: zero_less_power_int)

lemma bitlen_rat_bounds:
  assumes "0 < n"
  shows "(2 :: rat) powi (bitlen n - 1) \<le> of_int n" and "(of_int n :: rat) < 2 powi bitlen n"
proof -
  from assms have b: "0 < bitlen n" by (simp add: bitlen_def floorlog_def add_pos_nonneg)
  from bitlen_bounds [OF assms] have "2 ^ nat (bitlen n - 1) \<le> n" "n < 2 ^ nat (bitlen n)" by auto
  then have "(of_int (2 ^ nat (bitlen n - 1)) :: rat) \<le> of_int n"
    and "(of_int n :: rat) < of_int (2 ^ nat (bitlen n))"
    by (simp_all only: of_int_le_iff of_int_less_iff)
  with b show "(2 :: rat) powi (bitlen n - 1) \<le> of_int n" "(of_int n :: rat) < 2 powi bitlen n"
    by (simp_all add: power_int_def)
qed

lemma floor_log2_bounds:
  assumes "0 < x"
  shows "2 powi floor_log2 x \<le> x" and "x < 2 powi (floor_log2 x + 1)"
proof -
  obtain n d where q: "quotient_of x = (n, d)" by fastforce
  then have d: "0 < d" and x: "x = of_int n / of_int d"
    by (auto dest: quotient_of_denom_pos quotient_of_div)
  with assms have n: "0 < n" by (simp add: zero_less_divide_iff)
  let ?g = "bitlen n - bitlen d"
  have lo: "2 powi (?g - 1) \<le> x"
  proof -
    have "(2 :: rat) powi (?g - 1) = 2 powi (bitlen n - 1) / 2 powi bitlen d"
      by (simp add: power_int_diff power_int_add algebra_simps)
    also have "\<dots> \<le> of_int n / of_int d"
      using bitlen_rat_bounds [OF n] bitlen_rat_bounds [OF d] d n
      by (intro frac_le) auto
    finally show ?thesis by (simp add: x)
  qed
  have hi: "x < 2 powi (?g + 1)"
  proof -
    have "of_int n / of_int d < (2 :: rat) powi bitlen n / 2 powi (bitlen d - 1)"
      using bitlen_rat_bounds [OF n] bitlen_rat_bounds [OF d] d n
      by (intro frac_less) auto
    also have "\<dots> = 2 powi (?g + 1)" by (simp add: power_int_diff power_int_add algebra_simps)
    finally show ?thesis by (simp add: x)
  qed
  show "2 powi floor_log2 x \<le> x" "x < 2 powi (floor_log2 x + 1)"
    using lo hi by (auto simp: floor_log2_def q Let_def)
qed

lemma floor_log2_unique:
  assumes "0 < x" and "2 powi k \<le> x" and "x < 2 powi (k + 1)"
  shows "floor_log2 x = k"
proof -
  have "(2 :: rat) powi k < 2 powi (floor_log2 x + 1)"
    using assms(2) floor_log2_bounds(2) [OF assms(1)] by (rule order.strict_trans1)
  moreover have "(2 :: rat) powi floor_log2 x < 2 powi (k + 1)"
    using floor_log2_bounds(1) [OF assms(1)] assms(3) by (rule order.strict_trans1)
  ultimately show ?thesis by (auto dest!: pow2_less_cancel)
qed

lemma floor_log2_mono: "0 < x \<Longrightarrow> x \<le> y \<Longrightarrow> floor_log2 x \<le> floor_log2 y"
proof -
  assume "0 < x" "x \<le> y"
  then have "(2 :: rat) powi floor_log2 x < 2 powi (floor_log2 y + 1)"
    using floor_log2_bounds(1) [of x] floor_log2_bounds(2) [of y] by linarith
  then show ?thesis by (auto dest: pow2_less_cancel)
qed


section \<open>Rounding to binary64\<close>

definition ulp_exp :: "rat \<Rightarrow> int" where
  "ulp_exp x = max (floor_log2 \<bar>x\<bar> - 52) (-1074)"

definition fl :: "rat \<Rightarrow> float64" where
  "fl x = (if x = 0 then 0
           else let u = 2 powi ulp_exp x in sgn x * of_int (round_even (\<bar>x\<bar> / u)) * u)"

text \<open>The binary64 values (with no bound above).\<close>

definition is_float64 :: "rat \<Rightarrow> bool" where
  "is_float64 x \<longleftrightarrow> (\<exists>m e :: int. \<bar>m\<bar> \<le> 2 ^ 53 \<and> -1074 \<le> e \<and> x = of_int m * 2 powi e)"

lemma fl_0 [simp]: "fl 0 = 0"
  by (simp add: fl_def)

lemma fl_minus: "fl (- x) = - fl x"
  by (simp add: fl_def ulp_exp_def Let_def)

lemma fl_pos_def: "0 < x \<Longrightarrow> fl x = of_int (round_even (x / 2 powi ulp_exp x)) * 2 powi ulp_exp x"
  by (simp add: fl_def Let_def)

lemma ulp_exp_mono: "0 < x \<Longrightarrow> x \<le> y \<Longrightarrow> ulp_exp x \<le> ulp_exp y"
  using floor_log2_mono [of x y] by (simp add: ulp_exp_def)

text \<open>The mantissa a positive number is rounded to has at most 53 bits, and exactly 53 above the subnormals.\<close>

lemma mantissa_le:
  assumes "0 < x"
  shows "0 \<le> round_even (x / 2 powi ulp_exp x)" and "round_even (x / 2 powi ulp_exp x) \<le> 2 ^ 53"
proof -
  have "x < 2 powi (floor_log2 x + 1)" using assms by (rule floor_log2_bounds)
  also have "\<dots> \<le> 2 powi (ulp_exp x + 53)"
    using assms by (intro pow2_mono) (simp add: ulp_exp_def)
  also have "\<dots> = of_int (2 ^ 53) * 2 powi ulp_exp x"
    by (simp add: power_int_add)
  finally have "x / 2 powi ulp_exp x \<le> of_int (2 ^ 53)"
    by (simp add: divide_le_eq)
  with assms show "0 \<le> round_even (x / 2 powi ulp_exp x)" "round_even (x / 2 powi ulp_exp x) \<le> 2 ^ 53"
    using round_even_bounds [of 0 "x / 2 powi ulp_exp x" "2 ^ 53"] by simp_all
qed

lemma mantissa_ge:
  assumes "0 < x" and "-1074 < ulp_exp x"
  shows "2 ^ 52 \<le> round_even (x / 2 powi ulp_exp x)"
proof -
  from assms have e: "ulp_exp x = floor_log2 x - 52" by (simp add: ulp_exp_def max_def split: if_splits)
  have "of_int (2 ^ 52) * (2 :: rat) powi ulp_exp x = 2 powi floor_log2 x"
    by (simp add: e power_int_diff)
  also have "\<dots> \<le> x" using assms(1) by (rule floor_log2_bounds)
  finally have "of_int (2 ^ 52) \<le> x / 2 powi ulp_exp x" by (simp add: le_divide_eq)
  from round_even_mono [OF this] show ?thesis by (simp only: round_even_of_int)
qed

lemma fl_nonneg: "0 \<le> x \<Longrightarrow> 0 \<le> fl x"
  using mantissa_le [of x] by (cases "x = 0") (auto simp: fl_pos_def)

lemma fl_mono_pos:
  assumes "0 < x" and "x \<le> y"
  shows "fl x \<le> fl y"
proof (cases "ulp_exp x = ulp_exp y")
  case True
  with assms have "round_even (x / 2 powi ulp_exp x) \<le> round_even (y / 2 powi ulp_exp y)"
    by (intro round_even_mono) (simp add: divide_right_mono)
  with True assms show ?thesis by (simp add: fl_pos_def mult_right_mono)
next
  case False
  with ulp_exp_mono [OF assms] have less: "ulp_exp x < ulp_exp y" by simp
  from assms have y: "0 < y" by (rule less_le_trans)
  from less have big: "-1074 < ulp_exp y" by (simp add: ulp_exp_def max_def split: if_splits)
  have "of_int (round_even (x / 2 powi ulp_exp x)) \<le> (2 ^ 53 :: rat)"
    using of_int_le_iff [THEN iffD2, OF mantissa_le(2) [OF assms(1)]] by (simp only: of_int_power of_int_numeral)
  then have "fl x \<le> 2 ^ 53 * 2 powi ulp_exp x"
    using assms by (simp add: fl_pos_def mult_right_mono)
  also have "\<dots> = 2 ^ 52 * 2 powi (ulp_exp x + 1)" by (simp add: power_int_add)
  also have "\<dots> \<le> 2 ^ 52 * 2 powi ulp_exp y"
    using less by (intro mult_left_mono pow2_mono) simp_all
  also have "\<dots> \<le> fl y"
  proof -
    have "(2 ^ 52 :: rat) \<le> of_int (round_even (y / 2 powi ulp_exp y))"
      using of_int_le_iff [THEN iffD2, OF mantissa_ge [OF y big]] by (simp only: of_int_power of_int_numeral)
    then show ?thesis using assms by (simp add: fl_pos_def mult_right_mono)
  qed
  finally show ?thesis .
qed

lemma fl_mono: "x \<le> y \<Longrightarrow> fl x \<le> fl y"
proof -
  assume le: "x \<le> y"
  consider "0 < x" | "y < 0" | "x \<le> 0" "0 \<le> y" using le by linarith
  then show ?thesis
  proof cases
    case 1
    with le show ?thesis by (simp add: fl_mono_pos)
  next
    case 2
    with le have "fl (- y) \<le> fl (- x)" by (intro fl_mono_pos) simp_all
    then show ?thesis by (simp add: fl_minus)
  next
    case 3
    then show ?thesis using fl_nonneg [of "- x"] fl_nonneg [of y] by (simp add: fl_minus)
  qed
qed

text \<open>A binary64 value is its own rounding.\<close>

lemma fl_exact_pos:
  assumes "0 < m" and "m < 2 ^ 53" and "-1074 \<le> e"
  shows "fl (of_int m * 2 powi e) = of_int m * 2 powi e"
proof -
  let ?x = "of_int m * 2 powi e :: rat"
  have pos: "0 < ?x" using assms(1) by simp
  have "?x < of_int (2 ^ 53) * 2 powi e"
    using assms(2) by (intro mult_strict_right_mono) (simp_all only: of_int_less_iff pow2_pos)
  also have "\<dots> = 2 powi (e + 53)" by (simp add: power_int_add)
  finally have "(2 :: rat) powi floor_log2 ?x < 2 powi (e + 53)"
    using floor_log2_bounds(1) [OF pos] by linarith
  then have le: "ulp_exp ?x \<le> e"
    using pos assms(3) by (auto simp: ulp_exp_def dest!: pow2_less_cancel)
  define u where "u = ulp_exp ?x"
  define k where "k = nat (e - u)"
  have "e = u + int k" using le by (simp add: k_def u_def)
  then have "(2 :: rat) powi e = 2 powi u * 2 ^ k" by (simp add: power_int_add)
  then have "?x / 2 powi u = of_int (m * 2 ^ k)" by simp
  then have "fl ?x = of_int (m * 2 ^ k) * 2 powi u"
    using fl_pos_def [OF pos] by (simp only: u_def [symmetric] round_even_of_int)
  also have "\<dots> = ?x" using \<open>2 powi e = 2 powi u * 2 ^ k\<close> by simp
  finally show ?thesis .
qed

lemma fl_exact: "is_float64 x \<Longrightarrow> fl x = x"
proof -
  have pos: "fl x = x" if "\<bar>m\<bar> \<le> 2 ^ 53" "-1074 \<le> e" "x = of_int m * 2 powi e" "0 < m" for x and m e :: int
  proof (cases "m < 2 ^ 53")
    case True
    with that show ?thesis by (simp add: fl_exact_pos)
  next
    case False
    with that have m: "m = 2 ^ 53" by simp
    have "x = of_int (2 ^ 52) * 2 powi (e + 1)" using that m by (simp add: power_int_add)
    with that(2) show ?thesis using fl_exact_pos [of "2 ^ 52" "e + 1"] by simp
  qed
  assume "is_float64 x"
  then obtain m e :: int where x: "\<bar>m\<bar> \<le> 2 ^ 53" "-1074 \<le> e" "x = of_int m * 2 powi e"
    unfolding is_float64_def by blast
  consider "0 < m" | "m = 0" | "m < 0" by linarith
  then show "fl x = x"
  proof cases
    case 1
    with x show ?thesis by (rule pos)
  next
    case 2
    with x show ?thesis by simp
  next
    case 3
    then have "fl (- x) = - x" using x by (intro pos [of "- m" e]) simp_all
    then show ?thesis by (simp add: fl_minus)
  qed
qed

lemma is_float64_fl [simp, intro]: "is_float64 (fl x)"
proof -
  have pos: "is_float64 (fl x)" if "0 < x" for x
    unfolding is_float64_def fl_pos_def [OF that]
    using mantissa_le [OF that] by (intro exI conjI refl) (auto simp: ulp_exp_def)
  have neg: "is_float64 (- x)" if "is_float64 x" for x
  proof -
    from that obtain m e :: int where "\<bar>- m\<bar> \<le> 2 ^ 53" "-1074 \<le> e" "- x = of_int (- m) * 2 powi e"
      unfolding is_float64_def by auto
    then show ?thesis unfolding is_float64_def by blast
  qed
  consider "0 < x" | "x = 0" | "x < 0" by linarith
  then show ?thesis
  proof cases
    case 1
    then show ?thesis by (rule pos)
  next
    case 2
    then show ?thesis by (auto simp: is_float64_def intro!: exI [of _ 0])
  next
    case 3
    then show ?thesis using neg [OF pos [of "- x"]] by (simp add: fl_minus)
  qed
qed

lemma fl_idem [simp]: "fl (fl x) = fl x"
  by (simp add: fl_exact)

lemma is_float64_of_int: "\<bar>n\<bar> \<le> 2 ^ 53 \<Longrightarrow> is_float64 (of_int n)"
  unfolding is_float64_def by (intro exI [of _ n] exI [of _ 0]) simp

lemma is_float64_dyadic: "\<bar>m\<bar> \<le> 2 ^ 53 \<Longrightarrow> k \<le> 1074 \<Longrightarrow> is_float64 (of_int m / 2 ^ k)"
  unfolding is_float64_def
  by (intro exI [of _ m] exI [of _ "- int k"]) (simp add: power_int_minus divide_inverse)

lemma is_float64_numeral [simp]: "is_float64 0" "is_float64 1"
  using is_float64_of_int [of 0] is_float64_of_int [of 1] by simp_all

lemma fl_1 [simp]: "fl 1 = 1"
  by (simp add: fl_exact)

text \<open>Small integers, halves, quarters and eighths are exact, which is what the witnesses compute with.\<close>

lemma fl_dyadic: "\<bar>m\<bar> \<le> 2 ^ 53 \<Longrightarrow> k \<le> 1074 \<Longrightarrow> fl (of_int m / 2 ^ k) = of_int m / 2 ^ k"
  by (rule fl_exact) (rule is_float64_dyadic)

lemma fl_small:
  assumes "(numeral n :: int) \<le> 4294967296"
  shows "fl (numeral n) = numeral n" "fl (numeral n / 2) = numeral n / 2"
    "fl (numeral n / 4) = numeral n / 4" "fl (numeral n / 8) = numeral n / 8"
proof -
  have "\<bar>numeral n\<bar> \<le> (2 ^ 53 :: int)" by (rule order.trans [of _ 4294967296]) (use assms in simp_all)
  from fl_dyadic [OF this, of 0] fl_dyadic [OF this, of 1] fl_dyadic [OF this, of 2] fl_dyadic [OF this, of 3]
  show "fl (numeral n) = numeral n" "fl (numeral n / 2) = numeral n / 2"
    "fl (numeral n / 4) = numeral n / 4" "fl (numeral n / 8) = numeral n / 8" by simp_all
qed

lemma fl_unit_fractions: "fl (1 / 2) = 1 / 2" "fl (1 / 4) = 1 / 4" "fl (1 / 8) = 1 / 8"
  using fl_dyadic [of 1 1] fl_dyadic [of 1 2] fl_dyadic [of 1 3] by simp_all

lemmas float_eval = fl_small fl_unit_fractions

section \<open>The operations\<close>

definition fadd :: "float64 \<Rightarrow> float64 \<Rightarrow> float64" where "fadd a b = fl (a + b)"
definition fsub :: "float64 \<Rightarrow> float64 \<Rightarrow> float64" where "fsub a b = fl (a - b)"
definition fmul :: "float64 \<Rightarrow> float64 \<Rightarrow> float64" where "fmul a b = fl (a * b)"
definition fdiv :: "float64 \<Rightarrow> float64 \<Rightarrow> float64" where "fdiv a b = fl (a / b)"

text \<open>The conversion \<open>float64(n)\<close> of an integer, and an untyped decimal constant of the source.\<close>

definition of_int64 :: "int \<Rightarrow> float64" where "of_int64 n = fl (of_int n)"

lemmas float_ops = fadd_def fsub_def fmul_def fdiv_def of_int64_def

lemma fadd_ge_left: "is_float64 a \<Longrightarrow> 0 \<le> b \<Longrightarrow> a \<le> fadd a b"
  using fl_mono [of a "a + b"] by (simp add: fadd_def fl_exact)

lemma fadd_mono: "a \<le> c \<Longrightarrow> b \<le> d \<Longrightarrow> fadd a b \<le> fadd c d"
  by (simp add: fadd_def fl_mono add_mono)

lemma fl_le_iff_float: "is_float64 b \<Longrightarrow> a \<le> b \<Longrightarrow> fl a \<le> b"
  using fl_mono [of a b] by (simp add: fl_exact)

lemma fl_ge_float: "is_float64 a \<Longrightarrow> a \<le> b \<Longrightarrow> a \<le> fl b"
  using fl_mono [of a b] by (simp add: fl_exact)

lemma fmul_nonneg: "0 \<le> a \<Longrightarrow> 0 \<le> b \<Longrightarrow> 0 \<le> fmul a b"
  by (simp add: fmul_def fl_nonneg)

lemma fadd_nonneg: "0 \<le> a \<Longrightarrow> 0 \<le> b \<Longrightarrow> 0 \<le> fadd a b"
  by (simp add: fadd_def fl_nonneg)

lemma is_float64_ops [simp]:
  "is_float64 (fadd a b)" "is_float64 (fsub a b)" "is_float64 (fmul a b)" "is_float64 (fdiv a b)"
  "is_float64 (of_int64 n)"
  by (simp_all add: float_ops)

end
