(* ===== verification/Profiles.thy ===== *)
theory Profiles
  imports Float64
begin

text \<open>
  The data routing ranks over (\<open>internal/routing/smart.go\<close>, \<open>internal/routing/scoring.go\<close>): a model's
  profile, the reliability measured for it, its price and its score along one objective. Task types
  and objectives are Go strings, because tags and settings read from the database or the environment
  are converted to them unchecked.
\<close>

section \<open>Tasks and objectives\<close>

type_synonym TaskType = string
type_synonym Objective = string

definition TaskCodeGeneration :: TaskType where "TaskCodeGeneration = ''code_generation''"
definition TaskConversation :: TaskType where "TaskConversation = ''conversation''"
definition TaskAnalysis :: TaskType where "TaskAnalysis = ''analysis''"
definition TaskCreative :: TaskType where "TaskCreative = ''creative''"
definition TaskUnknown :: TaskType where "TaskUnknown = ''unknown''"

lemmas task_defs =
  TaskCodeGeneration_def TaskConversation_def TaskAnalysis_def TaskCreative_def TaskUnknown_def

definition ObjectiveBalanced :: Objective where "ObjectiveBalanced = ''balanced''"
definition ObjectiveLatency :: Objective where "ObjectiveLatency = ''latency''"
definition ObjectiveCost :: Objective where "ObjectiveCost = ''cost''"

lemmas objective_defs = ObjectiveBalanced_def ObjectiveLatency_def ObjectiveCost_def

section \<open>Reliability\<close>

record Reliability =
  Attempts :: int
  Successes :: int
  MedianLatencyMs :: int

definition no_reliability :: Reliability where
  "no_reliability = \<lparr>Attempts = 0, Successes = 0, MedianLatencyMs = 0\<rparr>"

definition SuccessRate :: "Reliability \<Rightarrow> float64" where
  "SuccessRate r =
     (if Attempts r = 0 then 0 else fdiv (of_int64 (Successes r)) (of_int64 (Attempts r)))"

definition minSamples :: int where "minSamples = 8"

definition Confidence :: "Reliability \<Rightarrow> float64" where
  "Confidence r =
     (if Attempts r \<ge> minSamples then 1 else fdiv (of_int64 (Attempts r)) (of_int64 minSamples))"

definition Penalty :: "Reliability \<Rightarrow> float64" where
  "Penalty r = (if Attempts r = 0 then 0 else fmul (fsub 1 (SuccessRate r)) (Confidence r))"

definition sane :: "Reliability \<Rightarrow> bool" where
  "sane r \<longleftrightarrow> 0 \<le> Successes r \<and> Successes r \<le> Attempts r"

lemma of_int64_mono: "a \<le> b \<Longrightarrow> of_int64 a \<le> of_int64 b"
  by (simp add: of_int64_def fl_mono)

lemma of_int64_0 [simp]: "of_int64 0 = 0"
  by (simp add: of_int64_def)

lemma of_int64_1 [simp]: "of_int64 1 = 1"
  by (simp add: of_int64_def)

lemma of_int64_pos: "0 < n \<Longrightarrow> 0 < of_int64 n"
  using of_int64_mono [of 1 n] by simp

lemma fdiv_unit: "0 \<le> a \<Longrightarrow> a \<le> b \<Longrightarrow> 0 < b \<Longrightarrow> 0 \<le> fdiv a b \<and> fdiv a b \<le> 1"
  using fl_mono [of "a / b" 1] by (simp add: fdiv_def fl_nonneg)

lemma SuccessRate_bounds: "sane r \<Longrightarrow> 0 \<le> SuccessRate r \<and> SuccessRate r \<le> 1"
  using fdiv_unit [of "of_int64 (Successes r)" "of_int64 (Attempts r)"]
    of_int64_mono [of 0 "Successes r"] of_int64_mono [of "Successes r" "Attempts r"]
    of_int64_pos [of "Attempts r"]
  by (auto simp: SuccessRate_def sane_def)

lemma Confidence_bounds: "0 \<le> Attempts r \<Longrightarrow> 0 \<le> Confidence r \<and> Confidence r \<le> 1"
  using fdiv_unit [of "of_int64 (Attempts r)" "of_int64 minSamples"]
    of_int64_mono [of 0 "Attempts r"] of_int64_mono [of "Attempts r" minSamples] of_int64_pos [of minSamples]
  by (auto simp: Confidence_def minSamples_def)

lemma fsub_unit: "0 \<le> a \<Longrightarrow> a \<le> 1 \<Longrightarrow> 0 \<le> fsub 1 a \<and> fsub 1 a \<le> 1"
  using fl_mono [of "1 - a" 1] by (simp add: fsub_def fl_nonneg)

lemma fmul_unit: "0 \<le> a \<Longrightarrow> a \<le> 1 \<Longrightarrow> 0 \<le> b \<Longrightarrow> b \<le> 1 \<Longrightarrow> 0 \<le> fmul a b \<and> fmul a b \<le> 1"
  using fl_mono [of "a * b" 1] by (simp add: fmul_def fl_nonneg mult_le_one)

lemma Penalty_nonneg: "sane r \<Longrightarrow> 0 \<le> Penalty r"
  and Penalty_le_1: "sane r \<Longrightarrow> Penalty r \<le> 1"
  using fmul_unit [of "fsub 1 (SuccessRate r)" "Confidence r"] fsub_unit [of "SuccessRate r"]
    SuccessRate_bounds [of r] Confidence_bounds [of r]
  by (auto simp: Penalty_def sane_def)

lemma SuccessRate_all: "sane r \<Longrightarrow> Successes r = Attempts r \<Longrightarrow> Attempts r \<noteq> 0 \<Longrightarrow> SuccessRate r = 1"
  using of_int64_pos [of "Attempts r"] by (simp add: SuccessRate_def sane_def fdiv_def)

lemma Penalty_all_succeed: "sane r \<Longrightarrow> Successes r = Attempts r \<Longrightarrow> Penalty r = 0"
  using SuccessRate_all [of r] by (auto simp: Penalty_def fsub_def fmul_def)

lemma Penalty_all_fail: "minSamples \<le> Attempts r \<Longrightarrow> Successes r = 0 \<Longrightarrow> Penalty r = 1"
  by (simp add: Penalty_def SuccessRate_def Confidence_def fsub_def fmul_def fdiv_def minSamples_def)

lemma Penalty_antimono:
  assumes "sane r" and "sane r'" and "Attempts r = Attempts r'" and "Successes r \<le> Successes r'"
  shows "Penalty r' \<le> Penalty r"
proof (cases "Attempts r = 0")
  case False
  have "SuccessRate r \<le> SuccessRate r'"
    using assms False of_int64_pos [of "Attempts r"]
    by (auto simp: SuccessRate_def fdiv_def sane_def intro!: fl_mono divide_right_mono of_int64_mono)
  then have "fsub 1 (SuccessRate r') \<le> fsub 1 (SuccessRate r)"
    by (simp add: fsub_def fl_mono)
  moreover have "Confidence r' = Confidence r" "0 \<le> Confidence r"
    using assms Confidence_bounds [of r] by (auto simp: Confidence_def sane_def)
  ultimately show ?thesis using assms False by (simp add: Penalty_def fmul_def fl_mono mult_right_mono)
qed (use assms in \<open>simp add: Penalty_def\<close>)

section \<open>Profiles\<close>

record ModelProfile =
  Model :: string
  Provider :: string
  LatencyMs :: int
  InputCostPer1M :: float64
  OutputCostPer1M :: float64
  Tasks :: "TaskType list"
  Observed :: int
  PriceKnown :: bool
  Measured :: Reliability \<comment> \<open>the field \<open>Reliability\<close>\<close>

definition Free :: "ModelProfile \<Rightarrow> bool" where
  "Free p \<longleftrightarrow> PriceKnown p \<and> InputCostPer1M p = 0 \<and> OutputCostPer1M p = 0"

definition EffectiveLatency :: "ModelProfile \<Rightarrow> int" where
  "EffectiveLatency p = (if Observed p > 0 then Observed p else LatencyMs p)"

definition BlendedCostPer1M :: "ModelProfile \<Rightarrow> float64" where
  "BlendedCostPer1M p = fadd (fmul (3/4) (InputCostPer1M p)) (fmul (1/4) (OutputCostPer1M p))"

definition CostUSD :: "ModelProfile \<Rightarrow> int \<Rightarrow> int \<Rightarrow> float64" where
  "CostUSD p promptTokens completionTokens =
     (if InputCostPer1M p = 0 \<and> OutputCostPer1M p = 0 then 0
      else fadd (fmul (fdiv (of_int64 promptTokens) 1000000) (InputCostPer1M p))
                (fmul (fdiv (of_int64 completionTokens) 1000000) (OutputCostPer1M p)))"

definition supports :: "ModelProfile \<Rightarrow> TaskType \<Rightarrow> bool" where
  "supports p task \<longleftrightarrow> task \<in> set (Tasks p)"

lemma Free_BlendedCost: "Free p \<Longrightarrow> BlendedCostPer1M p = 0"
  by (simp add: Free_def BlendedCostPer1M_def float_ops)

lemma Free_CostUSD: "Free p \<Longrightarrow> CostUSD p pt ct = 0"
  by (simp add: Free_def CostUSD_def)

section \<open>Score along one objective\<close>

definition Score :: "ModelProfile \<Rightarrow> Objective \<Rightarrow> float64" where
  "Score p obj =
     (let latencySeconds = fdiv (of_int64 (EffectiveLatency p)) 1000 in
      if obj = ObjectiveLatency then latencySeconds
      else if obj = ObjectiveCost then BlendedCostPer1M p
      else fadd latencySeconds (BlendedCostPer1M p))"

text \<open>A profile whose prices and latencies are not negative, as \<open>validateProfile\<close> and discovery leave it.\<close>

definition plausible :: "ModelProfile \<Rightarrow> bool" where
  "plausible p \<longleftrightarrow> 0 \<le> LatencyMs p \<and> 0 \<le> InputCostPer1M p \<and> 0 \<le> OutputCostPer1M p \<and> sane (Measured p)"

lemma is_float64_Score [simp]: "is_float64 (Score p obj)"
  by (simp add: Score_def BlendedCostPer1M_def Let_def)

lemma BlendedCost_nonneg: "plausible p \<Longrightarrow> 0 \<le> BlendedCostPer1M p"
  by (simp add: plausible_def BlendedCostPer1M_def fadd_nonneg fmul_nonneg)

lemma Score_nonneg: "plausible p \<Longrightarrow> 0 \<le> Score p obj"
proof -
  assume p: "plausible p"
  then have "0 \<le> of_int64 (EffectiveLatency p)"
    using of_int64_mono [of 0 "EffectiveLatency p"] by (simp add: EffectiveLatency_def plausible_def)
  then have "0 \<le> fdiv (of_int64 (EffectiveLatency p)) 1000" by (simp add: fdiv_def fl_nonneg)
  with BlendedCost_nonneg [OF p] show ?thesis by (simp add: Score_def Let_def fadd_nonneg)
qed

end
