(* ===== verification/Scoring.thy ===== *)
theory Scoring
  imports Profiles
begin

text \<open>
  How well a model is thought to suit a kind of work (\<open>internal/routing/suitability.go\<close>) and the score
  routing ranks by (\<open>ScoreWithEvidence\<close> in \<open>internal/routing/scoring.go\<close>). Suitability is inferred from the
  declared tasks, else from markers in the lower-cased name; it only ever adds a penalty.
\<close>

section \<open>Suitability\<close>

datatype Suitability =
  SuitabilityUnknown | SuitabilityGeneral | SuitabilityStrong | SuitabilityPoor

definition codeMarkers :: "string list" where
  "codeMarkers =
     [''code'', ''coder'', ''codestral'', ''starcoder'', ''devstral'',
      ''codellama'', ''codegemma'', ''codegeex'', ''codeqwen'', ''polycoder'']"

definition completionOnlyMarkers :: "string list" where
  "completionOnlyMarkers = [''fim'', ''fill-in-middle'', ''-base'', ''base-'', ''completion'']"

definition reasoningMarkers :: "string list" where
  "reasoningMarkers = [''reason'', ''think'', ''-r1'', ''o1-'', ''o3-'', ''qwq'', ''deep-research'']"

definition SuitabilityFor :: "ModelProfile \<Rightarrow> TaskType \<Rightarrow> Suitability" where
  "SuitabilityFor p task =
     (if Tasks p \<noteq> [] then (if supports p task then SuitabilityStrong else SuitabilityPoor)
      else
        let name = ToLower (Model p);
            isCode = contains_any name codeMarkers;
            isCompletionOnly = contains_any name completionOnlyMarkers;
            isReasoning = contains_any name reasoningMarkers
        in if task = TaskCodeGeneration then
             (if isCompletionOnly then SuitabilityPoor
              else if isCode \<or> isReasoning then SuitabilityStrong
              else SuitabilityGeneral)
           else if task = TaskConversation then
             (if isCompletionOnly then SuitabilityPoor
              else if isCode then SuitabilityPoor
              else if isReasoning then SuitabilityGeneral
              else SuitabilityStrong)
           else if task = TaskAnalysis then
             (if isCompletionOnly then SuitabilityPoor
              else if isReasoning then SuitabilityStrong
              else SuitabilityGeneral)
           else (if isCompletionOnly then SuitabilityPoor else SuitabilityGeneral))"

section \<open>The score with evidence\<close>

definition failureWeight :: float64 where "failureWeight = 12"
definition generalPenalty :: float64 where "generalPenalty = 3/2"
definition poorPenalty :: float64 where "poorPenalty = 6"
definition assumedCostPer1M :: float64 where "assumedCostPer1M = 2"

lemmas weight_defs = failureWeight_def generalPenalty_def poorPenalty_def assumedCostPer1M_def

definition suitability_penalty :: "Suitability \<Rightarrow> float64 \<Rightarrow> float64" where
  "suitability_penalty s score =
     (case s of
        SuitabilityGeneral \<Rightarrow> fadd score generalPenalty
      | SuitabilityUnknown \<Rightarrow> fadd score generalPenalty
      | SuitabilityPoor \<Rightarrow> fadd score poorPenalty
      | SuitabilityStrong \<Rightarrow> score)"

definition ScoreWithEvidence :: "ModelProfile \<Rightarrow> TaskType \<Rightarrow> Objective \<Rightarrow> float64" where
  "ScoreWithEvidence p task obj =
     (let score = Score p obj;
          score = (if \<not> PriceKnown p \<and> obj \<noteq> ObjectiveLatency then fadd score assumedCostPer1M else score);
          score = fadd score (fmul (Penalty (Measured p)) failureWeight)
      in suitability_penalty (SuitabilityFor p task) score)"

lemma suitability_penalty_ge: "is_float64 x \<Longrightarrow> x \<le> suitability_penalty s x"
  by (cases s) (simp_all add: suitability_penalty_def fadd_ge_left weight_defs)

lemma suitability_penalty_mono: "x \<le> y \<Longrightarrow> suitability_penalty s x \<le> suitability_penalty s y"
  by (cases s) (simp_all add: suitability_penalty_def fadd_mono)

lemma ScoreWithEvidence_ge_parts:
  assumes "sane (Measured p)"
  shows "fadd (Score p obj) (fmul (Penalty (Measured p)) failureWeight) \<le> ScoreWithEvidence p task obj"
proof -
  let ?s = "if \<not> PriceKnown p \<and> obj \<noteq> ObjectiveLatency then fadd (Score p obj) assumedCostPer1M else Score p obj"
  let ?f = "fmul (Penalty (Measured p)) failureWeight"
  have "Score p obj \<le> ?s" by (simp add: fadd_ge_left assumedCostPer1M_def)
  then have "fadd (Score p obj) ?f \<le> fadd ?s ?f" by (intro fadd_mono) simp_all
  also have "\<dots> \<le> suitability_penalty (SuitabilityFor p task) (fadd ?s ?f)"
    by (rule suitability_penalty_ge) simp
  finally show ?thesis by (simp add: ScoreWithEvidence_def Let_def)
qed

lemma failure_term_nonneg: "sane r \<Longrightarrow> 0 \<le> fmul (Penalty r) failureWeight"
  by (simp add: fmul_nonneg Penalty_nonneg failureWeight_def)

text \<open>
  Evidence only ever counts against a model. The score routing ranks by is at least the plain
  score of the objective, and at least that score plus twelve for a model that failed every one of
  eight or more attempts: under every objective such a model ranks behind each model whose own score is
  below twelve.
\<close>

theorem evidence_only_penalises:
  assumes "plausible p"
  shows "Score p obj \<le> ScoreWithEvidence p task obj \<and>
    (minSamples \<le> Attempts (Measured p) \<and> Successes (Measured p) = 0 \<longrightarrow>
      failureWeight \<le> ScoreWithEvidence p task obj)"
proof (intro conjI impI)
  have sane: "sane (Measured p)" using assms by (simp add: plausible_def)
  note parts = ScoreWithEvidence_ge_parts [OF sane, of obj task]
  have "Score p obj \<le> fadd (Score p obj) (fmul (Penalty (Measured p)) failureWeight)"
    by (intro fadd_ge_left failure_term_nonneg [OF sane]) simp
  also note parts
  finally show "Score p obj \<le> ScoreWithEvidence p task obj" .
  assume fails: "minSamples \<le> Attempts (Measured p) \<and> Successes (Measured p) = 0"
  have fw: "is_float64 failureWeight" using is_float64_of_int [of 12] by (simp add: failureWeight_def)
  have "fmul (Penalty (Measured p)) failureWeight = failureWeight"
    using fw fails by (simp add: Penalty_all_fail fmul_def fl_exact)
  moreover have "failureWeight \<le> fadd (Score p obj) failureWeight"
    using fw Score_nonneg [OF assms, of obj] by (simp add: fadd_def fl_ge_float)
  ultimately show "failureWeight \<le> ScoreWithEvidence p task obj"
    using parts by simp
qed

definition flaky_coder :: ModelProfile where
  "flaky_coder =
     \<lparr>Model = ''deepseek-coder'', Provider = ''deepseek'', LatencyMs = 500, InputCostPer1M = 1/2,
      OutputCostPer1M = 1/2, Tasks = [], Observed = 250, PriceKnown = True,
      Measured = \<lparr>Attempts = 8, Successes = 0, MedianLatencyMs = 250\<rparr>\<rparr>"

lemma evidence_only_penalises_witness:
  "failureWeight \<le> ScoreWithEvidence flaky_coder TaskConversation ObjectiveCost"
proof -
  have "plausible flaky_coder" by (simp add: plausible_def flaky_coder_def sane_def)
  from evidence_only_penalises [OF this, of ObjectiveCost TaskConversation] show ?thesis
    by (simp add: flaky_coder_def minSamples_def)
qed

lemma flaky_coder_score:
  "ScoreWithEvidence flaky_coder TaskConversation ObjectiveCost = 37/2"
proof -
  have "SuitabilityFor flaky_coder TaskConversation = SuitabilityPoor" by code_simp
  then show ?thesis
    by (simp add: ScoreWithEvidence_def Score_def flaky_coder_def objective_defs suitability_penalty_def
        BlendedCostPer1M_def Penalty_def SuccessRate_def Confidence_def minSamples_def weight_defs
        float_ops float_eval)
qed

end
