(* ===== verification/Routing_Catalog.thy ===== *)
theory Routing_Catalog
  imports Scoring
begin

text \<open>
  The catalogue of \<open>internal/routing/smart.go\<close>: its state, how it is loaded, what discovery, feedback,
  probing and the operator write into it, and every question routing asks of it. Each operation of the
  code holds the catalogue's lock for its whole body, so it is one function of the state. The maps keep
  their Go types; where the code ranges over \<open>c.discovered\<close> and the order could show, the operation takes
  the order of the range as its first argument.
\<close>

section \<open>State\<close>

record Catalog =
  profiles :: "ModelProfile list"
  confirmed :: "(string, bool) gomap"
  probedAt :: "(string, time) gomap"
  tags :: "(string, TaskType list) gomap"
  discovered :: "(string, ModelProfile list) gomap"
  blacklist :: "(string, bool) gomap"

definition curated :: "string \<Rightarrow> string \<Rightarrow> int \<Rightarrow> rat \<Rightarrow> rat \<Rightarrow> TaskType list \<Rightarrow> ModelProfile" where
  "curated m prov lat cin cout ts =
     \<lparr>Model = m, Provider = prov, LatencyMs = lat, InputCostPer1M = fl cin, OutputCostPer1M = fl cout,
      Tasks = ts, Observed = 0, PriceKnown = False, Measured = no_reliability\<rparr>"

definition defaultProfiles :: "ModelProfile list" where
  "defaultProfiles =
     [curated ''gpt-4o-mini'' ''openai'' 800 (15/100) (60/100) [TaskConversation, TaskCodeGeneration],
      curated ''gpt-4o'' ''openai'' 2000 (250/100) 10 [TaskAnalysis, TaskCodeGeneration],
      curated ''claude-3-haiku-20240307'' ''anthropic'' 600 (25/100) (125/100)
        [TaskConversation, TaskCodeGeneration],
      curated ''claude-3-5-sonnet-20241022'' ''anthropic'' 1500 3 15 [TaskAnalysis, TaskCodeGeneration],
      curated ''gemini-1.5-flash'' ''google'' 500 (75/1000) (30/100) [TaskConversation, TaskCreative],
      curated ''gemini-1.5-pro'' ''google'' 1800 (125/100) 5 [TaskAnalysis, TaskCreative]]"

definition NewCatalog :: Catalog where
  "NewCatalog =
     \<lparr>profiles = map (\<lambda>p. p\<lparr>PriceKnown := True\<rparr>) defaultProfiles, confirmed = [], probedAt = [],
      tags = [], discovered = [], blacklist = []\<rparr>"

section \<open>Loading a catalogue\<close>

datatype CatalogError =
    NotValidJSON
  | MissingModelName
  | MissingProvider string
  | NeedsPositiveLatency string
  | HasNegativePrice string
  | ListsNoTasks string
  | CatalogueEmpty

definition validateProfile :: "ModelProfile \<Rightarrow> CatalogError option" where
  "validateProfile p =
     (if TrimSpace (Model p) = [] then Some MissingModelName
      else if TrimSpace (Provider p) = [] then Some (MissingProvider (Model p))
      else if LatencyMs p \<le> 0 then Some (NeedsPositiveLatency (Model p))
      else if InputCostPer1M p < 0 \<or> OutputCostPer1M p < 0 then Some (HasNegativePrice (Model p))
      else if Tasks p = [] then Some (ListsNoTasks (Model p))
      else None)"

fun upsert_in :: "ModelProfile list \<Rightarrow> ModelProfile \<Rightarrow> ModelProfile list" where
  "upsert_in [] p = [p]"
| "upsert_in (q # qs) p = (if Model q = Model p then p # qs else q # upsert_in qs p)"

definition upsert :: "Catalog \<Rightarrow> ModelProfile \<Rightarrow> Catalog" where
  "upsert c p = c\<lparr>profiles := upsert_in (profiles c) p\<rparr>"

fun load_models :: "Catalog \<Rightarrow> ModelProfile list \<Rightarrow> CatalogError + Catalog" where
  "load_models c [] = Inr c"
| "load_models c (p # ps) =
     (case validateProfile p of
        Some e \<Rightarrow> Inl e
      | None \<Rightarrow> load_models (upsert c (p\<lparr>PriceKnown := True\<rparr>)) ps)"

text \<open>
  \<open>LoadCatalog\<close> after the JSON decoding: \<open>None\<close> is a text that decodes neither as the object nor as the
  bare array, \<open>Some (replace, models)\<close> one that does (a bare array has \<open>replace\<close> false).
\<close>

definition LoadCatalog :: "(bool \<times> ModelProfile list) option \<Rightarrow> CatalogError + Catalog" where
  "LoadCatalog doc =
     (case doc of
        None \<Rightarrow> Inl NotValidJSON
      | Some (replace, models) \<Rightarrow>
          let c = (if replace then NewCatalog\<lparr>profiles := []\<rparr> else NewCatalog) in
          case load_models c models of
            Inl e \<Rightarrow> Inl e
          | Inr c' \<Rightarrow> if profiles c' = [] then Inl CatalogueEmpty else Inr c')"

section \<open>Feedback from traffic\<close>

definition ObserveLatencies :: "(string, int) gomap \<Rightarrow> Catalog \<Rightarrow> Catalog" where
  "ObserveLatencies measured c =
     c\<lparr>profiles := map (\<lambda>p. case map_of measured (Model p) of
          Some ms \<Rightarrow> if ms > 0 then p\<lparr>Observed := ms\<rparr> else p
        | None \<Rightarrow> p) (profiles c)\<rparr>"

definition ObservationKey :: "string \<Rightarrow> string \<Rightarrow> string" where
  "ObservationKey providerName m = providerName @ ''/'' @ m"

definition apply_reliability :: "(string, Reliability) gomap \<Rightarrow> ModelProfile \<Rightarrow> ModelProfile" where
  "apply_reliability measured p =
     (case map_of measured (ObservationKey (Provider p) (Model p)) of
        None \<Rightarrow> p
      | Some r \<Rightarrow>
          let p' = p\<lparr>Measured := r\<rparr> in
          if MedianLatencyMs r > 0 then p'\<lparr>Observed := MedianLatencyMs r\<rparr> else p')"

definition ObserveReliability :: "(string, Reliability) gomap \<Rightarrow> Catalog \<Rightarrow> Catalog" where
  "ObserveReliability measured c =
     c\<lparr>profiles := map (apply_reliability measured) (profiles c),
       discovered := map (\<lambda>(name, models). (name, map (apply_reliability measured) models)) (discovered c)\<rparr>"

section \<open>Ranking\<close>

definition evidence_less :: "TaskType \<Rightarrow> Objective \<Rightarrow> ModelProfile \<Rightarrow> ModelProfile \<Rightarrow> bool" where
  "evidence_less task obj p q \<longleftrightarrow> ScoreWithEvidence p task obj < ScoreWithEvidence q task obj"

definition RankForTask :: "ModelProfile list \<Rightarrow> TaskType \<Rightarrow> Objective \<Rightarrow> ModelProfile list" where
  "RankForTask pool task obj = slice_stable (evidence_less task obj) pool"

definition score_less :: "Objective \<Rightarrow> ModelProfile \<Rightarrow> ModelProfile \<Rightarrow> bool" where
  "score_less obj p q \<longleftrightarrow> Score p obj < Score q obj"

definition suited :: "Catalog \<Rightarrow> TaskType \<Rightarrow> ModelProfile list" where
  "suited c task =
     (let out = filter (\<lambda>p. supports p task) (profiles c) in if out = [] then profiles c else out)"

definition Rank :: "Catalog \<Rightarrow> TaskType \<Rightarrow> Objective \<Rightarrow> ModelProfile list" where
  "Rank c task obj = slice_stable (score_less obj) (suited c task)"

text \<open>\<open>SelectModel\<close> indexes the ranking at 0: on an empty catalogue the code panics, here \<open>None\<close>.\<close>

definition SelectModel :: "Catalog \<Rightarrow> TaskType \<Rightarrow> Objective \<Rightarrow> ModelProfile option" where
  "SelectModel c task obj = (case Rank c task obj of [] \<Rightarrow> None | p # _ \<Rightarrow> Some p)"

interpretation by_evidence: stable_order "evidence_less task obj" "\<lambda>p. ScoreWithEvidence p task obj"
  for task obj
  by unfold_locales (simp add: evidence_less_def)

interpretation by_score: stable_order "score_less obj" "\<lambda>p. Score p obj" for obj
  by unfold_locales (simp add: score_less_def)

section \<open>Reading the task out of a prompt\<close>

definition codeKeywords :: "string list" where
  "codeKeywords =
     [''function'', ''class'', ''code'', ''implement'', ''debug'', ''fix'', ''refactor'', ''api'',
      ''endpoint'', ''test'', ''bug'']"

definition analysisKeywords :: "string list" where
  "analysisKeywords =
     [''analyze'', ''explain'', ''compare'', ''evaluate'', ''review'', ''assess'', ''summarize'']"

definition creativeKeywords :: "string list" where
  "creativeKeywords =
     [''write'', ''story'', ''poem'', ''creative'', ''imagine'', ''describe'', ''narrative'']"

definition DetectTask :: "string \<Rightarrow> TaskType" where
  "DetectTask prompt =
     (let lower = ToLower prompt in
      if contains_any lower codeKeywords then TaskCodeGeneration
      else if contains_any lower analysisKeywords then TaskAnalysis
      else if contains_any lower creativeKeywords then TaskCreative
      else TaskConversation)"

section \<open>Discovery\<close>

record DiscoveredModel =
  dm_Provider :: string
  dm_Model :: string
  dm_InputCostPer1M :: float64
  dm_OutputCostPer1M :: float64
  dm_PriceKnown :: bool
  dm_ContextLength :: int

definition convert_discovered :: "DiscoveredModel \<Rightarrow> ModelProfile" where
  "convert_discovered m =
     \<lparr>Model = dm_Model m, Provider = dm_Provider m, LatencyMs = 0, InputCostPer1M = dm_InputCostPer1M m,
      OutputCostPer1M = dm_OutputCostPer1M m, Tasks = [], Observed = 0, PriceKnown = dm_PriceKnown m,
      Measured = no_reliability\<rparr>"

definition SetDiscovered :: "string \<Rightarrow> DiscoveredModel list \<Rightarrow> Catalog \<Rightarrow> Catalog" where
  "SetDiscovered providerName models c =
     c\<lparr>discovered := gm_set providerName (map convert_discovered models) (discovered c)\<rparr>"

definition ForgetDiscovered :: "string \<Rightarrow> Catalog \<Rightarrow> Catalog" where
  "ForgetDiscovered providerName c = c\<lparr>discovered := gm_del providerName (discovered c)\<rparr>"

definition discovered_in :: "string list \<Rightarrow> Catalog \<Rightarrow> ModelProfile list" where
  "discovered_in ord c = concat (range_vals ord (discovered c))"

definition provider_model_less :: "ModelProfile \<Rightarrow> ModelProfile \<Rightarrow> bool" where
  "provider_model_less p q \<longleftrightarrow>
     (if Provider p \<noteq> Provider q then Provider p < Provider q else Model p < Model q)"

definition sortByProviderThenModel :: "ModelProfile list \<Rightarrow> ModelProfile list" where
  "sortByProviderThenModel ps = slice_stable provider_model_less ps"

definition Discovered :: "string list \<Rightarrow> Catalog \<Rightarrow> ModelProfile list" where
  "Discovered ord c = sortByProviderThenModel (discovered_in ord c)"

definition DiscoveredCount :: "Catalog \<Rightarrow> (string, nat) gomap" where
  "DiscoveredCount c = map (\<lambda>(name, models). (name, length models)) (discovered c)"

definition blended_less :: "ModelProfile \<Rightarrow> ModelProfile \<Rightarrow> bool" where
  "blended_less p q \<longleftrightarrow> BlendedCostPer1M p < BlendedCostPer1M q"

definition Resolve :: "string list \<Rightarrow> Catalog \<Rightarrow> string \<Rightarrow> ModelProfile list" where
  "Resolve ord c m =
     (if m = [] then []
      else let target = ToLower m in
           slice_stable blended_less
             (filter (\<lambda>p. ToLower (Model p) = target) (profiles c) @
              filter (\<lambda>p. ToLower (Model p) = target) (discovered_in ord c)))"

definition FreeModels :: "string list \<Rightarrow> Catalog \<Rightarrow> ModelProfile list" where
  "FreeModels ord c =
     sortByProviderThenModel (filter Free (profiles c) @ filter Free (discovered_in ord c))"

definition Lookup :: "string list \<Rightarrow> Catalog \<Rightarrow> string \<Rightarrow> ModelProfile option" where
  "Lookup ord c m = (case Resolve ord c m of [] \<Rightarrow> None | p # _ \<Rightarrow> Some p)"

definition ServesModel :: "Catalog \<Rightarrow> string \<Rightarrow> string \<Rightarrow> bool" where
  "ServesModel c providerName m =
     (case map_of (discovered c) providerName of
        None \<Rightarrow> True
      | Some models \<Rightarrow> models = [] \<or> (\<exists>p \<in> set models. ToLower (Model p) = ToLower m))"

interpretation by_provider_model: stable_order provider_model_less "\<lambda>p. (Provider p, Model p)"
  by unfold_locales (auto simp: provider_model_less_def)

interpretation by_blended: stable_order blended_less BlendedCostPer1M
  by unfold_locales (simp add: blended_less_def)

section \<open>The operator's marks\<close>

definition TagKey :: "string \<Rightarrow> string \<Rightarrow> string" where
  "TagKey providerName m = providerName @ ''/'' @ m"

fun copy_map :: "('k, 'v) gomap \<Rightarrow> ('k, 'v) gomap \<Rightarrow> ('k, 'v) gomap" where
  "copy_map acc [] = acc"
| "copy_map acc ((k, v) # m) = copy_map (gm_set k v acc) m"

definition SetTags :: "(string, TaskType list) gomap \<Rightarrow> Catalog \<Rightarrow> Catalog" where
  "SetTags ts c = c\<lparr>tags := copy_map [] ts\<rparr>"

definition TagsFor :: "Catalog \<Rightarrow> string \<Rightarrow> string \<Rightarrow> TaskType list" where
  "TagsFor c providerName m = gm_at [] (tags c) (TagKey providerName m)"

definition HasTagsFor :: "Catalog \<Rightarrow> TaskType \<Rightarrow> bool" where
  "HasTagsFor c task \<longleftrightarrow> (\<exists>(k, ts) \<in> set (tags c). task \<in> set ts)"

text \<open>
  The result is a Go slice that is \<open>nil\<close> until the first append: \<open>None\<close> is the nil slice, which the
  callers test for.
\<close>

definition TaggedFor :: "Catalog \<Rightarrow> ModelProfile list \<Rightarrow> TaskType \<Rightarrow> ModelProfile list option" where
  "TaggedFor c pool task =
     (if \<not> HasTagsFor c task then None
      else let out = filter (\<lambda>p. task \<in> set (TagsFor c (Provider p) (Model p))) pool in
           if out = [] then None else Some out)"

definition count_task :: "TaskType \<Rightarrow> (TaskType, nat) gomap \<Rightarrow> (TaskType, nat) gomap" where
  "count_task t out = gm_set t (Suc (gm_at 0 out t)) out"

definition TaggedCount :: "Catalog \<Rightarrow> (TaskType, nat) gomap" where
  "TaggedCount c = fold count_task (concat (map snd (tags c))) []"

definition CatalogSuitabilityFor :: "Catalog \<Rightarrow> ModelProfile \<Rightarrow> TaskType \<Rightarrow> Suitability" where
  "CatalogSuitabilityFor c p task =
     (let ts = TagsFor c (Provider p) (Model p) in
      if ts \<noteq> [] then (if task \<in> set ts then SuitabilityStrong else SuitabilityPoor)
      else SuitabilityFor p task)"

section \<open>What probing has shown\<close>

definition only_true :: "(string, bool) gomap \<Rightarrow> (string, bool) gomap" where
  "only_true m = filter snd m"

fun stamp_all :: "time \<Rightarrow> string list \<Rightarrow> (string, time) gomap \<Rightarrow> (string, time) gomap" where
  "stamp_all now [] m = m"
| "stamp_all now (k # ks) m = stamp_all now ks (gm_set k now m)"

definition SetConfirmed :: "time \<Rightarrow> (string, bool) gomap \<Rightarrow> Catalog \<Rightarrow> Catalog" where
  "SetConfirmed now conf c =
     c\<lparr>probedAt := stamp_all now (map fst conf) (probedAt c), confirmed := copy_map [] (only_true conf)\<rparr>"

definition MarkProbed :: "time \<Rightarrow> string list \<Rightarrow> Catalog \<Rightarrow> Catalog" where
  "MarkProbed now keys c = c\<lparr>probedAt := stamp_all now keys (probedAt c)\<rparr>"

definition Confirmed :: "Catalog \<Rightarrow> string \<Rightarrow> string \<Rightarrow> bool" where
  "Confirmed c providerName m \<longleftrightarrow> gm_at False (confirmed c) (TagKey providerName m)"

definition Probed :: "Catalog \<Rightarrow> string \<Rightarrow> string \<Rightarrow> bool" where
  "Probed c providerName m \<longleftrightarrow> gm_has (probedAt c) (TagKey providerName m)"

definition AnyConfirmed :: "Catalog \<Rightarrow> bool" where
  "AnyConfirmed c \<longleftrightarrow> 0 < length (confirmed c)"

definition SetBlacklist :: "(string, bool) gomap \<Rightarrow> Catalog \<Rightarrow> Catalog" where
  "SetBlacklist bl c = c\<lparr>blacklist := copy_map [] (only_true bl)\<rparr>"

definition Blacklisted :: "Catalog \<Rightarrow> string \<Rightarrow> string \<Rightarrow> bool" where
  "Blacklisted c providerName m \<longleftrightarrow> gm_at False (blacklist c) (TagKey providerName m)"

definition BlacklistCount :: "Catalog \<Rightarrow> nat" where
  "BlacklistCount c = length (blacklist c)"

definition confirmed_less :: "Catalog \<Rightarrow> ModelProfile \<Rightarrow> ModelProfile \<Rightarrow> bool" where
  "confirmed_less c p q \<longleftrightarrow> Confirmed c (Provider p) (Model p) \<and> \<not> Confirmed c (Provider q) (Model q)"

definition PreferConfirmed :: "Catalog \<Rightarrow> ModelProfile list \<Rightarrow> ModelProfile list" where
  "PreferConfirmed c pool =
     (if \<not> AnyConfirmed c then pool else slice_stable (confirmed_less c) pool)"

definition ConfirmedOnly :: "Catalog \<Rightarrow> ModelProfile list \<Rightarrow> ModelProfile list" where
  "ConfirmedOnly c pool =
     (if \<not> AnyConfirmed c then pool else filter (\<lambda>p. Confirmed c (Provider p) (Model p)) pool)"

interpretation by_confirmed: stable_order "confirmed_less c" "\<lambda>p. \<not> Confirmed c (Provider p) (Model p)"
  for c
  by unfold_locales (auto simp: confirmed_less_def)

end
