(* ===== verification/Health.thy ===== *)
theory Health
  imports Config
begin

text \<open>
  What the gateway remembers about upstreams between requests (\<open>internal/gateway/gateway.go\<close> and
  \<open>unbench\<close> of \<open>probe.go\<close>): the circuit breaker of each provider, the bench of models an account was
  refused, and the reading of an upstream's words that decides which of the two an error feeds.

  Every operation holds its lock for its whole body and takes one reading of the clock, the argument \<open>now\<close>.
  An error is its text (\<open>err.Error()\<close>).
\<close>

section \<open>State\<close>

record candidate =
  cand_provider :: string
  cand_model :: string

abbreviation cand :: "string \<Rightarrow> string \<Rightarrow> candidate" where
  "cand p m \<equiv> \<lparr>cand_provider = p, cand_model = m\<rparr>"

definition profile_cand :: "ModelProfile \<Rightarrow> candidate" where
  "profile_cand p = cand (Provider p) (Model p)"

lemma profile_cand_fields [simp]:
  "cand_provider (profile_cand p) = Provider p" "cand_model (profile_cand p) = Model p"
  by (simp_all add: profile_cand_def)

record breaker =
  failures :: int
  openUntil :: time

record Health =
  breakers :: "(string, breaker) gomap"
  bench :: "(string, time) gomap"

definition healthy :: Health where
  "healthy = \<lparr>breakers = [], bench = []\<rparr>"

section \<open>The circuit breaker\<close>

definition allow :: "time \<Rightarrow> string \<Rightarrow> Health \<Rightarrow> bool" where
  "allow now name h =
     (case map_of (breakers h) name of None \<Rightarrow> True | Some b \<Rightarrow> After now (openUntil b))"

definition recordFailure :: "Config \<Rightarrow> time \<Rightarrow> string \<Rightarrow> Health \<Rightarrow> Health" where
  "recordFailure cfg now name h =
     (let b = (case map_of (breakers h) name of None \<Rightarrow> \<lparr>failures = 0, openUntil = zero_time\<rparr> | Some b \<Rightarrow> b);
          b1 = b\<lparr>failures := failures b + 1\<rparr>;
          b2 = (if BreakerTrip cfg \<le> failures b1
                then b1\<lparr>openUntil := now + BreakerCooldown cfg, failures := 0\<rparr> else b1)
      in h\<lparr>breakers := gm_set name b2 (breakers h)\<rparr>)"

definition recordSuccess :: "string \<Rightarrow> Health \<Rightarrow> Health" where
  "recordSuccess name h =
     (case map_of (breakers h) name of
        None \<Rightarrow> h
      | Some b \<Rightarrow> h\<lparr>breakers := gm_set name (b\<lparr>failures := 0, openUntil := zero_time\<rparr>) (breakers h)\<rparr>)"

section \<open>Reading a refusal\<close>

text \<open>The bytes of the Chinese marker for a spent balance, in UTF-8.\<close>

definition balance_spent_utf8 :: string where
  "balance_spent_utf8 =
     [CHR 0xE4, CHR 0xBD, CHR 0x99, CHR 0xE9, CHR 0xA2, CHR 0x9D,
      CHR 0xE4, CHR 0xB8, CHR 0x8D, CHR 0xE8, CHR 0xB6, CHR 0xB3]"

definition exhaustionMarkers :: "string list" where
  "exhaustionMarkers =
     [''insufficient'', ''balance'', ''deposit'', ''credit'', ''billing'', ''quota'', balance_spent_utf8, ''payment'']"

definition isAllowanceSpent :: "string \<Rightarrow> bool" where
  "isAllowanceSpent err = contains_any (ToLower err) exhaustionMarkers"

definition wrongKindMarkers :: "string list" where
  "wrongKindMarkers =
     [''only supports'', ''does not support'', ''not supported for'', ''is not a chat model'', ''unsupported operation'']"

definition isWrongKindOfModel :: "string \<Rightarrow> bool" where
  "isWrongKindOfModel err = contains_any (ToLower err) wrongKindMarkers"

definition deniedMarkers :: "string list" where
  "deniedMarkers = [''returned 401'', ''returned 403'', ''returned 404'']"

definition isAccessDenied :: "string \<Rightarrow> bool" where
  "isAccessDenied err \<longleftrightarrow>
     contains_any (ToLower err) deniedMarkers \<or> isAllowanceSpent err \<or> isWrongKindOfModel err"

section \<open>The bench\<close>

definition benchDuration :: duration where "benchDuration = Hour"

definition benchKey :: "candidate \<Rightarrow> string" where
  "benchKey c = cand_provider c @ ''/'' @ cand_model c"

text \<open>The question also forgets an entry that has expired, so it returns the new state.\<close>

definition benched :: "time \<Rightarrow> candidate \<Rightarrow> Health \<Rightarrow> bool \<times> Health" where
  "benched now c h =
     (case map_of (bench h) (benchKey c) of
        None \<Rightarrow> (False, h)
      | Some until \<Rightarrow>
          if After now until then (False, h\<lparr>bench := gm_del (benchKey c) (bench h)\<rparr>) else (True, h))"

definition benchOne :: "time \<Rightarrow> candidate \<Rightarrow> Health \<Rightarrow> Health" where
  "benchOne now c h = h\<lparr>bench := gm_set (benchKey c) (now + benchDuration) (bench h)\<rparr>"

definition unbench :: "candidate \<Rightarrow> Health \<Rightarrow> Health" where
  "unbench c h = h\<lparr>bench := gm_del (benchKey c) (bench h)\<rparr>"

definition ClearBench :: "Health \<Rightarrow> Health" where
  "ClearBench h = h\<lparr>bench := []\<rparr>"

text \<open>\<open>isFreeAt\<close> answers for the first resolved entry at the provider.\<close>

definition isFreeAt :: "string list \<Rightarrow> Catalog \<Rightarrow> candidate \<Rightarrow> bool" where
  "isFreeAt ord cat c =
     (case find (\<lambda>p. Provider p = cand_provider c) (Resolve ord cat (cand_model c)) of
        None \<Rightarrow> False | Some p \<Rightarrow> Free p)"

fun bench_pool :: "time \<Rightarrow> candidate \<Rightarrow> ModelProfile list \<Rightarrow> Health \<Rightarrow> Health" where
  "bench_pool now c [] h = h"
| "bench_pool now c (p # ps) h =
     (if Provider p \<noteq> cand_provider c \<or> Model p = cand_model c then bench_pool now c ps h
      else bench_pool now c ps (benchOne now (profile_cand p) h))"

definition benchIfAccessDenied ::
  "string list \<Rightarrow> Catalog \<Rightarrow> time \<Rightarrow> candidate \<Rightarrow> string \<Rightarrow> Health \<Rightarrow> Health" where
  "benchIfAccessDenied ord cat now c err h =
     (if \<not> isAccessDenied err then h
      else let h1 = benchOne now c h in
        if isAllowanceSpent err \<and> isFreeAt ord cat c then bench_pool now c (FreeModels ord cat) h1 else h1)"

section \<open>Reading the state without changing it\<close>

definition is_benched :: "time \<Rightarrow> Health \<Rightarrow> candidate \<Rightarrow> bool" where
  "is_benched now h c \<longleftrightarrow> (case map_of (bench h) (benchKey c) of None \<Rightarrow> False | Some until \<Rightarrow> now \<le> until)"

text \<open>
  \<open>swept now h h'\<close>: \<open>h'\<close> is \<open>h\<close> after any number of questions asked at \<open>now\<close>: some expired entries
  are gone, and no question asked at \<open>now\<close> or later can tell.
\<close>

definition swept :: "time \<Rightarrow> Health \<Rightarrow> Health \<Rightarrow> bool" where
  "swept now h h' \<longleftrightarrow>
     breakers h' = breakers h \<and>
     (\<forall>k. map_of (bench h') k = map_of (bench h) k \<or>
          (map_of (bench h') k = None \<and> (\<exists>u. map_of (bench h) k = Some u \<and> u < now)))"

lemma swept_refl [simp, intro]: "swept now h h"
  by (simp add: swept_def)

lemma swept_trans [trans]: "swept now h h' \<Longrightarrow> swept now h' h'' \<Longrightarrow> swept now h h''"
  unfolding swept_def by metis

lemma swept_is_benched: "swept now h h' \<Longrightarrow> now \<le> t \<Longrightarrow> is_benched t h' = is_benched t h"
proof (rule ext)
  fix c
  assume sw: "swept now h h'" and t: "now \<le> t"
  from sw have "map_of (bench h') (benchKey c) = map_of (bench h) (benchKey c) \<or>
      (map_of (bench h') (benchKey c) = None \<and> (\<exists>u. map_of (bench h) (benchKey c) = Some u \<and> u < now))"
    by (simp add: swept_def)
  with t show "is_benched t h' c = is_benched t h c" by (auto simp: is_benched_def)
qed

lemma swept_allow [simp]: "swept now h h' \<Longrightarrow> allow t n h' = allow t n h"
  by (simp add: swept_def allow_def)

lemma benched_spec: "fst (benched now c h) = is_benched now h c" "swept now h (snd (benched now c h))"
  by (auto simp: benched_def is_benched_def swept_def After_def split: option.splits)

section \<open>An interface: gates that close for a time\<close>

text \<open>
  The breaker and the bench are gates: a hit may close the gate of a key for at most \<open>period\<close>, a release
  opens it, and neither touches another key. Under these laws a gate heals by itself: it is closed only if
  some hit of the same key is at most \<open>period\<close> old and no release of that key came after it.
\<close>

datatype ('k, 's) gate_op = Hit time 'k | Release 'k | Other "'s \<Rightarrow> 's"

locale timed_gate =
  fixes closed :: "time \<Rightarrow> 'k \<Rightarrow> 's \<Rightarrow> bool"
    and hit :: "time \<Rightarrow> 'k \<Rightarrow> 's \<Rightarrow> 's"
    and release :: "'k \<Rightarrow> 's \<Rightarrow> 's"
    and period :: duration
  assumes hit_other: "k' \<noteq> k \<Longrightarrow> closed t k' (hit now k s) = closed t k' s"
    and hit_bound: "0 < t \<Longrightarrow> closed t k (hit now k s) \<Longrightarrow> closed t k s \<or> t \<le> now + period"
    and release_other: "k' \<noteq> k \<Longrightarrow> closed t k' (release k s) = closed t k' s"
    and release_opens: "0 < t \<Longrightarrow> \<not> closed t k (release k s)"
begin

fun run :: "('k, 's) gate_op list \<Rightarrow> 's \<Rightarrow> 's" where
  "run [] s = s"
| "run (Hit now k # ops) s = run ops (hit now k s)"
| "run (Release k # ops) s = run ops (release k s)"
| "run (Other f # ops) s = run ops (f s)"

text \<open>An operation on something else may open gates but closes none.\<close>

definition harmless :: "('k, 's) gate_op list \<Rightarrow> bool" where
  "harmless ops \<longleftrightarrow> (\<forall>f t k s. Other f \<in> set ops \<longrightarrow> closed t k (f s) \<longrightarrow> closed t k s)"

lemma run_append [simp]: "run (ops @ ops') s = run ops' (run ops s)"
  by (induction ops s rule: run.induct) simp_all

lemma closed_recent:
  assumes "closed t k (run ops s)" and "0 < t" and "harmless ops"
  shows "(closed t k s \<and> Release k \<notin> set ops) \<or>
    (\<exists>now. t \<le> now + period \<and> (\<exists>pre post. ops = pre @ Hit now k # post \<and> Release k \<notin> set post))"
  using assms(1,3)
proof (induction ops rule: rev_induct)
  case Nil
  then show ?case by simp
next
  case (snoc op ops)
  from snoc.prems have ok: "harmless ops" by (simp add: harmless_def)
  show ?case
  proof (cases op)
    case (Other f)
    with snoc.prems have "closed t k (run ops s)" by (auto simp: harmless_def)
    from snoc.IH [OF this ok] Other show ?thesis by fastforce
  next
    case (Release k')
    with snoc.prems assms(2) have ne: "k' \<noteq> k" using release_opens by auto
    with Release snoc.prems have "closed t k (run ops s)" by (simp add: release_other)
    from snoc.IH [OF this ok] ne Release show ?thesis by fastforce
  next
    case (Hit now k')
    show ?thesis
    proof (cases "k' = k \<and> t \<le> now + period")
      case True
      with Hit have "op = Hit now k" by simp
      with True show ?thesis by fastforce
    next
      case False
      from Hit snoc.prems have c: "closed t k (hit now k' (run ops s))" by simp
      have "closed t k (run ops s)"
      proof (cases "k' = k")
        case True
        with c False hit_bound [OF assms(2), of k now "run ops s"] show ?thesis by auto
      qed (use c hit_other in auto)
      from snoc.IH [OF this ok] Hit show ?thesis by fastforce
    qed
  qed
qed

lemma heals:
  assumes "\<not> closed t k s" and "0 < t" and "harmless ops" and "\<And>now. Hit now k \<in> set ops \<Longrightarrow> now + period < t"
  shows "\<not> closed t k (run ops s)"
  using closed_recent [of t k ops s] assms by force

end

interpretation breaker_gate:
  timed_gate "\<lambda>t name h. \<not> allow t name h" "recordFailure cfg" recordSuccess "BreakerCooldown cfg" for cfg
  by unfold_locales
    (auto simp: allow_def recordFailure_def recordSuccess_def Let_def After_def split: option.splits if_splits)

lemma is_benched_benchOne [simp]:
  "is_benched t (benchOne now c h) c' \<longleftrightarrow>
     (if benchKey c' = benchKey c then t \<le> now + benchDuration else is_benched t h c')"
  by (simp add: is_benched_def benchOne_def)

lemma is_benched_unbench [simp]:
  "is_benched t (unbench c h) c' \<longleftrightarrow> benchKey c' \<noteq> benchKey c \<and> is_benched t h c'"
  by (simp add: is_benched_def unbench_def)

lemma is_benched_ClearBench [simp]: "\<not> is_benched t (ClearBench h) c"
  by (simp add: is_benched_def ClearBench_def)

text \<open>The bench is kept by key, so its gate is: two candidates are one gate when their keys agree.\<close>

definition key_benched :: "time \<Rightarrow> string \<Rightarrow> Health \<Rightarrow> bool" where
  "key_benched t k h \<longleftrightarrow> (case map_of (bench h) k of None \<Rightarrow> False | Some until \<Rightarrow> t \<le> until)"

definition bench_key :: "time \<Rightarrow> string \<Rightarrow> Health \<Rightarrow> Health" where
  "bench_key now k h = h\<lparr>bench := gm_set k (now + benchDuration) (bench h)\<rparr>"

definition unbench_key :: "string \<Rightarrow> Health \<Rightarrow> Health" where
  "unbench_key k h = h\<lparr>bench := gm_del k (bench h)\<rparr>"

lemma bench_by_key:
  "is_benched t h c = key_benched t (benchKey c) h" "benchOne now c = bench_key now (benchKey c)"
  "unbench c = unbench_key (benchKey c)"
  by (auto simp: is_benched_def key_benched_def benchOne_def bench_key_def unbench_def unbench_key_def fun_eq_iff)

interpretation bench_gate: timed_gate key_benched bench_key unbench_key benchDuration
  by unfold_locales (auto simp: key_benched_def bench_key_def unbench_key_def split: option.splits)

end
