(* ===== verification/Json.thy ===== *)
theory Json
  imports Float64
begin

text \<open>
  What the program uses of \<open>encoding/json\<close>. A document is its parsed value; a number keeps its literal, as
  \<open>encoding/json\<close> does before it knows the Go type. A \<open>json.RawMessage\<close> is \<open>None\<close> when it is empty and
  otherwise the value it holds, \<open>null\<close> included. Decoding into a Go struct reads the fields the code
  names: a missing field or \<open>null\<close> leaves the zero value, a value of another type is a decoding error.
  (Go also matches a field name up to letter case; clients and providers send the documented
  spelling.) The text syntax itself is the record \<open>golib\<close>, an argument of the definitions that turn text
  into a value or a value into text.
\<close>

section \<open>Values\<close>

datatype json =
    JNull
  | JBool bool
  | JNum string
  | JStr string
  | JArr "json list"
  | JObj "(string \<times> json) list"

datatype json_error = TypeMismatch

text \<open>
  The text syntax and the other library functions over text: the value of a text, the text a value stood
  as in its document, the error of \<open>Unmarshal\<close> on a document, float literals, and the error \<open>net/url\<close>
  reports for an address.
\<close>

record golib =
  parse_json :: "string \<Rightarrow> json option"
  json_text :: "json \<Rightarrow> string"
  unmarshal_why :: "string \<Rightarrow> string"
  parse_float :: "string \<Rightarrow> float64 option"
  float_literal :: "float64 \<Rightarrow> string"
  url_error :: "string \<Rightarrow> string option"

section \<open>Results\<close>

named_theorems result_simps \<open>sequencing of results that may be errors\<close>

definition and_then :: "'e + 'a \<Rightarrow> ('a \<Rightarrow> 'e + 'b) \<Rightarrow> 'e + 'b" where
  "and_then r f = (case r of Inl e \<Rightarrow> Inl e | Inr x \<Rightarrow> f x)"

lemma and_then_simps [simp, result_simps]: "and_then (Inl e) f = Inl e" "and_then (Inr x) f = f x"
  by (simp_all add: and_then_def)

lemma and_then_Inr: "and_then r f = Inr y \<longleftrightarrow> (\<exists>x. r = Inr x \<and> f x = Inr y)"
  by (simp add: and_then_def split: sum.splits)

fun each :: "('a \<Rightarrow> 'e + 'b) \<Rightarrow> 'a list \<Rightarrow> 'e + 'b list" where
  "each f [] = Inr []"
| "each f (x # xs) = and_then (f x) (\<lambda>y. and_then (each f xs) (\<lambda>ys. Inr (y # ys)))"

lemma each_map [simp]: "each f (map g xs) = each (f \<circ> g) xs"
  by (induction xs) simp_all

lemma each_Inr: "(\<And>x. x \<in> set xs \<Longrightarrow> f x = Inr (g x)) \<Longrightarrow> each f xs = Inr (map g xs)"
  by (induction xs) simp_all

section \<open>Reading a value\<close>

text \<open>A Go map has its keys as they are written; the last of two values wins.\<close>

definition last_value :: "(string \<times> json) list \<Rightarrow> string \<Rightarrow> json option" where
  "last_value fs k = map_of (rev fs) k"

text \<open>
  A field of a struct is found whatever the case of its name (of ASCII letters, here), and a later duplicate wins, as
  in \<open>encoding/json\<close>. No struct of the source has two fields whose names differ in case only.
\<close>

definition folded :: "(string \<times> 'a) list \<Rightarrow> (string \<times> 'a) list" where
  "folded fs = map (\<lambda>(k, v). (ToLower k, v)) fs"

definition raw_field :: "(string \<times> json) list \<Rightarrow> string \<Rightarrow> json option" where
  "raw_field fs k = map_of (rev (folded fs)) (ToLower k)"

definition fields_get :: "(string \<times> json) list \<Rightarrow> string \<Rightarrow> json" where
  "fields_get fs k = (case raw_field fs k of None \<Rightarrow> JNull | Some v \<Rightarrow> v)"

fun as_string :: "json \<Rightarrow> json_error + string" where
  "as_string JNull = Inr []"
| "as_string (JStr s) = Inr s"
| "as_string _ = Inl TypeMismatch"

fun as_bool :: "json \<Rightarrow> json_error + bool" where
  "as_bool JNull = Inr False"
| "as_bool (JBool b) = Inr b"
| "as_bool _ = Inl TypeMismatch"

fun as_int :: "json \<Rightarrow> json_error + int" where
  "as_int JNull = Inr 0"
| "as_int (JNum l) = (case Atoi l of None \<Rightarrow> Inl TypeMismatch | Some n \<Rightarrow> Inr n)"
| "as_int _ = Inl TypeMismatch"

fun as_float :: "golib \<Rightarrow> json \<Rightarrow> json_error + float64" where
  "as_float lib JNull = Inr 0"
| "as_float lib (JNum l) = (case parse_float lib l of None \<Rightarrow> Inl TypeMismatch | Some x \<Rightarrow> Inr x)"
| "as_float lib _ = Inl TypeMismatch"

fun as_fields :: "json \<Rightarrow> json_error + (string \<times> json) list" where
  "as_fields JNull = Inr []"
| "as_fields (JObj fs) = Inr fs"
| "as_fields _ = Inl TypeMismatch"

fun as_list :: "(json \<Rightarrow> json_error + 'a) \<Rightarrow> json \<Rightarrow> json_error + 'a list" where
  "as_list f JNull = Inr []"
| "as_list f (JArr js) = each f js"
| "as_list f _ = Inl TypeMismatch"

text \<open>A pointer field: nil when the field is missing or \<open>null\<close>.\<close>

fun as_ptr :: "(json \<Rightarrow> json_error + 'a) \<Rightarrow> json \<Rightarrow> json_error + 'a option" where
  "as_ptr f JNull = Inr None"
| "as_ptr f j = and_then (f j) (\<lambda>x. Inr (Some x))"

text \<open>\<open>json.Unmarshal\<close>: both a text that is no JSON and a value of the wrong type are its error.\<close>

definition unmarshal :: "golib \<Rightarrow> (json \<Rightarrow> json_error + 'a) \<Rightarrow> string \<Rightarrow> string + 'a" where
  "unmarshal lib dec body =
     (case parse_json lib body of
        None \<Rightarrow> Inl (unmarshal_why lib body)
      | Some j \<Rightarrow> (case dec j of Inl _ \<Rightarrow> Inl (unmarshal_why lib body) | Inr x \<Rightarrow> Inr x))"

section \<open>Writing a value\<close>

definition jint :: "int \<Rightarrow> json" where "jint n = JNum (Itoa n)"

text \<open>An object from its fields in order; \<open>None\<close> is a field that \<open>omitempty\<close> leaves out.\<close>

definition written :: "(string \<times> json option) list \<Rightarrow> (string \<times> json) list" where
  "written fs = List.map_filter (\<lambda>(k, v). map_option (Pair k) v) fs"

definition json_obj :: "(string \<times> json option) list \<Rightarrow> json" where
  "json_obj fs = JObj (written fs)"

definition omit_string :: "string \<Rightarrow> json option" where
  "omit_string s = (if s = [] then None else Some (JStr s))"

definition omit_int :: "int \<Rightarrow> json option" where
  "omit_int n = (if n = 0 then None else Some (jint n))"

definition omit_bool :: "bool \<Rightarrow> json option" where
  "omit_bool b = (if b then Some (JBool True) else None)"

definition omit_list :: "('a \<Rightarrow> json) \<Rightarrow> 'a list \<Rightarrow> json option" where
  "omit_list f xs = (if xs = [] then None else Some (JArr (map f xs)))"

definition omit_float :: "golib \<Rightarrow> float64 option \<Rightarrow> json option" where
  "omit_float lib x = map_option (\<lambda>v. JNum (float_literal lib v)) x"

section \<open>Reading what was written\<close>

named_theorems json_simps \<open>fields of a written object, and the readings of written values\<close>

lemma as_int_jint [json_simps]: "in_int64 n \<Longrightarrow> as_int (jint n) = Inr n"
  by (simp add: jint_def Atoi_Itoa)

lemma as_fields_json_obj [json_simps]: "as_fields (json_obj fs) = Inr (written fs)"
  by (simp add: json_obj_def)

lemma json_obj_not_null [json_simps, simp]: "json_obj fs \<noteq> JNull" "jint n \<noteq> JNull"
  by (simp_all add: json_obj_def jint_def)

lemma map_of_written:
  assumes "distinct (map fst fs)"
  shows "map_of (written fs) k = Option.bind (map_of fs k) id"
  using assms unfolding written_def
proof (induction fs)
  case (Cons kv fs)
  have "map_of (List.map_filter (\<lambda>(k, v). map_option (Pair k) v) fs) k = None" if "k \<notin> fst ` set fs"
    using that by (force simp: map_of_eq_None_iff List.map_filter_def split: option.splits)
  with Cons show ?case by (cases kv; cases "snd kv") (auto simp: List.map_filter_simps)
qed (simp add: List.map_filter_simps)

lemma distinct_written:
  "distinct (map fst fs) \<Longrightarrow> distinct (map fst (written fs))"
  unfolding written_def
proof (induction fs)
  case (Cons kv fs)
  have "fst ` set (List.map_filter (\<lambda>(k, v). map_option (Pair k) v) fs) \<subseteq> fst ` set fs"
    by (force simp: List.map_filter_def)
  with Cons show ?case by (cases kv; cases "snd kv") (auto simp: List.map_filter_simps)
qed (simp add: List.map_filter_simps)

lemma map_of_rev_distinct: "distinct (map fst xs) \<Longrightarrow> map_of (rev xs) = map_of xs"
proof (induction xs)
  case (Cons kv xs)
  then have "map_of xs (fst kv) = None" by (simp add: map_of_eq_None_iff)
  with Cons show ?case by (auto simp: map_add_def split: option.splits)
qed simp

lemma folded_written: "folded (written fs) = written (folded fs)"
  by (induction fs) (auto simp: folded_def written_def List.map_filter_simps split: option.splits)

lemma folded_simps [json_simps, simp]: "folded [] = []" "folded ((k, v) # fs) = (ToLower k, v) # folded fs"
  by (simp_all add: folded_def)

lemma ToLower_simps [json_simps]: "ToLower [] = []" "ToLower (c # s) = lower_char c # ToLower s"
  by (simp_all add: ToLower_def)

lemma lower_char_small [json_simps]:
  "lower_char CHR ''a'' = CHR ''a''" "lower_char CHR ''b'' = CHR ''b''" "lower_char CHR ''c'' = CHR ''c''"
  "lower_char CHR ''d'' = CHR ''d''" "lower_char CHR ''e'' = CHR ''e''" "lower_char CHR ''f'' = CHR ''f''"
  "lower_char CHR ''g'' = CHR ''g''" "lower_char CHR ''h'' = CHR ''h''" "lower_char CHR ''i'' = CHR ''i''"
  "lower_char CHR ''j'' = CHR ''j''" "lower_char CHR ''k'' = CHR ''k''" "lower_char CHR ''l'' = CHR ''l''"
  "lower_char CHR ''m'' = CHR ''m''" "lower_char CHR ''n'' = CHR ''n''" "lower_char CHR ''o'' = CHR ''o''"
  "lower_char CHR ''p'' = CHR ''p''" "lower_char CHR ''q'' = CHR ''q''" "lower_char CHR ''r'' = CHR ''r''"
  "lower_char CHR ''s'' = CHR ''s''" "lower_char CHR ''t'' = CHR ''t''" "lower_char CHR ''u'' = CHR ''u''"
  "lower_char CHR ''v'' = CHR ''v''" "lower_char CHR ''w'' = CHR ''w''" "lower_char CHR ''x'' = CHR ''x''"
  "lower_char CHR ''y'' = CHR ''y''" "lower_char CHR ''z'' = CHR ''z''" "lower_char CHR ''_'' = CHR ''_''"
  "lower_char CHR ''1'' = CHR ''1''"
  by (simp_all add: lower_char_def)

lemma lower_char_capital [json_simps]:
  "lower_char CHR ''A'' = CHR ''a''" "lower_char CHR ''C'' = CHR ''c''" "lower_char CHR ''D'' = CHR ''d''"
  "lower_char CHR ''I'' = CHR ''i''" "lower_char CHR ''M'' = CHR ''m''" "lower_char CHR ''O'' = CHR ''o''"
  "lower_char CHR ''P'' = CHR ''p''" "lower_char CHR ''R'' = CHR ''r''" "lower_char CHR ''S'' = CHR ''s''"
  "lower_char CHR ''T'' = CHR ''t''" "lower_char CHR ''U'' = CHR ''u''"
  by code_simp+

lemma fields_get_written [json_simps]:
  "distinct (map fst (folded fs)) \<Longrightarrow>
    fields_get (written fs) k =
      (case Option.bind (map_of (folded fs) (ToLower k)) id of None \<Rightarrow> JNull | Some v \<Rightarrow> v)"
  by (simp add: fields_get_def raw_field_def folded_written map_of_written distinct_written map_of_rev_distinct)

lemma as_string_omit [json_simps]: "as_string (case omit_string s of None \<Rightarrow> JNull | Some v \<Rightarrow> v) = Inr s"
  by (simp add: omit_string_def)

lemma as_list_omit [json_simps]:
  "as_list f (case omit_list g xs of None \<Rightarrow> JNull | Some v \<Rightarrow> v) = each (f \<circ> g) xs"
  by (simp add: omit_list_def)

section \<open>A library for examples\<close>

text \<open>A concrete \<open>golib\<close> that knows a table of documents; the examples of the other theories run on it.\<close>

definition table_lib :: "(string \<times> json) list \<Rightarrow> golib" where
  "table_lib docs =
     \<lparr>parse_json = map_of docs, json_text = (\<lambda>j. ''{}''), unmarshal_why = (\<lambda>s. ''invalid character''),
      parse_float = (\<lambda>s. None), float_literal = (\<lambda>x. ''0''), url_error = (\<lambda>u. None)\<rparr>"

lemma table_lib_fields [simp]:
  "parse_json (table_lib docs) = map_of docs" "json_text (table_lib docs) j = ''{}''"
  "url_error (table_lib docs) u = None"
  by (simp_all add: table_lib_def)

end
