(* ===== verification/Chat.thy ===== *)
theory Chat
  imports Json
begin

text \<open>
  \<open>internal/provider/types.go\<close>: the OpenAI-shaped request and response every part of the gateway passes
  around, the flattening of a message's content, the split into a system prompt and turns, and the reading
  of tools and tool choice.

  The decoders and encoders are the struct tags of the types, over the JSON values of theory \<open>Json\<close>.
\<close>

section \<open>Messages, requests and responses\<close>

type_synonym Content = string

record FunctionCall =
  fc_Name :: string
  Arguments :: string

record ToolCall =
  tc_Index :: "int option"
  tc_ID :: string
  tc_Type :: string
  Function :: FunctionCall

record Message =
  Role :: string
  MsgContent :: Content
  ToolCalls :: "ToolCall list"
  ToolCallID :: string

record ToolFunction =
  tf_Name :: string
  Description :: string
  Parameters :: "json option"
  Strict :: "bool option"

record Tool =
  tool_Type :: string
  tool_Function :: ToolFunction

record ChatRequest =
  ReqModel :: string
  Messages :: "Message list"
  MaxTokens :: int
  Temperature :: "float64 option"
  TopP :: "float64 option"
  Stop :: "string list"
  Stream :: bool
  Tools :: "Tool list"
  ToolChoice :: "json option"
  Raw :: "json option"

record Delta =
  dl_Role :: string
  dl_Content :: string
  dl_ToolCalls :: "ToolCall list"

record Choice =
  ch_Index :: int
  ch_Message :: "Message option"
  ch_Delta :: "Delta option"
  FinishReason :: "string option"

record Usage =
  PromptTokens :: int
  CompletionTokens :: int
  TotalTokens :: int

record ChatResponse =
  resp_ID :: string
  resp_Object :: string
  Created :: int
  RespModel :: string
  Choices :: "Choice list"
  RespUsage :: "Usage option"

definition no_usage :: Usage where
  "no_usage = \<lparr>PromptTokens = 0, CompletionTokens = 0, TotalTokens = 0\<rparr>"

definition text_message :: "string \<Rightarrow> Content \<Rightarrow> Message" where
  "text_message role content = \<lparr>Role = role, MsgContent = content, ToolCalls = [], ToolCallID = []\<rparr>"

definition model_request :: "string \<Rightarrow> Message list \<Rightarrow> ChatRequest" where
  "model_request m msgs =
     \<lparr>ReqModel = m, Messages = msgs, MaxTokens = 0, Temperature = None, TopP = None, Stop = [],
      Stream = False, Tools = [], ToolChoice = None, Raw = None\<rparr>"

lemma model_request_fields [simp]: "ReqModel (model_request m msgs) = m" "Messages (model_request m msgs) = msgs"
  by (simp_all add: model_request_def)

section \<open>The content of a message\<close>

fun content_parts :: "json list \<Rightarrow> json_error + string" where
  "content_parts [] = Inr []"
| "content_parts (j # js) =
     (case as_fields j of
        Inl e \<Rightarrow> Inl e
      | Inr fs \<Rightarrow>
          (case as_string (fields_get fs ''type'') of
             Inl e \<Rightarrow> Inl e
           | Inr ty \<Rightarrow>
               (case as_string (fields_get fs ''text'') of
                  Inl e \<Rightarrow> Inl e
                | Inr t \<Rightarrow>
                    (case content_parts js of
                       Inl e \<Rightarrow> Inl e
                     | Inr rest \<Rightarrow> Inr ((if ty = ''text'' \<or> t \<noteq> [] then t else []) @ rest)))))"

fun UnmarshalContent :: "json \<Rightarrow> json_error + Content" where
  "UnmarshalContent JNull = Inr []"
| "UnmarshalContent (JStr s) = Inr s"
| "UnmarshalContent (JArr parts) = content_parts parts"
| "UnmarshalContent _ = Inl TypeMismatch"

section \<open>System prompt and turns\<close>

definition nl2 :: string where "nl2 = [CHR 0x0A, CHR 0x0A]"

definition mergeable :: "Message \<Rightarrow> Message \<Rightarrow> bool" where
  "mergeable t m \<longleftrightarrow>
     Role t = Role m \<and> ToolCalls t = [] \<and> ToolCalls m = [] \<and> ToolCallID t = [] \<and> ToolCallID m = []"

definition add_turn :: "Message list \<Rightarrow> Message \<Rightarrow> Message list" where
  "add_turn turns m =
     (if turns \<noteq> [] \<and> mergeable (last turns) m
      then butlast turns @ [(last turns)\<lparr>MsgContent := MsgContent (last turns) @ nl2 @ MsgContent m\<rparr>]
      else turns @ [m])"

fun split_turns :: "Message list \<Rightarrow> string list \<times> Message list \<Rightarrow> string list \<times> Message list" where
  "split_turns [] st = st"
| "split_turns (m # ms) (system, turns) =
     (if Role m \<in> {''system'', ''developer''}
      then (let s = TrimSpace (MsgContent m) in
            split_turns ms (if s \<noteq> [] then system @ [s] else system, turns))
      else split_turns ms (system, add_turn turns m))"

definition SystemAndTurns :: "ChatRequest \<Rightarrow> string \<times> Message list" where
  "SystemAndTurns r = (let (system, turns) = split_turns (Messages r) ([], []) in (Join system nl2, turns))"

section \<open>Tools\<close>

definition FunctionTools :: "ChatRequest \<Rightarrow> Tool list" where
  "FunctionTools r =
     filter (\<lambda>t. (tool_Type t = [] \<or> tool_Type t = ''function'') \<and> tf_Name (tool_Function t) \<noteq> []) (Tools r)"

text \<open>A mode of the tool choice, with the forced function's name for \<open>function\<close>.\<close>

definition ToolChoiceMode :: "ChatRequest \<Rightarrow> string \<times> string" where
  "ToolChoiceMode r =
     (case ToolChoice r of
        None \<Rightarrow> (''auto'', [])
      | Some j \<Rightarrow>
          (case as_string j of
             Inr s \<Rightarrow> if s = ''none'' \<or> s = ''required'' then (s, []) else (''auto'', [])
           | Inl _ \<Rightarrow>
               (case as_fields j of
                  Inl _ \<Rightarrow> (''auto'', [])
                | Inr fs \<Rightarrow>
                    (case as_fields (fields_get fs ''function'') of
                       Inl _ \<Rightarrow> (''auto'', [])
                     | Inr f \<Rightarrow>
                         (case as_string (fields_get f ''name'') of
                            Inl _ \<Rightarrow> (''auto'', [])
                          | Inr name \<Rightarrow> if name \<noteq> [] then (''function'', name) else (''auto'', []))))))"

section \<open>What the split promises\<close>

text \<open>The tool calls and tool results of a conversation, in order: what a replayed history must keep.\<close>

definition tool_turns :: "Message list \<Rightarrow> Message list" where
  "tool_turns ms = filter (\<lambda>m. ToolCalls m \<noteq> [] \<or> ToolCallID m \<noteq> []) ms"

definition is_system :: "Message \<Rightarrow> bool" where
  "is_system m \<longleftrightarrow> Role m \<in> {''system'', ''developer''}"

definition text_of :: "string \<Rightarrow> Message list \<Rightarrow> string" where
  "text_of role ms = concat (map MsgContent (filter (\<lambda>m. Role m = role) ms))"

fun no_run :: "Message list \<Rightarrow> bool" where
  "no_run (a # b # ms) = (\<not> mergeable a b \<and> no_run (b # ms))"
| "no_run _ = True"

lemma no_run_snoc: "no_run (ms @ [m]) \<longleftrightarrow> no_run ms \<and> (ms = [] \<or> \<not> mergeable (last ms) m)"
  by (induction ms rule: no_run.induct) auto

lemma mergeable_content [simp]:
  "mergeable (a\<lparr>MsgContent := x\<rparr>) b = mergeable a b" "mergeable a (b\<lparr>MsgContent := x\<rparr>) = mergeable a b"
  by (simp_all add: mergeable_def)

lemma no_run_add_turn: "no_run turns \<Longrightarrow> no_run (add_turn turns m)"
  using no_run_snoc [of "butlast turns @ [last turns]" m]
  by (cases turns rule: rev_cases) (auto simp: add_turn_def no_run_snoc)

lemma tool_turns_add_turn: "tool_turns (add_turn turns m) = tool_turns turns @ tool_turns [m]"
  by (cases turns rule: rev_cases) (auto simp: add_turn_def tool_turns_def mergeable_def)

lemma tool_turns_Cons: "tool_turns (m # ms) = tool_turns [m] @ tool_turns ms"
  by (simp add: tool_turns_def)

lemma Role_add_turn: "Role ` set (add_turn turns m) = insert (Role m) (Role ` set turns)"
  by (cases turns rule: rev_cases) (auto simp: add_turn_def mergeable_def)

lemma split_turns_spec:
  "no_run turns \<Longrightarrow> split_turns ms (system, turns) = (system', turns') \<Longrightarrow>
    no_run turns' \<and> tool_turns turns' = tool_turns turns @ tool_turns (filter (\<lambda>m. \<not> is_system m) ms) \<and>
    Role ` set turns' = Role ` set turns \<union> Role ` set (filter (\<lambda>m. \<not> is_system m) ms) \<and>
    system' = system @ filter (\<lambda>s. s \<noteq> []) (map (\<lambda>m. TrimSpace (MsgContent m)) (filter is_system ms))"
proof (induction ms arbitrary: system turns)
  case (Cons m ms)
  show ?case
  proof (cases "is_system m")
    case True
    let ?s = "TrimSpace (MsgContent m)"
    from True Cons.prems have "split_turns ms (if ?s \<noteq> [] then system @ [?s] else system, turns) = (system', turns')"
      by (simp add: is_system_def Let_def)
    from Cons.IH [OF Cons.prems(1) this] True show ?thesis by simp
  next
    case False
    with Cons.prems have "split_turns ms (system, add_turn turns m) = (system', turns')"
      by (simp add: is_system_def)
    from Cons.IH [OF no_run_add_turn [OF Cons.prems(1)] this] False show ?thesis
      by (simp add: tool_turns_add_turn Role_add_turn tool_turns_Cons [of m "filter _ _"])
  qed
qed (simp add: tool_turns_def)

text \<open>
  The split a native dialect is built from: no two neighbouring plain turns have the same role (which
  Anthropic and Google reject), no turn is a system turn, every tool call and tool result stays a whole
  turn and in order, and the system prompt is the non-blank system texts, joined.
\<close>

theorem SystemAndTurns_correct:
  "case SystemAndTurns r of (system, turns) \<Rightarrow>
     no_run turns \<and>
     list_all (\<lambda>m. \<not> is_system m) turns \<and>
     tool_turns turns = tool_turns (filter (\<lambda>m. \<not> is_system m) (Messages r)) \<and>
     system = Join (filter (\<lambda>s. s \<noteq> []) (map (\<lambda>m. TrimSpace (MsgContent m)) (filter is_system (Messages r)))) nl2"
proof -
  obtain system turns where s: "split_turns (Messages r) ([], []) = (system, turns)" by fastforce
  from split_turns_spec [OF _ s] have spec: "no_run turns"
    "tool_turns turns = tool_turns (filter (\<lambda>m. \<not> is_system m) (Messages r))"
    "Role ` set turns = Role ` set (filter (\<lambda>m. \<not> is_system m) (Messages r))"
    "system = filter (\<lambda>s. s \<noteq> []) (map (\<lambda>m. TrimSpace (MsgContent m)) (filter is_system (Messages r)))"
    by (simp_all add: tool_turns_def)
  have "\<not> is_system t" if "t \<in> set turns" for t
  proof -
    from that have "Role t \<in> Role ` set (filter (\<lambda>m. \<not> is_system m) (Messages r))"
      unfolding spec(3) [symmetric] by (rule imageI)
    then show ?thesis by (auto simp: is_system_def)
  qed
  with spec show ?thesis by (simp add: SystemAndTurns_def s list_all_iff)
qed

end
