(* ===== verification/Planning.thy ===== *)
theory Planning
  imports Health Chat
begin

text \<open>
  How a request becomes an ordered chain of candidates (\<open>internal/gateway/gateway.go\<close>, from \<open>intentFor\<close> to
  \<open>unroutable\<close>, and \<open>Plan\<close>). Asking whether a model is benched forgets an expired entry, so every function
  that asks takes the health memory and returns it with its answer. One planning call takes one reading of
  the clock, \<open>now\<close>: the code reads it again for each question, a moment later.
\<close>

section \<open>State a plan is made from\<close>

type_synonym keys = "(string, string) gomap"

record Gateway =
  cfg :: Config
  registry :: Registry
  specs :: "Spec list"
  catalog :: Catalog
  freeOnlyFlag :: bool

text \<open>
  The orders in which the run time visits \<open>c.discovered\<close>: in \<open>FreeModels\<close> and \<open>Discovered\<close>, in the
  \<open>Resolve\<close> of \<open>placements\<close> and in the \<open>Resolve\<close> of the checks that follow, for each model name.
\<close>

record ranges =
  whole :: "string list"
  placing :: "string \<Rightarrow> string list"
  resolving :: "string \<Rightarrow> string list"

definition SetFreeOnly :: "bool \<Rightarrow> Gateway \<Rightarrow> Gateway" where
  "SetFreeOnly on g = g\<lparr>freeOnlyFlag := on\<rparr>"

definition keyed :: "keys \<Rightarrow> string \<Rightarrow> bool" where
  "keyed keys name \<longleftrightarrow> gm_at [] keys name \<noteq> []"

section \<open>Sentinels\<close>

definition autoSentinel :: string where "autoSentinel = ''auto''"
definition freeSentinel :: string where "freeSentinel = ''auto:free''"
definition codeSentinel :: string where "codeSentinel = ''auto:code''"
definition chatSentinel :: string where "chatSentinel = ''auto:chat''"
definition fastSentinel :: string where "fastSentinel = ''auto:fast''"
definition cheapSentinel :: string where "cheapSentinel = ''auto:cheap''"

lemmas sentinel_defs = autoSentinel_def freeSentinel_def codeSentinel_def chatSentinel_def
  fastSentinel_def cheapSentinel_def

record sentinelIntent =
  in_task :: TaskType
  in_objective :: Objective
  in_freeOnly :: bool
  in_known :: bool

definition no_intent :: sentinelIntent where
  "no_intent = \<lparr>in_task = [], in_objective = [], in_freeOnly = False, in_known = False\<rparr>"

definition intentFor :: "string \<Rightarrow> sentinelIntent" where
  "intentFor m =
     (let s = ToLower (TrimSpace m) in
      if s = autoSentinel \<or> s = [] then no_intent\<lparr>in_known := True\<rparr>
      else if s = freeSentinel then no_intent\<lparr>in_freeOnly := True, in_known := True\<rparr>
      else if s = codeSentinel then
        no_intent\<lparr>in_task := TaskCodeGeneration, in_objective := ObjectiveBalanced, in_known := True\<rparr>
      else if s = chatSentinel then
        no_intent\<lparr>in_task := TaskConversation, in_objective := ObjectiveBalanced, in_known := True\<rparr>
      else if s = fastSentinel then no_intent\<lparr>in_objective := ObjectiveLatency, in_known := True\<rparr>
      else if s = cheapSentinel then no_intent\<lparr>in_objective := ObjectiveCost, in_known := True\<rparr>
      else no_intent)"

definition Sentinels :: "string list" where
  "Sentinels = [autoSentinel, freeSentinel, codeSentinel, chatSentinel, fastSentinel, cheapSentinel]"

definition gw_freeOnly :: "Gateway \<Rightarrow> string \<Rightarrow> bool" where
  "gw_freeOnly g m \<longleftrightarrow> freeOnlyFlag g \<or> in_freeOnly (intentFor m)"

definition smartRouting :: "Gateway \<Rightarrow> string \<Rightarrow> bool" where
  "smartRouting g m \<longleftrightarrow>
     (if RoutingMode (cfg g) = ''always'' then True
      else if RoutingMode (cfg g) = ''off'' then False
      else m = [] \<or> EqualFold m (RouterModel (cfg g)) \<or> in_known (intentFor m))"

definition objectiveFor :: "Gateway \<Rightarrow> sentinelIntent \<Rightarrow> Objective" where
  "objectiveFor g intent =
     (if in_objective intent \<noteq> [] then in_objective intent else RoutingObjective (cfg g))"

definition lastUserPrompt :: "ChatRequest \<Rightarrow> string" where
  "lastUserPrompt req =
     (case find (\<lambda>m. Role m = ''user'') (rev (Messages req)) of
        Some m \<Rightarrow> MsgContent m
      | None \<Rightarrow> if Messages req \<noteq> [] then MsgContent (last (Messages req)) else [])"

section \<open>Where a named model is served\<close>

definition nativeProviderFor :: "string \<Rightarrow> string" where
  "nativeProviderFor m =
     (let s = ToLower m in
      if HasPrefix s ''gpt-'' \<or> HasPrefix s ''chatgpt'' \<or> HasPrefix s ''o1'' \<or> HasPrefix s ''o3'' \<or> HasPrefix s ''o4''
      then ''openai''
      else if HasPrefix s ''claude'' then ''anthropic''
      else if HasPrefix s ''gemini'' then ''google''
      else [])"

definition placements :: "ranges \<Rightarrow> Gateway \<Rightarrow> string \<Rightarrow> candidate list" where
  "placements r g model0 =
     (let m = TrimSpace model0 in
      if m = [] then []
      else let (prefix, rest, found) = Cut m CHR '':'' in
        if found \<and> gm_has (registry g) prefix \<and> rest \<noteq> [] then [cand prefix rest]
        else let out = map profile_cand (Resolve (placing r m) (catalog g) m) in
          if out \<noteq> [] then out
          else let name = nativeProviderFor m in
            if name \<noteq> [] then [cand name m] else [])"

definition filterToKeyed :: "candidate list \<Rightarrow> keys \<Rightarrow> candidate list" where
  "filterToKeyed cs keys = filter (\<lambda>c. keyed keys (cand_provider c)) cs"

section \<open>Screening candidates\<close>

definition available :: "time \<Rightarrow> Gateway \<Rightarrow> candidate \<Rightarrow> Health \<Rightarrow> bool \<times> Health" where
  "available now g c h =
     (let (b, h1) = benched now c h in
      if b then (False, h1)
      else (\<not> (AnyConfirmed (catalog g) \<and> \<not> Confirmed (catalog g) (cand_provider c) (cand_model c)), h1))"

fun free_available :: "time \<Rightarrow> Gateway \<Rightarrow> candidate \<Rightarrow> ModelProfile list \<Rightarrow> Health \<Rightarrow> bool \<times> Health" where
  "free_available now g c [] h = (False, h)"
| "free_available now g c (p # ps) h =
     (if Provider p = cand_provider c \<and> Free p then
        (let (a, h1) = available now g c h in if a then (True, h1) else free_available now g c ps h1)
      else free_available now g c ps h)"

fun keep_free :: "ranges \<Rightarrow> time \<Rightarrow> Gateway \<Rightarrow> candidate list \<Rightarrow> Health \<Rightarrow> candidate list \<times> Health" where
  "keep_free r now g [] h = ([], h)"
| "keep_free r now g (c # cs) h =
     (let (a, h1) = free_available now g c (Resolve (resolving r (cand_model c)) (catalog g) (cand_model c)) h;
          (out, h2) = keep_free r now g cs h1
      in (if a then c # out else out, h2))"

definition freeNamed ::
  "ranges \<Rightarrow> time \<Rightarrow> Gateway \<Rightarrow> string \<Rightarrow> keys \<Rightarrow> Health \<Rightarrow> candidate list \<times> Health" where
  "freeNamed r now g m keys h =
     (if m = [] \<or> EqualFold (TrimSpace m) freeSentinel then ([], h)
      else keep_free r now g (filterToKeyed (placements r g m) keys) h)"

fun usable :: "time \<Rightarrow> Gateway \<Rightarrow> keys \<Rightarrow> candidate list \<Rightarrow> Health \<Rightarrow> candidate list \<times> Health" where
  "usable now g keys [] h = ([], h)"
| "usable now g keys (c # cs) h =
     (if \<not> keyed keys (cand_provider c) then usable now g keys cs h
      else let (b, h1) = benched now c h in
        if b then usable now g keys cs h1
        else if \<not> ServesModel (catalog g) (cand_provider c) (cand_model c) then usable now g keys cs h1
        else let (out, h2) = usable now g keys cs h1 in (c # out, h2))"

definition restrictToTagged :: "Gateway \<Rightarrow> ModelProfile list \<Rightarrow> TaskType \<Rightarrow> ModelProfile list" where
  "restrictToTagged g pool task =
     (case TaggedFor (catalog g) pool task of None \<Rightarrow> pool | Some tagged \<Rightarrow> tagged)"

section \<open>Building the automatic chain\<close>

text \<open>The first loop: each provider's models up to the depth, and the providers in order of first sight.\<close>

fun pick_collect ::
  "nat \<Rightarrow> time \<Rightarrow> keys \<Rightarrow> ModelProfile list \<Rightarrow> (string, candidate list) gomap \<Rightarrow> string list \<Rightarrow> Health \<Rightarrow>
    (string, candidate list) gomap \<times> string list \<times> Health" where
  "pick_collect depth now keys [] per order h = (per, order, h)"
| "pick_collect depth now keys (p # ps) per order h =
     (if \<not> keyed keys (Provider p) then pick_collect depth now keys ps per order h
      else let (b, h1) = benched now (profile_cand p) h in
        if b then pick_collect depth now keys ps per order h1
        else let
          order' = (if gm_has per (Provider p) then order else order @ [Provider p]);
          got = gm_at [] per (Provider p);
          per' = (if length got < depth then gm_set (Provider p) (got @ [profile_cand p]) per else per)
        in pick_collect depth now keys ps per' order' h1)"

fun pick_round ::
  "nat \<Rightarrow> (string, candidate list) gomap \<Rightarrow> nat \<Rightarrow> string list \<Rightarrow> candidate list \<Rightarrow> candidate list" where
  "pick_round limit per rnd [] out = out"
| "pick_round limit per rnd (name # names) out =
     (let cs = gm_at [] per name in
      if length cs \<le> rnd then pick_round limit per rnd names out
      else let out' = out @ [cs ! rnd] in
        if length out' = limit then out' else pick_round limit per rnd names out')"

text \<open>\<open>n\<close> rounds are left; the loop also ends when the chain has reached the limit.\<close>

fun pick_rounds ::
  "nat \<Rightarrow> (string, candidate list) gomap \<Rightarrow> string list \<Rightarrow> nat \<Rightarrow> nat \<Rightarrow> candidate list \<Rightarrow> candidate list" where
  "pick_rounds limit per order rnd 0 out = out"
| "pick_rounds limit per order rnd (Suc n) out =
     (if length out < limit
      then pick_rounds limit per order (Suc rnd) n (pick_round limit per rnd order out)
      else out)"

definition pick_depth :: "Gateway \<Rightarrow> nat" where
  "pick_depth g = (if AttemptsPerProvider (cfg g) < 1 then 1 else nat (AttemptsPerProvider (cfg g)))"

definition pick_limit :: "Gateway \<Rightarrow> string list \<Rightarrow> nat" where
  "pick_limit g order =
     (let limit = MaxAttempts (cfg g);
          limit1 = (if limit < int (length order) then int (length order) else limit)
      in if limit1 < 1 then 1 else nat limit1)"

definition pickOnePerProvider ::
  "time \<Rightarrow> Gateway \<Rightarrow> ModelProfile list \<Rightarrow> keys \<Rightarrow> Health \<Rightarrow> candidate list \<times> Health" where
  "pickOnePerProvider now g pool keys h =
     (let (per, order, h1) = pick_collect (pick_depth g) now keys pool [] [] h
      in (pick_rounds (pick_limit g order) per order 0 (pick_depth g) [], h1))"

definition specialisationMarkers :: "string list" where
  "specialisationMarkers =
     [''tts'', ''text-to-speech'', ''speech'', ''audio'', ''voice'',
      ''image'', ''vision-only'', ''video'', ''embed'', ''embedding'', ''rerank'',
      ''deep-research'', ''computer-use'', ''guard'', ''moderation'',
      ''transcribe'', ''whisper'', ''ocr'', ''live'', ''realtime'', ''interactions'']"

definition specialised :: "string \<Rightarrow> bool" where
  "specialised m = contains_any (ToLower m) specialisationMarkers"

definition general_less :: "ModelProfile \<Rightarrow> ModelProfile \<Rightarrow> bool" where
  "general_less p q \<longleftrightarrow> \<not> specialised (Model p) \<and> specialised (Model q)"

interpretation by_general: stable_order general_less "\<lambda>p. specialised (Model p)"
  by unfold_locales (auto simp: general_less_def)

definition discoveredCandidates ::
  "ranges \<Rightarrow> time \<Rightarrow> Gateway \<Rightarrow> keys \<Rightarrow> TaskType \<Rightarrow> sentinelIntent \<Rightarrow> Health \<Rightarrow> candidate list \<times> Health" where
  "discoveredCandidates r now g keys task intent h =
     (let pool = restrictToTagged g (Discovered (whole r) (catalog g)) task;
          pool1 = RankForTask pool task (objectiveFor g intent);
          pool2 = slice_stable general_less pool1;
          pool3 = PreferConfirmed (catalog g) pool2
      in pickOnePerProvider now g pool3 keys h)"

definition freeCandidates ::
  "ranges \<Rightarrow> time \<Rightarrow> Gateway \<Rightarrow> keys \<Rightarrow> TaskType \<Rightarrow> sentinelIntent \<Rightarrow> Health \<Rightarrow> candidate list \<times> Health" where
  "freeCandidates r now g keys task intent h =
     (let pool = restrictToTagged g (FreeModels (whole r) (catalog g)) task;
          pool1 = ConfirmedOnly (catalog g) pool;
          pool2 = RankForTask pool1 task (objectiveFor g intent)
      in pickOnePerProvider now g (PreferConfirmed (catalog g) pool2) keys h)"

fun first_per_provider :: "string list \<Rightarrow> ModelProfile list \<Rightarrow> candidate list" where
  "first_per_provider seen [] = []"
| "first_per_provider seen (p # ps) =
     (if Provider p \<in> set seen then first_per_provider seen ps
      else profile_cand p # first_per_provider (Provider p # seen) ps)"

definition rankedCandidates :: "Gateway \<Rightarrow> TaskType \<Rightarrow> sentinelIntent \<Rightarrow> candidate list" where
  "rankedCandidates g task intent =
     (let ranked = Rank (catalog g) task (objectiveFor g intent) in
      first_per_provider []
        (case TaggedFor (catalog g) ranked task of None \<Rightarrow> ranked | Some tagged \<Rightarrow> tagged))"

section \<open>The model the caller named\<close>

text \<open>\<open>collect\<close> with the map \<open>seen\<close> it shares between its two calls.\<close>

definition seen_key :: "candidate \<Rightarrow> string" where
  "seen_key c = cand_provider c @ CHR 0x00 # cand_model c"

fun collect :: "candidate list \<Rightarrow> string list \<Rightarrow> candidate list \<times> string list" where
  "collect [] seen = ([], seen)"
| "collect (c # cs) seen =
     (if seen_key c \<in> set seen then collect cs seen
      else let (out, seen') = collect cs (seen_key c # seen) in (c # out, seen'))"

definition namedCandidates ::
  "ranges \<Rightarrow> time \<Rightarrow> Gateway \<Rightarrow> string \<Rightarrow> keys \<Rightarrow> Health \<Rightarrow> candidate list \<times> Health" where
  "namedCandidates r now g model0 keys h =
     (let m = (if model0 = [] then DefaultModel (cfg g) else model0);
          (out, seen) = collect (filterToKeyed (placements r g m) keys) [];
          fallbacks = concat (map (placements r g) (FallbackModels (cfg g)));
          (u, h1) = usable now g keys fallbacks h
      in (out @ fst (collect u seen), h1))"

section \<open>The plan\<close>

definition planCandidates ::
  "ranges \<Rightarrow> time \<Rightarrow> Gateway \<Rightarrow> ChatRequest \<Rightarrow> keys \<Rightarrow> Health \<Rightarrow> (candidate list \<times> TaskType) \<times> Health" where
  "planCandidates r now g req keys h =
     (let detected = DetectTask (lastUserPrompt req);
          intent = intentFor (ReqModel req);
          task = (if in_task intent \<noteq> [] then in_task intent else detected)
      in if gw_freeOnly g (ReqModel req) then
           (let (named, h1) = freeNamed r now g (ReqModel req) keys h in
            if named \<noteq> [] then ((named, task), h1)
            else let m = TrimSpace (ReqModel req) in
              if m \<noteq> [] \<and> \<not> EqualFold m freeSentinel \<and> \<not> in_known (intentFor m) then (([], task), h1)
              else let (cs, h2) = freeCandidates r now g keys task intent h1 in ((cs, task), h2))
         else if smartRouting g (ReqModel req) then
           (let (cs, h1) = usable now g keys (rankedCandidates g task intent) h in
            if cs = [] then
              (let (ds, h2) = discoveredCandidates r now g keys task intent h1 in ((ds, task), h2))
            else ((cs, task), h1))
         else
           (let (cs, h1) = namedCandidates r now g (ReqModel req) keys h in ((cs, detected), h1)))"

definition excludeBlacklisted :: "Gateway \<Rightarrow> candidate list \<Rightarrow> candidate list" where
  "excludeBlacklisted g cs = filter (\<lambda>c. \<not> Blacklisted (catalog g) (cand_provider c) (cand_model c)) cs"

definition plan ::
  "ranges \<Rightarrow> time \<Rightarrow> Gateway \<Rightarrow> ChatRequest \<Rightarrow> keys \<Rightarrow> Health \<Rightarrow> (candidate list \<times> TaskType) \<times> Health" where
  "plan r now g req keys h =
     (let ((cs, task), h1) = planCandidates r now g req keys h in ((excludeBlacklisted g cs, task), h1))"

section \<open>Why a request found no candidate\<close>

datatype Unroutable =
    NoKeysStored
  | NamedRefusingTraffic string
  | NamedNotFree string
  | NoFreeModelsKnown "string list"
  | MarkedModelsUnavailable TaskType "string list"
  | NothingDiscovered "string list"
  | NothingServes string "string list"

fun refusing_at :: "time \<Rightarrow> Gateway \<Rightarrow> candidate \<Rightarrow> ModelProfile list \<Rightarrow> Health \<Rightarrow> bool \<times> Health" where
  "refusing_at now g c [] h = (False, h)"
| "refusing_at now g c (p # ps) h =
     (if Provider p = cand_provider c \<and> Free p then
        (let (a, h1) = available now g c h in if \<not> a then (True, h1) else refusing_at now g c ps h1)
      else refusing_at now g c ps h)"

fun any_refusing :: "ranges \<Rightarrow> time \<Rightarrow> Gateway \<Rightarrow> candidate list \<Rightarrow> Health \<Rightarrow> bool \<times> Health" where
  "any_refusing r now g [] h = (False, h)"
| "any_refusing r now g (c # cs) h =
     (let (b, h1) = refusing_at now g c (Resolve (resolving r (cand_model c)) (catalog g) (cand_model c)) h in
      if b then (True, h1) else any_refusing r now g cs h1)"

text \<open>\<open>stored\<close> is the second reading of the keys; \<open>None\<close> when the read fails.\<close>

definition namedButUnavailable ::
  "ranges \<Rightarrow> time \<Rightarrow> Gateway \<Rightarrow> string \<Rightarrow> keys option \<Rightarrow> Health \<Rightarrow> bool \<times> Health" where
  "namedButUnavailable r now g m stored h =
     (case stored of
        None \<Rightarrow> (False, h)
      | Some keys \<Rightarrow> any_refusing r now g (filterToKeyed (placements r g m) keys) h)"

definition unroutable ::
  "ranges \<Rightarrow> time \<Rightarrow> Gateway \<Rightarrow> ChatRequest \<Rightarrow> keys \<Rightarrow> keys option \<Rightarrow> Health \<Rightarrow> Unroutable \<times> Health" where
  "unroutable r now g req keys stored h =
     (let names = sort (filter (keyed keys) (map fst (registry g))) in
      if names = [] then (NoKeysStored, h)
      else if gw_freeOnly g (ReqModel req) then
        (let m = TrimSpace (ReqModel req) in
         if m \<noteq> [] \<and> \<not> in_known (intentFor m) then
           (let (refusing, h1) = namedButUnavailable r now g (ReqModel req) stored h in
            (if refusing then NamedRefusingTraffic m else NamedNotFree m, h1))
         else (NoFreeModelsKnown names, h))
      else if smartRouting g (ReqModel req) then
        (let intent = intentFor (ReqModel req);
             task = (if in_task intent \<noteq> [] then in_task intent else DetectTask (lastUserPrompt req))
         in if HasTagsFor (catalog g) task then (MarkedModelsUnavailable task names, h)
            else (NothingDiscovered names, h))
      else
        (let m = (if ReqModel req = [] then DefaultModel (cfg g) else ReqModel req) in
         (NothingServes m names, h)))"

section \<open>The dry run\<close>

record PlannedStep =
  ps_Provider :: string
  ps_Model :: string
  Benched :: bool
  Cooldown :: bool

fun planned_steps :: "time \<Rightarrow> candidate list \<Rightarrow> Health \<Rightarrow> PlannedStep list \<times> Health" where
  "planned_steps now [] h = ([], h)"
| "planned_steps now (c # cs) h =
     (let (b, h1) = benched now c h;
          step = \<lparr>ps_Provider = cand_provider c, ps_Model = cand_model c, Benched = b,
                  Cooldown = \<not> allow now (cand_provider c) h1\<rparr>;
          (rest, h2) = planned_steps now cs h1
      in (step # rest, h2))"

definition Plan ::
  "ranges \<Rightarrow> time \<Rightarrow> Gateway \<Rightarrow> string \<Rightarrow> keys option \<Rightarrow> Health \<Rightarrow>
    (PlannedStep list \<times> TaskType \<times> Unroutable option) option \<times> Health" where
  "Plan r now g m stored h =
     (case stored of
        None \<Rightarrow> (None, h)
      | Some keys \<Rightarrow>
          (let req = model_request m [text_message ''user'' ''hello''];
               ((cs, task), h1) = plan r now g req keys h;
               (steps, h2) = planned_steps now cs h1
           in if steps = [] then
                (let (why, h3) = unroutable r now g req keys stored h2 in (Some (steps, task, Some why), h3))
              else (Some (steps, task, None), h2)))"

end
