(* ===== verification/Live.thy ===== *)
theory Live
  imports Health
begin

text \<open>
  \<open>internal/gateway/live.go\<close>: the attempts in flight and the last one to finish, as the dashboard's status
  view reads them. Each operation holds the lock for its whole body; \<open>now\<close> is its reading of the clock. The
  view sorts with \<open>sort.Slice\<close>, which leaves the order of equal start times open; the model keeps theirs.
\<close>

section \<open>State\<close>

record LiveCall =
  lc_Provider :: string
  lc_Model :: string
  lc_Requested :: string
  lc_Task :: string
  Streaming :: bool
  StartedAt :: time
  ElapsedMs :: int

record LastCall =
  last_Provider :: string
  last_Model :: string
  last_Requested :: string
  last_Task :: string
  last_Status :: string
  CacheHit :: bool
  LatencyOfLast :: int
  FinishedAt :: time
  AgoMs :: int
  Failure :: string

record LiveStatus =
  Active :: "LiveCall list"
  Last :: "LastCall option"

record liveState =
  seq_no :: int
  inFlight :: "(int, LiveCall) gomap"
  last_call :: "LastCall option"

definition newLiveState :: liveState where
  "newLiveState = \<lparr>seq_no = 0, inFlight = [], last_call = None\<rparr>"

definition cacheProvider :: string where "cacheProvider = ''cache''"

section \<open>Operations\<close>

definition new_call :: "time \<Rightarrow> candidate \<Rightarrow> string \<Rightarrow> TaskType \<Rightarrow> bool \<Rightarrow> LiveCall" where
  "new_call now c requested task streaming =
     \<lparr>lc_Provider = cand_provider c, lc_Model = cand_model c, lc_Requested = requested,
      lc_Task = task, Streaming = streaming, StartedAt = now, ElapsedMs = 0\<rparr>"

definition live_begin ::
  "time \<Rightarrow> candidate \<Rightarrow> string \<Rightarrow> TaskType \<Rightarrow> bool \<Rightarrow> liveState \<Rightarrow> int \<times> liveState" where
  "live_begin now c requested task streaming l =
     (let i = seq_no l + 1 in
      (i, l\<lparr>seq_no := i,
        inFlight := gm_set i (new_call now c requested task streaming) (inFlight l)\<rparr>))"

definition live_end :: "time \<Rightarrow> int \<Rightarrow> string \<Rightarrow> string \<Rightarrow> duration \<Rightarrow> liveState \<Rightarrow> liveState" where
  "live_end now i status failure latency l =
     (case map_of (inFlight l) i of
        None \<Rightarrow> l
      | Some call \<Rightarrow>
          l\<lparr>inFlight := gm_del i (inFlight l),
            last_call := Some \<lparr>last_Provider = lc_Provider call, last_Model = lc_Model call,
              last_Requested = lc_Requested call, last_Task = lc_Task call, last_Status = status,
              CacheHit = False, LatencyOfLast = Milliseconds latency, FinishedAt = now, AgoMs = 0,
              Failure = failure\<rparr>\<rparr>)"

definition servedFromCache ::
  "time \<Rightarrow> string \<Rightarrow> string \<Rightarrow> TaskType \<Rightarrow> duration \<Rightarrow> liveState \<Rightarrow> liveState" where
  "servedFromCache now requested m task latency l =
     l\<lparr>last_call := Some \<lparr>last_Provider = cacheProvider, last_Model = m, last_Requested = requested,
        last_Task = task, last_Status = ''success'', CacheHit = True, LatencyOfLast = Milliseconds latency,
        FinishedAt = now, AgoMs = 0, Failure = []\<rparr>\<rparr>"

definition started_before :: "LiveCall \<Rightarrow> LiveCall \<Rightarrow> bool" where
  "started_before a b \<longleftrightarrow> StartedAt a < StartedAt b"

definition snapshot :: "time \<Rightarrow> int list \<Rightarrow> liveState \<Rightarrow> LiveStatus" where
  "snapshot now ord l =
     \<lparr>Active = slice_stable started_before
        (map (\<lambda>c. c\<lparr>ElapsedMs := Milliseconds (now - StartedAt c)\<rparr>) (range_vals ord (inFlight l))),
      Last = map_option (\<lambda>c. c\<lparr>AgoMs := Milliseconds (now - FinishedAt c)\<rparr>) (last_call l)\<rparr>"

interpretation by_start: stable_order started_before StartedAt
  by unfold_locales (simp add: started_before_def)

section \<open>What the view shows\<close>

datatype live_op =
    Begun time candidate string TaskType bool
  | Ended time int string string duration
  | Cached time string string TaskType duration

fun live_exec :: "live_op \<Rightarrow> liveState \<Rightarrow> liveState" where
  "live_exec (Begun now c req task streaming) l = snd (live_begin now c req task streaming l)"
| "live_exec (Ended now i status failure lat) l = live_end now i status failure lat l"
| "live_exec (Cached now req m task lat) l = servedFromCache now req m task lat l"

definition live_run :: "live_op list \<Rightarrow> liveState" where
  "live_run ops = fold live_exec ops newLiveState"

fun is_begun :: "live_op \<Rightarrow> bool" where
  "is_begun (Begun now c req task streaming) = True"
| "is_begun _ = False"

definition begun :: "live_op list \<Rightarrow> nat" where
  "begun ops = length (filter is_begun ops)"

fun ends :: "int \<Rightarrow> live_op \<Rightarrow> bool" where
  "ends i (Ended now j status failure lat) = (j = i)"
| "ends i _ = False"

text \<open>The attempts still running: begun with this number, and not ended by it since.\<close>

definition running :: "live_op list \<Rightarrow> int \<Rightarrow> LiveCall \<Rightarrow> bool" where
  "running ops i call \<longleftrightarrow>
     (\<exists>pre now c req task streaming post.
        ops = pre @ Begun now c req task streaming # post \<and> i = int (begun pre) + 1 \<and>
        list_all (\<lambda>op. \<not> ends i op) post \<and>
        call = new_call now c req task streaming)"

lemma begun_snoc [simp]: "begun (ops @ [op]) = begun ops + (if is_begun op then 1 else 0)"
  by (simp add: begun_def)

lemma seq_no_live_run: "seq_no (live_run ops) = int (begun ops)"
proof (induction ops rule: rev_induct)
  case (snoc op ops)
  then show ?case
    by (cases op) (simp_all add: live_run_def live_begin_def live_end_def servedFromCache_def Let_def split: option.splits)
qed (simp add: live_run_def newLiveState_def begun_def)

lemma running_snoc:
  "running (ops @ [op]) i call \<longleftrightarrow>
     (running ops i call \<and> \<not> ends i op) \<or>
     (\<exists>now c req task streaming. op = Begun now c req task streaming \<and> i = int (begun ops) + 1 \<and>
        call = new_call now c req task streaming)"
proof
  assume "running (ops @ [op]) i call"
  then obtain pre now c req task streaming post where
    o: "ops @ [op] = pre @ Begun now c req task streaming # post" and i: "i = int (begun pre) + 1" and
    n: "list_all (\<lambda>op. \<not> ends i op) post" and call: "call = new_call now c req task streaming"
    by (auto simp: running_def)
  show "(running ops i call \<and> \<not> ends i op) \<or> (\<exists>now c req task streaming. op = Begun now c req task streaming \<and>
      i = int (begun ops) + 1 \<and> call = new_call now c req task streaming)"
  proof (cases post rule: rev_cases)
    case Nil
    with o i call show ?thesis by auto
  next
    case (snoc post' op')
    with o n have "op' = op" "ops = pre @ Begun now c req task streaming # post'" "\<not> ends i op"
      "list_all (\<lambda>op. \<not> ends i op) post'" by auto
    with i call show ?thesis unfolding running_def by blast
  qed
next
  assume "(running ops i call \<and> \<not> ends i op) \<or> (\<exists>now c req task streaming. op = Begun now c req task streaming \<and>
      i = int (begun ops) + 1 \<and> call = new_call now c req task streaming)"
  then show "running (ops @ [op]) i call"
  proof (elim disjE conjE exE)
    assume "running ops i call" and n: "\<not> ends i op"
    then obtain pre now c req task streaming post where
      "ops @ [op] = pre @ Begun now c req task streaming # (post @ [op])" and "i = int (begun pre) + 1" and
      "list_all (\<lambda>op. \<not> ends i op) (post @ [op])" and "call = new_call now c req task streaming"
      by (auto simp: running_def)
    then show ?thesis unfolding running_def by blast
  next
    fix now c req task streaming
    assume "op = Begun now c req task streaming" "i = int (begun ops) + 1" "call = new_call now c req task streaming"
    then have "ops @ [op] = ops @ Begun now c req task streaming # []" "i = int (begun ops) + 1"
      "list_all (\<lambda>op. \<not> ends i op) []" "call = new_call now c req task streaming" by simp_all
    then show ?thesis unfolding running_def by blast
  qed
qed

lemma running_id: "running ops i call \<Longrightarrow> 1 \<le> i \<and> i \<le> int (begun ops)"
  by (auto simp: running_def begun_def)

lemma live_run_inFlight: "gm_ok (inFlight (live_run ops)) \<and> (map_of (inFlight (live_run ops)) i = Some call \<longleftrightarrow> running ops i call)"
proof (induction ops arbitrary: i call rule: rev_induct)
  case Nil
  then show ?case by (simp add: live_run_def newLiveState_def running_def)
next
  case (snoc op ops)
  let ?l = "live_run ops"
  have run: "live_run (ops @ [op]) = live_exec op ?l" by (simp add: live_run_def)
  have ok: "gm_ok (inFlight ?l)" and IH: "\<And>i call. map_of (inFlight ?l) i = Some call \<longleftrightarrow> running ops i call"
    using snoc by blast+
  show ?case
  proof (cases op)
    case (Begun now c req task streaming)
    have "\<not> running ops (int (begun ops) + 1) call" for call using running_id by fastforce
    with ok IH Begun show ?thesis unfolding run running_snoc
      by (auto simp: live_begin_def Let_def seq_no_live_run simp del: map_of_eq_Some_iff)
  next
    case (Ended now j status failure lat)
    show ?thesis
    proof (cases "map_of (inFlight ?l) j")
      case None
      with IH have "\<not> running ops j call" for call by (metis option.distinct(1))
      with None ok IH Ended show ?thesis unfolding run running_snoc
        by (auto simp: live_end_def simp del: map_of_eq_Some_iff)
    next
      case (Some call')
      have e: "inFlight (live_exec op ?l) = gm_del j (inFlight ?l)" by (simp add: Ended live_end_def Some)
      show ?thesis unfolding run running_snoc e
        using ok IH [of i call] by (auto simp: Ended simp del: map_of_eq_Some_iff)
    qed
  next
    case (Cached now req m task lat)
    with ok IH show ?thesis unfolding run running_snoc
      by (auto simp: servedFromCache_def simp del: map_of_eq_Some_iff)
  qed
qed

text \<open>
  After any interleaving of attempts and cache hits, the status view lists exactly the attempts that
  have begun and not ended, each once and with its own elapsed time, longest-running first, whatever order
  the run time visits the map in.
\<close>

theorem live_view_exact:
  assumes "range_order ord (inFlight (live_run ops))"
  shows "sorted (map StartedAt (Active (snapshot now ord (live_run ops)))) \<and>
    length (Active (snapshot now ord (live_run ops))) = card {i. \<exists>call. running ops i call} \<and>
    set (Active (snapshot now ord (live_run ops))) =
      {call\<lparr>ElapsedMs := Milliseconds (now - StartedAt call)\<rparr> | call. \<exists>i. running ops i call}"
proof -
  let ?m = "inFlight (live_run ops)"
  have m: "map_of ?m i = Some call \<longleftrightarrow> running ops i call" for i call using live_run_inFlight by blast
  have keys: "fst ` set ?m = {i. \<exists>call. running ops i call}"
    unfolding m [symmetric] by (auto simp flip: dom_map_of_conv_image_fst)
  have len: "length (range_vals ord ?m) = length ord"
  proof -
    have "length (List.map_filter (map_of ?m) xs) = length xs" if "set xs \<subseteq> fst ` set ?m" for xs
      using that
    proof (induction xs)
      case (Cons x xs)
      then obtain v where "map_of ?m x = Some v" by (cases "map_of ?m x") (auto simp: map_of_eq_None_iff)
      with Cons show ?case by (simp add: map_filter_def)
    qed (simp add: map_filter_def)
    then show ?thesis using assms by (simp add: range_vals_def range_order_def)
  qed
  have "length ord = card {i. \<exists>call. running ops i call}"
    using assms keys by (metis distinct_card range_order_def)
  moreover have "set (range_vals ord ?m) = {call. \<exists>i. running ops i call}"
    using set_range_vals_all [OF assms] m by simp
  moreover have "sorted (map StartedAt (Active (snapshot now ord (live_run ops))))"
    unfolding snapshot_def by (simp add: by_start.sorted_slice_stable)
  ultimately show ?thesis by (auto simp: snapshot_def len)
qed

lemma live_view_exact_witness:
  "length (Active (snapshot 9 [2] (live_run [Begun 1 (cand ''groq'' ''a'') ''auto'' ''conversation'' True,
     Begun 3 (cand ''xai'' ''b'') ''auto'' ''conversation'' False, Ended 5 1 ''error'' ''timeout'' 4]))) =
   card {i. \<exists>call. running [Begun 1 (cand ''groq'' ''a'') ''auto'' ''conversation'' True,
     Begun 3 (cand ''xai'' ''b'') ''auto'' ''conversation'' False, Ended 5 1 ''error'' ''timeout'' 4] i call}"
proof -
  let ?ops = "[Begun 1 (cand ''groq'' ''a'') ''auto'' ''conversation'' True,
     Begun 3 (cand ''xai'' ''b'') ''auto'' ''conversation'' False, Ended 5 1 ''error'' ''timeout'' 4]"
  have "range_order [2] (inFlight (live_run ?ops))"
    by (simp add: range_order_def live_run_def newLiveState_def live_begin_def live_end_def Let_def)
  from live_view_exact [OF this, of 9] show ?thesis by blast
qed

end
