(* ===== verification/Semantic_Cache.thy ===== *)
theory Semantic_Cache
  imports Chat "HOL-Library.Word"
begin

text \<open>
  \<open>internal/cache/semantic.go\<close>: the store of completions found by similarity. The table \<open>cache_entries\<close> is
  a list of rows and each SQL statement of the code is the function of the rows it denotes. The embedder
  (theory \<open>Embeddings\<close>) and pgvector's cosine distance, which is not part of the repository, are the functions
  \<open>embed\<close> and \<open>dist\<close> of a record. A database error is an argument, since it may come at any call.
\<close>

section \<open>State\<close>

type_synonym vec = "rat list"

datatype Embedding = NoEmbeddingKey | EmbedFails | Embedded vec

record vectors =
  embed :: "string \<Rightarrow> Embedding"
  dist :: "vec \<Rightarrow> vec \<Rightarrow> float64"

record CacheEntry =
  e_id :: string
  e_vec :: vec
  e_prompt :: string
  e_response :: string
  e_model :: string
  e_expires :: "time option"
  e_hits :: nat

record SemanticCache =
  entries :: "CacheEntry list"
  threshold :: float64
  ttl :: duration
  enabled :: bool
  hits :: "64 word"
  misses :: "64 word"
  errs :: "64 word"
  lastPrune :: time

record Stats =
  st_Hits :: "64 word"
  st_Misses :: "64 word"
  st_Errors :: "64 word"
  st_Enabled :: bool

definition HitRate :: "Stats \<Rightarrow> float64" where
  "HitRate s =
     (let total = st_Hits s + st_Misses s in
      if total = 0 then 0 else fdiv (of_int64 (uint (st_Hits s))) (of_int64 (uint total)))"

text \<open>\<open>New\<close>: is there an embedder, is there a database with the table, and is the threshold within (0, 1]?\<close>

definition NewCache :: "bool \<Rightarrow> bool \<Rightarrow> CacheEntry list \<Rightarrow> float64 \<Rightarrow> duration \<Rightarrow> SemanticCache" where
  "NewCache has_embedder table_exists rows th life =
     \<lparr>entries = rows, threshold = th, ttl = life,
      enabled = (has_embedder \<and> table_exists \<and> \<not> (th \<le> 0 \<or> 1 < th)),
      hits = 0, misses = 0, errs = 0, lastPrune = zero_time\<rparr>"

definition CacheStats :: "SemanticCache \<Rightarrow> Stats" where
  "CacheStats c = \<lparr>st_Hits = hits c, st_Misses = misses c, st_Errors = errs c, st_Enabled = enabled c\<rparr>"

section \<open>Lookup\<close>

datatype LookupResult = LookupHit string | LookupMiss | LookupError | LookupDisabled

text \<open>The rows of the SELECT: of the model, not expired; the nearest is the first with the least distance.\<close>

definition live_row :: "time \<Rightarrow> string \<Rightarrow> CacheEntry \<Rightarrow> bool" where
  "live_row now m e \<longleftrightarrow> e_model e = m \<and> (case e_expires e of None \<Rightarrow> True | Some t \<Rightarrow> now < t)"

fun nearest :: "(CacheEntry \<Rightarrow> float64) \<Rightarrow> CacheEntry list \<Rightarrow> CacheEntry option" where
  "nearest d [] = None"
| "nearest d (e # es) = (case nearest d es of None \<Rightarrow> Some e | Some e' \<Rightarrow> if d e \<le> d e' then Some e else Some e')"

definition recordHit :: "string \<Rightarrow> SemanticCache \<Rightarrow> SemanticCache" where
  "recordHit i c = c\<lparr>entries := map (\<lambda>e. if e_id e = i then e\<lparr>e_hits := Suc (e_hits e)\<rparr> else e) (entries c)\<rparr>"

definition CacheLookup ::
  "vectors \<Rightarrow> time \<Rightarrow> bool \<Rightarrow> string \<Rightarrow> string \<Rightarrow> SemanticCache \<Rightarrow> LookupResult \<times> SemanticCache" where
  "CacheLookup v now db_fails m prompt c =
     (if \<not> enabled c then (LookupDisabled, c)
      else case embed v prompt of
          NoEmbeddingKey \<Rightarrow> (LookupMiss, c\<lparr>misses := misses c + 1\<rparr>)
        | EmbedFails \<Rightarrow> (LookupError, c\<lparr>errs := errs c + 1\<rparr>)
        | Embedded q \<Rightarrow>
            if db_fails then (LookupError, c\<lparr>errs := errs c + 1\<rparr>)
            else case nearest (\<lambda>e. dist v (e_vec e) q) (filter (live_row now m) (entries c)) of
                None \<Rightarrow> (LookupMiss, c\<lparr>misses := misses c + 1\<rparr>)
              | Some e \<Rightarrow>
                  if fsub 1 (dist v (e_vec e) q) < threshold c then (LookupMiss, c\<lparr>misses := misses c + 1\<rparr>)
                  else (LookupHit (e_response e), recordHit (e_id e) (c\<lparr>hits := hits c + 1\<rparr>)))"

section \<open>Store\<close>

definition pruneInterval :: duration where "pruneInterval = 10 * Minute"

definition maybePrune :: "time \<Rightarrow> SemanticCache \<Rightarrow> SemanticCache" where
  "maybePrune now c =
     (if now - lastPrune c < pruneInterval then c
      else c\<lparr>lastPrune := now,
        entries := filter (\<lambda>e. case e_expires e of None \<Rightarrow> True | Some t \<Rightarrow> \<not> t \<le> now) (entries c)\<rparr>)"

definition truncate_bytes :: "string \<Rightarrow> nat \<Rightarrow> string" where
  "truncate_bytes s n = (if length s \<le> n then s else take n s)"

datatype StoreResult = StoreOk | StoreError | StoreDisabled

text \<open>\<open>row\<close> is the identifier the database gives the new row.\<close>

definition CacheStore ::
  "vectors \<Rightarrow> time \<Rightarrow> bool \<Rightarrow> string \<Rightarrow> string \<Rightarrow> string \<Rightarrow> string \<Rightarrow> SemanticCache \<Rightarrow> StoreResult \<times> SemanticCache" where
  "CacheStore v now db_fails row m prompt response c =
     (if \<not> enabled c then (StoreDisabled, c)
      else if TrimSpace response = [] then (StoreOk, c)
      else case embed v prompt of
          NoEmbeddingKey \<Rightarrow> (StoreOk, c)
        | EmbedFails \<Rightarrow> (StoreError, c\<lparr>errs := errs c + 1\<rparr>)
        | Embedded q \<Rightarrow>
            if db_fails then (StoreError, c\<lparr>errs := errs c + 1\<rparr>)
            else (StoreOk, maybePrune now (c\<lparr>entries := entries c @
              [\<lparr>e_id = row, e_vec = q, e_prompt = truncate_bytes prompt 8000, e_response = response, e_model = m,
                e_expires = (if ttl c > 0 then Some (now + ttl c) else None), e_hits = 0\<rparr>]\<rparr>)))"

section \<open>What a hit means\<close>

lemma nearest_None [simp]: "nearest d es = None \<longleftrightarrow> es = []"
  by (induction es) (auto split: option.splits)

lemma nearest_Some: "nearest d es = Some e \<Longrightarrow> e \<in> set es \<and> (\<forall>e' \<in> set es. d e \<le> d e')"
proof (induction es arbitrary: e)
  case (Cons x es)
  show ?case
  proof (cases "nearest d es")
    case None
    with Cons.prems show ?thesis by simp
  next
    case (Some y)
    from Cons.IH [OF Some] Cons.prems Some show ?thesis by (auto split: if_splits)
  qed
qed simp

text \<open>
  Where an entry comes from: a run of lookups and stores, each at its own time, and the requirement that
  every row answers only for what was stored.
\<close>

datatype cache_op =
    DoLookup time bool string string
  | DoStore time bool string string string string

fun cache_exec :: "vectors \<Rightarrow> cache_op \<Rightarrow> SemanticCache \<Rightarrow> SemanticCache" where
  "cache_exec v (DoLookup now fails m prompt) c = snd (CacheLookup v now fails m prompt c)"
| "cache_exec v (DoStore now fails row m prompt response) c = snd (CacheStore v now fails row m prompt response c)"

definition cache_run :: "vectors \<Rightarrow> cache_op list \<Rightarrow> SemanticCache \<Rightarrow> SemanticCache" where
  "cache_run v ops c = fold (cache_exec v) ops c"

definition stored_by :: "vectors \<Rightarrow> duration \<Rightarrow> cache_op list \<Rightarrow> CacheEntry \<Rightarrow> bool" where
  "stored_by v life ops e \<longleftrightarrow>
     (\<exists>now fails prompt. DoStore now fails (e_id e) (e_model e) prompt (e_response e) \<in> set ops \<and>
        embed v prompt = Embedded (e_vec e) \<and> TrimSpace (e_response e) \<noteq> [] \<and>
        e_expires e = (if life > 0 then Some (now + life) else None))"

definition cache_sound :: "vectors \<Rightarrow> cache_op list \<Rightarrow> SemanticCache \<Rightarrow> bool" where
  "cache_sound v ops c \<longleftrightarrow> (\<forall>e \<in> set (entries c). stored_by v (ttl c) ops e)"

lemma stored_by_more: "stored_by v life ops e \<Longrightarrow> stored_by v life (ops @ [op]) e"
  unfolding stored_by_def set_append by blast

lemma stored_by_hits [simp]: "stored_by v life ops (e\<lparr>e_hits := n\<rparr>) = stored_by v life ops e"
  by (simp add: stored_by_def)

lemma ttl_recordHit [simp]: "ttl (recordHit i c) = ttl c"
  by (simp add: recordHit_def)

lemma cache_exec_lookup_sound:
  assumes "cache_sound v ops c"
  shows "cache_sound v (ops @ [op]) (snd (CacheLookup v now fails m prompt c))"
proof -
  have same: "cache_sound v (ops @ [op]) (c\<lparr>misses := x\<rparr>)" "cache_sound v (ops @ [op]) (c\<lparr>errs := x\<rparr>)"
    "cache_sound v (ops @ [op]) (c\<lparr>hits := x\<rparr>)" "cache_sound v (ops @ [op]) c" for x
    using assms by (auto simp: cache_sound_def stored_by_more)
  have hit: "cache_sound v (ops @ [op]) (recordHit i (c\<lparr>hits := x\<rparr>))" for i x
    using same(3) [of x] by (auto simp: cache_sound_def recordHit_def)
  from same hit show ?thesis
    by (simp add: CacheLookup_def split: Embedding.splits option.splits)
qed

lemma cache_exec_store_sound:
  assumes "cache_sound v ops c"
  shows "cache_sound v (ops @ [DoStore now fails row m prompt response])
    (snd (CacheStore v now fails row m prompt response c))"
proof -
  let ?op = "DoStore now fails row m prompt response"
  have old: "stored_by v (ttl c) (ops @ [?op]) e" if "e \<in> set (entries c)" for e
    using assms that by (auto simp: cache_sound_def stored_by_more)
  show ?thesis
  proof (cases "embed v prompt")
    case (Embedded q)
    with old show ?thesis
      by (auto simp: CacheStore_def cache_sound_def maybePrune_def stored_by_def)
  qed (use old in \<open>auto simp: CacheStore_def cache_sound_def\<close>)
qed

lemma cache_run_sound:
  "ttl (cache_run v ops (NewCache a b [] th life)) = life \<and> threshold (cache_run v ops (NewCache a b [] th life)) = th \<and>
   cache_sound v ops (cache_run v ops (NewCache a b [] th life))"
proof (induction ops rule: rev_induct)
  case Nil
  then show ?case by (simp add: cache_run_def NewCache_def cache_sound_def)
next
  case (snoc op ops)
  let ?c = "cache_run v ops (NewCache a b [] th life)"
  have run: "cache_run v (ops @ [op]) (NewCache a b [] th life) = cache_exec v op ?c" by (simp add: cache_run_def)
  have keep: "ttl (cache_exec v op c) = ttl c \<and> threshold (cache_exec v op c) = threshold c" for c
    by (cases op)
      (simp_all add: CacheLookup_def CacheStore_def maybePrune_def recordHit_def split: Embedding.splits option.splits)
  show ?case
    using snoc keep [of ?c] cache_exec_lookup_sound cache_exec_store_sound unfolding run by (cases op) auto
qed

text \<open>
  C14. What the cache answers, after any run of lookups and stores from empty: a hit replays, byte for byte,
  a non-blank response some store put in for the same model, whose prompt's embedding is at least as similar
  to the new prompt's as the threshold, and, with a lifetime configured, at most that long ago. The row it
  replays is one the cache holds, live for that model, and no live row of the model is nearer to the prompt.
\<close>

theorem cache_hit_provenance:
  assumes "fst (CacheLookup v now fails m prompt (cache_run v ops (NewCache a b [] th life))) = LookupHit response"
  shows "\<exists>q t f row prompt' q'. DoStore t f row m prompt' response \<in> set ops \<and>
    embed v prompt = Embedded q \<and> embed v prompt' = Embedded q' \<and>
    th \<le> fsub 1 (dist v q' q) \<and> (life > 0 \<longrightarrow> now < t + life) \<and> TrimSpace response \<noteq> [] \<and>
    (let live = filter (live_row now m) (entries (cache_run v ops (NewCache a b [] th life)))
     in list_ex (\<lambda>e. e_id e = row \<and> e_vec e = q' \<and> e_response e = response \<and>
          list_all (\<lambda>e'. dist v (e_vec e) q \<le> dist v (e_vec e') q) live) live)"
proof -
  let ?c = "cache_run v ops (NewCache a b [] th life)"
  from assms obtain q e where q: "embed v prompt = Embedded q"
    and e: "nearest (\<lambda>e. dist v (e_vec e) q) (filter (live_row now m) (entries ?c)) = Some e"
    and th: "\<not> fsub 1 (dist v (e_vec e) q) < threshold ?c" and r: "response = e_response e"
    by (auto simp: CacheLookup_def split: if_splits Embedding.splits option.splits)
  from nearest_Some [OF e] have "e \<in> set (entries ?c)" and live: "live_row now m e"
    and least: "list_all (\<lambda>e'. dist v (e_vec e) q \<le> dist v (e_vec e') q) (filter (live_row now m) (entries ?c))"
    by (auto simp: list_all_iff)
  with cache_run_sound [of v ops a b th life] have "stored_by v life ops e" by (auto simp: cache_sound_def)
  then obtain t f prompt' where st:
    "DoStore t f (e_id e) (e_model e) prompt' (e_response e) \<in> set ops" "embed v prompt' = Embedded (e_vec e)"
    "TrimSpace (e_response e) \<noteq> []" and ex: "e_expires e = (if life > 0 then Some (t + life) else None)"
    by (auto simp: stored_by_def)
  have "th \<le> fsub 1 (dist v (e_vec e) q)" using th cache_run_sound [of v ops a b th life] by simp
  moreover have "life > 0 \<longrightarrow> now < t + life" and "e_model e = m" using live ex by (auto simp: live_row_def)
  moreover have "let live = filter (live_row now m) (entries ?c)
    in list_ex (\<lambda>e''. e_id e'' = e_id e \<and> e_vec e'' = e_vec e \<and> e_response e'' = response \<and>
      list_all (\<lambda>e'. dist v (e_vec e'') q \<le> dist v (e_vec e') q) live) live"
    using \<open>e \<in> set (entries ?c)\<close> live least r by (auto simp: Let_def list_ex_iff)
  ultimately show ?thesis using q r st
    by (intro exI [of _ q] exI [of _ t] exI [of _ f] exI [of _ "e_id e"] exI [of _ prompt'] exI [of _ "e_vec e"]) simp
qed

definition toy_vectors :: vectors where
  "toy_vectors = \<lparr>embed = (\<lambda>p. Embedded [of_nat (length p)]), dist = (\<lambda>a b. if a = b then 0 else 1)\<rparr>"

lemma cache_hit_provenance_witness:
  "fst (CacheLookup toy_vectors 9 False ''auto'' ''hi''
     (cache_run toy_vectors [DoStore 5 False ''row'' ''auto'' ''hi'' ''hello''] (NewCache True True [] 1 10)))
     = LookupHit ''hello'' \<and> (9 :: time) < 5 + 10"
proof -
  let ?ops = "[DoStore 5 False ''row'' ''auto'' ''hi'' ''hello'']"
  have one: "fsub 1 0 = 1" by (simp add: fsub_def fl_exact)
  have "TrimSpace ''hello'' \<noteq> []" by code_simp
  then have h: "fst (CacheLookup toy_vectors 9 False ''auto'' ''hi'' (cache_run toy_vectors ?ops (NewCache True True [] 1 10)))
      = LookupHit ''hello''"
    by (simp add: cache_run_def CacheStore_def NewCache_def toy_vectors_def maybePrune_def pruneInterval_def
        Minute_def Second_def CacheLookup_def live_row_def one)
  from cache_hit_provenance [OF this] have "(9 :: time) < 5 + 10" by auto
  with h show ?thesis by simp
qed

end
