(* ===== verification/Chat_Codec.thy ===== *)
theory Chat_Codec
  imports Chat
begin

text \<open>
  The struct tags of \<open>internal/provider/types.go\<close>: how a request and a response are read from a JSON value
  and written to one, and that a response read back is the one that was written.
\<close>

section \<open>Reading\<close>

definition decode_FunctionCall :: "json \<Rightarrow> json_error + FunctionCall" where
  "decode_FunctionCall j =
     and_then (as_fields j) (\<lambda>fs.
     and_then (as_string (fields_get fs ''name'')) (\<lambda>name.
     and_then (as_string (fields_get fs ''arguments'')) (\<lambda>args.
     Inr \<lparr>fc_Name = name, Arguments = args\<rparr>)))"

definition decode_ToolCall :: "json \<Rightarrow> json_error + ToolCall" where
  "decode_ToolCall j =
     and_then (as_fields j) (\<lambda>fs.
     and_then (as_ptr as_int (fields_get fs ''index'')) (\<lambda>index.
     and_then (as_string (fields_get fs ''id'')) (\<lambda>ident.
     and_then (as_string (fields_get fs ''type'')) (\<lambda>ty.
     and_then (decode_FunctionCall (fields_get fs ''function'')) (\<lambda>fn.
     Inr \<lparr>tc_Index = index, tc_ID = ident, tc_Type = ty, Function = fn\<rparr>)))))"

definition decode_Message :: "json \<Rightarrow> json_error + Message" where
  "decode_Message j =
     and_then (as_fields j) (\<lambda>fs.
     and_then (as_string (fields_get fs ''role'')) (\<lambda>role.
     and_then (UnmarshalContent (fields_get fs ''content'')) (\<lambda>content.
     and_then (as_list decode_ToolCall (fields_get fs ''tool_calls'')) (\<lambda>calls.
     and_then (as_string (fields_get fs ''tool_call_id'')) (\<lambda>ident.
     Inr \<lparr>Role = role, MsgContent = content, ToolCalls = calls, ToolCallID = ident\<rparr>)))))"

definition decode_Tool :: "json \<Rightarrow> json_error + Tool" where
  "decode_Tool j =
     and_then (as_fields j) (\<lambda>fs.
     and_then (as_string (fields_get fs ''type'')) (\<lambda>ty.
     and_then (as_fields (fields_get fs ''function'')) (\<lambda>f.
     and_then (as_string (fields_get f ''name'')) (\<lambda>name.
     and_then (as_string (fields_get f ''description'')) (\<lambda>desc.
     and_then (as_ptr as_bool (fields_get f ''strict'')) (\<lambda>strict.
     Inr \<lparr>tool_Type = ty,
          tool_Function = \<lparr>tf_Name = name, Description = desc, Parameters = raw_field f ''parameters'', Strict = strict\<rparr>\<rparr>))))))"

text \<open>\<open>Raw\<close> carries the tag \<open>-\<close>: it is set by the handler, never by the decoder.\<close>

definition decode_ChatRequest :: "golib \<Rightarrow> json \<Rightarrow> json_error + ChatRequest" where
  "decode_ChatRequest lib j =
     and_then (as_fields j) (\<lambda>fs.
     and_then (as_string (fields_get fs ''model'')) (\<lambda>model.
     and_then (as_list decode_Message (fields_get fs ''messages'')) (\<lambda>msgs.
     and_then (as_int (fields_get fs ''max_tokens'')) (\<lambda>max.
     and_then (as_ptr (as_float lib) (fields_get fs ''temperature'')) (\<lambda>temp.
     and_then (as_ptr (as_float lib) (fields_get fs ''top_p'')) (\<lambda>topp.
     and_then (as_list as_string (fields_get fs ''stop'')) (\<lambda>stop.
     and_then (as_bool (fields_get fs ''stream'')) (\<lambda>stream.
     and_then (as_list decode_Tool (fields_get fs ''tools'')) (\<lambda>tools.
     Inr \<lparr>ReqModel = model, Messages = msgs, MaxTokens = max, Temperature = temp, TopP = topp, Stop = stop,
          Stream = stream, Tools = tools, ToolChoice = raw_field fs ''tool_choice'', Raw = None\<rparr>)))))))))"

definition decode_Delta :: "json \<Rightarrow> json_error + Delta" where
  "decode_Delta j =
     and_then (as_fields j) (\<lambda>fs.
     and_then (as_string (fields_get fs ''role'')) (\<lambda>role.
     and_then (as_string (fields_get fs ''content'')) (\<lambda>content.
     and_then (as_list decode_ToolCall (fields_get fs ''tool_calls'')) (\<lambda>calls.
     Inr \<lparr>dl_Role = role, dl_Content = content, dl_ToolCalls = calls\<rparr>))))"

definition decode_Choice :: "json \<Rightarrow> json_error + Choice" where
  "decode_Choice j =
     and_then (as_fields j) (\<lambda>fs.
     and_then (as_int (fields_get fs ''index'')) (\<lambda>index.
     and_then (as_ptr decode_Message (fields_get fs ''message'')) (\<lambda>msg.
     and_then (as_ptr decode_Delta (fields_get fs ''delta'')) (\<lambda>delta.
     and_then (as_ptr as_string (fields_get fs ''finish_reason'')) (\<lambda>finish.
     Inr \<lparr>ch_Index = index, ch_Message = msg, ch_Delta = delta, FinishReason = finish\<rparr>)))))"

definition decode_Usage :: "json \<Rightarrow> json_error + Usage" where
  "decode_Usage j =
     and_then (as_fields j) (\<lambda>fs.
     and_then (as_int (fields_get fs ''prompt_tokens'')) (\<lambda>prompt.
     and_then (as_int (fields_get fs ''completion_tokens'')) (\<lambda>completion.
     and_then (as_int (fields_get fs ''total_tokens'')) (\<lambda>total.
     Inr \<lparr>PromptTokens = prompt, CompletionTokens = completion, TotalTokens = total\<rparr>))))"

definition decode_ChatResponse :: "json \<Rightarrow> json_error + ChatResponse" where
  "decode_ChatResponse j =
     and_then (as_fields j) (\<lambda>fs.
     and_then (as_string (fields_get fs ''id'')) (\<lambda>ident.
     and_then (as_string (fields_get fs ''object'')) (\<lambda>object.
     and_then (as_int (fields_get fs ''created'')) (\<lambda>created.
     and_then (as_string (fields_get fs ''model'')) (\<lambda>model.
     and_then (as_list decode_Choice (fields_get fs ''choices'')) (\<lambda>choices.
     and_then (as_ptr decode_Usage (fields_get fs ''usage'')) (\<lambda>usage.
     Inr \<lparr>resp_ID = ident, resp_Object = object, Created = created, RespModel = model, Choices = choices,
          RespUsage = usage\<rparr>)))))))"

section \<open>Writing\<close>

definition encode_ToolCall :: "ToolCall \<Rightarrow> json" where
  "encode_ToolCall t = json_obj
     [(''index'', map_option jint (tc_Index t)),
      (''id'', omit_string (tc_ID t)),
      (''type'', omit_string (tc_Type t)),
      (''function'', Some (json_obj
        [(''name'', omit_string (fc_Name (Function t))), (''arguments'', omit_string (Arguments (Function t)))]))]"

definition encode_Message :: "Message \<Rightarrow> json" where
  "encode_Message m = json_obj
     [(''role'', Some (JStr (Role m))),
      (''content'', Some (JStr (MsgContent m))),
      (''tool_calls'', omit_list encode_ToolCall (ToolCalls m)),
      (''tool_call_id'', omit_string (ToolCallID m))]"

definition encode_Tool :: "Tool \<Rightarrow> json" where
  "encode_Tool t = json_obj
     [(''type'', Some (JStr (tool_Type t))),
      (''function'', Some (json_obj
        [(''name'', Some (JStr (tf_Name (tool_Function t)))),
         (''description'', omit_string (Description (tool_Function t))),
         (''parameters'', Parameters (tool_Function t)),
         (''strict'', map_option JBool (Strict (tool_Function t)))]))]"

definition request_fields :: "golib \<Rightarrow> ChatRequest \<Rightarrow> (string \<times> json option) list" where
  "request_fields lib r =
     [(''model'', Some (JStr (ReqModel r))),
      (''messages'', Some (JArr (map encode_Message (Messages r)))),
      (''max_tokens'', omit_int (MaxTokens r)),
      (''temperature'', omit_float lib (Temperature r)),
      (''top_p'', omit_float lib (TopP r)),
      (''stop'', omit_list JStr (Stop r)),
      (''stream'', omit_bool (Stream r)),
      (''tools'', omit_list encode_Tool (Tools r)),
      (''tool_choice'', ToolChoice r)]"

definition encode_ChatRequest :: "golib \<Rightarrow> ChatRequest \<Rightarrow> json" where
  "encode_ChatRequest lib r = json_obj (request_fields lib r)"

definition encode_Delta :: "Delta \<Rightarrow> json" where
  "encode_Delta d = json_obj
     [(''role'', omit_string (dl_Role d)), (''content'', omit_string (dl_Content d)),
      (''tool_calls'', omit_list encode_ToolCall (dl_ToolCalls d))]"

definition encode_Choice :: "Choice \<Rightarrow> json" where
  "encode_Choice c = json_obj
     [(''index'', Some (jint (ch_Index c))),
      (''message'', map_option encode_Message (ch_Message c)),
      (''delta'', map_option encode_Delta (ch_Delta c)),
      (''finish_reason'', Some (case FinishReason c of None \<Rightarrow> JNull | Some s \<Rightarrow> JStr s))]"

definition encode_Usage :: "Usage \<Rightarrow> json" where
  "encode_Usage u = json_obj
     [(''prompt_tokens'', Some (jint (PromptTokens u))),
      (''completion_tokens'', Some (jint (CompletionTokens u))),
      (''total_tokens'', Some (jint (TotalTokens u)))]"

definition encode_ChatResponse :: "ChatResponse \<Rightarrow> json" where
  "encode_ChatResponse r = json_obj
     [(''id'', Some (JStr (resp_ID r))),
      (''object'', Some (JStr (resp_Object r))),
      (''created'', Some (jint (Created r))),
      (''model'', Some (JStr (RespModel r))),
      (''choices'', Some (JArr (map encode_Choice (Choices r)))),
      (''usage'', map_option encode_Usage (RespUsage r))]"

section \<open>What is written is read back\<close>

text \<open>The integers of a response fit the machine words they are stored in.\<close>

definition ToolCall_ok :: "ToolCall \<Rightarrow> bool" where
  "ToolCall_ok t \<longleftrightarrow> pred_option in_int64 (tc_Index t)"

definition Choice_ok :: "Choice \<Rightarrow> bool" where
  "Choice_ok c \<longleftrightarrow> in_int64 (ch_Index c) \<and>
     pred_option (\<lambda>m. list_all ToolCall_ok (ToolCalls m)) (ch_Message c) \<and>
     pred_option (\<lambda>d. list_all ToolCall_ok (dl_ToolCalls d)) (ch_Delta c)"

definition ChatResponse_ok :: "ChatResponse \<Rightarrow> bool" where
  "ChatResponse_ok r \<longleftrightarrow> in_int64 (Created r) \<and> list_all Choice_ok (Choices r) \<and>
     pred_option (\<lambda>u. in_int64 (PromptTokens u) \<and> in_int64 (CompletionTokens u) \<and> in_int64 (TotalTokens u)) (RespUsage r)"

lemma as_ptr_map [json_simps]:
  "as_ptr f (case x of None \<Rightarrow> JNull | Some y \<Rightarrow> g y) = Inr x"
  if "\<And>y. x = Some y \<Longrightarrow> g y \<noteq> JNull \<and> f (g y) = Inr y"
proof (cases x)
  case (Some y)
  with that [OF Some] show ?thesis by (cases "g y") simp_all
qed simp

lemma as_list_encoded:
  assumes "\<And>x. x \<in> set xs \<Longrightarrow> f (g x) = Inr x"
  shows "each (f \<circ> g) xs = Inr xs"
  using each_Inr [of xs "f \<circ> g" id] assms by simp

lemma decode_ToolCall_encode: "ToolCall_ok t \<Longrightarrow> decode_ToolCall (encode_ToolCall t) = Inr t"
  by (cases t, cases "Function t")
    (simp add: decode_ToolCall_def encode_ToolCall_def decode_FunctionCall_def json_simps ToolCall_ok_def option.pred_set)

lemma decode_ToolCalls_encode:
  "list_all ToolCall_ok ts \<Longrightarrow> each (decode_ToolCall \<circ> encode_ToolCall) ts = Inr ts"
  by (rule as_list_encoded) (auto simp: list_all_iff decode_ToolCall_encode)

lemma decode_Message_encode:
  "list_all ToolCall_ok (ToolCalls m) \<Longrightarrow> decode_Message (encode_Message m) = Inr m"
  by (simp add: decode_Message_def encode_Message_def json_simps decode_ToolCalls_encode)

lemma decode_Delta_encode:
  "list_all ToolCall_ok (dl_ToolCalls d) \<Longrightarrow> decode_Delta (encode_Delta d) = Inr d"
  by (simp add: decode_Delta_def encode_Delta_def json_simps decode_ToolCalls_encode)

lemma encoded_not_null [simp]: "encode_Message m \<noteq> JNull" "encode_Delta d \<noteq> JNull" "encode_Usage u \<noteq> JNull"
  by (simp_all add: encode_Message_def encode_Delta_def encode_Usage_def)

lemma as_ptr_finish [json_simps]:
  "as_ptr as_string (case f of None \<Rightarrow> JNull | Some s \<Rightarrow> JStr s) = Inr f"
  by (cases f) simp_all

lemma decode_Choice_encode: "Choice_ok c \<Longrightarrow> decode_Choice (encode_Choice c) = Inr c"
  unfolding decode_Choice_def encode_Choice_def Choice_ok_def
  by (simp add: json_simps decode_Message_encode decode_Delta_encode option.pred_set)

text \<open>
  What the gateway writes as a response body, a client of the same dialect reads back unchanged: every
  choice, message, streamed delta, tool call, finish reason and usage total survives the encoding, also
  where \<open>omitempty\<close> leaves fields out. (The integers must fit in 64 bits, as Go's do.)
\<close>

lemma decode_ChatResponse_encode:
  assumes "ChatResponse_ok r"
  shows "decode_ChatResponse (encode_ChatResponse r) = Inr r"
proof -
  have "each (decode_Choice \<circ> encode_Choice) (Choices r) = Inr (Choices r)"
    using assms by (intro as_list_encoded) (auto simp: ChatResponse_ok_def list_all_iff decode_Choice_encode)
  with assms show ?thesis
    unfolding decode_ChatResponse_def encode_ChatResponse_def ChatResponse_ok_def
    by (simp add: json_simps decode_Usage_def encode_Usage_def option.pred_set)
qed

definition sample_response :: ChatResponse where
  "sample_response =
     \<lparr>resp_ID = ''r1'', resp_Object = ''chat.completion'', Created = 7, RespModel = ''m'',
      Choices = [\<lparr>ch_Index = 0,
        ch_Message = Some \<lparr>Role = ''assistant'', MsgContent = [],
          ToolCalls = [\<lparr>tc_Index = Some 0, tc_ID = ''c1'', tc_Type = ''function'',
            Function = \<lparr>fc_Name = ''now'', Arguments = ''{}''\<rparr>\<rparr>],
          ToolCallID = []\<rparr>,
        ch_Delta = None, FinishReason = Some ''tool_calls''\<rparr>],
      RespUsage = Some \<lparr>PromptTokens = 3, CompletionTokens = 4, TotalTokens = 7\<rparr>\<rparr>"

lemma ChatResponse_roundtrip_example: "decode_ChatResponse (encode_ChatResponse sample_response) = Inr sample_response"
  by (rule decode_ChatResponse_encode)
    (simp add: sample_response_def ChatResponse_ok_def Choice_ok_def ToolCall_ok_def in_int64_def)

end
