(* ===== verification/Client_Interface.thy ===== *)
theory Client_Interface
  imports Chat_Codec
begin

text \<open>
  \<open>internal/provider/provider.go\<close>: the interface \<open>Client\<close> a provider's dialect implements, and the scan of a
  server-sent event stream the three dialects share. A dialect builds a request, decodes a whole answer and
  decodes a stream. Its stream decoder is a step over the \<open>data:\<close> payloads: from its state and one payload it
  gives the next state, the chunks it hands to \<open>emit\<close>, and an error that ends the stream.
\<close>

section \<open>An HTTP request\<close>

record HttpRequest =
  hr_URL :: string
  hr_Header :: "(string \<times> string) list"
  hr_Body :: json

definition new_post :: "golib \<Rightarrow> string \<Rightarrow> (string \<times> string) list \<Rightarrow> json \<Rightarrow> string + HttpRequest" where
  "new_post lib url headers body =
     (case url_error lib url of
        Some e \<Rightarrow> Inl e
      | None \<Rightarrow> Inr \<lparr>hr_URL = url, hr_Header = headers, hr_Body = body\<rparr>)"

definition json_content :: "string \<times> string" where
  "json_content = (''Content-Type'', ''application/json'')"

text \<open>
  What a decoder reads from outside: the two clock readings (for an id and for the creation time) and the
  identifiers \<open>uuid.New\<close> mints, in order.
\<close>

record mint =
  id_at :: time
  created_at :: time
  uuids :: "nat \<Rightarrow> string"

text \<open>A text that is not a JSON object, \<open>null\<close> included, becomes the empty object.\<close>

definition toolArgs :: "golib \<Rightarrow> string \<Rightarrow> json" where
  "toolArgs lib args = (case parse_json lib args of Some (JObj fs) \<Rightarrow> JObj fs | _ \<Rightarrow> JObj [])"

section \<open>Scanning an event stream\<close>

definition nl :: char where "nl = CHR 0x0A"
definition cr :: char where "cr = CHR 0x0D"

definition drop_cr :: "string \<Rightarrow> string" where
  "drop_cr s = (if s \<noteq> [] \<and> last s = cr then butlast s else s)"

text \<open>
  \<open>bufio.Scanner\<close> with \<open>ScanLines\<close> and a buffer of at most \<open>cap\<close> bytes: the lines before the first that does not
  fit, and whether one did not. The last line needs no newline, also when the read ended in an error.
\<close>

function scan_lines :: "nat \<Rightarrow> string \<Rightarrow> string list \<times> bool" where
  "scan_lines cap s =
     (if s = [] then ([], False)
      else let line = takeWhile (\<lambda>c. c \<noteq> nl) s; rest = dropWhile (\<lambda>c. c \<noteq> nl) s in
        if cap \<le> length line then ([], True)
        else if rest = [] then ([drop_cr line], False)
        else let (ls, long) = scan_lines cap (tl rest) in (drop_cr line # ls, long))"
  by pat_completeness auto

lemma tl_dropWhile_shorter: "s \<noteq> [] \<Longrightarrow> length (tl (dropWhile P s)) < length s"
  using length_dropWhile_le [of P s] by (cases s) (auto simp: less_Suc_eq_le)

termination scan_lines
  by (relation "measure (\<lambda>(cap, s). length s)") (auto simp: tl_dropWhile_shorter simp del: length_tl)

declare scan_lines.simps [simp del]

definition maxLine :: nat where "maxLine = 4 * 1024 * 1024"

definition too_long :: string where "too_long = ''bufio.Scanner: token too long''"

definition done_payload :: string where "done_payload = ''[DONE]''"

fun sse_payloads :: "string list \<Rightarrow> string list" where
  "sse_payloads [] = []"
| "sse_payloads (l # ls) =
     (let line = TrimRight l [cr] in
      if \<not> HasPrefix line ''data:'' then sse_payloads ls
      else let payload = TrimSpace (TrimPrefix line ''data:'') in
        if payload = [] \<or> payload = done_payload then sse_payloads ls else payload # sse_payloads ls)"

text \<open>
  The client's side of a stream: \<open>emit n\<close> is its error on the \<open>n\<close>-th chunk. The chunks handed over are
  those up to and including the first it refuses.
\<close>

fun emit_chunks :: "(nat \<Rightarrow> string option) \<Rightarrow> nat \<Rightarrow> ChatResponse list \<Rightarrow> ChatResponse list \<times> string option" where
  "emit_chunks emit n [] = ([], None)"
| "emit_chunks emit n (ch # chs) =
     (case emit n of
        Some e \<Rightarrow> ([ch], Some e)
      | None \<Rightarrow> (let (out, err) = emit_chunks emit (Suc n) chs in (ch # out, err)))"

text \<open>The text and the tool-call fragments a stream carries.\<close>

definition streamed_text :: "ChatResponse list \<Rightarrow> string" where
  "streamed_text chs =
     concat (map (\<lambda>chunk. concat (map (\<lambda>ch. case ch_Delta ch of None \<Rightarrow> [] | Some d \<Rightarrow> dl_Content d) (Choices chunk))) chs)"

definition calls_of :: "ChatResponse list \<Rightarrow> ToolCall list" where
  "calls_of chs =
     concat (map (\<lambda>chunk. concat (map (\<lambda>ch. case ch_Delta ch of None \<Rightarrow> [] | Some d \<Rightarrow> dl_ToolCalls d) (Choices chunk))) chs)"

type_synonym 's decoder = "'s \<Rightarrow> string \<Rightarrow> 's \<times> ChatResponse list \<times> string option"

text \<open>\<open>fin\<close> is the scanner's own error, met after the last payload. \<open>n\<close> chunks were handed over so far.\<close>

fun sse_run ::
  "'s decoder \<Rightarrow> (nat \<Rightarrow> string option) \<Rightarrow> string option \<Rightarrow> nat \<Rightarrow> string list \<Rightarrow> 's \<Rightarrow>
    's \<times> ChatResponse list \<times> string option" where
  "sse_run step emit fin n [] st = (st, [], fin)"
| "sse_run step emit fin n (d # ds) st =
     (let (st', chs, err) = step st d;
          (out, refused) = emit_chunks emit n chs in
      if refused \<noteq> None then (st', out, refused)
      else if err \<noteq> None then (st', out, err)
      else let (st'', out', err') = sse_run step emit fin (n + length out) ds st' in (st'', out @ out', err'))"

text \<open>\<open>broken\<close> is the error of the connection after the bytes that were read.\<close>

definition scanSSE ::
  "string \<Rightarrow> string option \<Rightarrow> 's decoder \<Rightarrow> (nat \<Rightarrow> string option) \<Rightarrow> 's \<Rightarrow>
    's \<times> ChatResponse list \<times> string option" where
  "scanSSE body broken step emit st =
     (let (ls, long) = scan_lines maxLine body
      in sse_run step emit (if long then Some too_long else broken) 0 (sse_payloads ls) st)"

section \<open>Emission and decoding come apart\<close>

text \<open>A client that never refuses.\<close>

definition willing :: "nat \<Rightarrow> string option" where "willing n = None"

lemma emit_willing [simp]: "emit_chunks willing n chs = (chs, None)"
  by (induction chs arbitrary: n) (simp_all add: willing_def)

lemma emit_append:
  "emit_chunks emit n (a @ b) =
     (let (out, err) = emit_chunks emit n a in
      if err \<noteq> None then (out, err)
      else let (out', err') = emit_chunks emit (n + length a) b in (out @ out', err'))"
  by (induction a arbitrary: n) (simp_all add: Let_def split: prod.splits option.splits)

lemma emit_all: "emit_chunks emit n chs = (out, None) \<Longrightarrow> out = chs"
  by (induction chs arbitrary: n out) (auto split: option.splits prod.splits)

lemma emit_prefix: "set (fst (emit_chunks emit n chs)) \<subseteq> set chs"
  by (induction chs arbitrary: n) (auto simp: case_prod_unfold Let_def split: option.split)

text \<open>
  A decoded stream is the stream a willing client would get, handed over until the client refuses: the
  gateway never produces a chunk because of what \<open>emit\<close> did.
\<close>

lemma sse_run_emit:
  "sse_run step willing fin n ds st = (st', chs, err) \<Longrightarrow>
    (case emit_chunks emit m chs of
       (out, Some e) \<Rightarrow> \<exists>st''. sse_run step emit fin m ds st = (st'', out, Some e)
     | (out, None) \<Rightarrow> sse_run step emit fin m ds st = (st', chs, err))"
proof (induction ds arbitrary: st n m st' chs err)
  case (Cons d ds)
  obtain st1 c1 e1 where s: "step st d = (st1, c1, e1)" by (cases "step st d") auto
  obtain o1 r1 where o: "emit_chunks emit m c1 = (o1, r1)" by fastforce
  show ?case
  proof (cases "e1 = None \<and> r1 = None")
    case True
    obtain st2 c2 e2 where r: "sse_run step willing fin (n + length c1) ds st1 = (st2, c2, e2)"
      by (cases "sse_run step willing fin (n + length c1) ds st1") auto
    from Cons.prems True s r have eq: "st' = st2" "chs = c1 @ c2" "err = e2" by auto
    from o True have "o1 = c1" by (auto dest: emit_all)
    with Cons.IH [OF r, of "m + length c1"] True s o show ?thesis
      unfolding eq emit_append by (auto simp: Let_def split: prod.splits option.splits)
  next
    case False
    then show ?thesis
    proof (cases e1)
      case (Some x)
      with Cons.prems s have eq: "st' = st1" "chs = c1" "err = Some x" by auto
      with s o Some show ?thesis
        by (cases r1) (auto dest: emit_all)
    next
      case None
      with False obtain x where x: "r1 = Some x" by auto
      obtain c2 where "chs = c1 @ c2"
        using Cons.prems s None by (auto split: prod.splits)
      with s o x show ?thesis by (simp add: emit_append)
    qed
  qed
qed simp

section \<open>The interface\<close>

text \<open>
  What the gateway relies on in a dialect: the key travels in one header and nowhere else, and neither a
  whole answer nor a streamed chunk comes without a choice.
\<close>

definition carries_key :: "string \<Rightarrow> string \<times> string \<Rightarrow> bool" where
  "carries_key key h \<longleftrightarrow> snd h = key \<or> snd h = ''Bearer '' @ key"

locale dialect =
  fixes build :: "ChatRequest \<Rightarrow> string \<Rightarrow> bool \<Rightarrow> string + HttpRequest"
    and decode :: "string \<Rightarrow> string \<Rightarrow> string + ChatResponse"
    and step :: "string \<Rightarrow> 's decoder"
  assumes sends_key: "build req key streaming = Inr h \<Longrightarrow> \<exists>x \<in> set (hr_Header h). carries_key key x"
    and header_only: "build req key streaming = Inr h \<Longrightarrow>
      \<exists>h'. build req key' streaming = Inr h' \<and> hr_URL h' = hr_URL h \<and> hr_Body h' = hr_Body h"
    and decoded_choice: "decode body m = Inr r \<Longrightarrow> Choices r \<noteq> []"
    and streamed_choice: "step m st d = (st', chs, err) \<Longrightarrow> list_all (\<lambda>ch. Choices ch \<noteq> []) chs"
begin

lemma run_choice:
  "sse_run (step m) emit fin n ds st = (st', out, err) \<Longrightarrow> list_all (\<lambda>ch. Choices ch \<noteq> []) out"
proof (induction ds arbitrary: n st out)
  case (Cons d ds)
  obtain st1 c1 e1 where s: "step m st d = (st1, c1, e1)" by (cases "step m st d") auto
  have "list_all (\<lambda>ch. Choices ch \<noteq> []) (fst (emit_chunks emit n c1))"
    using streamed_choice [OF s] emit_prefix [of emit n c1] by (auto simp: list_all_iff)
  with Cons s show ?case
    by (fastforce split: prod.splits if_splits)
qed simp

lemma stream_choice:
  "scanSSE body broken (step m) emit st = (st', out, err) \<Longrightarrow> list_all (\<lambda>ch. Choices ch \<noteq> []) out"
  by (auto simp: scanSSE_def Let_def split: prod.splits dest: run_choice)

lemma build_errors_independent_of_key: "build req key streaming = Inl e \<Longrightarrow> \<exists>e'. build req key' streaming = Inl e'"
  using header_only [of req key' streaming _ key] by (cases "build req key' streaming") auto

end

section \<open>Joining turns into messages of alternating roles\<close>

text \<open>
  Both native dialects render a turn as a role and a list of items, and join it to the last message when the
  role is the same. Whatever the items are, the messages then alternate, and their items are those of the turns,
  in order.
\<close>

fun alternating :: "('m \<Rightarrow> string) \<Rightarrow> 'm list \<Rightarrow> bool" where
  "alternating role (a # b # ms) = (role a \<noteq> role b \<and> alternating role (b # ms))"
| "alternating role _ = True"

lemma alternating_snoc:
  "alternating role (ms @ [m]) \<longleftrightarrow> alternating role ms \<and> (ms = [] \<or> role (last ms) \<noteq> role m)"
  by (induction role ms rule: alternating.induct) auto

lemma alternating_snoc2: "alternating role (ms @ [a, b]) \<longleftrightarrow> alternating role (ms @ [a]) \<and> role a \<noteq> role b"
  using alternating_snoc [of role "ms @ [a]" b] by simp

locale turn_joining =
  fixes role :: "'m \<Rightarrow> string"
    and items :: "'m \<Rightarrow> 'i list"
    and render :: "'t \<Rightarrow> string \<times> 'i list"
    and join :: "'m list \<Rightarrow> 't \<Rightarrow> 'm list"
  assumes join_same: "ms \<noteq> [] \<Longrightarrow> role (last ms) = fst (render t) \<Longrightarrow>
      \<exists>m. join ms t = butlast ms @ [m] \<and> role m = role (last ms) \<and> items m = items (last ms) @ snd (render t)"
    and join_new: "ms = [] \<or> role (last ms) \<noteq> fst (render t) \<Longrightarrow>
      \<exists>m. join ms t = ms @ [m] \<and> role m = fst (render t) \<and> items m = snd (render t)"
begin

lemma join_spec:
  assumes "alternating role ms"
  shows "join ms t \<noteq> [] \<and> alternating role (join ms t) \<and>
    concat (map items (join ms t)) = concat (map items ms) @ snd (render t) \<and>
    role ` set (join ms t) = insert (fst (render t)) (role ` set ms)"
proof (cases "ms \<noteq> [] \<and> role (last ms) = fst (render t)")
  case True
  then obtain m where m: "join ms t = butlast ms @ [m]" "role m = role (last ms)"
    "items m = items (last ms) @ snd (render t)"
    using join_same by blast
  obtain ys y where "ms = ys @ [y]" using True by (cases ms rule: rev_cases) auto
  with m True assms show ?thesis by (auto simp: alternating_snoc)
next
  case False
  then obtain m where "join ms t = ms @ [m]" "role m = fst (render t)" "items m = snd (render t)"
    using join_new by blast
  with False assms show ?thesis by (auto simp: alternating_snoc)
qed

lemma joined:
  "alternating role ms \<Longrightarrow>
    alternating role (foldl join ms ts) \<and>
    concat (map items (foldl join ms ts)) = concat (map items ms) @ concat (map (\<lambda>t. snd (render t)) ts) \<and>
    role ` set (foldl join ms ts) = role ` set ms \<union> (\<lambda>t. fst (render t)) ` set ts"
proof (induction ts arbitrary: ms)
  case (Cons t ts)
  from join_spec [OF Cons.prems, of t] Cons.IH [of "join ms t"] show ?case by auto
qed simp

lemma joined_Nil: "foldl join [] ts = [] \<longleftrightarrow> ts = []"
proof (cases ts rule: rev_cases)
  case (snoc us u)
  have "join ms u \<noteq> []" for ms
    using join_same [of ms u] join_new [of ms u] by (cases "ms \<noteq> [] \<and> role (last ms) = fst (render u)") auto
  with snoc show ?thesis by simp
qed simp

end

text \<open>The tool calls a conversation makes, and the tool results it holds.\<close>

definition calls_made :: "Message list \<Rightarrow> ToolCall list" where
  "calls_made turns = concat (map ToolCalls (filter (\<lambda>m. Role m = ''assistant'') turns))"

definition results_held :: "Message list \<Rightarrow> (string \<times> string) list" where
  "results_held turns = map (\<lambda>m. (ToolCallID m, MsgContent m)) (filter (\<lambda>m. Role m = ''tool'') turns)"

end
