(* ===== verification/Gateway_State.thy ===== *)
theory Gateway_State
  imports Planning Live Semantic_Cache Client_Interface
begin

text \<open>
  What a request may change, in one record, and the parts of \<open>internal/gateway\<close> that write it besides routing:
  the usage log (\<open>logUsage\<close> of \<open>gateway.go\<close>) and the gateway's use of the semantic cache (\<open>cache.go\<close>).
\<close>

section \<open>State\<close>

record UsageRow =
  api_key_id :: "string option"
  row_model :: string
  tokens_in :: int
  tokens_out :: int
  latency_ms :: int
  cost_usd :: "float64 option"
  row_provider :: string
  status :: string
  row_task :: string
  cache_hit :: bool
  row_failure :: "string option"

text \<open>
  \<open>sent_upstream\<close> (provider, model, key) and \<open>delivered\<close> are the two traces a caller or a vendor can see: the
  requests that left the gateway and the chunks handed to the client.
\<close>

record World =
  health :: Health
  live :: liveState
  cache_of :: "SemanticCache option"
  usage_logs :: "UsageRow list"
  sent_upstream :: "(string \<times> string \<times> string) list"
  delivered :: "ChatResponse list"

section \<open>Usage\<close>

definition truncateReason :: "string \<Rightarrow> string" where
  "truncateReason s0 =
     (let s = TrimSpace (replace_char CHR 0x0A CHR '' '' s0) in
      if length s \<le> 240 then s else take 240 s @ ''...'')"

record usageRecord =
  u_key :: "string option"
  u_cand :: candidate
  u_latency :: duration
  u_usage :: Usage
  u_status :: string
  u_task :: TaskType
  u_cacheHit :: bool
  u_failure :: string

text \<open>\<open>db_ok\<close>: there is a database and the INSERT succeeds; otherwise nothing is written and nothing fails.\<close>

definition logUsage :: "string list \<Rightarrow> bool \<Rightarrow> Catalog \<Rightarrow> usageRecord \<Rightarrow> World \<Rightarrow> World" where
  "logUsage ord db_ok cat r w =
     (if \<not> db_ok then w
      else w\<lparr>usage_logs := usage_logs w @
        [\<lparr>api_key_id = u_key r, row_model = cand_model (u_cand r), tokens_in = PromptTokens (u_usage r),
          tokens_out = CompletionTokens (u_usage r), latency_ms = Milliseconds (u_latency r),
          cost_usd = map_option (\<lambda>p. CostUSD p (PromptTokens (u_usage r)) (CompletionTokens (u_usage r)))
            (Lookup ord cat (cand_model (u_cand r))),
          row_provider = cand_provider (u_cand r), status = u_status r, row_task = u_task r,
          cache_hit = u_cacheHit r,
          row_failure = (if u_failure r \<noteq> [] then Some (truncateReason (u_failure r)) else None)\<rparr>]\<rparr>)"

section \<open>Which requests the cache may serve\<close>

definition passthroughFields :: "string list" where
  "passthroughFields =
     [''tools'', ''functions'', ''tool_choice'', ''function_call'', ''response_format'', ''logprobs'', ''seed'', ''n'']"

text \<open>A raw body that is not a JSON object (nor \<open>null\<close>) does not decode, and skips the cache.\<close>

definition usesPassthroughFields :: "json option \<Rightarrow> bool" where
  "usesPassthroughFields raw =
     (case raw of
        None \<Rightarrow> False
      | Some j \<Rightarrow>
          (case as_fields j of
             Inl _ \<Rightarrow> True
           | Inr fs \<Rightarrow> list_ex (\<lambda>name. fields_get fs name \<noteq> JNull) passthroughFields))"

definition requestCacheable :: "ChatRequest \<Rightarrow> float64 \<Rightarrow> bool" where
  "requestCacheable req maxTemperature \<longleftrightarrow>
     (case Temperature req of Some t \<Rightarrow> \<not> maxTemperature < t | None \<Rightarrow> True) \<and>
     \<not> usesPassthroughFields (Raw req) \<and> Messages req \<noteq> []"

definition cacheable :: "Gateway \<Rightarrow> World \<Rightarrow> ChatRequest \<Rightarrow> bool" where
  "cacheable g w req \<longleftrightarrow>
     (case cache_of w of None \<Rightarrow> False | Some c \<Rightarrow> enabled c) \<and>
     requestCacheable req (MaxTemperature (CacheCfg (cfg g)))"

definition cacheKey :: "ChatRequest \<Rightarrow> string" where
  "cacheKey req =
     TrimSpace (concat (map (\<lambda>m. Role m @ '': '' @ TrimSpace (MsgContent m) @ [CHR 0x0A]) (Messages req)))"

definition cacheModel :: "Gateway \<Rightarrow> ChatRequest \<Rightarrow> string" where
  "cacheModel g req = (if ReqModel req = [] then DefaultModel (cfg g) else ReqModel req)"

section \<open>Answering from the cache\<close>

definition completionText :: "ChatResponse option \<Rightarrow> string" where
  "completionText resp =
     (case resp of None \<Rightarrow> []
      | Some r \<Rightarrow> concat (map (\<lambda>c. case ch_Message c of None \<Rightarrow> [] | Some m \<Rightarrow> MsgContent m) (Choices r)))"

definition cachedResponse :: "time \<Rightarrow> string \<Rightarrow> string \<Rightarrow> ChatResponse" where
  "cachedResponse now m content =
     \<lparr>resp_ID = ''chatcmpl-cache-'' @ Itoa (UnixNano now), resp_Object = ''chat.completion'', Created = Unix now,
      RespModel = m,
      Choices = [\<lparr>ch_Index = 0, ch_Message = Some (text_message ''assistant'' content), ch_Delta = None,
                  FinishReason = Some ''stop''\<rparr>],
      RespUsage = Some no_usage\<rparr>"

definition text_delta :: "string \<Rightarrow> string \<Rightarrow> Delta" where
  "text_delta role content = \<lparr>dl_Role = role, dl_Content = content, dl_ToolCalls = []\<rparr>"

definition cachedStreamChunks :: "ChatResponse \<Rightarrow> ChatResponse list" where
  "cachedStreamChunks resp =
     (let content = (case Choices resp of [] \<Rightarrow> [] | c # _ \<Rightarrow>
            (case ch_Message c of None \<Rightarrow> [] | Some m \<Rightarrow> MsgContent m));
          chunk = (\<lambda>ch. \<lparr>resp_ID = resp_ID resp, resp_Object = ''chat.completion.chunk'', Created = Created resp,
            RespModel = RespModel resp, Choices = [ch], RespUsage = None\<rparr>)
      in [chunk \<lparr>ch_Index = 0, ch_Message = None, ch_Delta = Some (text_delta ''assistant'' content), FinishReason = None\<rparr>,
          chunk \<lparr>ch_Index = 0, ch_Message = None, ch_Delta = Some (text_delta [] []), FinishReason = Some ''stop''\<rparr>])"

record cache_io =
  lookup_at :: time
  lookup_fails :: bool
  lookup_latency :: duration
  served_at :: time
  log_ok :: bool
  log_ord :: "string list"

text \<open>
  \<open>None\<close>: not handled, carry on upstream. \<open>Some r\<close>: handled, with the response of a non-streaming request.
\<close>

definition serveFromCache ::
  "vectors \<Rightarrow> Gateway \<Rightarrow> cache_io \<Rightarrow> ChatRequest \<Rightarrow> string option \<Rightarrow> (nat \<Rightarrow> string option) option \<Rightarrow> World \<Rightarrow>
    ChatResponse option option \<times> World" where
  "serveFromCache v g io req key emit w =
     (if \<not> cacheable g w req then (None, w)
      else case cache_of w of
        None \<Rightarrow> (None, w)
      | Some c \<Rightarrow>
          (let m = cacheModel g req;
               (r, c') = CacheLookup v (lookup_at io) (lookup_fails io) m (cacheKey req) c;
               w1 = w\<lparr>cache_of := Some c'\<rparr>
           in case r of
                LookupHit content \<Rightarrow>
                  (let task = DetectTask (lastUserPrompt req);
                       w2 = logUsage (log_ord io) (log_ok io) (catalog g)
                         \<lparr>u_key = key, u_cand = cand cacheProvider m, u_latency = lookup_latency io, u_usage = no_usage,
                          u_status = ''success'', u_task = task, u_cacheHit = True, u_failure = []\<rparr> w1;
                       w3 = w2\<lparr>live := servedFromCache (served_at io) (ReqModel req) m task (lookup_latency io) (live w2)\<rparr>;
                       resp = cachedResponse (served_at io) m content
                   in case emit of
                        None \<Rightarrow> (Some (Some resp), w3)
                      | Some e \<Rightarrow>
                          (Some None, w3\<lparr>delivered := delivered w3 @ fst (emit_chunks e 0 (cachedStreamChunks resp))\<rparr>))
              | _ \<Rightarrow> (None, w1)))"

definition storeInCache ::
  "vectors \<Rightarrow> Gateway \<Rightarrow> time \<Rightarrow> bool \<Rightarrow> string \<Rightarrow> ChatRequest \<Rightarrow> string \<Rightarrow> World \<Rightarrow> World" where
  "storeInCache v g now fails row req completion w =
     (if \<not> cacheable g w req \<or> TrimSpace completion = [] then w
      else case cache_of w of
        None \<Rightarrow> w
      | Some c \<Rightarrow> w\<lparr>cache_of := Some (snd (CacheStore v now fails row (cacheModel g req) (cacheKey req) completion c))\<rparr>)"

end
