(* ===== verification/Attempts.thy ===== *)
theory Attempts
  imports Gateway_State
begin

text \<open>
  Trying the candidates (\<open>attempt\<close>, \<open>attemptChain\<close>, \<open>route\<close>, \<open>Complete\<close>, \<open>Stream\<close> and the error texts of
  \<open>gateway.go\<close>, \<open>HTTPError\<close> of \<open>provider.go\<close>). What the world answers, clock readings included, comes in as an
  \<open>attempt_io\<close> per candidate; every effect of the loop is in the model, in the order of the code.
\<close>

section \<open>Error texts\<close>

definition HTTPError :: "string \<Rightarrow> int \<Rightarrow> string \<Rightarrow> string" where
  "HTTPError name code body =
     (let msg0 = TrimSpace body;
          msg = (if length msg0 > 500 then take 500 msg0 @ ''...'' else msg0)
      in name @ '' returned '' @ Itoa code @ '': '' @ msg)"

record attemptFailure =
  af_cand :: candidate
  reason :: string

definition failure :: "candidate \<Rightarrow> string \<Rightarrow> attemptFailure" where
  "failure c why = \<lparr>af_cand = c, reason = why\<rparr>"

text \<open>The dash and the bullet of the summary, in UTF-8.\<close>

definition em_dash :: string where "em_dash = [CHR 0xE2, CHR 0x80, CHR 0x94]"
definition bullet :: string where "bullet = [CHR 0xE2, CHR 0x80, CHR 0xA2]"

definition ErrNoProvider :: string where "ErrNoProvider = ''no provider available''"

definition permanent_note :: string where
  "permanent_note =
     '' (every one refused on credentials, credit or entitlement '' @ em_dash @
     '' retrying will not help; fix the key or pick a different model)''"

definition failure_line :: "attemptFailure \<Rightarrow> string" where
  "failure_line f =
     CHR 0x0A # ''  '' @ bullet @ '' '' @ cand_provider (af_cand f) @ '' ('' @ cand_model (af_cand f) @ ''): '' @
     truncateReason (reason f)"

definition summarizeFailures :: "attemptFailure list \<Rightarrow> string" where
  "summarizeFailures fs =
     (case fs of
        [] \<Rightarrow> ErrNoProvider
      | [f] \<Rightarrow> cand_provider (af_cand f) @ '' ('' @ cand_model (af_cand f) @ '') failed: '' @ reason f
      | _ \<Rightarrow>
          ''all '' @ Itoa (int (length fs)) @ '' providers failed'' @
          (if list_all (\<lambda>f. isAccessDenied (reason f)) fs then permanent_note else []) @ '':'' @
          concat (map failure_line fs))"

section \<open>One attempt\<close>

text \<open>
  What an upstream does with a request, for the client that speaks its dialect: the request may not build,
  the transport may fail, and the body is decoded whole or as a stream of chunks.
\<close>

record upstream =
  build_error :: "string option"
  transport :: "string + (int \<times> string)"
  read_error :: "string option"
  decoded :: "string + ChatResponse"
  chunks :: "ChatResponse list"
  stream_end :: "string + Usage"

type_synonym internet = "Client \<Rightarrow> ChatRequest \<Rightarrow> string \<Rightarrow> bool \<Rightarrow> upstream"

text \<open>The chunks the attempt handed to \<open>emit\<close>, and its result.\<close>

definition attempt ::
  "internet \<Rightarrow> Registry \<Rightarrow> string \<Rightarrow> ChatRequest \<Rightarrow> string \<Rightarrow> (nat \<Rightarrow> string option) option \<Rightarrow>
    ChatResponse list \<times> (string + ChatResponse option \<times> Usage)" where
  "attempt inet reg name req apiKey emit =
     (case map_of reg name of
        None \<Rightarrow> ([], Inl (''unknown provider '' @ CHR 0x22 # name @ [CHR 0x22]))
      | Some client \<Rightarrow>
          (let u = inet client req apiKey (emit \<noteq> None) in
           case build_error u of
             Some e \<Rightarrow> ([], Inl e)
           | None \<Rightarrow>
               (case transport u of
                  Inl e \<Rightarrow> ([], Inl e)
                | Inr (code, body) \<Rightarrow>
                    if code \<noteq> 200 then ([], Inl (HTTPError name code (take 4096 body)))
                    else case emit of
                        Some em \<Rightarrow>
                          (let (out, err) = emit_chunks em 0 (chunks u) in
                           case err of
                             Some e \<Rightarrow> (out, Inl e)
                           | None \<Rightarrow> (out, case stream_end u of Inl e \<Rightarrow> Inl e | Inr usage \<Rightarrow> Inr (None, usage)))
                      | None \<Rightarrow>
                          (case read_error u of
                             Some e \<Rightarrow> ([], Inl e)
                           | None \<Rightarrow>
                               (case decoded u of
                                  Inl e \<Rightarrow> ([], Inl e)
                                | Inr resp \<Rightarrow>
                                    ([], Inr (Some resp, case RespUsage resp of None \<Rightarrow> no_usage | Some us \<Rightarrow> us)))))))"

text \<open>Does the request leave the gateway? Only past the registry and the building of the request.\<close>

definition reaches_upstream :: "internet \<Rightarrow> Registry \<Rightarrow> string \<Rightarrow> ChatRequest \<Rightarrow> string \<Rightarrow> bool \<Rightarrow> bool" where
  "reaches_upstream inet reg name req apiKey streaming \<longleftrightarrow>
     (case map_of reg name of None \<Rightarrow> False | Some client \<Rightarrow> build_error (inet client req apiKey streaming) = None)"

section \<open>The chain\<close>

record attempt_io =
  net :: internet
  client_emit :: "nat \<Rightarrow> string option"
  allow_at :: time
  begin_at :: time
  latency :: duration
  end_at :: time
  fail_at :: time
  bench_at :: time
  bench_ord :: "string list"
  usage_ok :: bool
  usage_ord :: "string list"
  store_at :: time
  store_fails :: bool
  store_row :: string

text \<open>The effects of a failed attempt, and of a successful one.\<close>

definition after_failure ::
  "Gateway \<Rightarrow> attempt_io \<Rightarrow> candidate \<Rightarrow> string option \<Rightarrow> TaskType \<Rightarrow> int \<Rightarrow> string \<Rightarrow> World \<Rightarrow> World" where
  "after_failure g io c key task i err w =
     (let w1 = w\<lparr>live := live_end (end_at io) i ''error'' err (latency io) (live w)\<rparr>;
          h1 = (if \<not> isAccessDenied err then recordFailure (cfg g) (fail_at io) (cand_provider c) (health w1) else health w1);
          h2 = benchIfAccessDenied (bench_ord io) (catalog g) (bench_at io) c err h1
      in logUsage (usage_ord io) (usage_ok io) (catalog g)
           \<lparr>u_key = key, u_cand = c, u_latency = latency io, u_usage = no_usage, u_status = ''error'', u_task = task,
            u_cacheHit = False, u_failure = err\<rparr> (w1\<lparr>health := h2\<rparr>))"

definition after_success ::
  "vectors \<Rightarrow> Gateway \<Rightarrow> attempt_io \<Rightarrow> ChatRequest \<Rightarrow> candidate \<Rightarrow> string option \<Rightarrow> TaskType \<Rightarrow> int \<Rightarrow> Usage \<Rightarrow> string \<Rightarrow>
    World \<Rightarrow> World" where
  "after_success v g io req c key task i usage completion w =
     (let w1 = w\<lparr>live := live_end (end_at io) i ''success'' [] (latency io) (live w)\<rparr>;
          w2 = w1\<lparr>health := recordSuccess (cand_provider c) (health w1)\<rparr>;
          w3 = logUsage (usage_ord io) (usage_ok io) (catalog g)
            \<lparr>u_key = key, u_cand = c, u_latency = latency io, u_usage = usage, u_status = ''success'', u_task = task,
             u_cacheHit = False, u_failure = []\<rparr> w2
      in storeInCache v g (store_at io) (store_fails io) (store_row io) req completion w3)"

definition no_key_reason :: string where "no_key_reason = ''no API key configured''"
definition cooldown_reason :: string where "cooldown_reason = ''in cooldown after repeated failures''"

text \<open>Begin the attempt in the live view, send it, and hand what it emitted to the client.\<close>

definition run_attempt ::
  "Gateway \<Rightarrow> attempt_io \<Rightarrow> ChatRequest \<Rightarrow> bool \<Rightarrow> candidate \<Rightarrow> string \<Rightarrow> TaskType \<Rightarrow> World \<Rightarrow>
    int \<times> ChatResponse list \<times> (string + ChatResponse option \<times> Usage) \<times> World" where
  "run_attempt g io req streaming c apiKey task w =
     (let req' = req\<lparr>ReqModel := cand_model c\<rparr>;
          (i, l) = live_begin (begin_at io) c (ReqModel req) task streaming (live w);
          (out, result) = attempt (net io) (registry g) (cand_provider c) req' apiKey
            (if streaming then Some (client_emit io) else None);
          sent = (if reaches_upstream (net io) (registry g) (cand_provider c) req' apiKey streaming
                  then [(cand_provider c, ReqModel req', apiKey)] else [])
      in (i, out, result,
          w\<lparr>live := l, sent_upstream := sent_upstream w @ sent, delivered := delivered w @ out\<rparr>))"

fun attemptChain ::
  "vectors \<Rightarrow> Gateway \<Rightarrow> ChatRequest \<Rightarrow> bool \<Rightarrow> keys \<Rightarrow> string option \<Rightarrow> TaskType \<Rightarrow>
    (candidate \<times> attempt_io) list \<Rightarrow> attemptFailure list \<Rightarrow> World \<Rightarrow> (string + ChatResponse option) \<times> World" where
  "attemptChain v g req streaming keys key task [] fs w = (Inl (summarizeFailures fs), w)"
| "attemptChain v g req streaming keys key task ((c, io) # rest) fs w =
     (let apiKey = gm_at [] keys (cand_provider c) in
      if apiKey = [] then
        attemptChain v g req streaming keys key task rest (fs @ [failure c no_key_reason]) w
      else if \<not> allow (allow_at io) (cand_provider c) (health w) then
        attemptChain v g req streaming keys key task rest (fs @ [failure c cooldown_reason]) w
      else
        (let (i, out, result, w1) = run_attempt g io req streaming c apiKey task w in
         case result of
           Inl err \<Rightarrow>
             (let w2 = after_failure g io c key task i err w1 in
              if out \<noteq> [] then (Inl err, w2)
              else attemptChain v g req streaming keys key task rest (fs @ [failure c err]) w2)
         | Inr (resp, usage) \<Rightarrow>
             (Inr resp,
              after_success v g io req c key task i usage
                (if streaming then streamed_text out else completionText resp) w1)))"

section \<open>A request\<close>

datatype RouteError =
    KeysUnreadable
  | NoRoute Unroutable
  | ChainFailed string

text \<open>
  The world of one request: the cache's, the plan's and each attempt's answers. \<open>stored\<close> is the read of the
  provider keys, \<open>None\<close> when it fails; \<open>attempts\<close> gives the answers for the \<open>n\<close>-th candidate.
\<close>

record route_io =
  cache_answers :: cache_io
  cache_emit :: "nat \<Rightarrow> string option"
  stored :: "keys option"
  stored_again :: "keys option"
  ranges_of :: ranges
  plan_at :: time
  attempts :: "nat \<Rightarrow> attempt_io"

definition route ::
  "vectors \<Rightarrow> Gateway \<Rightarrow> route_io \<Rightarrow> ChatRequest \<Rightarrow> string option \<Rightarrow> bool \<Rightarrow> World \<Rightarrow>
    (RouteError + ChatResponse option) \<times> World" where
  "route v g io req key streaming w =
     (case serveFromCache v g (cache_answers io) req key (if streaming then Some (cache_emit io) else None) w of
        (Some resp, w1) \<Rightarrow> (Inr resp, w1)
      | (None, w1) \<Rightarrow>
          (case stored io of
             None \<Rightarrow> (Inl KeysUnreadable, w1)
           | Some keys \<Rightarrow>
               (let ((cs, task), h1) = plan (ranges_of io) (plan_at io) g req keys (health w1);
                    w2 = w1\<lparr>health := h1\<rparr>
                in if cs = [] then
                     (let (why, h2) = unroutable (ranges_of io) (plan_at io) g req keys (stored_again io) (health w2)
                      in (Inl (NoRoute why), w2\<lparr>health := h2\<rparr>))
                   else
                     (let (r, w3) = attemptChain v g req streaming keys key task
                        (zip cs (map (attempts io) [0..<length cs])) [] w2
                      in (case r of Inl e \<Rightarrow> Inl (ChainFailed e) | Inr resp \<Rightarrow> Inr resp, w3)))))"

definition Complete ::
  "vectors \<Rightarrow> Gateway \<Rightarrow> route_io \<Rightarrow> ChatRequest \<Rightarrow> string option \<Rightarrow> World \<Rightarrow> (RouteError + ChatResponse option) \<times> World" where
  "Complete v g io req key w = route v g io req key False w"

definition StreamRequest ::
  "vectors \<Rightarrow> Gateway \<Rightarrow> route_io \<Rightarrow> ChatRequest \<Rightarrow> string option \<Rightarrow> World \<Rightarrow> RouteError option \<times> World" where
  "StreamRequest v g io req key w =
     (let (r, w1) = route v g io req key True w in (case r of Inl e \<Rightarrow> Some e | Inr _ \<Rightarrow> None, w1))"

end
