(* ===== verification/Catalog_Facts.thy ===== *)
theory Catalog_Facts
  imports Routing_Catalog
begin

text \<open>
  What the catalogue promises: the ranking and the selection, what a loaded catalogue looks like, the
  invariant every operation keeps and its consequences for every reachable catalogue, and the answers to
  the questions routing asks (discovered, free, resolved, tagged and confirmed models).
\<close>

section \<open>Ranking and selection\<close>

lemma set_suited: "set (suited c task) \<subseteq> set (profiles c)"
  by (auto simp: suited_def Let_def)

lemma suited_eq_Nil [simp]: "suited c task = [] \<longleftrightarrow> profiles c = []"
  by (auto simp: suited_def Let_def filter_empty_conv)

lemma suited_supports:
  "\<exists>q \<in> set (profiles c). supports q task \<Longrightarrow> p \<in> set (suited c task) \<Longrightarrow> supports p task"
  by (auto simp: suited_def Let_def filter_empty_conv split: if_splits)

lemma set_Rank [simp]: "set (Rank c task obj) = set (suited c task)"
  by (simp add: Rank_def)

lemma set_RankForTask [simp]: "set (RankForTask pool task obj) = set pool"
  by (simp add: RankForTask_def)

text \<open>
  On a catalogue with at least one profile, \<open>SelectModel\<close> does not panic: it returns a profile
  that supports the task whenever any profile does, and no suited profile has a lower score for the
  objective; of the profiles with the lowest score it is the one listed first.
\<close>

theorem SelectModel_best:
  assumes "profiles c \<noteq> []"
  shows "\<exists>p. SelectModel c task obj = Some p \<and> p \<in> set (profiles c) \<and>
    ((\<exists>q \<in> set (profiles c). supports q task) \<longrightarrow> supports p task) \<and>
    (\<forall>q \<in> set (suited c task). Score p obj \<le> Score q obj) \<and>
    p = hd (filter (\<lambda>q. Score q obj = Score p obj) (suited c task))"
proof -
  obtain p ps where r: "Rank c task obj = p # ps"
    using assms by (cases "Rank c task obj") (simp_all add: Rank_def)
  have p: "p = hd (slice_stable (score_less obj) (suited c task))" using r by (simp add: Rank_def)
  have in_suited: "p \<in> set (suited c task)" using r set_Rank [of c task obj] by auto
  have least: "\<forall>q \<in> set (suited c task). Score p obj \<le> Score q obj"
    using by_score.hd_minimal [of "suited c task" _ obj] assms unfolding p by auto
  have "filter (\<lambda>q. Score q obj = Score p obj) (p # ps) = filter (\<lambda>q. Score q obj = Score p obj) (suited c task)"
    using by_score.stable [of obj "Score p obj" "suited c task"] r by (simp add: Rank_def)
  then have "hd (filter (\<lambda>q. Score q obj = Score p obj) (suited c task)) = p"
    by (metis (mono_tags, lifting) filter.simps(2) list.sel(1))
  then show ?thesis
    using r in_suited least set_suited [of c task] suited_supports [of c task p]
    by (auto simp: SelectModel_def)
qed

lemma NewCatalog_profiles: "profiles NewCatalog \<noteq> []"
  by (simp add: NewCatalog_def defaultProfiles_def)

lemma SelectModel_best_witness:
  "\<exists>p. SelectModel NewCatalog TaskAnalysis ObjectiveCost = Some p \<and> supports p TaskAnalysis"
proof -
  have "\<exists>q \<in> set (profiles NewCatalog). supports q TaskAnalysis"
    by (simp add: NewCatalog_def defaultProfiles_def curated_def supports_def)
  with SelectModel_best [OF NewCatalog_profiles, of TaskAnalysis ObjectiveCost] show ?thesis by blast
qed

section \<open>Loading\<close>

definition profile_ok :: "ModelProfile \<Rightarrow> bool" where
  "profile_ok p \<longleftrightarrow> validateProfile p = None \<and> PriceKnown p"

definition profiles_ok :: "ModelProfile list \<Rightarrow> bool" where
  "profiles_ok ps \<longleftrightarrow> distinct (map Model ps) \<and> (\<forall>p \<in> set ps. profile_ok p)"

lemma validateProfile_PriceKnown [simp]: "validateProfile (p\<lparr>PriceKnown := b\<rparr>) = validateProfile p"
  by (simp add: validateProfile_def)

lemma Model_upsert_in:
  "map Model (upsert_in qs p) = (if Model p \<in> set (map Model qs) then map Model qs else map Model qs @ [Model p])"
  by (induction qs) auto

lemma set_upsert_in: "set (upsert_in qs p) \<subseteq> insert p (set qs)"
  by (induction qs) auto

lemma p_in_upsert_in: "p \<in> set (upsert_in qs p)"
  by (induction qs) auto

lemma profiles_ok_upsert_in: "profiles_ok qs \<Longrightarrow> profile_ok p \<Longrightarrow> profiles_ok (upsert_in qs p)"
  using set_upsert_in [of qs p] by (auto simp: profiles_ok_def Model_upsert_in)

lemma load_models_ok:
  "load_models c ps = Inr c' \<Longrightarrow> profiles_ok (profiles c) \<Longrightarrow>
    profiles_ok (profiles c') \<and> c' = c\<lparr>profiles := profiles c'\<rparr> \<and> (\<forall>p \<in> set ps. validateProfile p = None)"
proof (induction ps arbitrary: c)
  case (Cons p ps)
  let ?p = "p\<lparr>PriceKnown := True\<rparr>"
  from Cons.prems have v: "validateProfile p = None" and l: "load_models (upsert c ?p) ps = Inr c'"
    by (auto split: option.splits)
  from v Cons.prems have "profiles_ok (profiles (upsert c ?p))"
    by (simp add: upsert_def profiles_ok_upsert_in profile_ok_def)
  from Cons.IH [OF l this] v show ?case by (auto simp: upsert_def)
qed simp

lemma load_models_error:
  "load_models c ps = Inl e \<longleftrightarrow>
    (\<exists>p. find (\<lambda>q. validateProfile q \<noteq> None) ps = Some p \<and> validateProfile p = Some e)"
  by (induction ps arbitrary: c) (auto split: option.splits)

lemma load_models_keeps: "load_models c ps = Inr c' \<Longrightarrow> profiles c \<noteq> [] \<or> ps \<noteq> [] \<Longrightarrow> profiles c' \<noteq> []"
proof (induction ps arbitrary: c)
  case (Cons p ps)
  have "upsert_in (profiles c) (p\<lparr>PriceKnown := True\<rparr>) \<noteq> []"
    using p_in_upsert_in [of "p\<lparr>PriceKnown := True\<rparr>" "profiles c"] by auto
  with Cons show ?case by (auto simp: upsert_def split: option.splits)
qed simp

lemma default_profiles_ok: "profiles_ok (profiles NewCatalog)"
  by (simp add: profiles_ok_def profile_ok_def NewCatalog_def defaultProfiles_def curated_def
      validateProfile_def TrimSpace_def trim_left_def trim_right_def is_space_def not_less fl_nonneg)

lemma LoadCatalog_cases:
  "case LoadCatalog doc of
     Inr c \<Rightarrow> profiles c \<noteq> [] \<and> profiles_ok (profiles c)
   | Inl e \<Rightarrow>
       (case doc of
          None \<Rightarrow> e = NotValidJSON
        | Some (replace, models) \<Rightarrow>
            (case find (\<lambda>q. validateProfile q \<noteq> None) models of
               Some p \<Rightarrow> validateProfile p = Some e
             | None \<Rightarrow> e = CatalogueEmpty \<and> replace \<and> models = []))"
proof (cases doc)
  case (Some rm)
  obtain replace models where rm: "rm = (replace, models)" by fastforce
  define c0 where "c0 = (if replace then NewCatalog\<lparr>profiles := []\<rparr> else NewCatalog)"
  have ok0: "profiles_ok (profiles c0)"
    using default_profiles_ok by (simp add: c0_def profiles_ok_def)
  have L: "LoadCatalog doc = (case load_models c0 models of Inl e \<Rightarrow> Inl e
      | Inr c' \<Rightarrow> if profiles c' = [] then Inl CatalogueEmpty else Inr c')"
    by (simp add: LoadCatalog_def Some rm c0_def)
  show ?thesis
  proof (cases "load_models c0 models")
    case (Inl e)
    then show ?thesis using L load_models_error [of c0 models e] by (auto simp: Some rm)
  next
    case (Inr c')
    from load_models_ok [OF Inr ok0] have ok: "profiles_ok (profiles c')"
      and valid: "\<forall>p \<in> set models. validateProfile p = None" by blast+
    show ?thesis
    proof (cases "profiles c' = []")
      case True
      then have "profiles c0 = [] \<and> models = []" using load_models_keeps [OF Inr] by blast
      then show ?thesis using L Inr True NewCatalog_profiles by (auto simp: Some rm c0_def split: if_splits)
    next
      case False
      then show ?thesis using L Inr ok by simp
    qed
  qed
qed (simp add: LoadCatalog_def)


section \<open>The invariant of a catalogue\<close>

definition discovered_ok :: "(string, ModelProfile list) gomap \<Rightarrow> bool" where
  "discovered_ok d \<longleftrightarrow>
     gm_ok d \<and> (\<forall>(name, models) \<in> set d. \<forall>p \<in> set models. Provider p = name \<and> Tasks p = [])"

definition catalog_ok :: "Catalog \<Rightarrow> bool" where
  "catalog_ok c \<longleftrightarrow>
     profiles c \<noteq> [] \<and> profiles_ok (profiles c) \<and> discovered_ok (discovered c) \<and>
     gm_ok (tags c) \<and> gm_ok (confirmed c) \<and> gm_ok (probedAt c) \<and> gm_ok (blacklist c) \<and>
     (\<forall>k. gm_has (confirmed c) k \<longrightarrow> gm_at False (confirmed c) k \<and> gm_has (probedAt c) k) \<and>
     (\<forall>k. gm_has (blacklist c) k \<longrightarrow> gm_at False (blacklist c) k)"

text \<open>The operations that write a catalogue, with what their callers guarantee of the arguments.\<close>

inductive catalog_step :: "Catalog \<Rightarrow> Catalog \<Rightarrow> bool" where
  observe_latencies: "catalog_step c (ObserveLatencies m c)"
| observe_reliability: "catalog_step c (ObserveReliability r c)"
| set_discovered: "(\<And>m. m \<in> set models \<Longrightarrow> dm_Provider m = name) \<Longrightarrow>
    catalog_step c (SetDiscovered name models c)"
| forget_discovered: "catalog_step c (ForgetDiscovered name c)"
| set_tags: "catalog_step c (SetTags ts c)"
| set_confirmed: "gm_ok conf \<Longrightarrow> catalog_step c (SetConfirmed now conf c)"
| mark_probed: "catalog_step c (MarkProbed now keys c)"
| set_blacklist: "gm_ok bl \<Longrightarrow> catalog_step c (SetBlacklist bl c)"

inductive catalog_reachable :: "Catalog \<Rightarrow> bool" where
  built_in: "catalog_reachable NewCatalog"
| loaded: "LoadCatalog doc = Inr c \<Longrightarrow> catalog_reachable c"
| step: "catalog_reachable c \<Longrightarrow> catalog_step c c' \<Longrightarrow> catalog_reachable c'"

lemma copy_map_ok [simp]: "gm_ok acc \<Longrightarrow> gm_ok (copy_map acc m)"
  by (induction acc m rule: copy_map.induct) simp_all

lemma map_of_copy_map:
  "gm_ok m \<Longrightarrow> map_of (copy_map acc m) k = (case map_of m k of None \<Rightarrow> map_of acc k | Some v \<Rightarrow> Some v)"
proof (induction acc m rule: copy_map.induct)
  case (2 acc k' v m)
  then have "map_of m k' = None" by (simp add: map_of_eq_None_iff)
  with 2 show ?case by (simp split: option.split)
qed simp

lemma only_true_ok [simp]: "gm_ok m \<Longrightarrow> gm_ok (only_true m)"
  by (auto simp: only_true_def distinct_map inj_on_def)

lemma map_of_only_true: "gm_ok m \<Longrightarrow> map_of (only_true m) k = (if gm_at False m k then Some True else None)"
proof (induction m)
  case (Cons kv m)
  obtain k' v where kv: "kv = (k', v)" by fastforce
  with Cons.prems have "map_of m k' = None" by (auto simp: map_of_eq_None_iff)
  with Cons kv show ?case by (auto simp: only_true_def gm_at_def split: option.splits)
qed (simp add: only_true_def)

lemma stamp_all_ok [simp]: "gm_ok m \<Longrightarrow> gm_ok (stamp_all now ks m)"
  by (induction now ks m rule: stamp_all.induct) simp_all

lemma gm_has_stamp_all [simp]: "gm_has (stamp_all now ks m) k \<longleftrightarrow> k \<in> set ks \<or> gm_has m k"
  by (induction now ks m rule: stamp_all.induct) auto

lemma copy_only_true:
  assumes "gm_ok m"
  shows "gm_at False (copy_map [] (only_true m)) k = gm_at False m k"
    and "gm_has (copy_map [] (only_true m)) k = gm_at False m k"
  using assms by (auto simp: gm_at_def gm_has_def map_of_copy_map map_of_only_true)

lemma gm_at_False_key: "gm_at False m k \<Longrightarrow> k \<in> fst ` set m"
  by (auto simp: gm_at_def split: option.splits dest: map_of_SomeD intro: rev_image_eqI)

lemma apply_reliability_fields [simp]:
  "Model (apply_reliability m p) = Model p" "Provider (apply_reliability m p) = Provider p"
  "Tasks (apply_reliability m p) = Tasks p" "PriceKnown (apply_reliability m p) = PriceKnown p"
  "InputCostPer1M (apply_reliability m p) = InputCostPer1M p"
  "OutputCostPer1M (apply_reliability m p) = OutputCostPer1M p"
  "validateProfile (apply_reliability m p) = validateProfile p"
  by (auto simp: apply_reliability_def validateProfile_def Let_def split: option.splits)

lemma profiles_ok_map:
  assumes "\<And>p. Model (f p) = Model p" and "\<And>p. profile_ok p \<Longrightarrow> profile_ok (f p)" and "profiles_ok ps"
  shows "profiles_ok (map f ps)"
proof -
  have "map Model (map f ps) = map Model ps" using assms(1) by simp
  with assms show ?thesis by (auto simp: profiles_ok_def simp del: map_map)
qed

text \<open>
  A catalogue that loads is usable: it has a profile, no model name occurs twice, and every
  profile passes validation and has a known price. Loading fails exactly when the text does not decode,
  with the first invalid entry's error when an entry is invalid, and as empty when the built-ins are
  discarded and nothing replaces them.
\<close>

theorem LoadCatalog_sound:
  "case LoadCatalog doc of
     Inr c \<Rightarrow> profiles c \<noteq> [] \<and> profiles_ok (profiles c)
   | Inl e \<Rightarrow>
       (case doc of
          None \<Rightarrow> e = NotValidJSON
        | Some (replace, models) \<Rightarrow>
            (case find (\<lambda>q. validateProfile q \<noteq> None) models of
               Some p \<Rightarrow> validateProfile p = Some e
             | None \<Rightarrow> e = CatalogueEmpty \<and> replace \<and> models = []))"
  by (rule LoadCatalog_cases)

lemma discovered_ok_set:
  assumes "discovered_ok d" and "\<And>p. p \<in> set models \<Longrightarrow> Provider p = name \<and> Tasks p = []"
  shows "discovered_ok (gm_set name models d)"
proof -
  have "(n, ms) \<in> set (gm_set name models d) \<Longrightarrow> (n, ms) = (name, models) \<or> (n, ms) \<in> set d" for n ms
    using assms(1) by (metis discovered_ok_def gm_get_set gm_ok_set map_of_SomeD map_of_is_SomeI option.inject)
  with assms show ?thesis by (fastforce simp: discovered_ok_def)
qed

lemma discovered_ok_del: "discovered_ok d \<Longrightarrow> discovered_ok (gm_del name d)"
proof -
  have "set (gm_del name d) \<subseteq> set d" by (auto simp: AList.delete_eq)
  then show "discovered_ok d \<Longrightarrow> discovered_ok (gm_del name d)"
    unfolding discovered_ok_def by (blast intro: gm_ok_del)
qed

lemma discovered_ok_map:
  assumes "discovered_ok d" and "\<And>p. Provider (f p) = Provider p \<and> Tasks (f p) = Tasks p"
  shows "discovered_ok (map (\<lambda>(name, models). (name, map f models)) d)"
proof -
  have "map fst (map (\<lambda>(name, models). (name, map f models)) d) = map fst d" by auto
  with assms show ?thesis by (fastforce simp: discovered_ok_def simp del: map_map)
qed

text \<open>What the guard of each case discharges.\<close>

lemma catalog_step_ok: "catalog_step c c' \<Longrightarrow> catalog_ok c \<Longrightarrow> catalog_ok c'"
proof (induction rule: catalog_step.induct)
  case (observe_latencies c m)
  let ?f = "\<lambda>p. case map_of m (Model p) of Some ms \<Rightarrow> if ms > 0 then p\<lparr>Observed := ms\<rparr> else p | None \<Rightarrow> p"
  from observe_latencies have "profiles_ok (map ?f (profiles c))"
    by (intro profiles_ok_map)
      (auto simp: catalog_ok_def profile_ok_def validateProfile_def split: option.splits if_splits)
  with observe_latencies show ?case by (simp add: catalog_ok_def ObserveLatencies_def)
next
  case (observe_reliability c r)
  then have "profiles_ok (map (apply_reliability r) (profiles c))"
    by (intro profiles_ok_map) (auto simp: catalog_ok_def profile_ok_def)
  with observe_reliability show ?case
    by (simp add: catalog_ok_def ObserveReliability_def discovered_ok_map)
next
  case (set_discovered models name c)
  then have "discovered_ok (gm_set name (map convert_discovered models) (discovered c))"
    by (intro discovered_ok_set) (auto simp: catalog_ok_def convert_discovered_def)
  with set_discovered.prems show ?case by (simp add: catalog_ok_def SetDiscovered_def)
next
  case (set_confirmed conf c now)
  then show ?case
    by (auto simp: catalog_ok_def SetConfirmed_def copy_only_true dest: gm_at_False_key)
qed (auto simp: catalog_ok_def ForgetDiscovered_def discovered_ok_del SetTags_def MarkProbed_def
    SetBlacklist_def copy_only_true)

lemma catalog_ok_LoadCatalog: "LoadCatalog doc = Inr c \<Longrightarrow> catalog_ok c"
proof -
  assume L: "LoadCatalog doc = Inr c"
  from L obtain rm where doc: "doc = Some rm" by (cases doc) (simp_all add: LoadCatalog_def)
  obtain replace models where rm: "rm = (replace, models)" by fastforce
  from L have l: "load_models (if replace then NewCatalog\<lparr>profiles := []\<rparr> else NewCatalog) models = Inr c"
    by (auto simp: LoadCatalog_def Let_def doc rm split: sum.splits if_splits)
  have "profiles_ok (profiles (if replace then NewCatalog\<lparr>profiles := []\<rparr> else NewCatalog))"
    using default_profiles_ok by (simp add: profiles_ok_def)
  from load_models_ok [OF l this]
  obtain ps where c: "c = (if replace then NewCatalog\<lparr>profiles := []\<rparr> else NewCatalog)\<lparr>profiles := ps\<rparr>"
    by blast
  have "discovered c = [] \<and> tags c = [] \<and> confirmed c = [] \<and> probedAt c = [] \<and> blacklist c = []"
    by (cases replace) (simp_all add: c NewCatalog_def)
  moreover have "profiles c \<noteq> [] \<and> profiles_ok (profiles c)" using LoadCatalog_cases [of doc] L by simp
  ultimately show ?thesis by (simp add: catalog_ok_def discovered_ok_def gm_has_def)
qed

lemma catalog_reachable_ok: "catalog_reachable c \<Longrightarrow> catalog_ok c"
proof (induction rule: catalog_reachable.induct)
  case built_in
  show ?case using default_profiles_ok NewCatalog_profiles
    by (simp add: catalog_ok_def discovered_ok_def gm_has_def NewCatalog_def)
qed (auto intro: catalog_ok_LoadCatalog catalog_step_ok)

text \<open>
  Whatever discovery, feedback, probing and the operator write, in any order: the catalogue keeps
  at least one profile, no name twice, every curated profile valid and priced, each discovered model under
  its own provider, and a model that counts as confirmed working also counts as probed.
\<close>

theorem reachable_catalog_invariant:
  assumes "catalog_reachable c"
  shows "profiles c \<noteq> [] \<and> profiles_ok (profiles c) \<and>
    (\<forall>name models p. map_of (discovered c) name = Some models \<and> p \<in> set models \<longrightarrow> Provider p = name) \<and>
    (\<forall>prov m. Confirmed c prov m \<longrightarrow> Probed c prov m) \<and>
    (AnyConfirmed c \<longleftrightarrow> (\<exists>k. gm_at False (confirmed c) k))"
proof -
  from assms have ok: "catalog_ok c" by (rule catalog_reachable_ok)
  have disc: "Provider p = name" if "map_of (discovered c) name = Some models" and "p \<in> set models" for name models p
    using ok that by (auto simp: catalog_ok_def discovered_ok_def dest: map_of_SomeD)
  have probed: "Probed c prov m" if "Confirmed c prov m" for prov m
    using ok that by (auto simp: catalog_ok_def Confirmed_def Probed_def gm_at_def gm_has_def split: option.splits)
  have any: "AnyConfirmed c \<longleftrightarrow> (\<exists>k. gm_at False (confirmed c) k)"
  proof (cases "confirmed c")
    case (Cons kv m)
    then have "gm_has (confirmed c) (fst kv)" by (simp add: gm_has_keys)
    with ok have "gm_at False (confirmed c) (fst kv)" by (simp add: catalog_ok_def)
    with Cons show ?thesis by (auto simp: AnyConfirmed_def)
  qed (simp add: AnyConfirmed_def)
  from ok disc probed any show ?thesis by (auto simp: catalog_ok_def)
qed

lemma reachable_catalog_invariant_witness:
  "profiles_ok (profiles (SetConfirmed 5 [(''groq/llama'', True), (''groq/tts'', False)] NewCatalog)) \<and>
   Probed (SetConfirmed 5 [(''groq/llama'', True), (''groq/tts'', False)] NewCatalog) ''groq'' ''llama''"
proof -
  let ?c = "SetConfirmed 5 [(''groq/llama'', True), (''groq/tts'', False)] NewCatalog"
  have "catalog_reachable ?c"
    by (rule catalog_reachable.step [OF catalog_reachable.built_in], rule catalog_step.set_confirmed) simp
  moreover have "Confirmed ?c ''groq'' ''llama''" by code_simp
  ultimately show ?thesis using reachable_catalog_invariant [of ?c] by blast
qed

end
