(* ===== verification/Health_Facts.thy ===== *)
theory Health_Facts
  imports Health Catalog_Facts
begin

text \<open>
  What the memory of upstream health promises: when a breaker trips and for how long, what one refusal
  benches, and that whatever requests and probes do, in any interleaving, nothing stays out of rotation
  longer than the last failure justifies.
\<close>

section \<open>When a breaker trips\<close>

definition failures_of :: "string \<Rightarrow> Health \<Rightarrow> int" where
  "failures_of name h = (case map_of (breakers h) name of None \<Rightarrow> 0 | Some b \<Rightarrow> failures b)"

definition record_failures :: "Config \<Rightarrow> string \<Rightarrow> time list \<Rightarrow> Health \<Rightarrow> Health" where
  "record_failures cfg name ts h = fold (\<lambda>t. recordFailure cfg t name) ts h"

lemma failures_of_recordFailure:
  "failures_of n (recordFailure cfg now name h) =
     (if n = name then if BreakerTrip cfg \<le> failures_of name h + 1 then 0 else failures_of name h + 1
      else failures_of n h)"
  by (auto simp: failures_of_def recordFailure_def Let_def split: option.splits)

lemma allow_recordFailure:
  "0 < t \<Longrightarrow> allow t n (recordFailure cfg now name h) =
     (if n = name \<and> BreakerTrip cfg \<le> failures_of name h + 1 then now + BreakerCooldown cfg < t else allow t n h)"
  by (auto simp: failures_of_def allow_def recordFailure_def Let_def After_def split: option.splits)

lemma record_failures_below:
  "failures_of name h + int (length ts) < BreakerTrip cfg \<Longrightarrow>
    failures_of name (record_failures cfg name ts h) = failures_of name h + int (length ts) \<and>
    (\<forall>t n. 0 < t \<longrightarrow> allow t n (record_failures cfg name ts h) = allow t n h)"
proof (induction ts rule: rev_induct)
  case (snoc t ts)
  then show ?case
    by (auto simp: record_failures_def failures_of_recordFailure allow_recordFailure)
qed (simp add: record_failures_def)

text \<open>
  From a clean count a provider stays in rotation through one failure less than the trip, whatever
  their times; the failure that reaches the trip takes it out for exactly the cooldown after that failure
  and starts a fresh count; and no other provider notices.
\<close>

theorem breaker_trips_at_the_limit:
  assumes "failures_of name h = 0" and "int (length ts) + 1 = BreakerTrip cfg" and "0 < t"
  shows "(\<forall>n. allow t n (record_failures cfg name ts h) = allow t n h) \<and>
    (\<forall>n. allow t n (record_failures cfg name (ts @ [now]) h) =
      (if n = name then now + BreakerCooldown cfg < t else allow t n h)) \<and>
    failures_of name (record_failures cfg name (ts @ [now]) h) = 0"
proof -
  have "failures_of name h + int (length ts) < BreakerTrip cfg" using assms by simp
  from record_failures_below [OF this] assms show ?thesis
    by (simp add: record_failures_def failures_of_recordFailure allow_recordFailure)
qed

definition trip_at_3 :: Config where
  "trip_at_3 = Load bare_host (\<lambda>_. [])"

lemma breaker_trips_at_the_limit_witness:
  "allow 25 ''groq'' (record_failures trip_at_3 ''groq'' [10, 20] healthy) \<and>
   \<not> allow 25 ''groq'' (record_failures trip_at_3 ''groq'' [10, 20, 24] healthy)"
proof -
  have "failures_of ''groq'' healthy = 0" "int (length [10, 20 :: time]) + 1 = BreakerTrip trip_at_3" "(0 :: time) < 25"
    by (simp_all add: failures_of_def healthy_def trip_at_3_def Load_def Let_def)
  from breaker_trips_at_the_limit [OF this, of 24]
  have "allow 25 ''groq'' (record_failures trip_at_3 ''groq'' [10, 20] healthy) = allow 25 ''groq'' healthy"
    and "allow 25 ''groq'' (record_failures trip_at_3 ''groq'' [10, 20, 24] healthy) =
      (24 + BreakerCooldown trip_at_3 < 25)"
    by simp_all
  moreover have "allow 25 ''groq'' healthy" by (simp add: allow_def healthy_def)
  moreover have "\<not> 24 + BreakerCooldown trip_at_3 < 25" by (simp add: trip_at_3_def Load_def Let_def Second_def)
  ultimately show ?thesis by blast
qed

section \<open>What one refusal benches\<close>

lemma bench_pool_spec:
  "breakers (bench_pool now c ps h) = breakers h \<and>
   is_benched t (bench_pool now c ps h) c' =
     (if \<exists>p \<in> set ps. Provider p = cand_provider c \<and> Model p \<noteq> cand_model c \<and> benchKey (profile_cand p) = benchKey c'
      then t \<le> now + benchDuration else is_benched t h c')"
proof (induction now c ps h rule: bench_pool.induct)
  case (2 now c p ps h)
  have "breakers (benchOne now (profile_cand p) h) = breakers h" by (simp add: benchOne_def)
  with 2 show ?case by auto
qed simp

text \<open>
  A refusal that an immediate retry will not fix benches the model that gave it, for an hour. When
  the words say that an allowance is spent and the model is free at that provider, the other free models of
  the same provider are benched with it. Any other error benches nothing, no other model's bench changes,
  and no breaker does.
\<close>

theorem benchIfAccessDenied_effect:
  "breakers (benchIfAccessDenied ord cat now c err h) = breakers h \<and>
   is_benched t (benchIfAccessDenied ord cat now c err h) c' =
     (if isAccessDenied err \<and>
         (benchKey c' = benchKey c \<or>
          isAllowanceSpent err \<and> isFreeAt ord cat c \<and>
          list_ex (\<lambda>p. Provider p = cand_provider c \<and> Model p \<noteq> cand_model c \<and>
            benchKey (profile_cand p) = benchKey c') (FreeModels ord cat))
      then t \<le> now + Hour else is_benched t h c')"
proof (cases "isAccessDenied err")
  case True
  have "breakers (benchOne now c h) = breakers h" by (simp add: benchOne_def)
  with True show ?thesis
    by (auto simp: benchIfAccessDenied_def Let_def bench_pool_spec benchDuration_def list_ex_iff)
qed (simp add: benchIfAccessDenied_def)

section \<open>Recovery under any interleaving\<close>

text \<open>Everything that reads or writes the health memory, one locked operation at a time.\<close>

datatype health_op =
    Failed time string
  | Succeeded string
  | Refused time candidate
  | Asked time candidate
  | Answered candidate
  | KeysChanged

fun health_exec :: "Config \<Rightarrow> health_op \<Rightarrow> Health \<Rightarrow> Health" where
  "health_exec cfg (Failed now name) h = recordFailure cfg now name h"
| "health_exec cfg (Succeeded name) h = recordSuccess name h"
| "health_exec cfg (Refused now c) h = benchOne now c h"
| "health_exec cfg (Asked now c) h = snd (benched now c h)"
| "health_exec cfg (Answered c) h = unbench c h"
| "health_exec cfg KeysChanged h = ClearBench h"

definition health_run :: "Config \<Rightarrow> health_op list \<Rightarrow> Health \<Rightarrow> Health" where
  "health_run cfg ops h = fold (health_exec cfg) ops h"

fun breaker_op :: "Config \<Rightarrow> health_op \<Rightarrow> (string, Health) gate_op" where
  "breaker_op cfg (Failed now name) = Hit now name"
| "breaker_op cfg (Succeeded name) = Release name"
| "breaker_op cfg op = Other (health_exec cfg op)"

fun bench_op :: "Config \<Rightarrow> health_op \<Rightarrow> (string, Health) gate_op" where
  "bench_op cfg (Refused now c) = Hit now (benchKey c)"
| "bench_op cfg (Answered c) = Release (benchKey c)"
| "bench_op cfg op = Other (health_exec cfg op)"

lemma health_run_breaker: "health_run cfg ops h = breaker_gate.run cfg (map (breaker_op cfg) ops) h"
proof (induction ops arbitrary: h)
  case (Cons op ops)
  then show ?case by (cases op) (simp_all add: health_run_def)
qed (simp add: health_run_def)

lemma health_run_bench: "health_run cfg ops h = bench_gate.run (map (bench_op cfg) ops) h"
proof (induction ops arbitrary: h)
  case (Cons op ops)
  then show ?case by (cases op) (simp_all add: health_run_def bench_by_key)
qed (simp add: health_run_def)

lemma breaker_harmless: "breaker_gate.harmless (map (breaker_op cfg) ops)"
proof -
  have "allow t k (health_exec cfg op s) = allow t k s" if "breaker_op cfg op = Other f" for op f t k s
    using that by (cases op)
      (auto simp: allow_def benchOne_def benched_def unbench_def ClearBench_def split: option.splits if_splits)
  moreover have "f = health_exec cfg op" if "breaker_op cfg op = Other f" for op f
    using that by (cases op) auto
  ultimately have "allow t k (f s) = allow t k s" if "breaker_op cfg op = Other f" for op f t k s
    using that by metis
  then show ?thesis by (auto simp: breaker_gate.harmless_def)
qed

lemma bench_harmless: "bench_gate.harmless (map (bench_op cfg) ops)"
proof -
  have "key_benched t k s" if "key_benched t k (health_exec cfg op s)" and "bench_op cfg op = Other f" for op f t k s
    using that by (cases op)
      (auto simp: key_benched_def recordFailure_def recordSuccess_def benched_def ClearBench_def Let_def
        split: option.splits if_splits)
  moreover have "f = health_exec cfg op" if "bench_op cfg op = Other f" for op f
    using that by (cases op) auto
  ultimately have "key_benched t k s" if "bench_op cfg op = Other f" "key_benched t k (f s)" for op f t k s
    using that by metis
  then show ?thesis by (auto simp: bench_gate.harmless_def) metis+
qed

lemma map_eq_split:
  "map f xs = pre @ y # post \<Longrightarrow> \<exists>p x q. xs = p @ x # q \<and> f x = y \<and> map f q = post"
  by (auto simp: map_eq_append_conv)

lemma breaker_op_Hit [simp]: "breaker_op cfg op = Hit now n \<longleftrightarrow> op = Failed now n"
  by (cases op) auto

lemma bench_op_Hit [simp]: "bench_op cfg op = Hit now k \<longleftrightarrow> (\<exists>c. op = Refused now c \<and> benchKey c = k)"
  by (cases op) auto

text \<open>
  C11. Starting healthy and whatever requests, probes and key changes do, in any interleaving: a provider
  is out of rotation only while the cooldown of one of its own failures lasts with no success since, and a
  model is benched only within an hour of one of its own refusals with no successful probe since.
\<close>

theorem health_recovers:
  assumes "0 < t"
  shows "(\<not> allow t name (health_run cfg ops healthy) \<longrightarrow>
      (\<exists>pre now post. ops = pre @ Failed now name # post \<and> t \<le> now + BreakerCooldown cfg \<and>
        Succeeded name \<notin> set post)) \<and>
    (is_benched t (health_run cfg ops healthy) c \<longrightarrow>
      (\<exists>pre now c' post. ops = pre @ Refused now c' # post \<and> benchKey c' = benchKey c \<and> t \<le> now + Hour \<and>
        Answered c \<notin> set post))"
proof (intro conjI impI)
  assume "\<not> allow t name (health_run cfg ops healthy)"
  then have closed: "\<not> allow t name (breaker_gate.run cfg (map (breaker_op cfg) ops) healthy)"
    by (simp add: health_run_breaker)
  have "allow t name healthy" by (simp add: allow_def healthy_def)
  with breaker_gate.closed_recent [OF closed assms breaker_harmless] obtain now pre post where
    t: "t \<le> now + BreakerCooldown cfg" and m: "map (breaker_op cfg) ops = pre @ Hit now name # post"
    and r: "Release name \<notin> set post" by blast
  from map_eq_split [OF m] obtain p q where "ops = p @ Failed now name # q" and "map (breaker_op cfg) q = post"
    by auto
  moreover from this r have "Succeeded name \<notin> set q" by force
  ultimately show "\<exists>pre now post. ops = pre @ Failed now name # post \<and> t \<le> now + BreakerCooldown cfg \<and>
      Succeeded name \<notin> set post" using t by blast
next
  assume "is_benched t (health_run cfg ops healthy) c"
  then have closed: "key_benched t (benchKey c) (bench_gate.run (map (bench_op cfg) ops) healthy)"
    by (simp add: health_run_bench bench_by_key)
  have "\<not> key_benched t (benchKey c) healthy" by (simp add: key_benched_def healthy_def)
  with bench_gate.closed_recent [OF closed assms bench_harmless] obtain now pre post where
    t: "t \<le> now + benchDuration" and m: "map (bench_op cfg) ops = pre @ Hit now (benchKey c) # post"
    and r: "Release (benchKey c) \<notin> set post" by blast
  from map_eq_split [OF m] obtain p c' q where "ops = p @ Refused now c' # q" "benchKey c' = benchKey c"
    and "map (bench_op cfg) q = post" by auto
  moreover from this r have "Answered c \<notin> set q" by force
  ultimately show "\<exists>pre now c' post. ops = pre @ Refused now c' # post \<and> benchKey c' = benchKey c \<and> t \<le> now + Hour \<and>
      Answered c \<notin> set post" using t unfolding benchDuration_def by blast
qed

lemma health_recovers_witness:
  "\<exists>pre now post. [Failed 5 ''groq'', Failed 6 ''groq'', Failed 7 ''groq''] = pre @ Failed now ''groq'' # post \<and>
     8 \<le> now + BreakerCooldown trip_at_3"
proof -
  have "\<not> allow 8 ''groq'' (health_run trip_at_3 [Failed 5 ''groq'', Failed 6 ''groq'', Failed 7 ''groq''] healthy)"
    by (simp add: health_run_def allow_recordFailure failures_of_recordFailure)
      (simp add: failures_of_def healthy_def trip_at_3_def Load_def Let_def Second_def)
  with health_recovers [of 8 "''groq''" trip_at_3 "[Failed 5 ''groq'', Failed 6 ''groq'', Failed 7 ''groq'']"]
  show ?thesis by fastforce
qed

section \<open>The state invariant\<close>

definition health_ok :: "Config \<Rightarrow> Health \<Rightarrow> bool" where
  "health_ok cfg h \<longleftrightarrow>
     gm_ok (breakers h) \<and> gm_ok (bench h) \<and>
     (\<forall>n b. map_of (breakers h) n = Some b \<longrightarrow> 0 \<le> failures b \<and> failures b < BreakerTrip cfg)"

lemma health_exec_ok:
  assumes "1 \<le> BreakerTrip cfg" and ok: "health_ok cfg h"
  shows "health_ok cfg (health_exec cfg op h)"
proof (cases op)
  case (Failed now name)
  have "0 \<le> failures_of name h" using ok by (auto simp: health_ok_def failures_of_def split: option.splits)
  with assms Failed show ?thesis
    by (auto simp: health_ok_def recordFailure_def failures_of_def Let_def split: option.splits if_splits)
next
  case (Succeeded name)
  with assms show ?thesis 
    by (auto simp: health_ok_def recordSuccess_def simp del: map_of_eq_Some_iff split: option.splits)
next
  case (Asked now c)
  with assms show ?thesis by (auto simp: health_ok_def benched_def split: option.splits)
qed (use assms in \<open>auto simp: health_ok_def benchOne_def unbench_def ClearBench_def\<close>)

lemma health_run_ok: "1 \<le> BreakerTrip cfg \<Longrightarrow> health_ok cfg h \<Longrightarrow> health_ok cfg (health_run cfg ops h)"
  by (induction ops arbitrary: h) (simp_all add: health_run_def health_exec_ok)

lemma benchKey_eq_iff:
  assumes "CHR ''/'' \<notin> set (cand_provider c)" and "CHR ''/'' \<notin> set (cand_provider c')"
  shows "benchKey c = benchKey c' \<longleftrightarrow> c = c'"
proof
  have split: "a = a' \<and> b = b'"
    if "a @ CHR ''/'' # b = a' @ CHR ''/'' # b'" "CHR ''/'' \<notin> set a" "CHR ''/'' \<notin> set a'"
    for a a' b b' :: string
    using that by (auto simp: append_eq_append_conv2 Cons_eq_append_conv append_eq_Cons_conv)
  assume "benchKey c = benchKey c'"
  with assms show "c = c'" by (auto simp: benchKey_def dest!: split)
qed simp

end
