(* ===== verification/Planning_Spec.thy ===== *)
theory Planning_Spec
  imports Planning Health_Facts
begin

text \<open>
  The planner without its side effect: the chain as a pure function of which models are benched. Every
  screening function of \<open>Planning\<close> refines its pure counterpart here: it gives the same answer, and all it
  does to the health memory is to forget entries that had expired. The interface \<open>health_query\<close> says this
  once, with what follows for a caller: asking again, or asking in another order, changes no answer.
\<close>

section \<open>An interface: questions about health\<close>

locale health_query =
  fixes now :: time
    and ask :: "Health \<Rightarrow> 'r \<times> Health"
    and answer :: "(candidate \<Rightarrow> bool) \<Rightarrow> 'r"
  assumes ask_answer: "fst (ask h) = answer (is_benched now h)"
    and ask_swept: "swept now h (snd (ask h))"
begin

lemma ask_eq: "ask h = (answer (is_benched now h), snd (ask h))"
  by (metis ask_answer prod.collapse)

lemma benched_after: "now \<le> t \<Longrightarrow> is_benched t (snd (ask h)) = is_benched t h"
  using ask_swept by (rule swept_is_benched)

lemma ask_after_sweep: "swept now h h' \<Longrightarrow> fst (ask h') = fst (ask h)"
  by (simp add: ask_answer swept_is_benched)

lemma ask_again: "fst (ask (snd (ask h))) = fst (ask h)"
  by (rule ask_after_sweep) (rule ask_swept)

end

interpretation benched: health_query now "benched now c" "\<lambda>B. B c" for now c
  by unfold_locales (simp_all add: benched_spec)

text \<open>One question after another is a question.\<close>

lemma query_swept:
  assumes "swept now h (snd (f h))" and "\<And>a h1. swept now h1 (snd (k a h1))"
  shows "swept now h (snd (case f h of (a, h1) \<Rightarrow> k a h1))"
  using assms swept_trans by (fastforce split: prod.splits)

section \<open>The pure planner\<close>

definition spec_available :: "Gateway \<Rightarrow> (candidate \<Rightarrow> bool) \<Rightarrow> candidate \<Rightarrow> bool" where
  "spec_available g B c \<longleftrightarrow>
     \<not> B c \<and> (AnyConfirmed (catalog g) \<longrightarrow> Confirmed (catalog g) (cand_provider c) (cand_model c))"

definition free_entry :: "ranges \<Rightarrow> Gateway \<Rightarrow> candidate \<Rightarrow> bool" where
  "free_entry r g c \<longleftrightarrow>
     (\<exists>p \<in> set (Resolve (resolving r (cand_model c)) (catalog g) (cand_model c)).
        Provider p = cand_provider c \<and> Free p)"

definition spec_usable :: "Gateway \<Rightarrow> keys \<Rightarrow> (candidate \<Rightarrow> bool) \<Rightarrow> candidate \<Rightarrow> bool" where
  "spec_usable g keys B c \<longleftrightarrow>
     keyed keys (cand_provider c) \<and> \<not> B c \<and> ServesModel (catalog g) (cand_provider c) (cand_model c)"

definition spec_freeNamed :: "ranges \<Rightarrow> Gateway \<Rightarrow> (candidate \<Rightarrow> bool) \<Rightarrow> string \<Rightarrow> keys \<Rightarrow> candidate list" where
  "spec_freeNamed r g B m keys =
     (if m = [] \<or> EqualFold (TrimSpace m) freeSentinel then []
      else filter (\<lambda>c. free_entry r g c \<and> spec_available g B c) (filterToKeyed (placements r g m) keys))"

text \<open>What the pool offers: the candidates worth an attempt, those of one provider, and the providers.\<close>

definition offered :: "keys \<Rightarrow> (candidate \<Rightarrow> bool) \<Rightarrow> ModelProfile list \<Rightarrow> candidate list" where
  "offered keys B pool = filter (\<lambda>c. keyed keys (cand_provider c) \<and> \<not> B c) (map profile_cand pool)"

definition of_provider :: "string \<Rightarrow> candidate list \<Rightarrow> candidate list" where
  "of_provider name cs = filter (\<lambda>c. cand_provider c = name) cs"

fun first_seen :: "string list \<Rightarrow> candidate list \<Rightarrow> string list" where
  "first_seen seen [] = []"
| "first_seen seen (c # cs) =
     (if cand_provider c \<in> set seen then first_seen seen cs
      else cand_provider c # first_seen (cand_provider c # seen) cs)"

definition nth_of :: "nat \<Rightarrow> candidate list \<Rightarrow> candidate list" where
  "nth_of rnd cs = (if rnd < length cs then [cs ! rnd] else [])"

definition spec_pick :: "Gateway \<Rightarrow> candidate list \<Rightarrow> candidate list" where
  "spec_pick g cs =
     (let order = first_seen [] cs;
          rounds = map (\<lambda>rnd. concat (map (\<lambda>n. nth_of rnd (of_provider n cs)) order)) [0..<pick_depth g]
      in take (pick_limit g order) (concat rounds))"

definition spec_pickOnePerProvider ::
  "Gateway \<Rightarrow> (candidate \<Rightarrow> bool) \<Rightarrow> ModelProfile list \<Rightarrow> keys \<Rightarrow> candidate list" where
  "spec_pickOnePerProvider g B pool keys = spec_pick g (offered keys B pool)"

definition discovered_pool :: "ranges \<Rightarrow> Gateway \<Rightarrow> TaskType \<Rightarrow> sentinelIntent \<Rightarrow> ModelProfile list" where
  "discovered_pool r g task intent =
     PreferConfirmed (catalog g) (slice_stable general_less
       (RankForTask (restrictToTagged g (Discovered (whole r) (catalog g)) task) task (objectiveFor g intent)))"

definition free_pool :: "ranges \<Rightarrow> Gateway \<Rightarrow> TaskType \<Rightarrow> sentinelIntent \<Rightarrow> ModelProfile list" where
  "free_pool r g task intent =
     PreferConfirmed (catalog g)
       (RankForTask (ConfirmedOnly (catalog g) (restrictToTagged g (FreeModels (whole r) (catalog g)) task))
         task (objectiveFor g intent))"

definition spec_named :: "ranges \<Rightarrow> Gateway \<Rightarrow> (candidate \<Rightarrow> bool) \<Rightarrow> string \<Rightarrow> keys \<Rightarrow> candidate list" where
  "spec_named r g B model0 keys =
     (let m = (if model0 = [] then DefaultModel (cfg g) else model0);
          (out, seen) = collect (filterToKeyed (placements r g m) keys) []
      in out @ fst (collect (filter (spec_usable g keys B)
           (concat (map (placements r g) (FallbackModels (cfg g))))) seen))"

definition request_task :: "ChatRequest \<Rightarrow> TaskType" where
  "request_task req =
     (let intent = intentFor (ReqModel req) in
      if in_task intent \<noteq> [] then in_task intent else DetectTask (lastUserPrompt req))"

definition refuses_name :: "Gateway \<Rightarrow> ChatRequest \<Rightarrow> bool" where
  "refuses_name g req \<longleftrightarrow>
     (let m = TrimSpace (ReqModel req) in m \<noteq> [] \<and> \<not> EqualFold m freeSentinel \<and> \<not> in_known (intentFor m))"

definition spec_candidates ::
  "ranges \<Rightarrow> Gateway \<Rightarrow> (candidate \<Rightarrow> bool) \<Rightarrow> ChatRequest \<Rightarrow> keys \<Rightarrow> candidate list" where
  "spec_candidates r g B req keys =
     (let m = ReqModel req; intent = intentFor m; task = request_task req in
      if gw_freeOnly g m then
        (if spec_freeNamed r g B m keys \<noteq> [] then spec_freeNamed r g B m keys
         else if refuses_name g req then []
         else spec_pickOnePerProvider g B (free_pool r g task intent) keys)
      else if smartRouting g m then
        (let cs = filter (spec_usable g keys B) (rankedCandidates g task intent) in
         if cs \<noteq> [] then cs else spec_pickOnePerProvider g B (discovered_pool r g task intent) keys)
      else spec_named r g B m keys)"

definition spec_task :: "Gateway \<Rightarrow> ChatRequest \<Rightarrow> TaskType" where
  "spec_task g req =
     (if gw_freeOnly g (ReqModel req) \<or> smartRouting g (ReqModel req) then request_task req
      else DetectTask (lastUserPrompt req))"

definition spec_plan ::
  "ranges \<Rightarrow> Gateway \<Rightarrow> ChatRequest \<Rightarrow> keys \<Rightarrow> (candidate \<Rightarrow> bool) \<Rightarrow> candidate list \<times> TaskType" where
  "spec_plan r g req keys B = (excludeBlacklisted g (spec_candidates r g B req keys), spec_task g req)"

section \<open>The code refines it: screening\<close>

lemma available_query:
  "fst (available now g c h) = spec_available g (is_benched now h) c \<and> swept now h (snd (available now g c h))"
  using benched.ask_eq [of now c h] benched.ask_swept [of now h c]
  by (simp add: available_def Let_def spec_available_def split: prod.splits) auto

interpretation available: health_query now "available now g c" "\<lambda>B. spec_available g B c" for now g c
  by unfold_locales (simp_all add: available_query)

lemma free_available_query:
  "fst (free_available now g c ps h) =
     ((\<exists>p \<in> set ps. Provider p = cand_provider c \<and> Free p) \<and> spec_available g (is_benched now h) c) \<and>
   swept now h (snd (free_available now g c ps h))"
proof (induction ps arbitrary: h)
  case (Cons p ps)
  obtain a h1 where a: "available now g c h = (a, h1)" by fastforce
  with available_query [of now g c h] have sw: "swept now h h1" and av: "a = spec_available g (is_benched now h) c"
    by simp_all
  from sw have "is_benched now h1 = is_benched now h" by (simp add: swept_is_benched)
  with Cons.IH [of h] Cons.IH [of h1] a av sw show ?case by (auto intro: swept_trans)
qed simp

lemma keep_free_query:
  "fst (keep_free r now g cs h) = filter (\<lambda>c. free_entry r g c \<and> spec_available g (is_benched now h) c) cs \<and>
   swept now h (snd (keep_free r now g cs h))"
proof (induction cs arbitrary: h)
  case (Cons c cs)
  let ?ps = "Resolve (resolving r (cand_model c)) (catalog g) (cand_model c)"
  obtain a h1 where a: "free_available now g c ?ps h = (a, h1)" by fastforce
  with free_available_query [of now g c ?ps h] have sw: "swept now h h1"
    and av: "a = (free_entry r g c \<and> spec_available g (is_benched now h) c)"
    by (simp_all add: free_entry_def)
  from sw have "is_benched now h1 = is_benched now h" by (simp add: swept_is_benched)
  with Cons.IH [of h1] a av sw show ?case by (auto simp: split_beta intro: swept_trans)
qed simp

interpretation freeNamed: health_query now "freeNamed r now g m keys" "\<lambda>B. spec_freeNamed r g B m keys"
  for now r g m keys
  by unfold_locales (simp_all add: freeNamed_def spec_freeNamed_def keep_free_query)

lemma usable_query:
  "fst (usable now g keys cs h) = filter (spec_usable g keys (is_benched now h)) cs \<and>
   swept now h (snd (usable now g keys cs h))"
proof (induction cs arbitrary: h)
  case (Cons c cs)
  obtain b h1 where b: "benched now c h = (b, h1)" by fastforce
  with benched.ask_answer [of now c h] benched.ask_swept [of now h c]
  have sw: "swept now h h1" and B: "b = is_benched now h c" by simp_all
  from sw have "is_benched now h1 = is_benched now h" by (simp add: swept_is_benched)
  with Cons.IH [of h] Cons.IH [of h1] b B sw show ?case
    by (auto simp: spec_usable_def split_beta intro: swept_trans)
qed simp

interpretation usable: health_query now "usable now g keys cs" "\<lambda>B. filter (spec_usable g keys B) cs"
  for now g keys cs
  by unfold_locales (simp_all add: usable_query)

section \<open>The code refines it: the automatic chain\<close>

lemma first_seen_snoc:
  "first_seen seen (cs @ [c]) =
     first_seen seen cs @ (if cand_provider c \<in> set seen \<union> cand_provider ` set cs then [] else [cand_provider c])"
  by (induction seen cs rule: first_seen.induct) auto

text \<open>What the two maps of the first loop hold after it has accepted the candidates \<open>cs\<close>.\<close>

definition collected :: "nat \<Rightarrow> (string, candidate list) gomap \<Rightarrow> string list \<Rightarrow> candidate list \<Rightarrow> bool" where
  "collected depth per order cs \<longleftrightarrow>
     order = first_seen [] cs \<and> (\<forall>n. gm_at [] per n = take depth (of_provider n cs)) \<and>
     (\<forall>n. gm_has per n = (n \<in> cand_provider ` set cs))"

lemma of_provider_eq_Nil: "of_provider n cs = [] \<longleftrightarrow> n \<notin> cand_provider ` set cs"
  by (auto simp: of_provider_def filter_empty_conv)

lemma of_provider_snoc: "of_provider n (cs @ [c]) = of_provider n cs @ (if cand_provider c = n then [c] else [])"
  by (simp add: of_provider_def)

lemma collected_snoc:
  fixes c :: candidate
  assumes "collected depth per order cs" and "1 \<le> depth"
  defines "got \<equiv> gm_at [] per (cand_provider c)"
  shows "collected depth
    (if length got < depth then gm_set (cand_provider c) (got @ [c]) per else per)
    (if gm_has per (cand_provider c) then order else order @ [cand_provider c]) (cs @ [c])"
proof -
  let ?of = "of_provider (cand_provider c) cs"
  have got: "got = take depth ?of" using assms(1) by (simp add: got_def collected_def)
  have full: "depth \<le> length ?of" if "\<not> length got < depth" using that by (auto simp: got)
  have room: "got = ?of" if "length got < depth" using that by (auto simp: got)
  have "gm_has per (cand_provider c)" if "\<not> length got < depth"
  proof -
    have "?of \<noteq> []" using full [OF that] assms(2) by auto
    then show ?thesis using assms(1) unfolding of_provider_eq_Nil collected_def by blast
  qed
  let ?per = "if length got < depth then gm_set (cand_provider c) (got @ [c]) per else per"
  have has0: "gm_has per n \<longleftrightarrow> n \<in> cand_provider ` set cs"
    and at_0: "gm_at [] per n = take depth (of_provider n cs)"
    and order: "order = first_seen [] cs" for n using assms(1) by (simp_all add: collected_def)
  have has: "gm_has ?per n \<longleftrightarrow> n \<in> cand_provider ` set (cs @ [c])" for n
    using has0 \<open>\<not> length got < depth \<Longrightarrow> gm_has per (cand_provider c)\<close>
    by (cases "length got < depth") auto
  have got_at: "gm_at [] ?per n = take depth (of_provider n (cs @ [c]))" for n
  proof (cases "n = cand_provider c \<and> length got < depth")
    case True
    with room have "gm_at [] ?per n = ?of @ [c]" "length ?of < depth" by simp_all
    with True show ?thesis by (simp add: of_provider_snoc)
  next
    case False
    then have "gm_at [] ?per n = take depth (of_provider n cs)" by (auto simp: at_0)
    moreover from False full have "cand_provider c = n \<Longrightarrow> depth \<le> length (of_provider n cs)" by blast
    ultimately show ?thesis by (simp add: of_provider_snoc)
  qed
  have "(if gm_has per (cand_provider c) then order else order @ [cand_provider c]) = first_seen [] (cs @ [c])"
    by (simp add: order has0 first_seen_snoc)
  with has got_at show ?thesis unfolding collected_def by blast
qed

lemma pick_collect_query:
  assumes "collected depth per order cs" and "1 \<le> depth"
  shows "\<exists>per' order' h'. pick_collect depth now keys pool per order h = (per', order', h') \<and>
    collected depth per' order' (cs @ offered keys (is_benched now h) pool) \<and> swept now h h'"
  using assms(1)
proof (induction pool arbitrary: per order h cs)
  case (Cons p ps)
  show ?case
  proof (cases "keyed keys (Provider p)")
    case False
    with Cons show ?thesis by (simp add: offered_def)
  next
    case True
    obtain b h1 where b: "benched now (profile_cand p) h = (b, h1)" by fastforce
    with benched.ask_answer [of now "profile_cand p" h] benched.ask_swept [of now h "profile_cand p"]
    have sw: "swept now h h1" and B: "b = is_benched now h (profile_cand p)" by simp_all
    from sw have same: "is_benched now h1 = is_benched now h" by (simp add: swept_is_benched)
    show ?thesis
    proof (cases b)
      case True
      from Cons.IH [OF Cons.prems, of h1] same sw True b B \<open>keyed keys (Provider p)\<close> show ?thesis
        by (auto simp: offered_def intro: swept_trans)
    next
      case False
      from collected_snoc [OF Cons.prems assms(2), of "profile_cand p"]
      have "collected depth
        (if length (gm_at [] per (Provider p)) < depth
         then gm_set (Provider p) (gm_at [] per (Provider p) @ [profile_cand p]) per else per)
        (if gm_has per (Provider p) then order else order @ [Provider p]) (cs @ [profile_cand p])"
        unfolding profile_cand_fields .
      from Cons.IH [OF this, of h1] same sw False b B \<open>keyed keys (Provider p)\<close> show ?thesis
        by (auto simp: offered_def Let_def intro: swept_trans)
    qed
  qed
qed (simp add: offered_def)

lemma pick_round_take:
  "length out < limit \<Longrightarrow>
    pick_round limit per rnd names out = take limit (out @ concat (map (\<lambda>n. nth_of rnd (gm_at [] per n)) names))"
proof (induction names arbitrary: out)
  case (Cons n names)
  show ?case
  proof (cases "length (gm_at [] per n) \<le> rnd")
    case True
    with Cons show ?thesis by (simp add: nth_of_def Let_def)
  next
    case False
    show ?thesis
    proof (cases "Suc (length out) = limit")
      case True
      with False show ?thesis by (auto simp: nth_of_def Let_def)
    next
      case more: False
      with Cons.prems have "length (out @ [gm_at [] per n ! rnd]) < limit" by simp
      from Cons.IH [OF this] False more show ?thesis by (simp add: nth_of_def Let_def)
    qed
  qed
qed simp

lemma take_take_append: "take n (take n xs @ ys) = take n (xs @ ys)"
  by (cases "length xs \<le> n") auto

lemma pick_rounds_take:
  "length out \<le> limit \<Longrightarrow>
    pick_rounds limit per order rnd n out =
      take limit (out @ concat (map (\<lambda>r. concat (map (\<lambda>m. nth_of r (gm_at [] per m)) order)) [rnd..<rnd + n]))"
proof (induction n arbitrary: rnd out)
  case (Suc n)
  let ?rd = "\<lambda>r. concat (map (\<lambda>m. nth_of r (gm_at [] per m)) order)"
  show ?case
  proof (cases "length out < limit")
    case True
    then have r: "pick_round limit per rnd order out = take limit (out @ ?rd rnd)" by (rule pick_round_take)
    have upt: "[rnd..<rnd + Suc n] = rnd # [Suc rnd..<Suc rnd + n]" by (simp add: upt_rec)
    have "pick_rounds limit per order rnd (Suc n) out =
        take limit (take limit (out @ ?rd rnd) @ concat (map ?rd [Suc rnd..<Suc rnd + n]))"
      using Suc.IH [of "take limit (out @ ?rd rnd)" "Suc rnd"] True by (simp only: pick_rounds.simps r) simp
    then show ?thesis by (simp only: upt take_take_append) simp
  qed (use Suc.prems in simp)
qed simp

lemma nth_of_take [simp]: "rnd < depth \<Longrightarrow> nth_of rnd (take depth cs) = nth_of rnd cs"
  by (simp add: nth_of_def)

lemma pick_depth_pos [simp]: "Suc 0 \<le> pick_depth g"
  by (auto simp: pick_depth_def Suc_le_eq)

lemma pickOnePerProvider_query:
  "fst (pickOnePerProvider now g pool keys h) = spec_pickOnePerProvider g (is_benched now h) pool keys \<and>
   swept now h (snd (pickOnePerProvider now g pool keys h))"
proof -
  have "collected (pick_depth g) [] [] []" by (simp add: collected_def of_provider_def gm_has_def)
  from pick_collect_query [OF this, of now keys pool h] obtain per order h' where
    p: "pick_collect (pick_depth g) now keys pool [] [] h = (per, order, h')" and sw: "swept now h h'" and
    c: "collected (pick_depth g) per order (offered keys (is_benched now h) pool)" by auto
  let ?cs = "offered keys (is_benched now h) pool"
  have per: "\<And>n. gm_at [] per n = take (pick_depth g) (of_provider n ?cs)" and order: "order = first_seen [] ?cs"
    using c by (simp_all add: collected_def)
  have eq: "map (\<lambda>r. concat (map (\<lambda>m. nth_of r (gm_at [] per m)) order)) [0..<pick_depth g] =
      map (\<lambda>r. concat (map (\<lambda>m. nth_of r (of_provider m ?cs)) order)) [0..<pick_depth g]"
    by (intro map_cong refl) (simp add: per)
  have "pick_rounds (pick_limit g order) per order 0 (pick_depth g) [] =
      take (pick_limit g order) (concat (map (\<lambda>r. concat (map (\<lambda>m. nth_of r (of_provider m ?cs)) order)) [0..<pick_depth g]))"
    unfolding pick_rounds_take [of "[]" "pick_limit g order" per order 0 "pick_depth g", simplified] eq ..
  with sw show ?thesis
    by (simp only: pickOnePerProvider_def p spec_pickOnePerProvider_def spec_pick_def Let_def prod.case fst_conv
        snd_conv order [symmetric])
qed

interpretation pickOnePerProvider:
  health_query now "pickOnePerProvider now g pool keys" "\<lambda>B. spec_pickOnePerProvider g B pool keys"
  for now g pool keys
  by unfold_locales (simp_all add: pickOnePerProvider_query)

section \<open>The code refines it: the plan\<close>

lemma discoveredCandidates_pick:
  "discoveredCandidates r now g keys task intent h = pickOnePerProvider now g (discovered_pool r g task intent) keys h"
  by (simp add: discoveredCandidates_def discovered_pool_def Let_def)

lemma freeCandidates_pick:
  "freeCandidates r now g keys task intent h = pickOnePerProvider now g (free_pool r g task intent) keys h"
  by (simp add: freeCandidates_def free_pool_def Let_def)

lemma namedCandidates_query:
  "fst (namedCandidates r now g m keys h) = spec_named r g (is_benched now h) m keys \<and>
   swept now h (snd (namedCandidates r now g m keys h))"
  by (simp add: namedCandidates_def spec_named_def Let_def split_beta usable_query)

interpretation namedCandidates: health_query now "namedCandidates r now g m keys" "\<lambda>B. spec_named r g B m keys"
  for r now g m keys
  by unfold_locales (simp_all add: namedCandidates_query)

lemma planCandidates_query:
  "fst (planCandidates r now g req keys h) = (spec_candidates r g (is_benched now h) req keys, spec_task g req) \<and>
   swept now h (snd (planCandidates r now g req keys h))"
proof -
  let ?m = "ReqModel req" and ?B = "is_benched now h"
  consider (free) "gw_freeOnly g ?m" | (smart) "\<not> gw_freeOnly g ?m" "smartRouting g ?m"
    | (named) "\<not> gw_freeOnly g ?m" "\<not> smartRouting g ?m" by blast
  then show ?thesis
  proof cases
    case free
    obtain cs h1 where f: "freeNamed r now g ?m keys h = (cs, h1)" by fastforce
    with freeNamed.ask_answer [of r now g ?m keys h] freeNamed.ask_swept [of now h r g ?m keys]
    have cs: "cs = spec_freeNamed r g ?B ?m keys" and sw: "swept now h h1" by simp_all
    from sw have same: "is_benched now h1 = ?B" by (simp add: swept_is_benched)
    show ?thesis
      using pickOnePerProvider_query [of now g _ keys h1] cs sw same free
      by (auto simp: planCandidates_def spec_candidates_def spec_task_def request_task_def refuses_name_def
          Let_def f freeCandidates_pick split_beta intro: swept_trans)
  next
    case smart
    let ?ranked = "rankedCandidates g (request_task req) (intentFor ?m)"
    obtain cs h1 where u: "usable now g keys ?ranked h = (cs, h1)" by fastforce
    with usable_query [of now g keys ?ranked h]
    have cs: "cs = filter (spec_usable g keys ?B) ?ranked" and sw: "swept now h h1" by simp_all
    from sw have same: "is_benched now h1 = ?B" by (simp add: swept_is_benched)
    have p: "planCandidates r now g req keys h =
        (if cs = [] then
           (let (ds, h2) = pickOnePerProvider now g (discovered_pool r g (request_task req) (intentFor ?m)) keys h1
            in ((ds, request_task req), h2))
         else ((cs, request_task req), h1))"
      using smart u by (simp add: planCandidates_def request_task_def Let_def discoveredCandidates_pick)
    show ?thesis
      using pickOnePerProvider_query [of now g _ keys h1] cs sw same smart
      by (auto simp: p spec_candidates_def spec_task_def Let_def split_beta intro: swept_trans)
  next
    case named
    with namedCandidates_query [of r now g ?m keys h] show ?thesis
      by (simp add: planCandidates_def spec_candidates_def spec_task_def Let_def split_beta)
  qed
qed

lemma plan_query:
  "fst (plan r now g req keys h) = spec_plan r g req keys (is_benched now h)"
  "swept now h (snd (plan r now g req keys h))"
  using planCandidates_query [of r now g req keys h]
  by (simp_all add: plan_def spec_plan_def split_beta)

text \<open>
  C2. The planner implements its specification: the chain and the task are the pure function \<open>spec_plan\<close>
  of the configuration, the catalogue, the keys and the set of benched models; planning touches no breaker
  and forgets only bench entries that had expired, so no later question about health can tell it ran.
\<close>

theorem plan_refines_spec:
  "fst (plan r now g req keys h) = spec_plan r g req keys (is_benched now h) \<and>
   swept now h (snd (plan r now g req keys h))"
  by (simp add: plan_query)

end
