(* ===== verification/Planning_Facts.thy ===== *)
theory Planning_Facts
  imports Planning_Spec
begin

text \<open>
  What a plan promises, proved on the pure planner and carried to the code by \<open>plan_query\<close>: how the
  automatic chain shares its slots between providers, which candidates a chain can never hold, that free-only
  mode stays free and substitutes nothing, what a named model gets, and what the error says when the
  chain is empty.
\<close>

section \<open>The automatic chain\<close>

lemma set_first_seen: "set (first_seen seen cs) = cand_provider ` set cs - set seen"
  by (induction seen cs rule: first_seen.induct) auto

lemma distinct_first_seen: "distinct (first_seen seen cs)"
  by (induction seen cs rule: first_seen.induct) (auto simp: set_first_seen)

lemma nth_of_provider: "c \<in> set (nth_of rnd (of_provider n cs)) \<Longrightarrow> c \<in> set cs \<and> cand_provider c = n"
  by (auto simp: nth_of_def of_provider_def split: if_splits dest: nth_mem)

lemma of_provider_round:
  "distinct order \<Longrightarrow>
    of_provider n (concat (map (\<lambda>m. nth_of rnd (of_provider m cs)) order)) =
      (if n \<in> set order then nth_of rnd (of_provider n cs) else [])"
proof (induction order)
  case (Cons m order)
  have "of_provider n (nth_of rnd (of_provider m cs)) = (if m = n then nth_of rnd (of_provider n cs) else [])"
    using nth_of_provider [of _ rnd m cs] by (auto simp: of_provider_def [of n "nth_of _ _"] filter_id_conv filter_empty_conv)
  with Cons show ?case by (auto simp: of_provider_def)
qed (simp add: of_provider_def)

lemma concat_nth_of: "concat (map (\<lambda>rnd. nth_of rnd cs) [0..<d]) = take d cs"
  by (induction d) (auto simp: nth_of_def take_Suc_conv_app_nth)

definition all_rounds :: "nat \<Rightarrow> candidate list \<Rightarrow> candidate list" where
  "all_rounds d cs =
     concat (map (\<lambda>rnd. concat (map (\<lambda>n. nth_of rnd (of_provider n cs)) (first_seen [] cs))) [0..<d])"

lemma spec_pick_take: "spec_pick g cs = take (pick_limit g (first_seen [] cs)) (all_rounds (pick_depth g) cs)"
  by (simp add: spec_pick_def all_rounds_def Let_def)

lemma of_provider_concat: "of_provider n (concat xss) = concat (map (of_provider n) xss)"
  by (simp add: of_provider_def [abs_def] filter_concat)

lemma of_provider_all_rounds: "of_provider n (all_rounds d cs) = take d (of_provider n cs)"
proof -
  have "of_provider n (all_rounds d cs) =
      concat (map (\<lambda>rnd. of_provider n (concat (map (\<lambda>m. nth_of rnd (of_provider m cs)) (first_seen [] cs)))) [0..<d])"
    by (simp only: all_rounds_def of_provider_concat [of n "map _ [0..<d]"] map_map comp_def)
  also have "\<dots> = concat (map (\<lambda>rnd. if n \<in> set (first_seen [] cs) then nth_of rnd (of_provider n cs) else []) [0..<d])"
    by (simp only: of_provider_round [OF distinct_first_seen])
  also have "\<dots> = take d (of_provider n cs)"
  proof (cases "n \<in> set (first_seen [] cs)")
    case False
    then have "of_provider n cs = []" by (simp add: of_provider_eq_Nil set_first_seen)
    with False show ?thesis by simp
  qed (simp add: concat_nth_of)
  finally show ?thesis .
qed

lemma set_all_rounds: "set (all_rounds d cs) \<subseteq> set cs"
  by (auto simp: all_rounds_def dest: nth_of_provider)

lemma filter_take_prefix: "filter P (take k xs) = take (length (filter P (take k xs))) (filter P xs)"
proof -
  have "filter P xs = filter P (take k xs) @ filter P (drop k xs)"
    by (metis append_take_drop_id filter_append)
  then show ?thesis by simp
qed

lemma first_round:
  assumes "0 < d"
  shows "take (length (first_seen [] cs)) (map cand_provider (all_rounds d cs)) = first_seen [] cs"
proof -
  have "concat (map (\<lambda>n. map cand_provider (nth_of 0 (of_provider n cs))) ns) = ns"
    if "set ns \<subseteq> cand_provider ` set cs" for ns
    using that
  proof (induction ns)
    case (Cons n ns)
    then have "of_provider n cs \<noteq> []" by (auto simp: of_provider_eq_Nil)
    then obtain c where c: "nth_of 0 (of_provider n cs) = [c]" by (simp add: nth_of_def)
    with nth_of_provider [of c 0 n cs] have "cand_provider c = n" by simp
    with c Cons show ?case by simp
  qed simp
  from this [of "first_seen [] cs"]
  have "map cand_provider (concat (map (\<lambda>n. nth_of 0 (of_provider n cs)) (first_seen [] cs))) = first_seen [] cs"
    by (simp add: map_concat comp_def set_first_seen)
  moreover have "[0..<d] = 0 # [1..<d]" using assms by (simp add: upt_rec)
  ultimately show ?thesis by (simp add: all_rounds_def)
qed

lemma pick_limit_bounds:
  "length order \<le> pick_limit g order" "int (pick_limit g order) \<le> max 1 (max (MaxAttempts (cfg g)) (int (length order)))"
  by (auto simp: pick_limit_def Let_def)

text \<open>
  C9. The automatic chain shares its slots fairly. It holds only models the pool offers at a keyed provider
  and that are not benched; every provider with such a model is tried once before any provider is tried
  twice, however small the cap; each provider contributes its best models in the pool's order and at
  most the configured depth of them; and the cap bounds the whole chain unless there are more providers.
\<close>

theorem automatic_chain_is_fair:
  fixes now g pool keys h
  defines "chain \<equiv> fst (pickOnePerProvider now g pool keys h)"
    and "offers \<equiv> offered keys (is_benched now h) pool"
  shows "set chain \<subseteq> set offers \<and>
    take (length (first_seen [] offers)) (map cand_provider chain) = first_seen [] offers \<and>
    (\<forall>n. \<exists>k \<le> pick_depth g. of_provider n chain = take k (of_provider n offers)) \<and>
    int (length chain) \<le> max 1 (max (MaxAttempts (cfg g)) (int (length (first_seen [] offers))))"
proof -
  let ?order = "first_seen [] offers" and ?all = "all_rounds (pick_depth g) offers"
  have chain: "chain = take (pick_limit g ?order) ?all"
    by (simp add: chain_def offers_def pickOnePerProvider.ask_answer spec_pickOnePerProvider_def spec_pick_take)
  have "set chain \<subseteq> set offers"
    using set_all_rounds [of "pick_depth g" offers] set_take_subset [of "pick_limit g ?order" ?all] chain by blast
  moreover have "take (length ?order) (map cand_provider chain) = ?order"
    using first_round [of "pick_depth g" offers] pick_limit_bounds(1) [of ?order g] pick_depth_pos [of g]
    by (simp add: chain take_map min_absorb1)
  moreover have "\<exists>k \<le> pick_depth g. of_provider n chain = take k (of_provider n offers)" for n
  proof -
    have "of_provider n chain = take (length (of_provider n chain)) (of_provider n ?all)"
      unfolding chain of_provider_def by (rule filter_take_prefix)
    then have p: "of_provider n chain = take (length (of_provider n chain)) (take (pick_depth g) (of_provider n offers))"
      by (simp only: of_provider_all_rounds)
    then have "length (of_provider n chain) \<le> pick_depth g" by (metis length_take min.bounded_iff nle_le)
    with p show ?thesis by (metis min_absorb1 take_take)
  qed
  moreover have "int (length chain) \<le> max 1 (max (MaxAttempts (cfg g)) (int (length ?order)))"
    using pick_limit_bounds(2) [of g ?order] by (simp add: chain)
  ultimately show ?thesis by blast
qed

lemma set_spec_pick: "set (spec_pick g cs) \<subseteq> set cs"
  using set_all_rounds set_take_subset by (fastforce simp: spec_pick_take)

lemma spec_pick_eq_Nil: "spec_pick g cs = [] \<longleftrightarrow> cs = []"
proof
  assume "spec_pick g cs = []"
  moreover have "take (length (first_seen [] cs)) (map cand_provider (spec_pick g cs)) = first_seen [] cs"
    using first_round [of "pick_depth g" cs] pick_limit_bounds(1) [of "first_seen [] cs" g] pick_depth_pos [of g]
    by (simp add: spec_pick_take take_map min_absorb1)
  ultimately have "first_seen [] cs = []" by simp
  then show "cs = []" by (cases cs) simp_all
qed (simp add: spec_pick_take all_rounds_def)

section \<open>What a chain never holds\<close>

lemma collect_spec:
  "set (fst (collect cs seen)) \<subseteq> set cs \<and> distinct (map seen_key (fst (collect cs seen))) \<and>
   set (map seen_key (fst (collect cs seen))) \<inter> set seen = {} \<and>
   set (snd (collect cs seen)) = set seen \<union> set (map seen_key cs) \<and>
   set (map seen_key (fst (collect cs seen))) \<union> set seen = set (map seen_key cs) \<union> set seen"
  by (induction cs seen rule: collect.induct) (auto simp: split_beta)

lemma set_spec_freeNamed:
  "c \<in> set (spec_freeNamed r g B m keys) \<longleftrightarrow>
     m \<noteq> [] \<and> \<not> EqualFold (TrimSpace m) freeSentinel \<and> c \<in> set (placements r g m) \<and>
     keyed keys (cand_provider c) \<and> free_entry r g c \<and> spec_available g B c"
  by (auto simp: spec_freeNamed_def filterToKeyed_def)

lemma set_spec_pickOnePerProvider:
  "c \<in> set (spec_pickOnePerProvider g B pool keys) \<Longrightarrow>
     c \<in> profile_cand ` set pool \<and> keyed keys (cand_provider c) \<and> \<not> B c"
  using set_spec_pick [of g "offered keys B pool"] by (auto simp: spec_pickOnePerProvider_def offered_def)

lemma set_spec_named:
  "c \<in> set (spec_named r g B m keys) \<Longrightarrow> keyed keys (cand_provider c)"
proof -
  let ?m = "if m = [] then DefaultModel (cfg g) else m"
  let ?fb = "filter (spec_usable g keys B) (concat (map (placements r g) (FallbackModels (cfg g))))"
  obtain out seen where o: "collect (filterToKeyed (placements r g ?m) keys) [] = (out, seen)" by fastforce
  have "set out \<subseteq> set (filterToKeyed (placements r g ?m) keys)"
    using collect_spec [of "filterToKeyed (placements r g ?m) keys" "[]"] by (simp add: o)
  moreover have "set (fst (collect ?fb seen)) \<subseteq> set ?fb" using collect_spec [of ?fb seen] by blast
  moreover assume "c \<in> set (spec_named r g B m keys)"
  then have "c \<in> set out \<union> set (fst (collect ?fb seen))"
    by (simp add: spec_named_def Let_def o del: filter_concat)
  ultimately show ?thesis by (auto simp: filterToKeyed_def spec_usable_def)
qed

lemma spec_candidates_cases:
  assumes "c \<in> set (spec_candidates r g B req keys)"
  obtains (named_free) "gw_freeOnly g (ReqModel req)" "c \<in> set (spec_freeNamed r g B (ReqModel req) keys)"
  | (chosen_free) "gw_freeOnly g (ReqModel req)" "\<not> refuses_name g req"
      "c \<in> set (spec_pickOnePerProvider g B (free_pool r g (request_task req) (intentFor (ReqModel req))) keys)"
  | (ranked) "\<not> gw_freeOnly g (ReqModel req)" "smartRouting g (ReqModel req)" "spec_usable g keys B c"
  | (discovered) "\<not> gw_freeOnly g (ReqModel req)" "smartRouting g (ReqModel req)"
      "c \<in> set (spec_pickOnePerProvider g B (discovered_pool r g (request_task req) (intentFor (ReqModel req))) keys)"
  | (named) "\<not> gw_freeOnly g (ReqModel req)" "\<not> smartRouting g (ReqModel req)"
      "c \<in> set (spec_named r g B (ReqModel req) keys)"
  using assms unfolding spec_candidates_def Let_def by (auto split: if_splits)

lemma spec_candidates_keyed:
  assumes "c \<in> set (spec_candidates r g B req keys)"
  shows "keyed keys (cand_provider c)"
  using assms
  by (cases rule: spec_candidates_cases)
    (simp_all add: set_spec_freeNamed set_spec_pickOnePerProvider set_spec_named spec_usable_def)

lemma spec_candidates_not_benched:
  assumes "c \<in> set (spec_candidates r g B req keys)" and "gw_freeOnly g (ReqModel req) \<or> smartRouting g (ReqModel req)"
  shows "\<not> B c"
  using assms(1)
proof (cases rule: spec_candidates_cases)
  case named
  with assms(2) show ?thesis by blast
qed (auto simp: set_spec_freeNamed spec_available_def spec_usable_def dest: set_spec_pickOnePerProvider)

text \<open>
  No plan, automatic or for a named model, holds a model the operator has blacklisted, or one whose
  provider has no key.
\<close>

theorem plan_respects_vetoes:
  "list_all (\<lambda>c. \<not> Blacklisted (catalog g) (cand_provider c) (cand_model c) \<and> keyed keys (cand_provider c))
     (fst (fst (plan r now g req keys h)))"
  using spec_candidates_keyed
  by (auto simp: plan_query spec_plan_def excludeBlacklisted_def list_all_iff)

text \<open>
  Where the gateway chooses, it never chooses a model that is sidelined: no plan of free-only mode and
  no smart plan holds a model that is benched when the plan is made.
\<close>

theorem automatic_plan_not_benched:
  assumes "gw_freeOnly g (ReqModel req) \<or> smartRouting g (ReqModel req)"
  shows "list_all (\<lambda>c. \<not> is_benched now h c) (fst (fst (plan r now g req keys h)))"
  using spec_candidates_not_benched [OF _ assms]
  by (auto simp: plan_query spec_plan_def excludeBlacklisted_def list_all_iff)

section \<open>Free-only mode\<close>

lemma intentFor_TrimSpace [simp]: "intentFor (TrimSpace m) = intentFor m"
  by (simp only: intentFor_def TrimSpace_idem)


definition all_entries :: "Catalog \<Rightarrow> ModelProfile list" where
  "all_entries cat = profiles cat @ concat (map snd (discovered cat))"

lemma set_discovered_in: "set (discovered_in ord c) \<subseteq> set (concat (map snd (discovered c)))"
  by (auto simp: discovered_in_def set_range_vals dest: map_of_SomeD)

lemma set_Resolve: "p \<in> set (Resolve ord c m) \<Longrightarrow> p \<in> set (all_entries c) \<and> EqualFold (Model p) m"
  using set_discovered_in [of ord c]
  by (auto simp: Resolve_def Let_def all_entries_def EqualFold_def split: if_splits)

lemma set_FreeModels: "p \<in> set (FreeModels ord c) \<Longrightarrow> p \<in> set (all_entries c) \<and> Free p"
  using set_discovered_in [of ord c]
  by (auto simp: FreeModels_def sortByProviderThenModel_def all_entries_def)

text \<open>The provider publishes a zero price for the model (names compare up to case, as \<open>Resolve\<close> does).\<close>

definition served_free :: "Catalog \<Rightarrow> candidate \<Rightarrow> bool" where
  "served_free cat c \<longleftrightarrow>
     list_ex (\<lambda>p. Provider p = cand_provider c \<and> EqualFold (Model p) (cand_model c) \<and> Free p) (all_entries cat)"

lemma set_restrictToTagged: "set (restrictToTagged g pool task) \<subseteq> set pool"
  by (auto simp: restrictToTagged_def TaggedFor_def Let_def split: option.splits if_splits)

lemma set_ConfirmedOnly:
  "set (ConfirmedOnly c pool) = {p \<in> set pool. AnyConfirmed c \<longrightarrow> Confirmed c (Provider p) (Model p)}"
  by (auto simp: ConfirmedOnly_def)

lemma set_PreferConfirmed [simp]: "set (PreferConfirmed c pool) = set pool"
  by (simp add: PreferConfirmed_def)

lemma set_free_pool:
  "set (free_pool r g task intent) =
     {p \<in> set (restrictToTagged g (FreeModels (whole r) (catalog g)) task).
        AnyConfirmed (catalog g) \<longrightarrow> Confirmed (catalog g) (Provider p) (Model p)}"
  by (simp add: free_pool_def set_ConfirmedOnly)

lemma free_only_candidates:
  assumes "gw_freeOnly g (ReqModel req)" and "c \<in> set (spec_candidates r g B req keys)"
  shows "served_free (catalog g) c \<and> spec_available g B c"
  using assms(2)
proof (cases rule: spec_candidates_cases)
  case named_free
  then have f: "free_entry r g c" and "spec_available g B c" by (simp_all add: set_spec_freeNamed)
  with set_Resolve show ?thesis by (fastforce simp: free_entry_def served_free_def list_ex_iff)
next
  case chosen_free
  from set_spec_pickOnePerProvider [OF this(3)] obtain p where c: "c = profile_cand p" and nb: "\<not> B c"
    and p: "p \<in> set (free_pool r g (request_task req) (intentFor (ReqModel req)))" by blast
  from p set_restrictToTagged have "p \<in> set (FreeModels (whole r) (catalog g))"
    and "AnyConfirmed (catalog g) \<longrightarrow> Confirmed (catalog g) (Provider p) (Model p)"
    by (auto simp: set_free_pool)
  with set_FreeModels nb show ?thesis
    by (fastforce simp: c served_free_def list_ex_iff spec_available_def)
qed (use assms in simp_all)

text \<open>
  In free-only mode, or when the caller asks for free models, no plan can spend: every candidate is a
  model its provider publishes at zero price, it is not benched, and once probing has confirmed anything
  it is itself confirmed to work.
\<close>

theorem free_only_never_spends:
  assumes "gw_freeOnly g (ReqModel req)"
  shows "list_all (\<lambda>c. served_free (catalog g) c \<and> spec_available g (is_benched now h) c)
    (fst (fst (plan r now g req keys h)))"
  using free_only_candidates [OF assms] by (auto simp: plan_query spec_plan_def excludeBlacklisted_def list_all_iff)

text \<open>
  C12. Free-only mode substitutes nothing for a model the caller names: the chain holds only places that
  serve the named model, and when there is none the request is refused by that name (or for want of any key).
\<close>

theorem free_only_never_substitutes:
  assumes "gw_freeOnly g (ReqModel req)" and "refuses_name g req"
  shows "list_all (\<lambda>c. c \<in> set (placements r g (ReqModel req))) (fst (fst (plan r now g req keys h))) \<and>
    fst (unroutable r now g req keys stored h) \<in>
      {NoKeysStored, NamedNotFree (TrimSpace (ReqModel req)), NamedRefusingTraffic (TrimSpace (ReqModel req))}"
proof
  have "c \<in> set (placements r g (ReqModel req))" if "c \<in> set (spec_candidates r g B req keys)" for B c
    using that assms by (cases rule: spec_candidates_cases) (auto simp: set_spec_freeNamed)
  then show "list_all (\<lambda>c. c \<in> set (placements r g (ReqModel req))) (fst (fst (plan r now g req keys h)))"
    by (auto simp: plan_query spec_plan_def excludeBlacklisted_def list_all_iff)
  have "\<not> in_known (intentFor (ReqModel req)) \<and> TrimSpace (ReqModel req) \<noteq> []"
    using assms(2) by (simp add: refuses_name_def Let_def)
  with assms(1) show "fst (unroutable r now g req keys stored h) \<in>
      {NoKeysStored, NamedNotFree (TrimSpace (ReqModel req)), NamedRefusingTraffic (TrimSpace (ReqModel req))}"
    by (simp add: unroutable_def Let_def split_beta)
qed

text \<open>
  C40. An automatic request for free models is planned whenever it can be: if nothing is blacklisted and some
  free model is allowed by the marks, confirmed once anything is, at a keyed provider and not benched,
  the chain is not empty.
\<close>

theorem free_request_is_planned:
  assumes "gw_freeOnly g (ReqModel req)" and "\<not> refuses_name g req" and "blacklist (catalog g) = []"
    and "p \<in> set (restrictToTagged g (FreeModels (whole r) (catalog g)) (request_task req))"
    and "keyed keys (Provider p)" and "spec_available g (is_benched now h) (profile_cand p)"
  shows "fst (fst (plan r now g req keys h)) \<noteq> []"
proof -
  let ?B = "is_benched now h"
  have "profile_cand p \<in> set (offered keys ?B (free_pool r g (request_task req) (intentFor (ReqModel req))))"
    using assms(4-6) by (auto simp: offered_def set_free_pool spec_available_def)
  then have "spec_candidates r g ?B req keys \<noteq> []"
    using assms(1,2) by (auto simp: spec_candidates_def Let_def spec_pickOnePerProvider_def spec_pick_eq_Nil)
  moreover have "excludeBlacklisted g cs = cs" for cs
    by (simp add: excludeBlacklisted_def Blacklisted_def assms(3))
  ultimately show ?thesis by (simp add: plan_query spec_plan_def)
qed

section \<open>Marks\<close>

text \<open>
  What the operator's marks do to a pool: the marked models alone stay when the pool has any, and when
  it has none the pool is left as it was, even though the operator has marked other models for the task.
\<close>

theorem restrictToTagged_effect:
  "restrictToTagged g pool task =
     (let marked = filter (\<lambda>p. task \<in> set (TagsFor (catalog g) (Provider p) (Model p))) pool in
      if marked \<noteq> [] then marked else pool)"
proof -
  have "HasTagsFor c task" if "task \<in> set (TagsFor c prov m)" for c prov m
  proof -
    from that obtain ts where "map_of (tags c) (TagKey prov m) = Some ts" "task \<in> set ts"
      by (cases "map_of (tags c) (TagKey prov m)") (auto simp: TagsFor_def gm_at_def)
    then show ?thesis by (auto simp: HasTagsFor_def dest: map_of_SomeD)
  qed
  then show ?thesis
    by (auto simp: restrictToTagged_def TaggedFor_def Let_def filter_empty_conv filter_id_conv)
qed

section \<open>Named models\<close>

text \<open>
  Naming a model is an instruction: outside free-only mode and smart routing, the first keyed place that
  serves it heads the chain even when the model is benched or no longer listed; what follows is another
  place of the model or a fallback that automatic routing would accept; and nothing is tried twice.
\<close>

theorem named_model_goes_first:
  assumes "\<not> gw_freeOnly g (ReqModel req)" and "\<not> smartRouting g (ReqModel req)"
    and "filterToKeyed (placements r g (ReqModel req)) keys = c # cs" and "ReqModel req \<noteq> []"
    and "\<not> Blacklisted (catalog g) (cand_provider c) (cand_model c)"
  shows "\<exists>rest. fst (fst (plan r now g req keys h)) = c # rest \<and>
    list_all (\<lambda>x. x \<in> set cs \<or> spec_usable g keys (is_benched now h) x) rest \<and>
    distinct (map seen_key (c # rest))"
proof -
  let ?fb = "filter (spec_usable g keys (is_benched now h)) (concat (map (placements r g) (FallbackModels (cfg g))))"
  obtain out seen where o: "collect cs [seen_key c] = (out, seen)" by fastforce
  obtain more seen' where m: "collect ?fb seen = (more, seen')" by fastforce
  have cands: "spec_candidates r g (is_benched now h) req keys = c # out @ more"
    using assms m by (simp add: spec_candidates_def spec_named_def Let_def o del: filter_concat)
  have out: "set out \<subseteq> set cs" "distinct (map seen_key out)" "seen_key c \<notin> set (map seen_key out)"
    "set seen = insert (seen_key c) (set (map seen_key cs))"
    using collect_spec [of cs "[seen_key c]"] unfolding o fst_conv snd_conv by auto
  have more: "set more \<subseteq> set ?fb" "distinct (map seen_key more)" "set (map seen_key more) \<inter> set seen = {}"
    using collect_spec [of ?fb seen] unfolding m fst_conv snd_conv by blast+
  have "set (map seen_key (c # out)) \<subseteq> set seen" using out(1) by (auto simp: out(4))
  with more(3) have "set (map seen_key (c # out)) \<inter> set (map seen_key more) = {}" by blast
  with out(2,3) more(2) have "distinct (map seen_key ((c # out) @ more))"
    unfolding map_append distinct_append by simp
  then have "distinct (map seen_key (c # out @ more))" by simp
  then have d: "distinct (map seen_key (filter P (c # out @ more)))" for P by (rule distinct_map_filter)
  have "list_all (\<lambda>x. x \<in> set cs \<or> spec_usable g keys (is_benched now h) x) (out @ more)"
    using out(1) more(1) by (auto simp: list_all_iff simp del: filter_concat)
  then have "list_all (\<lambda>x. x \<in> set cs \<or> spec_usable g keys (is_benched now h) x) (excludeBlacklisted g (out @ more))"
    unfolding excludeBlacklisted_def list_all_iff by auto
  moreover have "fst (fst (plan r now g req keys h)) = c # excludeBlacklisted g (out @ more)"
    using assms(5) by (simp add: plan_query spec_plan_def cands excludeBlacklisted_def)
  moreover have "distinct (map seen_key (c # excludeBlacklisted g (out @ more)))"
    using d [of "\<lambda>c. \<not> Blacklisted (catalog g) (cand_provider c) (cand_model c)"] assms(5)
    by (simp add: excludeBlacklisted_def)
  ultimately show ?thesis by blast
qed

section \<open>A small gateway\<close>

text \<open>One provider, its key stored, which lists three free models and a priced one.\<close>

definition listed :: "string \<Rightarrow> float64 \<Rightarrow> DiscoveredModel" where
  "listed m price = \<lparr>dm_Provider = ''groq'', dm_Model = m, dm_InputCostPer1M = price, dm_OutputCostPer1M = price,
     dm_PriceKnown = True, dm_ContextLength = 0\<rparr>"

definition small_catalog :: Catalog where
  "small_catalog = SetDiscovered ''groq'' [listed ''a1'' 0, listed ''a2'' 0, listed ''a3'' 0, listed ''paid'' 1]
     (NewCatalog\<lparr>profiles := []\<rparr>)"

definition small_gateway :: "bool \<Rightarrow> Gateway" where
  "small_gateway free = \<lparr>cfg = Load bare_host (\<lambda>_. []), registry = [(''groq'', OpenAIClient [] ''groq'')], specs = [],
     catalog = small_catalog, freeOnlyFlag = free\<rparr>"

definition small_keys :: keys where "small_keys = [(''groq'', ''secret'')]"

definition small_ranges :: ranges where
  "small_ranges = \<lparr>whole = [''groq''], placing = (\<lambda>_. [''groq'']), resolving = (\<lambda>_. [''groq''])\<rparr>"

abbreviation (input) ask_for :: "string \<Rightarrow> ChatRequest" where
  "ask_for m \<equiv> model_request m [text_message ''user'' ''hello'']"

lemma small_gateway_config:
  "RoutingMode (cfg (small_gateway free)) = ''auto''" "RouterModel (cfg (small_gateway free)) = ''auto''"
  "AttemptsPerProvider (cfg (small_gateway free)) = 2" "MaxAttempts (cfg (small_gateway free)) = 8"
  "catalog (small_gateway free) = small_catalog" "freeOnlyFlag (small_gateway free) = free"
  "registry (small_gateway free) = [(''groq'', OpenAIClient [] ''groq'')]"
  by (simp_all add: small_gateway_def Load_def Let_def getEnv_def getEnvInt_def)

lemma small_gateway_catalog:
  "profiles small_catalog = []" "AnyConfirmed small_catalog = False" "blacklist small_catalog = []"
  "tags small_catalog = []" "keyed small_keys ''groq''"
  "discovered small_catalog = [(''groq'',
     map convert_discovered [listed ''a1'' 0, listed ''a2'' 0, listed ''a3'' 0, listed ''paid'' 1])]"
  by (simp_all add: small_catalog_def SetDiscovered_def NewCatalog_def AnyConfirmed_def keyed_def small_keys_def gm_at_def)

lemma small_gateway_names:
  "intentFor ''paid'' = no_intent" "intentFor ''auto'' = no_intent\<lparr>in_known := True\<rparr>"
  by code_simp+

lemma small_gateway_free:
  "FreeModels [''groq''] small_catalog = map convert_discovered [listed ''a1'' 0, listed ''a2'' 0, listed ''a3'' 0]"
  by code_simp

lemma small_gateway_placement:
  "placements small_ranges (small_gateway free) ''paid'' = [cand ''groq'' ''paid'']"
proof -
  have "TrimSpace ''paid'' = ''paid'' \<and> Cut ''paid'' CHR '':'' = (''paid'', [], False)" by code_simp
  moreover have "Resolve [''groq''] small_catalog ''paid'' = [convert_discovered (listed ''paid'' 1)]" by code_simp
  ultimately show ?thesis
    by (simp add: placements_def Let_def small_ranges_def small_gateway_config profile_cand_def
        convert_discovered_def listed_def)
qed

lemma automatic_plan_not_benched_witness:
  "list_all (\<lambda>c. \<not> is_benched 1 (benchOne 0 (cand ''groq'' ''a1'') healthy) c)
     (fst (fst (plan small_ranges 1 (small_gateway True) (ask_for ''auto'') small_keys
        (benchOne 0 (cand ''groq'' ''a1'') healthy))))"
  by (rule automatic_plan_not_benched) (simp add: gw_freeOnly_def small_gateway_config)

lemma free_only_never_spends_witness:
  "list_all (\<lambda>c. served_free small_catalog c)
     (fst (fst (plan small_ranges 1 (small_gateway True) (ask_for ''auto'') small_keys healthy)))"
proof -
  have "gw_freeOnly (small_gateway True) (ReqModel (ask_for ''auto''))"
    by (simp add: gw_freeOnly_def small_gateway_config)
  from free_only_never_spends [OF this, where r = small_ranges and now = 1 and keys = small_keys and h = healthy] show ?thesis
    by (simp add: small_gateway_config list_all_iff)
qed

lemma free_only_never_substitutes_witness:
  "list_all (\<lambda>c. c \<in> set (placements small_ranges (small_gateway True) ''paid''))
     (fst (fst (plan small_ranges 1 (small_gateway True) (ask_for ''paid'') small_keys healthy))) \<and>
   fst (unroutable small_ranges 1 (small_gateway True) (ask_for ''paid'') small_keys (Some small_keys) healthy) \<in>
     {NoKeysStored, NamedNotFree ''paid'', NamedRefusingTraffic ''paid''}"
proof -
  have t: "TrimSpace ''paid'' = ''paid'' \<and> \<not> EqualFold ''paid'' freeSentinel" by code_simp
  have "gw_freeOnly (small_gateway True) (ReqModel (ask_for ''paid''))"
    and "refuses_name (small_gateway True) (ask_for ''paid'')"
    by (simp_all add: gw_freeOnly_def small_gateway_config refuses_name_def model_request_def t
        small_gateway_names no_intent_def Let_def)
  from free_only_never_substitutes [OF this, of small_ranges 1 small_keys healthy "Some small_keys"]
  show ?thesis by (simp add: model_request_def t)
qed

lemma free_request_is_planned_witness:
  "fst (fst (plan small_ranges 1 (small_gateway True) (ask_for ''auto'') small_keys healthy)) \<noteq> []"
proof -
  let ?g = "small_gateway True" and ?p = "convert_discovered (listed ''a1'' 0)"
  have t: "TrimSpace ''auto'' = ''auto''" by code_simp
  have free: "gw_freeOnly ?g (ReqModel (ask_for ''auto''))" and named: "\<not> refuses_name ?g (ask_for ''auto'')"
    by (simp_all add: gw_freeOnly_def small_gateway_config refuses_name_def model_request_def t
        small_gateway_names no_intent_def Let_def)
  have black: "blacklist (catalog ?g) = []" by (simp add: small_gateway_config small_gateway_catalog)
  have pool: "?p \<in> set (restrictToTagged ?g (FreeModels (whole small_ranges) (catalog ?g)) (request_task (ask_for ''auto'')))"
    by (simp add: restrictToTagged_def TaggedFor_def HasTagsFor_def small_ranges_def small_gateway_config
        small_gateway_catalog small_gateway_free)
  have "Provider ?p = ''groq''" by (simp add: convert_discovered_def listed_def)
  then have keyed: "keyed small_keys (Provider ?p)" by (simp only: small_gateway_catalog)
  have "spec_available ?g (is_benched 1 healthy) (profile_cand ?p)"
    by (simp add: spec_available_def small_gateway_config small_gateway_catalog is_benched_def healthy_def)
  with free named black pool keyed show ?thesis by (rule free_request_is_planned)
qed

lemma named_model_goes_first_witness:
  "\<exists>rest. fst (fst (plan small_ranges 1 (small_gateway False) (ask_for ''paid'') small_keys
      (benchOne 0 (cand ''groq'' ''paid'') healthy))) = cand ''groq'' ''paid'' # rest"
proof -
  let ?g = "small_gateway False" and ?m = "ReqModel (ask_for ''paid'')"
  have m: "?m = ''paid''" by (simp add: model_request_def)
  have e: "\<not> EqualFold ''paid'' ''auto''" by code_simp
  have "\<not> gw_freeOnly ?g ?m" "\<not> smartRouting ?g ?m"
    by (simp_all add: m gw_freeOnly_def smartRouting_def small_gateway_config small_gateway_names no_intent_def e)
  moreover have "filterToKeyed (placements small_ranges ?g ?m) small_keys = [cand ''groq'' ''paid'']"
    unfolding m small_gateway_placement by (simp add: filterToKeyed_def small_gateway_catalog)
  moreover have "?m \<noteq> []" by (simp add: m)
  moreover have "\<not> Blacklisted (catalog ?g) (cand_provider (cand ''groq'' ''paid'')) (cand_model (cand ''groq'' ''paid''))"
    by (simp add: small_gateway_config small_gateway_catalog Blacklisted_def)
  ultimately have "\<exists>rest. fst (fst (plan small_ranges 1 ?g (ask_for ''paid'') small_keys
      (benchOne 0 (cand ''groq'' ''paid'') healthy))) = cand ''groq'' ''paid'' # rest \<and>
    list_all (\<lambda>x. x \<in> set [] \<or> spec_usable ?g small_keys (is_benched 1 (benchOne 0 (cand ''groq'' ''paid'') healthy)) x) rest \<and>
    distinct (map seen_key (cand ''groq'' ''paid'' # rest))"
    by (rule named_model_goes_first)
  then show ?thesis by blast
qed

section \<open>A blacklist can starve a provider\<close>

definition starved_gateway :: Gateway where
  "starved_gateway = (small_gateway True)
     \<lparr>catalog := SetBlacklist [(TagKey ''groq'' ''a1'', True), (TagKey ''groq'' ''a2'', True)] small_catalog\<rparr>"

lemma starved_gateway_fields:
  "cfg starved_gateway = cfg (small_gateway True)" "freeOnlyFlag starved_gateway = True"
  "profiles (catalog starved_gateway) = profiles small_catalog"
  "discovered (catalog starved_gateway) = discovered small_catalog"
  "tags (catalog starved_gateway) = []" "AnyConfirmed (catalog starved_gateway) = False"
  "registry starved_gateway = registry (small_gateway True)"
  by (simp_all add: starved_gateway_def SetBlacklist_def AnyConfirmed_def small_gateway_config small_catalog_def
      SetDiscovered_def NewCatalog_def small_gateway_def)

lemma starved_blacklist:
  "Blacklisted (catalog starved_gateway) ''groq'' ''a1''" "Blacklisted (catalog starved_gateway) ''groq'' ''a2''"
  "\<not> Blacklisted (catalog starved_gateway) ''groq'' ''a3''"
  by (simp_all add: starved_gateway_def SetBlacklist_def Blacklisted_def TagKey_def only_true_def gm_at_def)

lemma starved_free:
  "FreeModels ord (catalog starved_gateway) = FreeModels ord small_catalog"
  "Resolve ord (catalog starved_gateway) m = Resolve ord small_catalog m"
  by (simp_all add: FreeModels_def Resolve_def discovered_in_def starved_gateway_fields)

lemma starved_scores:
  assumes "p \<in> set (map convert_discovered [listed ''a1'' 0, listed ''a2'' 0, listed ''a3'' 0])"
  shows "ScoreWithEvidence p TaskConversation obj =
    ScoreWithEvidence (convert_discovered (listed ''a1'' 0)) TaskConversation obj"
proof -
  have s: "SuitabilityFor (convert_discovered (listed ''a1'' 0)) TaskConversation =
        SuitabilityFor (convert_discovered (listed ''a2'' 0)) TaskConversation"
      "SuitabilityFor (convert_discovered (listed ''a1'' 0)) TaskConversation =
        SuitabilityFor (convert_discovered (listed ''a3'' 0)) TaskConversation"
    by code_simp+
  with assms show ?thesis
    by (auto simp: ScoreWithEvidence_def Let_def Score_def EffectiveLatency_def BlendedCostPer1M_def
        convert_discovered_def listed_def)
qed

lemma starved_pool:
  "free_pool small_ranges starved_gateway TaskConversation intent =
     map convert_discovered [listed ''a1'' 0, listed ''a2'' 0, listed ''a3'' 0]"
proof -
  let ?ps = "map convert_discovered [listed ''a1'' 0, listed ''a2'' 0, listed ''a3'' 0]"
  have "slice_stable (evidence_less TaskConversation obj) ?ps = ?ps" for obj
    by (rule by_evidence.already_sorted) (metis evidence_less_def order_less_irrefl starved_scores)
  then show ?thesis
    by (simp add: free_pool_def restrictToTagged_def TaggedFor_def HasTagsFor_def ConfirmedOnly_def PreferConfirmed_def
        RankForTask_def starved_gateway_fields starved_free small_ranges_def small_gateway_free
        del: list.map)
qed

text \<open>
  The blacklist is applied after the automatic chain has spent its slots: with two of a provider's three
  free models blacklisted and two attempts per provider, an automatic request finds no candidate, although
  the third model is free, at a keyed provider, available and not blacklisted.
\<close>

theorem blacklist_starves_provider:
  "fst (fst (plan small_ranges now starved_gateway (ask_for ''auto'') small_keys healthy)) = [] \<and>
   list_ex (\<lambda>p. keyed small_keys (Provider p) \<and>
       spec_available starved_gateway (is_benched now healthy) (profile_cand p) \<and>
       \<not> Blacklisted (catalog starved_gateway) (Provider p) (Model p))
     (FreeModels (whole small_ranges) (catalog starved_gateway))"
proof
  let ?B = "is_benched now healthy"
  have nb: "\<not> ?B c" for c by (simp add: is_benched_def healthy_def)
  have t: "TrimSpace ''auto'' = ''auto'' \<and> Cut ''auto'' CHR '':'' = (''auto'', [], False) \<and> nativeProviderFor ''auto'' = [] \<and>
      Resolve [''groq''] small_catalog ''auto'' = []"
    by code_simp
  have named: "spec_freeNamed small_ranges starved_gateway ?B ''auto'' small_keys = []"
    by (simp add: spec_freeNamed_def placements_def Let_def t small_ranges_def starved_free filterToKeyed_def)
  have task: "request_task (ask_for ''auto'') = TaskConversation"
  proof -
    have "DetectTask ''hello'' = TaskConversation" by code_simp
    then show ?thesis
      by (simp add: request_task_def small_gateway_names no_intent_def lastUserPrompt_def
          text_message_def Let_def)
  qed
  let ?cs = "[cand ''groq'' ''a1'', cand ''groq'' ''a2'', cand ''groq'' ''a3'']"
  have "offered small_keys ?B (free_pool small_ranges starved_gateway TaskConversation intent) = ?cs" for intent
    unfolding starved_pool
    by (simp add: offered_def nb small_gateway_catalog profile_cand_def convert_discovered_def listed_def)
  moreover have "spec_pick starved_gateway ?cs = take 2 ?cs"
    by (simp add: spec_pick_def pick_limit_def pick_depth_def starved_gateway_fields small_gateway_config
        of_provider_def nth_of_def upt_rec numeral_2_eq_2)
  ultimately have "spec_candidates small_ranges starved_gateway ?B (ask_for ''auto'') small_keys = take 2 ?cs"
    using named
    by (simp add: spec_candidates_def Let_def gw_freeOnly_def starved_gateway_fields refuses_name_def t task
        small_gateway_names spec_pickOnePerProvider_def no_intent_def)
  then show "fst (fst (plan small_ranges now starved_gateway (ask_for ''auto'') small_keys healthy)) = []"
    by (simp add: plan_query spec_plan_def excludeBlacklisted_def starved_blacklist)
  show "list_ex (\<lambda>p. keyed small_keys (Provider p) \<and> spec_available starved_gateway ?B (profile_cand p) \<and>
       \<not> Blacklisted (catalog starved_gateway) (Provider p) (Model p))
     (FreeModels (whole small_ranges) (catalog starved_gateway))"
    by (simp add: starved_free small_ranges_def small_gateway_free spec_available_def nb starved_gateway_fields
        convert_discovered_def listed_def small_gateway_catalog starved_blacklist)
qed

end
