(* ===== verification/Attempts_Facts.thy ===== *)
theory Attempts_Facts
  imports Attempts Planning_Facts
begin

text \<open>
  What trying the candidates promises: which candidate answers, that the client never sees two completions
  spliced, that a key goes to its own provider only, that nothing stays in flight, that each attempt leaves one
  usage row, and that health changes only by the operations whose recovery \<open>Health_Facts\<close> proves.
\<close>

section \<open>The outcome of the chain\<close>

text \<open>A candidate is skipped when its provider has no key or is cooling down; otherwise it is tried.\<close>

definition skipped :: "keys \<Rightarrow> candidate \<times> attempt_io \<Rightarrow> World \<Rightarrow> bool" where
  "skipped keys ci w \<longleftrightarrow>
     gm_at [] keys (cand_provider (fst ci)) = [] \<or> \<not> allow (allow_at (snd ci)) (cand_provider (fst ci)) (health w)"

definition result_of ::
  "Gateway \<Rightarrow> ChatRequest \<Rightarrow> bool \<Rightarrow> keys \<Rightarrow> candidate \<times> attempt_io \<Rightarrow>
    ChatResponse list \<times> (string + ChatResponse option \<times> Usage)" where
  "result_of g req streaming keys ci =
     attempt (net (snd ci)) (registry g) (cand_provider (fst ci)) (req\<lparr>ReqModel := cand_model (fst ci)\<rparr>)
       (gm_at [] keys (cand_provider (fst ci))) (if streaming then Some (client_emit (snd ci)) else None)"

lemma run_attempt_result:
  "run_attempt g io req streaming c (gm_at [] keys (cand_provider c)) task w = (i, out, result, w1) \<Longrightarrow>
    (out, result) = result_of g req streaming keys (c, io) \<and> delivered w1 = delivered w @ out \<and>
    health w1 = health w \<and> usage_logs w1 = usage_logs w \<and> cache_of w1 = cache_of w \<and>
    live w1 = snd (live_begin (begin_at io) c (ReqModel req) task streaming (live w)) \<and> i = seq_no (live w) + 1"
  by (auto simp: run_attempt_def result_of_def live_begin_def Let_def split: prod.splits)

lemma logUsage_fields [simp]:
  "health (logUsage ord ok cat r w) = health w" "live (logUsage ord ok cat r w) = live w"
  "cache_of (logUsage ord ok cat r w) = cache_of w" "delivered (logUsage ord ok cat r w) = delivered w"
  "sent_upstream (logUsage ord ok cat r w) = sent_upstream w"
  by (simp_all add: logUsage_def)

lemma storeInCache_fields [simp]:
  "health (storeInCache v g now f row req t w) = health w" "live (storeInCache v g now f row req t w) = live w"
  "usage_logs (storeInCache v g now f row req t w) = usage_logs w"
  "delivered (storeInCache v g now f row req t w) = delivered w"
  "sent_upstream (storeInCache v g now f row req t w) = sent_upstream w"
  by (simp_all add: storeInCache_def split: option.splits)

lemma after_failure_fields [simp]:
  "delivered (after_failure g io c key task i err w) = delivered w"
  "sent_upstream (after_failure g io c key task i err w) = sent_upstream w"
  "live (after_failure g io c key task i err w) = live_end (end_at io) i ''error'' err (latency io) (live w)"
  by (simp_all add: after_failure_def Let_def)

lemma after_success_fields [simp]:
  "delivered (after_success v g io req c key task i usage t w) = delivered w"
  "sent_upstream (after_success v g io req c key task i usage t w) = sent_upstream w"
  "live (after_success v g io req c key task i usage t w) = live_end (end_at io) i ''success'' [] (latency io) (live w)"
  "health (after_success v g io req c key task i usage t w) = recordSuccess (cand_provider c) (health w)"
  by (simp_all add: after_success_def Let_def)

text \<open>
  Passing a candidate over: without a key or in cooldown nothing happens; a try that fails before its first
  chunk leaves its effects. \<open>met\<close> is the world the \<open>n\<close>-th candidate is met in, once all before it have been passed
  over; \<open>why_passed\<close> is the reason it is passed over in a world, and \<open>None\<close> when the chain ends with it.
\<close>

definition pass_over ::
  "Gateway \<Rightarrow> ChatRequest \<Rightarrow> bool \<Rightarrow> keys \<Rightarrow> string option \<Rightarrow> TaskType \<Rightarrow> candidate \<times> attempt_io \<Rightarrow> World \<Rightarrow> World" where
  "pass_over g req streaming keys key task ci w =
     (if skipped keys ci w then w
      else (let (i, out, result, w1) =
                  run_attempt g (snd ci) req streaming (fst ci) (gm_at [] keys (cand_provider (fst ci))) task w
            in after_failure g (snd ci) (fst ci) key task i (case result of Inl err \<Rightarrow> err | Inr _ \<Rightarrow> []) w1))"

definition met ::
  "Gateway \<Rightarrow> ChatRequest \<Rightarrow> bool \<Rightarrow> keys \<Rightarrow> string option \<Rightarrow> TaskType \<Rightarrow> (candidate \<times> attempt_io) list \<Rightarrow> nat \<Rightarrow> World \<Rightarrow>
    World" where
  "met g req streaming keys key task cs n w = fold (pass_over g req streaming keys key task) (take n cs) w"

definition why_passed ::
  "Gateway \<Rightarrow> ChatRequest \<Rightarrow> bool \<Rightarrow> keys \<Rightarrow> candidate \<times> attempt_io \<Rightarrow> World \<Rightarrow> string option" where
  "why_passed g req streaming keys ci w =
     (if gm_at [] keys (cand_provider (fst ci)) = [] then Some no_key_reason
      else if \<not> allow (allow_at (snd ci)) (cand_provider (fst ci)) (health w) then Some cooldown_reason
      else case result_of g req streaming keys ci of ([], Inl err) \<Rightarrow> Some err | _ \<Rightarrow> None)"

text \<open>How the chain ends with a candidate: its chunks, its answer or error, and the one call made to it.\<close>

definition ends_with ::
  "Gateway \<Rightarrow> ChatRequest \<Rightarrow> bool \<Rightarrow> keys \<Rightarrow> candidate \<times> attempt_io \<Rightarrow> World \<Rightarrow>
    (string + ChatResponse option) \<times> World \<Rightarrow> bool" where
  "ends_with g req streaming keys ci w end =
     (let c = fst ci; apiKey = gm_at [] keys (cand_provider c); (out, result) = result_of g req streaming keys ci
      in fst end = (case result of Inl err \<Rightarrow> Inl err | Inr (resp, usage) \<Rightarrow> Inr resp) \<and>
         delivered (snd end) = delivered w @ out \<and>
         sent_upstream (snd end) = sent_upstream w @
           (if reaches_upstream (net (snd ci)) (registry g) (cand_provider c) (req\<lparr>ReqModel := cand_model c\<rparr>) apiKey streaming
            then [(cand_provider c, cand_model c, apiKey)] else []))"

lemma chain_step:
  "attemptChain v g req streaming keys key task (ci # cs) fs w = (r, w') \<Longrightarrow>
    (case why_passed g req streaming keys ci w of
       Some why \<Rightarrow>
         attemptChain v g req streaming keys key task cs (fs @ [failure (fst ci) why])
           (pass_over g req streaming keys key task ci w) = (r, w') \<and>
         delivered (pass_over g req streaming keys key task ci w) = delivered w
     | None \<Rightarrow> ends_with g req streaming keys ci w (r, w'))"
proof -
  assume chain: "attemptChain v g req streaming keys key task (ci # cs) fs w = (r, w')"
  obtain c io where ci: "ci = (c, io)" by fastforce
  show ?thesis
  proof (cases "skipped keys ci w")
    case True
    with chain show ?thesis by (auto simp: skipped_def ci Let_def why_passed_def pass_over_def)
  next
    case False
    obtain i out result w1 where run:
      "run_attempt g io req streaming c (gm_at [] keys (cand_provider c)) task w = (i, out, result, w1)"
      by (metis prod_cases4)
    note r = run_attempt_result [OF run]
    have ro: "result_of g req streaming keys (c, io) = (out, result)" using r by simp
    have sent: "sent_upstream w1 = sent_upstream w @
        (if reaches_upstream (net io) (registry g) (cand_provider c) (req\<lparr>ReqModel := cand_model c\<rparr>)
            (gm_at [] keys (cand_provider c)) streaming
         then [(cand_provider c, cand_model c, gm_at [] keys (cand_provider c))] else [])"
      using run by (auto simp: run_attempt_def Let_def split: prod.splits)
    from False have ask: "gm_at [] keys (cand_provider c) \<noteq> []" "allow (allow_at io) (cand_provider c) (health w)"
      by (simp_all add: skipped_def ci)
    show ?thesis
    proof (cases result)
      case (Inr ru)
      then show ?thesis
        using chain run r sent ask
        by (cases ru; cases out) (auto simp: ci why_passed_def ends_with_def Let_def ro)
    next
      case (Inl err)
      then show ?thesis
        using chain run r sent ask False
        by (cases out) (auto simp: ci why_passed_def ends_with_def pass_over_def Let_def ro)
    qed
  qed
qed

lemma met_simps [simp]:
  "met g req streaming keys key task cs 0 w = w"
  "met g req streaming keys key task (ci # cs) (Suc n) w =
     met g req streaming keys key task cs n (pass_over g req streaming keys key task ci w)"
  by (simp_all add: met_def)

lemma list_all_upt_Suc: "list_all P [0..<Suc n] \<longleftrightarrow> P 0 \<and> list_all (\<lambda>i. P (Suc i)) [0..<n]"
  by (simp add: list_all_iff Ball_def All_less_Suc2 del: upt_Suc)

text \<open>
  C1. The first candidate that answers ends the chain, and a stream is never spliced. The chain passes over a
  prefix of the candidates, in their order, each for its own reason in the world the ones before it left: no
  key, in cooldown, or a try that failed before its first chunk; nothing of them reaches the client. When that
  prefix is the whole chain, the error reports every candidate with its reason, in order. Otherwise the next
  candidate is not one to pass over: its answer, or the error it broke off with after a chunk, is the result, its
  chunks are all the client receives, and its call is the last one made.
\<close>

theorem attemptChain_outcome:
  "\<exists>fs. length fs \<le> length cs \<and>
    list_all (\<lambda>i. af_cand (fs ! i) = fst (cs ! i) \<and>
        why_passed g req streaming keys (cs ! i) (met g req streaming keys key task cs i w) = Some (reason (fs ! i)))
      [0..<length fs] \<and>
    delivered (met g req streaming keys key task cs (length fs) w) = delivered w \<and>
    (if length fs = length cs
     then attemptChain v g req streaming keys key task cs [] w =
            (Inl (summarizeFailures fs), met g req streaming keys key task cs (length fs) w)
     else why_passed g req streaming keys (cs ! length fs) (met g req streaming keys key task cs (length fs) w) = None \<and>
       ends_with g req streaming keys (cs ! length fs) (met g req streaming keys key task cs (length fs) w)
         (attemptChain v g req streaming keys key task cs [] w))"
proof -
  have "\<exists>fs. length fs \<le> length cs \<and>
    list_all (\<lambda>i. af_cand (fs ! i) = fst (cs ! i) \<and>
        why_passed g req streaming keys (cs ! i) (met g req streaming keys key task cs i w) = Some (reason (fs ! i)))
      [0..<length fs] \<and>
    delivered (met g req streaming keys key task cs (length fs) w) = delivered w \<and>
    (if length fs = length cs
     then attemptChain v g req streaming keys key task cs fs0 w =
            (Inl (summarizeFailures (fs0 @ fs)), met g req streaming keys key task cs (length fs) w)
     else why_passed g req streaming keys (cs ! length fs) (met g req streaming keys key task cs (length fs) w) = None \<and>
       ends_with g req streaming keys (cs ! length fs) (met g req streaming keys key task cs (length fs) w)
         (attemptChain v g req streaming keys key task cs fs0 w))" for fs0
  proof (induction cs arbitrary: fs0 w)
    case (Cons ci cs)
    obtain r w' where chain: "attemptChain v g req streaming keys key task (ci # cs) fs0 w = (r, w')" by fastforce
    note step = chain_step [OF chain]
    show ?case
    proof (cases "why_passed g req streaming keys ci w")
      case None
      with step chain show ?thesis by (intro exI [of _ "[]"]) simp
    next
      case (Some why)
      let ?w1 = "pass_over g req streaming keys key task ci w"
      from Some step chain have rest: "attemptChain v g req streaming keys key task (ci # cs) fs0 w =
          attemptChain v g req streaming keys key task cs (fs0 @ [failure (fst ci) why]) ?w1"
        and kept: "delivered ?w1 = delivered w" by simp_all
      from Cons.IH [of ?w1 "fs0 @ [failure (fst ci) why]"] obtain fs where fs: "length fs \<le> length cs"
        "list_all (\<lambda>i. af_cand (fs ! i) = fst (cs ! i) \<and>
            why_passed g req streaming keys (cs ! i) (met g req streaming keys key task cs i ?w1) = Some (reason (fs ! i)))
          [0..<length fs]"
        "delivered (met g req streaming keys key task cs (length fs) ?w1) = delivered ?w1"
        "if length fs = length cs
         then attemptChain v g req streaming keys key task cs (fs0 @ [failure (fst ci) why]) ?w1 =
           (Inl (summarizeFailures ((fs0 @ [failure (fst ci) why]) @ fs)),
            met g req streaming keys key task cs (length fs) ?w1)
         else why_passed g req streaming keys (cs ! length fs) (met g req streaming keys key task cs (length fs) ?w1) = None \<and>
           ends_with g req streaming keys (cs ! length fs) (met g req streaming keys key task cs (length fs) ?w1)
             (attemptChain v g req streaming keys key task cs (fs0 @ [failure (fst ci) why]) ?w1)"
        by blast
      show ?thesis
        using fs kept Some rest
        by (intro exI [of _ "failure (fst ci) why # fs"])
          (auto simp: list_all_upt_Suc failure_def simp del: upt_Suc)
    qed
  qed simp
  from this [of "[]"] show ?thesis by (simp only: append_Nil)
qed

section \<open>An interface: relations the chain keeps\<close>

text \<open>
  A relation between worlds that is reflexive and transitive and holds across every failed and every
  successful attempt holds across the chain. Each effect of the chain is one interpretation.
\<close>

locale chain_relation =
  fixes v :: vectors and g :: Gateway and req :: ChatRequest and streaming :: bool and keys :: keys
    and key :: "string option" and task :: TaskType and R :: "World \<Rightarrow> World \<Rightarrow> bool"
  assumes R_refl: "R w w"
    and R_trans: "R w w' \<Longrightarrow> R w' w'' \<Longrightarrow> R w w''"
    and R_failed: "gm_at [] keys (cand_provider c) \<noteq> [] \<Longrightarrow>
      run_attempt g io req streaming c (gm_at [] keys (cand_provider c)) task w = (i, out, Inl err, w1) \<Longrightarrow>
      R w (after_failure g io c key task i err w1)"
    and R_succeeded: "gm_at [] keys (cand_provider c) \<noteq> [] \<Longrightarrow>
      run_attempt g io req streaming c (gm_at [] keys (cand_provider c)) task w = (i, out, Inr (resp, usage), w1) \<Longrightarrow>
      R w (after_success v g io req c key task i usage t w1)"
begin

lemma chain: "R w (snd (attemptChain v g req streaming keys key task cs fs w))"
proof (induction cs arbitrary: fs w)
  case Nil
  then show ?case by (simp add: R_refl)
next
  case (Cons ci cs)
  obtain c io where ci: "ci = (c, io)" by fastforce
  show ?case
  proof (cases "skipped keys ci w")
    case True
    with Cons.IH show ?thesis by (auto simp: skipped_def ci Let_def)
  next
    case False
    then have k: "gm_at [] keys (cand_provider c) \<noteq> []" by (simp add: skipped_def ci)
    obtain i out result w1 where run:
      "run_attempt g io req streaming c (gm_at [] keys (cand_provider c)) task w = (i, out, result, w1)"
      by (metis prod_cases4)
    show ?thesis
    proof (cases result)
      case (Inl err)
      with run have "R w (after_failure g io c key task i err w1)" using R_failed [OF k] by blast
      with False run Inl Cons.IH show ?thesis by (auto simp: skipped_def ci Let_def intro: R_trans)
    next
      case (Inr ru)
      with run have "R w (after_success v g io req c key task i (snd ru) t w1)" for t
        using R_succeeded [OF k] by (metis prod.collapse)
      with False run Inr show ?thesis by (auto simp: skipped_def ci Let_def split: prod.splits)
    qed
  qed
qed

end

section \<open>Health\<close>

lemma health_run_append: "health_run conf (ops @ ops') h = health_run conf ops' (health_run conf ops h)"
  by (simp add: health_run_def)

definition health_runs :: "Config \<Rightarrow> Health \<Rightarrow> Health \<Rightarrow> bool" where
  "health_runs conf h h' \<longleftrightarrow> (\<exists>ops. h' = health_run conf ops h)"

lemma health_runs_refl: "health_runs conf h h"
  unfolding health_runs_def by (rule exI [of _ "[]"]) (simp add: health_run_def)

lemma health_runs_trans: "health_runs conf h h' \<Longrightarrow> health_runs conf h' h'' \<Longrightarrow> health_runs conf h h''"
  unfolding health_runs_def by (metis health_run_append)

lemma health_runs_exec: "health_runs conf h (health_exec conf op h)"
  unfolding health_runs_def by (rule exI [of _ "[op]"]) (simp add: health_run_def)

lemma bench_pool_runs: "health_runs conf h (bench_pool now c ps h)"
proof (induction now c ps h rule: bench_pool.induct)
  case (2 now c p ps h)
  have "health_runs conf h (benchOne now (profile_cand p) h)"
    using health_runs_exec [of conf h "Refused now (profile_cand p)"] by simp
  with 2 show ?case by (auto intro: health_runs_trans)
qed (simp add: health_runs_refl)

lemma benchIfAccessDenied_runs: "health_runs conf h (benchIfAccessDenied ord cat now c err h)"
proof -
  have "health_runs conf h (benchOne now c h)" using health_runs_exec [of conf h "Refused now c"] by simp
  with bench_pool_runs show ?thesis
    by (auto simp: benchIfAccessDenied_def Let_def intro: health_runs_refl health_runs_trans)
qed

lemma after_failure_health:
  "health (after_failure g io c key task i err w) =
     benchIfAccessDenied (bench_ord io) (catalog g) (bench_at io) c err
       (if \<not> isAccessDenied err then recordFailure (cfg g) (fail_at io) (cand_provider c) (health w) else health w)"
  by (simp add: after_failure_def Let_def)

interpretation chain_health:
  chain_relation v g req streaming keys key task "\<lambda>w w'. health_runs (cfg g) (health w) (health w')"
  for v g req streaming keys key task
proof
  fix c io w i out err w1
  assume "run_attempt g io req streaming c (gm_at [] keys (cand_provider c)) task w = (i, out, Inl err, w1)"
  from run_attempt_result [OF this] have same: "health w1 = health w" by blast
  have "health_runs (cfg g) (health w)
      (if \<not> isAccessDenied err then recordFailure (cfg g) (fail_at io) (cand_provider c) (health w) else health w)"
    using health_runs_exec [of "cfg g" "health w" "Failed (fail_at io) (cand_provider c)"] health_runs_refl by simp
  then show "health_runs (cfg g) (health w) (health (after_failure g io c key task i err w1))"
    unfolding after_failure_health same using benchIfAccessDenied_runs by (rule health_runs_trans)
next
  fix c io w i out resp usage w1 t
  assume "run_attempt g io req streaming c (gm_at [] keys (cand_provider c)) task w = (i, out, Inr (resp, usage), w1)"
  from run_attempt_result [OF this] have "health w1 = health w" by blast
  then show "health_runs (cfg g) (health w) (health (after_success v g io req c key task i usage t w1))"
    using health_runs_exec [of "cfg g" "health w" "Succeeded (cand_provider c)"] by simp
qed (rule health_runs_refl, erule (1) health_runs_trans)

section \<open>Live view\<close>

definition live_ok :: "liveState \<Rightarrow> bool" where
  "live_ok l \<longleftrightarrow> (\<forall>i. gm_has (inFlight l) i \<longrightarrow> i \<le> seq_no l)"

definition settles :: "liveState \<Rightarrow> liveState \<Rightarrow> bool" where
  "settles l l' \<longleftrightarrow>
     (live_ok l \<longrightarrow> live_ok l' \<and> seq_no l \<le> seq_no l' \<and> (\<forall>i. map_of (inFlight l') i = map_of (inFlight l) i))"

lemma settles_refl: "settles l l"
  by (simp add: settles_def)

lemma settles_trans: "settles l l' \<Longrightarrow> settles l' l'' \<Longrightarrow> settles l l''"
  by (auto simp: settles_def)

lemma begin_end_settles:
  "settles l (live_end t' (seq_no l + 1) st f lat (snd (live_begin t c req task streaming l)))"
proof -
  have "map_of (inFlight l) (seq_no l + 1) = None" if "live_ok l"
    using that by (force simp: live_ok_def gm_has_def)
  then show ?thesis
    by (auto simp: settles_def live_ok_def live_begin_def live_end_def Let_def gm_has_def dest: less_imp_le)
qed

interpretation chain_live:
  chain_relation v g req streaming keys key task "\<lambda>w w'. settles (live w) (live w')"
  for v g req streaming keys key task
proof
  fix c io w i out err w1
  assume "run_attempt g io req streaming c (gm_at [] keys (cand_provider c)) task w = (i, out, Inl err, w1)"
  from run_attempt_result [OF this] show "settles (live w) (live (after_failure g io c key task i err w1))"
    by (simp add: begin_end_settles)
next
  fix c io w i out resp usage w1 t
  assume "run_attempt g io req streaming c (gm_at [] keys (cand_provider c)) task w = (i, out, Inr (resp, usage), w1)"
  from run_attempt_result [OF this] show "settles (live w) (live (after_success v g io req c key task i usage t w1))"
    by (simp add: begin_end_settles)
qed (rule settles_refl, erule (1) settles_trans)

section \<open>Keys\<close>

definition keyed_calls :: "keys \<Rightarrow> World \<Rightarrow> World \<Rightarrow> bool" where
  "keyed_calls keys w w' \<longleftrightarrow>
     (\<exists>calls. sent_upstream w' = sent_upstream w @ calls \<and>
        list_all (\<lambda>(name, m, apiKey). map_of keys name = Some apiKey \<and> apiKey \<noteq> []) calls)"

lemma keyed_calls_refl: "keyed_calls keys w w"
  by (simp add: keyed_calls_def)

lemma keyed_calls_trans: "keyed_calls keys w w' \<Longrightarrow> keyed_calls keys w' w'' \<Longrightarrow> keyed_calls keys w w''"
  unfolding keyed_calls_def by (elim exE conjE) (auto intro!: exI [of _ "_ @ _"])

lemma run_attempt_keyed:
  assumes "run_attempt g io req streaming c (gm_at [] keys (cand_provider c)) task w = (i, out, result, w1)"
    and "gm_at [] keys (cand_provider c) \<noteq> []"
  shows "keyed_calls keys w w1"
proof -
  have "map_of keys (cand_provider c) = Some (gm_at [] keys (cand_provider c))"
    using assms(2) by (simp add: gm_at_def split: option.splits)
  moreover have "\<exists>calls. sent_upstream w1 = sent_upstream w @ calls \<and>
      (calls = [] \<or> calls = [(cand_provider c, cand_model c, gm_at [] keys (cand_provider c))])"
    using assms(1) by (auto simp: run_attempt_def Let_def split: prod.splits)
  ultimately show ?thesis using assms(2) unfolding keyed_calls_def by fastforce
qed

lemma keyed_calls_sent: "keyed_calls keys w w1 \<Longrightarrow> sent_upstream w2 = sent_upstream w1 \<Longrightarrow> keyed_calls keys w w2"
  by (simp add: keyed_calls_def)

interpretation chain_keys: chain_relation v g req streaming keys key task "keyed_calls keys"
  for v g req streaming keys key task
proof
  fix c io w i out err w1
  assume "gm_at [] keys (cand_provider c) \<noteq> []"
    and "run_attempt g io req streaming c (gm_at [] keys (cand_provider c)) task w = (i, out, Inl err, w1)"
  from run_attempt_keyed [OF this(2,1)] show "keyed_calls keys w (after_failure g io c key task i err w1)"
    by (rule keyed_calls_sent) simp
next
  fix c io w i out resp usage w1 t
  assume "gm_at [] keys (cand_provider c) \<noteq> []"
    and "run_attempt g io req streaming c (gm_at [] keys (cand_provider c)) task w = (i, out, Inr (resp, usage), w1)"
  from run_attempt_keyed [OF this(2,1)] show "keyed_calls keys w (after_success v g io req c key task i usage t w1)"
    by (rule keyed_calls_sent) simp
qed (rule keyed_calls_refl, erule (1) keyed_calls_trans)

text \<open>
  C10. Whatever the upstreams answer, a chain sends each provider its own stored key and no other's, leaves no
  attempt in flight that it began, and changes health only by the operations under which a provider or a
  model recovers.
\<close>

theorem attemptChain_effects:
  fixes v g req streaming keys key task cs fs w
  defines "w' \<equiv> snd (attemptChain v g req streaming keys key task cs fs w)"
  shows "keyed_calls keys w w' \<and> settles (live w) (live w') \<and> health_runs (cfg g) (health w) (health w')"
  unfolding w'_def by (intro conjI chain_keys.chain chain_live.chain chain_health.chain)

section \<open>Usage\<close>

definition row_of :: "string option \<Rightarrow> TaskType \<Rightarrow> string \<Rightarrow> UsageRow \<Rightarrow> bool" where
  "row_of key task st r \<longleftrightarrow> api_key_id r = key \<and> row_task r = task \<and> status r = st \<and> \<not> cache_hit r"

lemma logUsage_row:
  "\<exists>r. usage_logs (logUsage ord True cat u w) = usage_logs w @ [r] \<and> api_key_id r = u_key u \<and>
     row_task r = u_task u \<and> status r = u_status u \<and> cache_hit r = u_cacheHit u"
  by (simp add: logUsage_def)

lemma after_failure_row:
  "usage_ok io \<Longrightarrow> \<exists>r. usage_logs (after_failure g io c key task i err w) = usage_logs w @ [r] \<and> row_of key task ''error'' r"
  by (simp add: after_failure_def Let_def logUsage_def row_of_def)

lemma after_success_row:
  "usage_ok io \<Longrightarrow>
    \<exists>r. usage_logs (after_success v g io req c key task i usage t w) = usage_logs w @ [r] \<and> row_of key task ''success'' r"
  by (simp add: after_success_def Let_def logUsage_def row_of_def)

lemma live_end_seq [simp]: "seq_no (live_end t i st f lat l) = seq_no l"
  by (simp add: live_end_def split: option.splits)

lemma live_begin_seq [simp]: "seq_no (snd (live_begin t c r task streaming l)) = seq_no l + 1"
  by (simp add: live_begin_def Let_def)

text \<open>
  C13. With the database up, a chain writes one usage row per attempt it begins and none for a candidate it
  skips: a request that fails leaves only error rows, a request that succeeds the error rows of the attempts
  before it and one success row, last, and every row names the caller's key and the task.
\<close>

theorem one_usage_row_per_attempt:
  assumes "list_all (\<lambda>ci. usage_ok (snd ci)) cs"
  shows "\<exists>rows. usage_logs (snd (attemptChain v g req streaming keys key task cs fs w)) = usage_logs w @ rows \<and>
    int (length rows) = seq_no (live (snd (attemptChain v g req streaming keys key task cs fs w))) - seq_no (live w) \<and>
    (case fst (attemptChain v g req streaming keys key task cs fs w) of
       Inl _ \<Rightarrow> list_all (row_of key task ''error'') rows
     | Inr _ \<Rightarrow> \<exists>errors r. rows = errors @ [r] \<and> list_all (row_of key task ''error'') errors \<and> row_of key task ''success'' r)"
  using assms
proof (induction cs arbitrary: fs w)
  case Nil
  then show ?case by simp
next
  case (Cons ci cs)
  obtain c io where ci: "ci = (c, io)" by fastforce
  with Cons.prems have ok: "usage_ok io" and oks: "list_all (\<lambda>ci. usage_ok (snd ci)) cs" by simp_all
  show ?case
  proof (cases "skipped keys ci w")
    case True
    with Cons.IH [OF oks, of _ w] show ?thesis by (auto simp: skipped_def ci Let_def)
  next
    case False
    obtain i out result w1 where run:
      "run_attempt g io req streaming c (gm_at [] keys (cand_provider c)) task w = (i, out, result, w1)"
      by (metis prod_cases4)
    from run_attempt_result [OF run] have w1: "usage_logs w1 = usage_logs w" "seq_no (live w1) = seq_no (live w) + 1"
      by simp_all
    show ?thesis
    proof (cases result)
      case (Inr ru)
      obtain resp usage where ru: "ru = (resp, usage)" by fastforce
      let ?w2 = "after_success v g io req c key task i usage
        (if streaming then streamed_text out else completionText resp) w1"
      have chain: "attemptChain v g req streaming keys key task (ci # cs) fs w = (Inr resp, ?w2)"
        using False run Inr ru by (simp add: skipped_def ci Let_def)
      from after_success_row [OF ok] obtain r where "usage_logs ?w2 = usage_logs w1 @ [r]" "row_of key task ''success'' r"
        by blast
      then show ?thesis unfolding chain using w1 by simp
    next
      case (Inl err)
      let ?w2 = "after_failure g io c key task i err w1"
      from after_failure_row [OF ok] obtain r where r: "usage_logs ?w2 = usage_logs w1 @ [r]" "row_of key task ''error'' r"
        by blast
      show ?thesis
      proof (cases "out = []")
        case True
        then have chain: "attemptChain v g req streaming keys key task (ci # cs) fs w =
            attemptChain v g req streaming keys key task cs (fs @ [failure c err]) ?w2"
          using False run Inl by (simp add: skipped_def ci Let_def)
        from Cons.IH [OF oks, of "fs @ [failure c err]" ?w2] obtain rows where
          rows: "usage_logs (snd (attemptChain v g req streaming keys key task cs (fs @ [failure c err]) ?w2)) =
            usage_logs ?w2 @ rows"
          "int (length rows) = seq_no (live (snd (attemptChain v g req streaming keys key task cs (fs @ [failure c err]) ?w2)))
            - seq_no (live ?w2)"
          "case fst (attemptChain v g req streaming keys key task cs (fs @ [failure c err]) ?w2) of
             Inl _ \<Rightarrow> list_all (row_of key task ''error'') rows
           | Inr _ \<Rightarrow> \<exists>errors r. rows = errors @ [r] \<and> list_all (row_of key task ''error'') errors \<and>
               row_of key task ''success'' r" by blast
        have "\<exists>errors r'. r # rows = errors @ [r'] \<and> list_all (row_of key task ''error'') errors \<and> row_of key task ''success'' r'"
          if "\<exists>errors r. rows = errors @ [r] \<and> list_all (row_of key task ''error'') errors \<and> row_of key task ''success'' r"
        proof -
          from that obtain errors r' where "rows = errors @ [r']" "list_all (row_of key task ''error'') errors"
            "row_of key task ''success'' r'" by blast
          with r(2) have "r # rows = (r # errors) @ [r']" "list_all (row_of key task ''error'') (r # errors)"
            "row_of key task ''success'' r'" by simp_all
          then show ?thesis by blast
        qed
        then show ?thesis unfolding chain using rows r w1 by (auto split: sum.splits)
      next
        case out: False
        then have chain: "attemptChain v g req streaming keys key task (ci # cs) fs w = (Inl err, ?w2)"
          using False run Inl by (simp add: skipped_def ci Let_def)
        show ?thesis unfolding chain using r w1 by simp
      qed
    qed
  qed
qed

text \<open>One attempt against an upstream that answers with a text.\<close>

definition answers :: "string \<Rightarrow> upstream" where
  "answers t = \<lparr>build_error = None, transport = Inr (200, []), read_error = None,
     decoded = Inr (cachedResponse 0 ''m'' t), chunks = [], stream_end = Inl ''unused''\<rparr>"

definition quiet_io :: "upstream \<Rightarrow> attempt_io" where
  "quiet_io u = \<lparr>net = (\<lambda>_ _ _ _. u), client_emit = (\<lambda>_. None), allow_at = 1, begin_at = 1, latency = 1, end_at = 2,
     fail_at = 2, bench_at = 2, bench_ord = [], usage_ok = True, usage_ord = [], store_at = 2, store_fails = False,
     store_row = []\<rparr>"

definition fresh_world :: World where
  "fresh_world = \<lparr>health = healthy, live = newLiveState, cache_of = None, usage_logs = [], sent_upstream = [],
     delivered = []\<rparr>"

lemma one_usage_row_per_attempt_witness:
  "int (length (usage_logs (snd (attemptChain toy_vectors (small_gateway True) (ask_for ''a1'') False small_keys None
     TaskConversation [(cand ''groq'' ''a1'', quiet_io (answers ''hello''))] [] fresh_world)))) =
   seq_no (live (snd (attemptChain toy_vectors (small_gateway True) (ask_for ''a1'') False small_keys None
     TaskConversation [(cand ''groq'' ''a1'', quiet_io (answers ''hello''))] [] fresh_world)))"
proof -
  have "list_all (\<lambda>ci. usage_ok (snd ci)) [(cand ''groq'' ''a1'', quiet_io (answers ''hello''))]"
    by (simp add: quiet_io_def)
  from one_usage_row_per_attempt [OF this, of toy_vectors "small_gateway True" "ask_for ''a1''" False small_keys None
      TaskConversation "[]" fresh_world]
  show ?thesis by (auto simp: fresh_world_def newLiveState_def)
qed

section \<open>What the caller is told\<close>

text \<open>
  The summary of a failed chain hides nothing: it names every candidate, provider and model, with its own
  reason (cut to 240 bytes when there are several), and with no candidate it is the no-provider error.
\<close>

theorem summary_names_every_failure:
  "summarizeFailures [] = ErrNoProvider \<and>
   list_all (\<lambda>f. Contains (summarizeFailures fs) (cand_provider (af_cand f) @ '' ('' @ cand_model (af_cand f) @ '')'') \<and>
     Contains (summarizeFailures fs) (if length fs = 1 then reason f else truncateReason (reason f))) fs"
proof -
  have line: "Contains (concat (map failure_line fs)) (failure_line f)" if "f \<in> set fs" for f
  proof -
    from split_list [OF that] obtain a b where "fs = a @ f # b" by blast
    then have "concat (map failure_line fs) = concat (map failure_line a) @ failure_line f @ concat (map failure_line b)"
      by simp
    then show ?thesis unfolding Contains_iff by blast
  qed
  have sub: "Contains t x" if "Contains t s" "Contains s x" for s t x
    using that unfolding Contains_iff by (metis append.assoc)
  have parts: "Contains (failure_line f) (cand_provider (af_cand f) @ '' ('' @ cand_model (af_cand f) @ '')'')"
    "Contains (failure_line f) (truncateReason (reason f))" for f
  proof -
    have "failure_line f = (CHR 0x0A # ''  '' @ bullet @ '' '') @
        (cand_provider (af_cand f) @ '' ('' @ cand_model (af_cand f) @ '')'') @ ('': '' @ truncateReason (reason f))"
      by (simp add: failure_line_def)
    then show "Contains (failure_line f) (cand_provider (af_cand f) @ '' ('' @ cand_model (af_cand f) @ '')'')"
      unfolding Contains_iff by blast
    have "failure_line f = (CHR 0x0A # ''  '' @ bullet @ '' '' @ cand_provider (af_cand f) @ '' ('' @
        cand_model (af_cand f) @ ''): '') @ truncateReason (reason f) @ []"
      by (simp add: failure_line_def)
    then show "Contains (failure_line f) (truncateReason (reason f))" unfolding Contains_iff by blast
  qed
  consider "fs = []" | f where "fs = [f]" | a b cs where "fs = a # b # cs" by (cases fs rule: remdups_adj.cases) auto
  then have "list_all (\<lambda>f. Contains (summarizeFailures fs) (cand_provider (af_cand f) @ '' ('' @ cand_model (af_cand f) @ '')'') \<and>
     Contains (summarizeFailures fs) (if length fs = 1 then reason f else truncateReason (reason f))) fs"
  proof cases
    case 2
    have "summarizeFailures fs = [] @ (cand_provider (af_cand f) @ '' ('' @ cand_model (af_cand f) @ '')'') @ ('' failed: '' @ reason f)"
      and "summarizeFailures fs = (cand_provider (af_cand f) @ '' ('' @ cand_model (af_cand f) @ '') failed: '') @ reason f @ []"
      by (simp_all add: summarizeFailures_def 2)
    then have "Contains (summarizeFailures fs) (cand_provider (af_cand f) @ '' ('' @ cand_model (af_cand f) @ '')'')"
      and "Contains (summarizeFailures fs) (reason f)" unfolding Contains_iff by blast+
    with 2 show ?thesis by simp
  next
    case 3
    then obtain pre where "summarizeFailures fs = pre @ concat (map failure_line fs) @ []"
      by (simp add: summarizeFailures_def)
    then have "Contains (summarizeFailures fs) (concat (map failure_line fs))" unfolding Contains_iff by blast
    with line sub have "Contains (summarizeFailures fs) (failure_line f)" if "f \<in> set fs" for f using that by blast
    with sub parts show ?thesis using 3 by (fastforce simp: list_all_iff)
  qed simp
  then show ?thesis by (simp add: summarizeFailures_def)
qed

section \<open>Which errors count against whom\<close>

lemma Itoa_codes: "Itoa 401 = ''401''" "Itoa 403 = ''403''" "Itoa 404 = ''404''"
  by code_simp+

lemma lower_returned: "ToLower ('' returned '' @ s) = '' returned '' @ ToLower s"
  by (simp add: ToLower_def lower_char_def)

text \<open>
  A 401, 403 or 404 from any upstream is an access refusal whatever its body says, so the failed attempt
  benches the model, and not one byte of it counts against the provider's breaker.
\<close>

theorem refusals_spare_the_breaker:
  assumes "code \<in> {401, 403, 404}"
  shows "isAccessDenied (HTTPError name code body) \<and>
    breakers (health (after_failure g io c key task i (HTTPError name code body) w)) = breakers (health w) \<and>
    is_benched (bench_at io + Hour) (health (after_failure g io c key task i (HTTPError name code body) w)) c"
proof -
  let ?err = "HTTPError name code body"
  obtain m where err: "?err = name @ '' returned '' @ Itoa code @ m"
    by (auto simp: HTTPError_def Let_def)
  have "contains_any (ToLower ?err) deniedMarkers"
  proof -
    have "Contains (ToLower ?err) (''returned '' @ Itoa code)"
    proof -
      have "ToLower (Itoa code) = Itoa code" using assms by (auto simp: Itoa_codes ToLower_def lower_char_def)
      then have "ToLower ?err = (ToLower name @ '' '') @ (''returned '' @ Itoa code) @ ToLower m"
        unfolding err ToLower_append lower_returned [of "Itoa code @ m"] by (simp add: ToLower_def lower_char_def)
      then show ?thesis unfolding Contains_iff by blast
    qed
    with assms show ?thesis by (auto simp: contains_any_def deniedMarkers_def Itoa_codes)
  qed
  then have denied: "isAccessDenied ?err" by (simp add: isAccessDenied_def)
  have h: "health (after_failure g io c key task i ?err w) =
      benchIfAccessDenied (bench_ord io) (catalog g) (bench_at io) c ?err (health w)"
    using denied by (simp add: after_failure_health)
  have "breakers (bench_pool now c' ps x) = breakers x" for now c' ps x using bench_pool_spec by blast
  moreover have "is_benched (bench_at io + Hour) (bench_pool (bench_at io) c ps x) c"
    if "is_benched (bench_at io + Hour) x c" for ps x
    using that bench_pool_spec [of "bench_at io" c ps x "bench_at io + Hour" c] by (simp add: benchDuration_def)
  ultimately show ?thesis
    unfolding h using denied
    by (simp add: benchIfAccessDenied_def Let_def benchDuration_def) (simp add: benchOne_def)
qed

lemma refusals_spare_the_breaker_witness:
  "isAccessDenied (HTTPError ''groq'' 404 ''model not found'') \<and>
   is_benched (2 + Hour) (health (after_failure (small_gateway True) (quiet_io (answers [])) (cand ''groq'' ''a1'') None
     TaskConversation 1 (HTTPError ''groq'' 404 ''model not found'') fresh_world)) (cand ''groq'' ''a1'')"
proof -
  have "(404 :: int) \<in> {401, 403, 404}" by simp
  from refusals_spare_the_breaker [OF this, of "''groq''" "''model not found''" "small_gateway True" "quiet_io (answers [])"
      "cand ''groq'' ''a1''" None TaskConversation 1 fresh_world]
  show ?thesis by (simp add: quiet_io_def)
qed

text \<open>
  Every other failure counts against the provider, and that includes the client's own: when the client
  goes away in the middle of a stream, the error its connection gave (no access refusal) is recorded as a
  failure of the provider that was answering it.
\<close>

theorem client_disconnect_counts_against_provider:
  assumes "client_emit io 0 = Some e" and "\<not> isAccessDenied e"
    and "gm_at [] keys (cand_provider c) \<noteq> []" and "allow (allow_at io) (cand_provider c) (health w)"
    and "map_of (registry g) (cand_provider c) = Some client"
    and "net io client (req\<lparr>ReqModel := cand_model c\<rparr>) (gm_at [] keys (cand_provider c)) True = u"
    and "build_error u = None" and "transport u = Inr (200, body)" and "chunks u \<noteq> []"
  shows "fst (attemptChain v g req True keys key task ((c, io) # cs) fs w) = Inl e \<and>
    health (snd (attemptChain v g req True keys key task ((c, io) # cs) fs w)) =
      recordFailure (cfg g) (fail_at io) (cand_provider c) (health w)"
proof -
  obtain ch chs where chs: "chunks u = ch # chs" using assms(9) by (cases "chunks u") auto
  obtain i out result w1 where run:
    "run_attempt g io req True c (gm_at [] keys (cand_provider c)) task w = (i, out, result, w1)"
    by (metis prod_cases4)
  from run_attempt_result [OF run] have "(out, result) = ([ch], Inl e)" and h: "health w1 = health w"
    using assms(1,5-8) chs by (simp_all add: result_of_def attempt_def)
  then have "attemptChain v g req True keys key task ((c, io) # cs) fs w = (Inl e, after_failure g io c key task i e w1)"
    using run assms(3,4) by (simp add: Let_def)
  with assms(2) h show ?thesis by (simp add: after_failure_health benchIfAccessDenied_def)
qed

definition drops_client :: attempt_io where
  "drops_client = (quiet_io ((answers ''hello'')\<lparr>chunks := cachedStreamChunks (cachedResponse 0 ''m'' ''hello'')\<rparr>))
     \<lparr>client_emit := (\<lambda>_. Some ''write: broken pipe'')\<rparr>"

lemma client_disconnect_counts_against_provider_witness:
  "failures_of ''groq'' (health (snd (attemptChain toy_vectors (small_gateway True) (ask_for ''a1'') True small_keys None
     TaskConversation [(cand ''groq'' ''a1'', drops_client)] [] fresh_world))) = 1"
proof -
  let ?u = "(answers ''hello'')\<lparr>chunks := cachedStreamChunks (cachedResponse 0 ''m'' ''hello'')\<rparr>"
  have denied: "\<not> isAccessDenied ''write: broken pipe''" by code_simp
  have trip: "BreakerTrip (cfg (small_gateway True)) = 3" by (simp add: small_gateway_def Load_def Let_def)
  have "health (snd (attemptChain toy_vectors (small_gateway True) (ask_for ''a1'') True small_keys None
      TaskConversation [(cand ''groq'' ''a1'', drops_client)] [] fresh_world)) =
    recordFailure (cfg (small_gateway True)) 2 ''groq'' healthy"
    using client_disconnect_counts_against_provider [where io = drops_client and e = "''write: broken pipe''" and
        c = "cand ''groq'' ''a1''" and keys = small_keys and w = fresh_world and g = "small_gateway True" and u = ?u and
        client = "OpenAIClient [] ''groq''" and body = "[]" and req = "ask_for ''a1''" and v = toy_vectors and key = None and
        task = TaskConversation and cs = "[]" and fs = "[]"]
      denied
    by (simp add: drops_client_def quiet_io_def answers_def fresh_world_def small_gateway_config small_keys_def gm_at_def
        allow_def healthy_def cachedStreamChunks_def Let_def)
  then show ?thesis by (simp add: failures_of_recordFailure trip) (simp add: failures_of_def healthy_def)
qed

end
