(* ===== verification/Gateway_Safety.thy ===== *)
theory Gateway_Safety
  imports Attempts_Facts Planning_Facts
begin

text \<open>What one request may do upstream, across the cache, the keys, the plan and the chain of attempts.\<close>

section \<open>Only planned candidates are asked\<close>

definition asks_only :: "keys \<Rightarrow> (candidate \<Rightarrow> bool) \<Rightarrow> World \<Rightarrow> World \<Rightarrow> bool" where
  "asks_only keys ok w w' \<longleftrightarrow>
     (\<exists>calls. sent_upstream w' = sent_upstream w @ calls \<and>
        list_all (\<lambda>(p, m, apiKey). ok (cand p m) \<and> map_of keys p = Some apiKey \<and> apiKey \<noteq> []) calls)"

lemma asks_only_refl: "sent_upstream w' = sent_upstream w \<Longrightarrow> asks_only keys ok w w'"
  by (simp add: asks_only_def)

lemma asks_only_trans: "asks_only keys ok w w' \<Longrightarrow> asks_only keys ok w' w'' \<Longrightarrow> asks_only keys ok w w''"
  unfolding asks_only_def by (elim exE conjE) (auto intro!: exI [of _ "_ @ _"])

lemma run_attempt_asks:
  assumes "run_attempt g io req streaming c (gm_at [] keys (cand_provider c)) task w = (i, out, result, w1)"
    and "gm_at [] keys (cand_provider c) \<noteq> []" and "ok c" and "sent_upstream w2 = sent_upstream w1"
  shows "asks_only keys ok w w2"
proof -
  have "map_of keys (cand_provider c) = Some (gm_at [] keys (cand_provider c))"
    using assms(2) by (simp add: gm_at_def split: option.splits)
  moreover have "\<exists>calls. sent_upstream w1 = sent_upstream w @ calls \<and>
      (calls = [] \<or> calls = [(cand_provider c, cand_model c, gm_at [] keys (cand_provider c))])"
    using assms(1) by (auto simp: run_attempt_def Let_def split: prod.splits)
  moreover obtain p m where c: "c = cand p m" by (cases c) auto
  ultimately show ?thesis using assms(2-4) unfolding asks_only_def c by (elim exE conjE disjE) auto
qed

lemma chain_asks:
  "list_all (\<lambda>(c, io). ok c) cs \<Longrightarrow> asks_only keys ok w (snd (attemptChain v g req streaming keys key task cs fs w))"
proof (induction v g req streaming keys key task cs fs w rule: attemptChain.induct)
  case (2 v g req streaming keys key task c io rest fs w)
  let ?apiKey = "gm_at [] keys (cand_provider c)"
  from 2(4) have ok: "ok c" and rest: "list_all (\<lambda>(c, io). ok c) rest" by simp_all
  show ?case
  proof (cases "?apiKey = [] \<or> \<not> allow (allow_at io) (cand_provider c) (health w)")
    case True
    with 2(1,2) rest show ?thesis by (auto simp: Let_def)
  next
    case False
    obtain i out result w1 where run: "run_attempt g io req streaming c ?apiKey task w = (i, out, result, w1)" by (metis prod_cases4)
    show ?thesis
    proof (cases result)
      case (Inl err)
      let ?w2 = "after_failure g io c key task i err w1"
      have step: "asks_only keys ok w ?w2" using run_attempt_asks [where ok = ok, OF run _ ok] False by simp
      show ?thesis
      proof (cases "out = []")
        case True
        have "asks_only keys ok ?w2 (snd (attemptChain v g req streaming keys key task rest (fs @ [failure c err]) ?w2))"
          using 2(3) [OF refl _ _ run [symmetric] refl refl refl Inl refl] False True rest by simp
        with step asks_only_trans False run Inl True show ?thesis by (fastforce simp: Let_def)
      next
        case f: False
        with step False run Inl show ?thesis by (simp add: Let_def)
      qed
    next
      case (Inr a)
      then show ?thesis using run_attempt_asks [where ok = ok, OF run _ ok] False run by (cases a) (simp add: Let_def)
    qed
  qed
qed (simp add: asks_only_refl)

section \<open>A request in free-only mode\<close>


lemma serveFromCache_sent: "sent_upstream (snd (serveFromCache v g io req key emit w)) = sent_upstream w"
  by (auto simp: serveFromCache_def Let_def split: option.splits prod.splits LookupResult.splits)

text \<open>What holds of every planned candidate holds of every call, and the key is the one stored for its provider.\<close>

lemma route_asks:
  assumes planned: "\<And>r now keys h. list_all ok (fst (fst (plan r now g req keys h)))"
  shows "\<exists>calls. sent_upstream (snd (route v g io req key streaming w)) = sent_upstream w @ calls \<and>
    list_all (\<lambda>(p, m, apiKey). ok (cand p m) \<and> (\<exists>keys. stored io = Some keys \<and> map_of keys p = Some apiKey \<and> apiKey \<noteq> [])) calls"
proof -
  obtain served w1 where cache: "serveFromCache v g (cache_answers io) req key (if streaming then Some (cache_emit io) else None) w = (served, w1)"
    by force
  then have same: "sent_upstream w1 = sent_upstream w" using serveFromCache_sent by (metis snd_conv)
  show ?thesis
  proof (cases "served = None \<and> stored io \<noteq> None")
    case False
    with cache same show ?thesis by (intro exI [of _ "[]"]) (auto simp: route_def split: option.splits)
  next
    case True
    then obtain keys where keys: "stored io = Some keys" by auto
    obtain cs task h1 where p: "plan (ranges_of io) (plan_at io) g req keys (health w1) = ((cs, task), h1)" by (metis prod.collapse)
    let ?w2 = "w1\<lparr>health := h1\<rparr>" and ?cs = "zip cs (map (attempts io) [0..<length cs])"
    have "list_all ok cs" using planned [of "ranges_of io" "plan_at io" keys "health w1"] p by simp
    then have "list_all (\<lambda>(c, i). ok c) ?cs" by (auto simp: list_all_iff dest: set_zip_leftD)
    from chain_asks [OF this, of keys ?w2 v g req streaming key task "[]"]
    have "asks_only keys ok w (snd (route v g io req key streaming w))"
      using True keys cache p same by (auto simp: route_def Let_def asks_only_def split: prod.splits)
    then show ?thesis using keys unfolding asks_only_def by (auto simp: list_all_iff)
  qed
qed

text \<open>
  C3. A request in free-only mode, or one that asks for free models, cannot spend or leak: every call it makes upstream goes to a
  model its provider publishes at zero price, which no operator has blacklisted and, once probing has confirmed anything,
  is confirmed to work, and carries the key stored for that provider and no other.
\<close>

theorem free_request_stays_free:
  assumes "gw_freeOnly g (ReqModel req)"
  shows "\<exists>calls. sent_upstream (snd (route v g io req key streaming w)) = sent_upstream w @ calls \<and>
    list_all (\<lambda>(p, m, apiKey). served_free (catalog g) (cand p m) \<and> \<not> Blacklisted (catalog g) p m \<and>
      (AnyConfirmed (catalog g) \<longrightarrow> Confirmed (catalog g) p m) \<and>
      (\<exists>keys. stored io = Some keys \<and> map_of keys p = Some apiKey \<and> apiKey \<noteq> [])) calls"
proof -
  have "list_all (\<lambda>c. served_free (catalog g) c \<and> \<not> Blacklisted (catalog g) (cand_provider c) (cand_model c) \<and>
      (AnyConfirmed (catalog g) \<longrightarrow> Confirmed (catalog g) (cand_provider c) (cand_model c)))
    (fst (fst (plan r now g req keys h)))" for r now keys h
    using free_only_candidates [OF assms]
    by (auto simp: plan_query spec_plan_def excludeBlacklisted_def list_all_iff spec_available_def)
  from route_asks [OF this, of v io key streaming w] show ?thesis by simp
qed

definition one_trip :: route_io where
  "one_trip = \<lparr>cache_answers = \<lparr>lookup_at = 9, lookup_fails = False, lookup_latency = 1, served_at = 9, log_ok = False, log_ord = []\<rparr>,
     cache_emit = willing, stored = Some small_keys, stored_again = Some small_keys, ranges_of = small_ranges, plan_at = 1,
     attempts = (\<lambda>_. quiet_io (answers ''hello''))\<rparr>"

lemma free_request_stays_free_witness:
  "list_all (\<lambda>(p, m, apiKey). served_free small_catalog (cand p m) \<and> apiKey = ''secret'')
     (sent_upstream (snd (route toy_vectors (small_gateway True) one_trip (ask_for ''auto'') None False fresh_world)))"
proof -
  have f: "gw_freeOnly (small_gateway True) (ReqModel (ask_for ''auto''))"
    by (simp add: gw_freeOnly_def small_gateway_config)
  obtain calls where "sent_upstream (snd (route toy_vectors (small_gateway True) one_trip (ask_for ''auto'') None False fresh_world)) =
      sent_upstream fresh_world @ calls" and "list_all (\<lambda>(p, m, apiKey). served_free (catalog (small_gateway True)) (cand p m) \<and>
        \<not> Blacklisted (catalog (small_gateway True)) p m \<and>
        (AnyConfirmed (catalog (small_gateway True)) \<longrightarrow> Confirmed (catalog (small_gateway True)) p m) \<and>
        (\<exists>keys. stored one_trip = Some keys \<and> map_of keys p = Some apiKey \<and> apiKey \<noteq> [])) calls"
    using free_request_stays_free [OF f, of toy_vectors one_trip None False fresh_world] by blast
  then show ?thesis
    by (auto simp: list_all_iff fresh_world_def small_gateway_config one_trip_def small_keys_def split: if_splits)
qed

end
