(* ===== verification/Cache_Facts.thy ===== *)
theory Cache_Facts
  imports Attempts_Facts
begin

text \<open>
  What the gateway's use of the cache promises: what it stores is what a later request with the same
  conversation and model gets back, streamed or whole, and what the key of that lookup leaves out.
\<close>

lemma streamed_cached [simp]:
  "streamed_text (cachedStreamChunks (cachedResponse now m content)) = content"
  by (simp add: streamed_text_def cachedStreamChunks_def cachedResponse_def text_delta_def text_message_def Let_def)

lemma completion_cached [simp]: "completionText (Some (cachedResponse now m content)) = content"
  by (simp add: completionText_def cachedResponse_def text_message_def)

text \<open>Two requests the cache cannot tell apart: the same model and conversation, and both cacheable.\<close>

definition same_question :: "Gateway \<Rightarrow> ChatRequest \<Rightarrow> ChatRequest \<Rightarrow> bool" where
  "same_question g req req' \<longleftrightarrow>
     cacheModel g req' = cacheModel g req \<and> cacheKey req' = cacheKey req \<and>
     requestCacheable req (MaxTemperature (CacheCfg (cfg g))) \<and>
     requestCacheable req' (MaxTemperature (CacheCfg (cfg g)))"

text \<open>
  The cache gives back what it was given: with an enabled, empty cache, an embedder that works and a
  distance of zero from a prompt to itself, a completion stored for a request answers, before its lifetime is
  over, every later request with the same model and conversation: whole as a completion with that text,
  streamed as chunks whose deltas spell it, with no attempt upstream.
\<close>

theorem stored_completion_is_served:
  assumes "cache_of w = Some c" and "enabled c" and "entries c = []" and "threshold c \<le> 1"
    and "embed v (cacheKey req) = Embedded q" and "dist v q q = 0"
    and "same_question g req req'" and "TrimSpace completion \<noteq> []"
    and "ttl c \<le> 0 \<or> now < stored_at + ttl c" and "lookup_at io = now" and "\<not> lookup_fails io"
    and "\<And>n. emit n = None"
  shows "\<exists>served. serveFromCache v g io req' key None (storeInCache v g stored_at False row req completion w) = served \<and>
    map_option completionText (fst served) = Some completion \<and>
    (\<exists>w'. serveFromCache v g io req' key (Some emit) (storeInCache v g stored_at False row req completion w) = (Some None, w') \<and>
       (\<exists>chunks. delivered w' = delivered w @ chunks \<and> streamed_text chunks = completion) \<and>
       sent_upstream w' = sent_upstream w)"
proof -
  let ?e = "\<lparr>e_id = row, e_vec = q, e_prompt = truncate_bytes (cacheKey req) 8000, e_response = completion,
    e_model = cacheModel g req, e_expires = (if ttl c > 0 then Some (stored_at + ttl c) else None), e_hits = 0\<rparr>"
  let ?c = "snd (CacheStore v stored_at False row (cacheModel g req) (cacheKey req) completion c)"
  have q': "requestCacheable req (MaxTemperature (CacheCfg (cfg g)))"
    "requestCacheable req' (MaxTemperature (CacheCfg (cfg g)))"
    "cacheModel g req' = cacheModel g req" "cacheKey req' = cacheKey req"
    using assms(7) by (simp_all add: same_question_def)
  have w: "storeInCache v g stored_at False row req completion w = w\<lparr>cache_of := Some ?c\<rparr>"
    using assms(1,2,8) q'(1) by (simp add: storeInCache_def cacheable_def)
  have c: "entries ?c = [?e] \<and> enabled ?c \<and> threshold ?c = threshold c"
    using assms(2,3,5,8,9) by (auto simp: CacheStore_def maybePrune_def)
  have "fsub 1 0 = 1" by (simp add: fsub_def fl_exact)
  then have hit: "\<exists>c'. CacheLookup v now False (cacheModel g req) (cacheKey req) ?c = (LookupHit completion, c')"
    using c assms(4-6,9) by (auto simp: CacheLookup_def live_row_def)
  have can: "cacheable g (w\<lparr>cache_of := Some ?c\<rparr>) req'" using q'(2) c by (simp add: cacheable_def)
  have "fst (emit_chunks emit n chs) = chs" for n chs
    by (induction chs arbitrary: n) (auto simp: assms(12) split_beta)
  with hit can assms(10,11) q'(3,4) show ?thesis
    unfolding w by (auto simp: serveFromCache_def Let_def split_beta)
qed

definition warm_world :: World where
  "warm_world = fresh_world\<lparr>cache_of := Some (NewCache True True [] 1 10)\<rparr>"

definition warm_io :: cache_io where
  "warm_io = \<lparr>lookup_at = 9, lookup_fails = False, lookup_latency = 1, served_at = 9, log_ok = False, log_ord = []\<rparr>"

text \<open>A caller who allowed one token, and one who allows a thousand and asks for no stop word.\<close>

definition short_ask :: ChatRequest where
  "short_ask = (ask_for ''auto'')\<lparr>MaxTokens := 1, Stop := [''.'']\<rparr>"

definition long_ask :: ChatRequest where
  "long_ask = (ask_for ''auto'')\<lparr>MaxTokens := 1000\<rparr>"

lemma short_long_same: "same_question g short_ask long_ask"
  by (simp add: same_question_def cacheModel_def cacheKey_def requestCacheable_def usesPassthroughFields_def
      short_ask_def long_ask_def model_request_def)

lemma stored_completion_is_served_witness:
  "map_option completionText (fst (serveFromCache toy_vectors (small_gateway True) warm_io long_ask None None
     (storeInCache toy_vectors (small_gateway True) 5 False ''row'' short_ask ''The'' warm_world))) = Some ''The''"
proof -
  have "TrimSpace ''The'' \<noteq> []" by code_simp
  then show ?thesis
    using stored_completion_is_served [where w = warm_world and c = "NewCache True True [] 1 10" and v = toy_vectors and
        req = short_ask and req' = long_ask and g = "small_gateway True" and completion = "''The''" and now = 9 and
        stored_at = 5 and io = warm_io and emit = "\<lambda>_. None" and row = "''row''" and key = None and
        q = "[of_nat (length (cacheKey short_ask))]"]
    by (simp add: short_long_same warm_world_def warm_io_def NewCache_def toy_vectors_def)
qed

text \<open>
  What the key leaves out: how long an answer may be. Two requests that differ only in their token limit,
  stop words and nucleus are the same question to the cache whenever one of them is cacheable at all, so a
  completion cut short by one caller's limit is replayed to a caller who set none.
\<close>

theorem cache_key_ignores_length_limits:
  "same_question g req (req\<lparr>MaxTokens := n, Stop := stop, TopP := p\<rparr>) =
     requestCacheable req (MaxTemperature (CacheCfg (cfg g)))"
  by (auto simp: same_question_def cacheModel_def cacheKey_def requestCacheable_def)

end
