(* ===== verification/OpenAI.thy ===== *)
theory OpenAI
  imports Client_Interface
begin

text \<open>
  \<open>internal/provider/openai.go\<close>: the dialect the public surface already speaks. The client's own body goes
  on with the model and the stream flags adjusted; answers and chunks come back as they are.
\<close>

section \<open>Building the request\<close>

text \<open>Decoding an object into a Go map, and writing a map: keys in order.\<close>

definition to_gomap :: "(string \<times> json) list \<Rightarrow> (string, json) gomap" where
  "to_gomap fs = fold (\<lambda>(k, v). gm_set k v) fs []"

definition marshal_map :: "(string, json) gomap \<Rightarrow> json" where
  "marshal_map m = JObj (sort_key fst m)"

definition invalid_body :: string where "invalid_body = ''invalid request body: ''"

text \<open>A body \<open>null\<close> decodes to the nil map, and the assignment to it that follows panics.\<close>

definition nil_map_panic :: string where "nil_map_panic = ''panic: assignment to entry in nil map''"

definition body_fields :: "golib \<Rightarrow> ChatRequest \<Rightarrow> string + (string, json) gomap" where
  "body_fields lib req =
     (case Raw req of
        Some JNull \<Rightarrow> Inl nil_map_panic
      | Some (JObj fs) \<Rightarrow> Inr (to_gomap fs)
      | Some other \<Rightarrow> Inl (invalid_body @ unmarshal_why lib (json_text lib other))
      | None \<Rightarrow> Inr (to_gomap (written (request_fields lib req))))"

definition renderBody :: "golib \<Rightarrow> ChatRequest \<Rightarrow> bool \<Rightarrow> string + json" where
  "renderBody lib req streaming =
     and_then (body_fields lib req) (\<lambda>fields.
       let fields1 = gm_set ''model'' (JStr (ReqModel req)) fields in
       Inr (marshal_map
         (if streaming
          then gm_set ''stream_options'' (JObj [(''include_usage'', JBool True)]) (gm_set ''stream'' (JBool True) fields1)
          else gm_del ''stream_options'' (gm_del ''stream'' fields1))))"

definition OpenAI_BuildRequest ::
  "golib \<Rightarrow> string \<Rightarrow> ChatRequest \<Rightarrow> string \<Rightarrow> bool \<Rightarrow> string + HttpRequest" where
  "OpenAI_BuildRequest lib base req apiKey streaming =
     and_then (renderBody lib req streaming) (\<lambda>body.
       new_post lib (base @ ''/chat/completions'') [json_content, (''Authorization'', ''Bearer '' @ apiKey)] body)"

section \<open>Decoding\<close>

definition OpenAI_DecodeResponse :: "golib \<Rightarrow> string \<Rightarrow> string \<Rightarrow> string + ChatResponse" where
  "OpenAI_DecodeResponse lib body m =
     (case unmarshal lib decode_ChatResponse body of
        Inl e \<Rightarrow> Inl (''openai: malformed response: '' @ e)
      | Inr resp \<Rightarrow> if Choices resp = [] then Inl ''openai: response contained no choices'' else Inr resp)"

definition OpenAI_step :: "golib \<Rightarrow> Usage decoder" where
  "OpenAI_step lib usage data =
     (case unmarshal lib decode_ChatResponse data of
        Inl e \<Rightarrow> (usage, [], Some (''openai: malformed stream chunk: '' @ e))
      | Inr chunk \<Rightarrow>
          (let usage' = (case RespUsage chunk of None \<Rightarrow> usage | Some u \<Rightarrow> u) in
           (usage', if Choices chunk = [] then [] else [chunk], None)))"

definition OpenAI_DecodeStream ::
  "golib \<Rightarrow> string \<Rightarrow> string option \<Rightarrow> (nat \<Rightarrow> string option) \<Rightarrow> Usage \<times> ChatResponse list \<times> string option" where
  "OpenAI_DecodeStream lib body broken emit = scanSSE body broken (OpenAI_step lib) emit no_usage"

section \<open>The client's body goes through\<close>

lemma gm_ok_to_gomap [simp]: "gm_ok (to_gomap fs)"
proof -
  have "gm_ok m \<Longrightarrow> gm_ok (fold (\<lambda>(k, v). gm_set k v) fs m)" for m :: "(string, json) gomap"
    by (induction fs arbitrary: m) (auto simp: gm_ok_set)
  then show ?thesis by (simp add: to_gomap_def)
qed

lemma map_of_to_gomap [simp]: "map_of (to_gomap fs) k = last_value fs k"
proof -
  have "map_of (fold (\<lambda>(k, v). gm_set k v) fs m) k = (map_of m ++ map_of (rev fs)) k" for m :: "(string, json) gomap"
    by (induction fs arbitrary: m) (auto simp: map_add_def update_conv' split: option.splits)
  from this [of "[]"] show ?thesis by (simp add: to_gomap_def last_value_def)
qed

lemma gm_ok_sorted [simp]: "distinct (map fst (sort_key fst m)) \<longleftrightarrow> gm_ok m"
  by (metis mset_eq_imp_distinct_iff mset_map mset_sort)

lemma last_value_sorted [simp]: "gm_ok m \<Longrightarrow> last_value (sort_key fst m) k = map_of m k"
proof -
  assume ok: "gm_ok m"
  then have "map_of (sort_key fst m) = map_of m" by (simp add: map_of_inject_set)
  with ok show ?thesis by (simp add: last_value_def map_of_rev_distinct)
qed

text \<open>
  The body an OpenAI-compatible provider receives is the client's own: every field the gateway does not
  know (tools, response formats and the like) is kept with its value; the model is the one routing chose; the stream
  flags are exactly those of the call, with usage asked for when streaming and both removed when not.
\<close>

theorem renderBody_passes_through:
  assumes "Raw req = Some (JObj fs)"
  shows "\<exists>gs. renderBody lib req streaming = Inr (JObj gs) \<and> sorted (map fst gs) \<and> distinct (map fst gs) \<and>
    last_value gs ''model'' = Some (JStr (ReqModel req)) \<and>
    last_value gs ''stream'' = (if streaming then Some (JBool True) else None) \<and>
    last_value gs ''stream_options'' = (if streaming then Some (JObj [(''include_usage'', JBool True)]) else None) \<and>
    (\<forall>k. k \<notin> {''model'', ''stream'', ''stream_options''} \<longrightarrow> last_value gs k = last_value fs k)"
  using assms
  by (cases streaming)
    (auto simp: renderBody_def body_fields_def marshal_map_def Let_def)

definition seeded_request :: ChatRequest where
  "seeded_request =
     (model_request ''gpt-4o'' [])\<lparr>Raw := Some (JObj [(''model'', JStr ''auto''), (''seed'', JNum ''7'')])\<rparr>"

theorem renderBody_passes_through_witness:
  "\<exists>gs. renderBody (table_lib []) seeded_request True = Inr (JObj gs) \<and>
    last_value gs ''model'' = Some (JStr ''gpt-4o'') \<and> last_value gs ''seed'' = Some (JNum ''7'')"
proof -
  let ?fs = "[(''model'', JStr ''auto''), (''seed'', JNum ''7'')]"
  have raw: "Raw seeded_request = Some (JObj ?fs)" and m: "ReqModel seeded_request = ''gpt-4o''"
    by (simp_all add: seeded_request_def)
  from renderBody_passes_through [OF raw, of "table_lib []" True] obtain gs where
    gs: "renderBody (table_lib []) seeded_request True = Inr (JObj gs)"
      "last_value gs ''model'' = Some (JStr (ReqModel seeded_request))"
      "\<forall>k. k \<notin> {''model'', ''stream'', ''stream_options''} \<longrightarrow> last_value gs k = last_value ?fs k"
    by (elim exE conjE) (rule that)
  have "last_value gs ''seed'' = last_value ?fs ''seed''" by (rule gs(3) [rule_format]) simp
  with gs(1,2) show ?thesis by (simp add: m last_value_def)
qed

end
