(* ===== verification/Anthropic.thy ===== *)
theory Anthropic
  imports Client_Interface
begin

text \<open>
  \<open>internal/provider/anthropic.go\<close>: the Messages dialect. A chat becomes alternating user and assistant
  messages of typed blocks; an answer's blocks become one message with tool calls; the event stream becomes
  OpenAI chunks, with the tool calls numbered on their own.
\<close>

section \<open>The request\<close>

record anthropicBlock =
  ab_Type :: string
  ab_Text :: string
  ab_ID :: string
  ab_Name :: string
  ab_Input :: "json option"
  ab_ToolUseID :: string
  ab_Content :: string

definition block :: "string \<Rightarrow> anthropicBlock" where
  "block ty = \<lparr>ab_Type = ty, ab_Text = [], ab_ID = [], ab_Name = [], ab_Input = None, ab_ToolUseID = [], ab_Content = []\<rparr>"

definition text_block :: "string \<Rightarrow> anthropicBlock" where
  "text_block t = (block ''text'')\<lparr>ab_Text := t\<rparr>"

record anthropicMessage =
  am_Role :: string
  am_Blocks :: "anthropicBlock list"

definition encode_anthropicBlock :: "anthropicBlock \<Rightarrow> json" where
  "encode_anthropicBlock b = json_obj
     [(''type'', Some (JStr (ab_Type b))),
      (''text'', omit_string (ab_Text b)),
      (''id'', omit_string (ab_ID b)),
      (''name'', omit_string (ab_Name b)),
      (''input'', ab_Input b),
      (''tool_use_id'', omit_string (ab_ToolUseID b)),
      (''content'', omit_string (ab_Content b))]"

definition MarshalMessage :: "anthropicMessage \<Rightarrow> json" where
  "MarshalMessage m = json_obj
     [(''role'', Some (JStr (am_Role m))),
      (''content'', Some (case am_Blocks m of
         [b] \<Rightarrow> if ab_Type b = ''text'' then JStr (ab_Text b) else JArr [encode_anthropicBlock b]
       | bs \<Rightarrow> JArr (map encode_anthropicBlock bs)))]"

record anthropicTool =
  at_Name :: string
  at_Description :: string
  InputSchema :: json

record anthropicRequest =
  ar_Model :: string
  ar_MaxTokens :: int
  ar_System :: string
  ar_Messages :: "anthropicMessage list"
  ar_Tools :: "anthropicTool list"
  ar_ToolChoice :: "(string \<times> string) list"
  ar_Temperature :: "float64 option"
  ar_TopP :: "float64 option"
  ar_Stop :: "string list"
  ar_Stream :: bool

definition encode_anthropicTool :: "anthropicTool \<Rightarrow> json" where
  "encode_anthropicTool t = json_obj
     [(''name'', Some (JStr (at_Name t))),
      (''description'', omit_string (at_Description t)),
      (''input_schema'', Some (InputSchema t))]"

definition encode_anthropicRequest :: "golib \<Rightarrow> anthropicRequest \<Rightarrow> json" where
  "encode_anthropicRequest lib r = json_obj
     [(''model'', Some (JStr (ar_Model r))),
      (''max_tokens'', Some (jint (ar_MaxTokens r))),
      (''system'', omit_string (ar_System r)),
      (''messages'', Some (JArr (map MarshalMessage (ar_Messages r)))),
      (''tools'', omit_list encode_anthropicTool (ar_Tools r)),
      (''tool_choice'', if ar_ToolChoice r = [] then None
         else Some (JObj (sort_key fst (map (\<lambda>(k, v). (k, JStr v)) (ar_ToolChoice r))))),
      (''temperature'', omit_float lib (ar_Temperature r)),
      (''top_p'', omit_float lib (ar_TopP r)),
      (''stop_sequences'', omit_list JStr (ar_Stop r)),
      (''stream'', omit_bool (ar_Stream r))]"

definition tool_use_block :: "golib \<Rightarrow> ToolCall \<Rightarrow> anthropicBlock" where
  "tool_use_block lib tc =
     (block ''tool_use'')\<lparr>ab_ID := tc_ID tc, ab_Name := fc_Name (Function tc),
        ab_Input := Some (toolArgs lib (Arguments (Function tc)))\<rparr>"

definition anthropicBlocks :: "golib \<Rightarrow> Message \<Rightarrow> string \<times> anthropicBlock list" where
  "anthropicBlocks lib m =
     (if Role m = ''tool'' then
        (''user'', [(block ''tool_result'')\<lparr>ab_ToolUseID := ToolCallID m, ab_Content := MsgContent m\<rparr>])
      else let role = (if Role m \<noteq> ''user'' \<and> Role m \<noteq> ''assistant'' then ''user'' else Role m) in
        (role,
         (if MsgContent m \<noteq> [] \<or> ToolCalls m = [] then [text_block (MsgContent m)] else []) @
         (if role = ''assistant'' then map (tool_use_block lib) (ToolCalls m) else [])))"

definition empty_schema :: json where
  "empty_schema = JObj [(''type'', JStr ''object''), (''properties'', JObj [])]"

definition anthropicTools :: "ChatRequest \<Rightarrow> anthropicTool list \<times> (string \<times> string) list" where
  "anthropicTools req =
     (let fns = FunctionTools req in
      if fns = [] then ([], [])
      else
        (map (\<lambda>t. \<lparr>at_Name = tf_Name (tool_Function t), at_Description = Description (tool_Function t),
            InputSchema = (case Parameters (tool_Function t) of
               None \<Rightarrow> empty_schema | Some JNull \<Rightarrow> empty_schema | Some s \<Rightarrow> s)\<rparr>) fns,
         let (mode, name) = ToolChoiceMode req in
           if mode = ''none'' then [(''type'', ''none'')]
           else if mode = ''required'' then [(''type'', ''any'')]
           else if mode = ''function'' then [(''type'', ''tool''), (''name'', name)]
           else []))"

text \<open>One turn joins the last message when it has the same role, else it becomes a message of its own.\<close>

definition join_turn :: "golib \<Rightarrow> anthropicMessage list \<Rightarrow> Message \<Rightarrow> anthropicMessage list" where
  "join_turn lib msgs m =
     (let (role, blocks) = anthropicBlocks lib m in
      if msgs \<noteq> [] \<and> am_Role (last msgs) = role
      then butlast msgs @ [(last msgs)\<lparr>am_Blocks := am_Blocks (last msgs) @ blocks\<rparr>]
      else msgs @ [\<lparr>am_Role = role, am_Blocks = blocks\<rparr>])"

definition opening_turn :: anthropicMessage where
  "opening_turn = \<lparr>am_Role = ''user'', am_Blocks = [text_block ''(continue)'']\<rparr>"

definition anthropicMessages :: "golib \<Rightarrow> Message list \<Rightarrow> string + anthropicMessage list" where
  "anthropicMessages lib turns =
     (let msgs = foldl (join_turn lib) [] turns in
      if msgs = [] then Inl ''anthropic: request has no user or assistant messages''
      else if am_Role (hd msgs) \<noteq> ''user'' then Inr (opening_turn # msgs)
      else Inr msgs)"

definition anthropicDefaultMaxTokens :: int where "anthropicDefaultMaxTokens = 4096"
definition anthropicVersion :: string where "anthropicVersion = ''2023-06-01''"

definition anthropic_body :: "golib \<Rightarrow> ChatRequest \<Rightarrow> bool \<Rightarrow> string + anthropicRequest" where
  "anthropic_body lib req streaming =
     (let (system, turns) = SystemAndTurns req in
      and_then (anthropicMessages lib turns) (\<lambda>msgs.
        let (tools, choice) = anthropicTools req in
        Inr \<lparr>ar_Model = ReqModel req,
             ar_MaxTokens = (if MaxTokens req \<le> 0 then anthropicDefaultMaxTokens else MaxTokens req),
             ar_System = system, ar_Messages = msgs, ar_Tools = tools, ar_ToolChoice = choice,
             ar_Temperature = Temperature req, ar_TopP = TopP req, ar_Stop = Stop req, ar_Stream = streaming\<rparr>))"

definition Anthropic_BuildRequest ::
  "golib \<Rightarrow> string \<Rightarrow> ChatRequest \<Rightarrow> string \<Rightarrow> bool \<Rightarrow> string + HttpRequest" where
  "Anthropic_BuildRequest lib base req apiKey streaming =
     and_then (anthropic_body lib req streaming) (\<lambda>body.
       new_post lib (base @ ''/messages'')
         [json_content, (''x-api-key'', apiKey), (''anthropic-version'', anthropicVersion)]
         (encode_anthropicRequest lib body))"

section \<open>A whole answer\<close>

record contentBlock =
  cb_Type :: string
  cb_Text :: string
  cb_ID :: string
  cb_Name :: string
  cb_Input :: "json option"

record anthropicResponse =
  an_ID :: string
  an_Content :: "contentBlock list"
  StopReason :: string
  InputTokens :: int
  OutputTokens :: int

definition decode_contentBlock :: "json \<Rightarrow> json_error + contentBlock" where
  "decode_contentBlock j =
     and_then (as_fields j) (\<lambda>fs.
     and_then (as_string (fields_get fs ''type'')) (\<lambda>ty.
     and_then (as_string (fields_get fs ''text'')) (\<lambda>t.
     and_then (as_string (fields_get fs ''id'')) (\<lambda>ident.
     and_then (as_string (fields_get fs ''name'')) (\<lambda>name.
     Inr \<lparr>cb_Type = ty, cb_Text = t, cb_ID = ident, cb_Name = name, cb_Input = raw_field fs ''input''\<rparr>)))))"

definition decode_anthropicResponse :: "json \<Rightarrow> json_error + anthropicResponse" where
  "decode_anthropicResponse j =
     and_then (as_fields j) (\<lambda>fs.
     and_then (as_string (fields_get fs ''id'')) (\<lambda>ident.
     and_then (as_list decode_contentBlock (fields_get fs ''content'')) (\<lambda>blocks.
     and_then (as_string (fields_get fs ''stop_reason'')) (\<lambda>why.
     and_then (as_fields (fields_get fs ''usage'')) (\<lambda>us.
     and_then (as_int (fields_get us ''input_tokens'')) (\<lambda>input.
     and_then (as_int (fields_get us ''output_tokens'')) (\<lambda>output.
     Inr \<lparr>an_ID = ident, an_Content = blocks, StopReason = why, InputTokens = input, OutputTokens = output\<rparr>)))))))"

definition anthropicFinish :: "string \<Rightarrow> string option" where
  "anthropicFinish why =
     (if why = [] then None
      else if why = ''max_tokens'' then Some ''length''
      else if why = ''tool_use'' then Some ''tool_calls''
      else Some ''stop'')"

definition block_call :: "golib \<Rightarrow> contentBlock \<Rightarrow> ToolCall" where
  "block_call lib b =
     \<lparr>tc_Index = None, tc_ID = cb_ID b, tc_Type = ''function'',
      Function = \<lparr>fc_Name = cb_Name b, Arguments = (case cb_Input b of None \<Rightarrow> ''{}'' | Some j \<Rightarrow> json_text lib j)\<rparr>\<rparr>"

definition Anthropic_DecodeResponse :: "golib \<Rightarrow> mint \<Rightarrow> string \<Rightarrow> string \<Rightarrow> string + ChatResponse" where
  "Anthropic_DecodeResponse lib io body m =
     (case unmarshal lib decode_anthropicResponse body of
        Inl e \<Rightarrow> Inl (''anthropic: malformed response: '' @ e)
      | Inr resp \<Rightarrow>
          Inr \<lparr>resp_ID = an_ID resp, resp_Object = ''chat.completion'', Created = Unix (created_at io), RespModel = m,
            Choices = [\<lparr>ch_Index = 0,
              ch_Message = Some \<lparr>Role = ''assistant'',
                MsgContent = concat (map cb_Text (filter (\<lambda>c. cb_Type c = ''text'') (an_Content resp))),
                ToolCalls = map (block_call lib) (filter (\<lambda>c. cb_Type c = ''tool_use'') (an_Content resp)),
                ToolCallID = []\<rparr>,
              ch_Delta = None, FinishReason = anthropicFinish (StopReason resp)\<rparr>],
            RespUsage = Some \<lparr>PromptTokens = InputTokens resp, CompletionTokens = OutputTokens resp,
              TotalTokens = wrap64 (InputTokens resp + OutputTokens resp)\<rparr>\<rparr>)"

section \<open>A stream\<close>

record anthropicStreamEvent =
  ev_Type :: string
  ev_Index :: int
  ev_DeltaType :: string
  ev_Text :: string
  PartialJSON :: string
  ev_StopReason :: string
  ev_BlockType :: string
  ev_BlockID :: string
  ev_BlockName :: string
  ev_MessageID :: string
  ev_InputTokens :: int
  ev_OutputTokens :: int

definition decode_StreamEvent :: "json \<Rightarrow> json_error + anthropicStreamEvent" where
  "decode_StreamEvent j =
     and_then (as_fields j) (\<lambda>fs.
     and_then (as_string (fields_get fs ''type'')) (\<lambda>ty.
     and_then (as_int (fields_get fs ''index'')) (\<lambda>index.
     and_then (as_fields (fields_get fs ''delta'')) (\<lambda>ds.
     and_then (as_string (fields_get ds ''type'')) (\<lambda>dty.
     and_then (as_string (fields_get ds ''text'')) (\<lambda>t.
     and_then (as_string (fields_get ds ''partial_json'')) (\<lambda>partial.
     and_then (as_string (fields_get ds ''stop_reason'')) (\<lambda>why.
     and_then (as_fields (fields_get fs ''content_block'')) (\<lambda>bs.
     and_then (as_string (fields_get bs ''type'')) (\<lambda>bty.
     and_then (as_string (fields_get bs ''id'')) (\<lambda>bid.
     and_then (as_string (fields_get bs ''name'')) (\<lambda>bname.
     and_then (as_fields (fields_get fs ''message'')) (\<lambda>ms.
     and_then (as_string (fields_get ms ''id'')) (\<lambda>mid.
     and_then (as_fields (fields_get ms ''usage'')) (\<lambda>mus.
     and_then (as_int (fields_get mus ''input_tokens'')) (\<lambda>input.
     and_then (as_int (fields_get mus ''output_tokens'')) (\<lambda>unused.
     and_then (as_fields (fields_get fs ''usage'')) (\<lambda>us.
     and_then (as_int (fields_get us ''output_tokens'')) (\<lambda>output.
     Inr \<lparr>ev_Type = ty, ev_Index = index, ev_DeltaType = dty, ev_Text = t, PartialJSON = partial, ev_StopReason = why,
          ev_BlockType = bty, ev_BlockID = bid, ev_BlockName = bname, ev_MessageID = mid,
          ev_InputTokens = input, ev_OutputTokens = output\<rparr>)))))))))))))))))))"

record anthropic_stream =
  as_ID :: string
  as_Usage :: Usage
  as_First :: bool
  toolIndex :: "(int, int) gomap"

definition anthropic_start :: anthropic_stream where
  "anthropic_start = \<lparr>as_ID = [], as_Usage = no_usage, as_First = True, toolIndex = []\<rparr>"

definition delta :: "string \<Rightarrow> ToolCall list \<Rightarrow> Delta" where
  "delta content calls = \<lparr>dl_Role = [], dl_Content = content, dl_ToolCalls = calls\<rparr>"

definition role_delta :: Delta where
  "role_delta = \<lparr>dl_Role = ''assistant'', dl_Content = [], dl_ToolCalls = []\<rparr>"

definition stream_chunk :: "mint \<Rightarrow> string \<Rightarrow> string \<Rightarrow> Delta \<Rightarrow> string option \<Rightarrow> ChatResponse" where
  "stream_chunk io ident m d finish =
     \<lparr>resp_ID = ident, resp_Object = ''chat.completion.chunk'', Created = Unix (created_at io), RespModel = m,
      Choices = [\<lparr>ch_Index = 0, ch_Message = None, ch_Delta = Some d, FinishReason = finish\<rparr>], RespUsage = None\<rparr>"

text \<open>\<open>emitDelta\<close>: the opening chunk with the role goes before the first delta.\<close>

definition emitDelta ::
  "mint \<Rightarrow> string \<Rightarrow> anthropic_stream \<Rightarrow> Delta \<Rightarrow> anthropic_stream \<times> ChatResponse list \<times> string option" where
  "emitDelta io m st d =
     (st\<lparr>as_First := False\<rparr>,
      (if as_First st then [stream_chunk io (as_ID st) m role_delta None] else []) @ [stream_chunk io (as_ID st) m d None],
      None)"

definition fragment :: "int \<Rightarrow> string \<Rightarrow> string \<Rightarrow> string \<Rightarrow> string \<Rightarrow> ToolCall" where
  "fragment index ident ty name args =
     \<lparr>tc_Index = Some index, tc_ID = ident, tc_Type = ty, Function = \<lparr>fc_Name = name, Arguments = args\<rparr>\<rparr>"

definition anthropic_event ::
  "mint \<Rightarrow> string \<Rightarrow> anthropic_stream \<Rightarrow> string \<Rightarrow> anthropicStreamEvent \<Rightarrow>
    anthropic_stream \<times> ChatResponse list \<times> string option" where
  "anthropic_event io m st data ev =
     (if ev_Type ev = ''message_start'' then
        (st\<lparr>as_ID := ev_MessageID ev, as_Usage := (as_Usage st)\<lparr>PromptTokens := ev_InputTokens ev\<rparr>\<rparr>, [], None)
      else if ev_Type ev = ''content_block_start'' then
        (if ev_BlockType ev \<noteq> ''tool_use'' then (st, [], None)
         else let index = int (length (toolIndex st)) in
           emitDelta io m (st\<lparr>toolIndex := gm_set (ev_Index ev) index (toolIndex st)\<rparr>)
             (delta [] [fragment index (ev_BlockID ev) ''function'' (ev_BlockName ev) []]))
      else if ev_Type ev = ''content_block_delta'' then
        (if ev_DeltaType ev = ''input_json_delta'' then
           (case map_of (toolIndex st) (ev_Index ev) of
              None \<Rightarrow> (st, [], None)
            | Some index \<Rightarrow>
                if PartialJSON ev = [] then (st, [], None)
                else emitDelta io m st (delta [] [fragment index [] [] [] (PartialJSON ev)]))
         else if ev_DeltaType ev = ''text_delta'' \<or> ev_DeltaType ev = [] then
           (if ev_Text ev = [] then (st, [], None) else emitDelta io m st (delta (ev_Text ev) []))
         else (st, [], None))
      else if ev_Type ev = ''message_delta'' then
        (st\<lparr>as_Usage := (as_Usage st)\<lparr>CompletionTokens := ev_OutputTokens ev\<rparr>\<rparr>,
         [stream_chunk io (as_ID st) m (delta [] []) (anthropicFinish (ev_StopReason ev))], None)
      else if ev_Type ev = ''error'' then (st, [], Some (''anthropic: stream error: '' @ data))
      else (st, [], None))"

definition Anthropic_step :: "golib \<Rightarrow> mint \<Rightarrow> string \<Rightarrow> anthropic_stream decoder" where
  "Anthropic_step lib io m st data =
     (case unmarshal lib decode_StreamEvent data of
        Inl e \<Rightarrow> (st, [], Some (''anthropic: malformed stream event: '' @ e))
      | Inr ev \<Rightarrow> anthropic_event io m st data ev)"

definition anthropic_usage :: "anthropic_stream \<Rightarrow> Usage" where
  "anthropic_usage st = (as_Usage st)\<lparr>TotalTokens := wrap64 (PromptTokens (as_Usage st) + CompletionTokens (as_Usage st))\<rparr>"

definition Anthropic_DecodeStream ::
  "golib \<Rightarrow> mint \<Rightarrow> string \<Rightarrow> string \<Rightarrow> string option \<Rightarrow> (nat \<Rightarrow> string option) \<Rightarrow>
    Usage \<times> ChatResponse list \<times> string option" where
  "Anthropic_DecodeStream lib io m body broken emit =
     (let (st, out, err) = scanSSE body broken (Anthropic_step lib io m) emit anthropic_start
      in (anthropic_usage st, out, err))"

end
