(* ===== verification/Anthropic_Facts.thy ===== *)
theory Anthropic_Facts
  imports Anthropic
begin

text \<open>
  What the Anthropic dialect promises: the conversation it sends alternates and keeps every tool call and
  result; the stream it decodes keeps the text and every tool call's arguments.
\<close>

section \<open>The conversation\<close>

interpretation anthropic_join: turn_joining am_Role am_Blocks "anthropicBlocks lib" "join_turn lib" for lib
  by unfold_locales (auto simp: join_turn_def case_prod_unfold Let_def)

definition all_blocks :: "anthropicMessage list \<Rightarrow> anthropicBlock list" where
  "all_blocks ms = concat (map am_Blocks ms)"

definition turn_blocks :: "golib \<Rightarrow> Message list \<Rightarrow> anthropicBlock list" where
  "turn_blocks lib turns = concat (map (\<lambda>m. snd (anthropicBlocks lib m)) turns)"

lemma block_fields [simp]: "ab_Type (block t) = t" "ab_Type (text_block s) = ''text''"
  by (simp_all add: block_def text_block_def)

lemma anthropicBlocks_role: "fst (anthropicBlocks lib m) \<in> {''user'', ''assistant''}"
  by (simp add: anthropicBlocks_def Let_def)

lemma tool_use_type [simp]: "ab_Type (tool_use_block lib tc) = ''tool_use''"
  by (simp add: tool_use_block_def)

lemma turn_tool_uses:
  "filter (\<lambda>b. ab_Type b = ''tool_use'') (turn_blocks lib turns) = map (tool_use_block lib) (calls_made turns)"
  by (induction turns) (auto simp: turn_blocks_def calls_made_def anthropicBlocks_def filter_map o_def)

lemma turn_tool_results:
  "map (\<lambda>b. (ab_ToolUseID b, ab_Content b)) (filter (\<lambda>b. ab_Type b = ''tool_result'') (turn_blocks lib turns)) =
     results_held turns"
  by (induction turns) (auto simp: turn_blocks_def results_held_def anthropicBlocks_def filter_map o_def)

text \<open>
  C35. The conversation sent to Anthropic is one it accepts: it opens with a user message, user and assistant
  alternate, and no block is lost: the blocks of the turns appear in order (after a placeholder when the chat
  opened with an assistant turn), so every tool call of an assistant turn is a \<open>tool_use\<close> block with its id,
  name and an object of arguments, and every tool result a \<open>tool_result\<close> block with the id it answers. Only a chat
  without turns is refused.
\<close>

theorem anthropic_conversation:
  "case anthropicMessages lib turns of
     Inl e \<Rightarrow> turns = []
   | Inr msgs \<Rightarrow>
       msgs \<noteq> [] \<and> am_Role (hd msgs) = ''user'' \<and> alternating am_Role msgs \<and>
       am_Role ` set msgs \<subseteq> {''user'', ''assistant''} \<and>
       (\<exists>opened \<in> {[], am_Blocks opening_turn}. all_blocks msgs = opened @ turn_blocks lib turns) \<and>
       filter (\<lambda>b. ab_Type b = ''tool_use'') (all_blocks msgs) = map (tool_use_block lib) (calls_made turns) \<and>
       map (\<lambda>b. (ab_ToolUseID b, ab_Content b)) (filter (\<lambda>b. ab_Type b = ''tool_result'') (all_blocks msgs)) =
         results_held turns"
proof -
  let ?msgs = "foldl (join_turn lib) [] turns"
  have joined: "alternating am_Role ?msgs" "all_blocks ?msgs = turn_blocks lib turns"
    "am_Role ` set ?msgs \<subseteq> {''user'', ''assistant''}"
    using anthropic_join.joined [of "[]" lib turns] anthropicBlocks_role by (auto simp: all_blocks_def turn_blocks_def)
  show ?thesis
  proof (cases "turns = [] \<or> am_Role (hd ?msgs) = ''user''")
    case True
    with joined show ?thesis
      by (auto simp: anthropicMessages_def Let_def anthropic_join.joined_Nil turn_tool_uses turn_tool_results)
  next
    case False
    then have "?msgs \<noteq> []" by (simp add: anthropic_join.joined_Nil)
    moreover from False this have "alternating am_Role (opening_turn # ?msgs)"
      using joined(1) by (cases ?msgs) (auto simp: opening_turn_def)
    moreover have "all_blocks (opening_turn # ?msgs) = am_Blocks opening_turn @ turn_blocks lib turns"
      using joined(2) by (simp add: all_blocks_def)
    ultimately show ?thesis
      using False joined(3)
      by (simp add: anthropicMessages_def Let_def turn_tool_uses turn_tool_results) (simp add: opening_turn_def)
  qed
qed

section \<open>The stream\<close>

lemma calls_of_simps [simp]: "calls_of [] = []" "calls_of (a @ b) = calls_of a @ calls_of b"
  "calls_of [stream_chunk io i m d f] = dl_ToolCalls d"
  by (simp_all add: calls_of_def stream_chunk_def)

lemma streamed_text_simps [simp]: "streamed_text [] = []" "streamed_text (a @ b) = streamed_text a @ streamed_text b"
  "streamed_text [stream_chunk io i m d f] = dl_Content d"
  by (simp_all add: streamed_text_def stream_chunk_def)

text \<open>What an event says of the answer: its text, the tool block it starts, the arguments it adds to a block.\<close>

definition event_text :: "anthropicStreamEvent \<Rightarrow> string" where
  "event_text ev =
     (if ev_Type ev = ''content_block_delta'' \<and> (ev_DeltaType ev = ''text_delta'' \<or> ev_DeltaType ev = [])
      then ev_Text ev else [])"

definition starts_tool :: "anthropicStreamEvent \<Rightarrow> bool" where
  "starts_tool ev \<longleftrightarrow> ev_Type ev = ''content_block_start'' \<and> ev_BlockType ev = ''tool_use''"

definition event_args :: "int \<Rightarrow> anthropicStreamEvent \<Rightarrow> string" where
  "event_args b ev =
     (if ev_Type ev = ''content_block_delta'' \<and> ev_DeltaType ev = ''input_json_delta'' \<and> ev_Index ev = b
      then PartialJSON ev else [])"

text \<open>The fragments an event becomes, given the calls begun so far.\<close>

definition event_calls :: "(int, int) gomap \<Rightarrow> anthropicStreamEvent \<Rightarrow> ToolCall list" where
  "event_calls ti ev =
     (if starts_tool ev then [fragment (int (length ti)) (ev_BlockID ev) ''function'' (ev_BlockName ev) []]
      else case map_of ti (ev_Index ev) of
          None \<Rightarrow> []
        | Some i \<Rightarrow> let args = event_args (ev_Index ev) ev in if args = [] then [] else [fragment i [] [] [] args])"

definition next_tools :: "(int, int) gomap \<Rightarrow> anthropicStreamEvent \<Rightarrow> (int, int) gomap" where
  "next_tools ti ev = (if starts_tool ev then gm_set (ev_Index ev) (int (length ti)) ti else ti)"

fun run_calls :: "(int, int) gomap \<Rightarrow> anthropicStreamEvent list \<Rightarrow> ToolCall list" where
  "run_calls ti [] = []"
| "run_calls ti (ev # evs) = event_calls ti ev @ run_calls (next_tools ti ev) evs"

lemma delta_fields [simp]: "dl_Content (delta t cs) = t" "dl_ToolCalls (delta t cs) = cs" "dl_Role (delta t cs) = []"
  "dl_Content role_delta = []" "dl_ToolCalls role_delta = []" "dl_Role role_delta = ''assistant''"
  by (simp_all add: delta_def role_delta_def)

lemma emitDelta_spec:
  "emitDelta io m st d = (st', chs, err) \<Longrightarrow>
    err = None \<and> toolIndex st' = toolIndex st \<and> calls_of chs = dl_ToolCalls d \<and> streamed_text chs = dl_Content d"
  by (auto simp: emitDelta_def)

lemma anthropic_event_spec:
  assumes "anthropic_event io m st data ev = (st', chs, err)" and "ev_Type ev \<noteq> ''error''"
  shows "err = None \<and> toolIndex st' = next_tools (toolIndex st) ev \<and>
    calls_of chs = event_calls (toolIndex st) ev \<and> streamed_text chs = event_text ev"
  using assms
  by (auto simp: anthropic_event_def next_tools_def starts_tool_def event_calls_def event_args_def event_text_def Let_def
      dest!: emitDelta_spec split: if_splits option.splits)

lemma anthropic_run:
  "each (unmarshal lib decode_StreamEvent) ds = Inr evs \<Longrightarrow> \<forall>ev \<in> set evs. ev_Type ev \<noteq> ''error'' \<Longrightarrow>
    sse_run (Anthropic_step lib io m) willing fin n ds st = (st', out, err) \<Longrightarrow>
    err = fin \<and> calls_of out = run_calls (toolIndex st) evs \<and> streamed_text out = concat (map event_text evs)"
proof (induction ds arbitrary: evs n st out)
  case (Cons d ds)
  then obtain ev evs' where evs: "evs = ev # evs'" "unmarshal lib decode_StreamEvent d = Inr ev"
    "each (unmarshal lib decode_StreamEvent) ds = Inr evs'" by (auto simp: and_then_Inr)
  obtain st1 c1 e1 where s: "anthropic_event io m st d ev = (st1, c1, e1)"
    by (cases "anthropic_event io m st d ev") auto
  have step: "Anthropic_step lib io m st d = (st1, c1, e1)" by (simp add: Anthropic_step_def evs(2) s)
  have ok: "ev_Type ev \<noteq> ''error''" using Cons.prems(2) evs(1) by simp
  from anthropic_event_spec [OF s ok] have spec: "e1 = None" "toolIndex st1 = next_tools (toolIndex st) ev"
    "calls_of c1 = event_calls (toolIndex st) ev" "streamed_text c1 = event_text ev" by simp_all
  obtain o2 where r: "sse_run (Anthropic_step lib io m) willing fin (n + length c1) ds st1 = (st', o2, err)"
    and out: "out = c1 @ o2"
    using Cons.prems(3) spec(1) step by (auto split: prod.splits)
  from Cons.IH [OF evs(3) _ r] Cons.prems(2) evs(1) show ?case
    by (simp add: out spec)
qed simp

text \<open>What a client assembles: the arguments of the fragments with an index, and the calls announced.\<close>

definition assembled :: "int \<Rightarrow> ToolCall list \<Rightarrow> string" where
  "assembled i calls = concat (map (\<lambda>t. if tc_Index t = Some i then Arguments (Function t) else []) calls)"

lemma assembled_append [simp]: "assembled i (a @ b) = assembled i a @ assembled i b"
  by (simp add: assembled_def)

lemma assembled_fragment [simp]:
  "assembled i [] = []" "assembled i (fragment j a b c d # ts) = (if j = i then d else []) @ assembled i ts"
  by (simp_all add: assembled_def fragment_def)

definition tools_ok :: "(int, int) gomap \<Rightarrow> bool" where
  "tools_ok ti \<longleftrightarrow> gm_ok ti \<and> (\<forall>b i. map_of ti b = Some i \<longrightarrow> i < int (length ti)) \<and>
     (\<forall>b b' i. map_of ti b = Some i \<longrightarrow> map_of ti b' = Some i \<longrightarrow> b' = b)"

lemma tools_below: "tools_ok ti \<Longrightarrow> map_of ti b = Some i \<Longrightarrow> i < int (length ti)"
  unfolding tools_ok_def by blast

lemma tools_same: "tools_ok ti \<Longrightarrow> map_of ti b = Some i \<Longrightarrow> map_of ti b' = Some i \<Longrightarrow> b' = b"
  unfolding tools_ok_def by blast

lemma distinct_middle: "distinct (a @ x # b) \<Longrightarrow> x \<notin> set a \<and> x \<notin> set b \<and> (\<forall>y \<in> set b. y \<noteq> x \<and> y \<notin> set a)"
  by auto

lemma length_fresh: "map_of m k = None \<Longrightarrow> length (gm_set k v m) = Suc (length m)"
  by (induction m) (auto split: if_splits)

lemma tools_ok_next:
  assumes ok: "tools_ok ti" and fresh: "starts_tool ev \<Longrightarrow> map_of ti (ev_Index ev) = None"
  shows "tools_ok (next_tools ti ev)"
proof (cases "starts_tool ev")
  case True
  have below: "i < int (length ti)" if "map_of ti b = Some i" for b i
    using ok that by (simp add: tools_ok_def)
  show ?thesis
    unfolding tools_ok_def next_tools_def
    using ok True fresh [OF True] below
    by (auto simp: tools_ok_def length_fresh gm_ok_set split: if_splits) fastforce+
qed (use ok in \<open>simp add: next_tools_def\<close>)

lemma still_fresh:
  assumes "distinct (map ev_Index (filter starts_tool (ev # evs)))"
    and "\<forall>e \<in> set (ev # evs). starts_tool e \<longrightarrow> map_of ti (ev_Index e) = None"
  shows "\<forall>e \<in> set evs. starts_tool e \<longrightarrow> map_of (next_tools ti ev) (ev_Index e) = None"
proof (intro ballI impI)
  fix e assume e: "e \<in> set evs" "starts_tool e"
  then have "ev_Index e \<in> set (map ev_Index (filter starts_tool evs))" by simp
  moreover have "ev_Index ev \<notin> set (map ev_Index (filter starts_tool evs))" if "starts_tool ev"
    using assms(1) that by (simp del: set_map set_filter)
  ultimately have "starts_tool ev \<Longrightarrow> ev_Index e \<noteq> ev_Index ev" by metis
  with e assms(2) show "map_of (next_tools ti ev) (ev_Index e) = None"
    by (simp add: next_tools_def)
qed

lemma assembled_later:
  assumes "tools_ok ti" and "map_of ti b = Some i" and "distinct (map ev_Index (filter starts_tool evs))"
    and "\<forall>ev \<in> set evs. starts_tool ev \<longrightarrow> map_of ti (ev_Index ev) = None"
  shows "assembled i (run_calls ti evs) = concat (map (event_args b) evs)"
  using assms
proof (induction evs arbitrary: ti)
  case (Cons ev evs)
  have fresh: "starts_tool ev \<Longrightarrow> map_of ti (ev_Index ev) = None" using Cons.prems(4) by simp
  note next_ok = tools_ok_next [OF Cons.prems(1) fresh]
  have "map_of (next_tools ti ev) b = Some i"
    using Cons.prems(2) fresh by (auto simp: next_tools_def)
  moreover have "\<forall>ev' \<in> set evs. starts_tool ev' \<longrightarrow> map_of (next_tools ti ev) (ev_Index ev') = None"
    by (rule still_fresh [OF Cons.prems(3,4)])
  ultimately have "assembled i (run_calls (next_tools ti ev) evs) = concat (map (event_args b) evs)"
    using Cons.IH [OF next_ok] Cons.prems(3) by (auto split: if_splits)
  moreover have "assembled i (event_calls ti ev) = event_args b ev"
  proof (cases "starts_tool ev")
    case True
    have "i \<noteq> int (length ti)" using tools_below [OF Cons.prems(1,2)] by simp
    with True show ?thesis by (auto simp: event_calls_def event_args_def starts_tool_def)
  next
    case False
    show ?thesis
    proof (cases "map_of ti (ev_Index ev) = Some i")
      case True
      from tools_same [OF Cons.prems(1,2) True] have "ev_Index ev = b" .
      with False Cons.prems(2) show ?thesis by (simp add: event_calls_def Let_def)
    next
      case other: False
      with Cons.prems(2) have "ev_Index ev \<noteq> b" by auto
      with False other show ?thesis
        by (simp add: event_calls_def event_args_def Let_def split: option.split)
    qed
  qed
  ultimately show ?case by simp
qed simp

definition tools_after :: "(int, int) gomap \<Rightarrow> anthropicStreamEvent list \<Rightarrow> (int, int) gomap" where
  "tools_after ti evs = foldl next_tools ti evs"

lemma run_calls_append: "run_calls ti (a @ b) = run_calls ti a @ run_calls (tools_after ti a) b"
  by (induction a arbitrary: ti) (simp_all add: tools_after_def)

lemma tools_after_spec:
  assumes "tools_ok ti" and "distinct (map ev_Index (filter starts_tool evs))"
    and "\<forall>ev \<in> set evs. starts_tool ev \<longrightarrow> map_of ti (ev_Index ev) = None"
  shows "tools_ok (tools_after ti evs) \<and> length (tools_after ti evs) = length ti + length (filter starts_tool evs) \<and>
    (\<forall>b. map_of (tools_after ti evs) b \<noteq> None \<longrightarrow>
      map_of ti b \<noteq> None \<or> b \<in> ev_Index ` set (filter starts_tool evs))"
  using assms
proof (induction evs arbitrary: ti)
  case (Cons ev evs)
  have fresh: "starts_tool ev \<Longrightarrow> map_of ti (ev_Index ev) = None" using Cons.prems(3) by simp
  have "\<forall>ev' \<in> set evs. starts_tool ev' \<longrightarrow> map_of (next_tools ti ev) (ev_Index ev') = None"
    by (rule still_fresh [OF Cons.prems(2,3)])
  moreover have "distinct (map ev_Index (filter starts_tool evs))" using Cons.prems(2) by (auto split: if_splits)
  ultimately have IH: "tools_ok (tools_after (next_tools ti ev) evs)"
    "length (tools_after (next_tools ti ev) evs) = length (next_tools ti ev) + length (filter starts_tool evs)"
    "\<forall>b. map_of (tools_after (next_tools ti ev) evs) b \<noteq> None \<longrightarrow>
      map_of (next_tools ti ev) b \<noteq> None \<or> b \<in> ev_Index ` set (filter starts_tool evs)"
    using Cons.IH [OF tools_ok_next [OF Cons.prems(1) fresh]] by blast+
  have after: "tools_after ti (ev # evs) = tools_after (next_tools ti ev) evs" by (simp add: tools_after_def)
  have "length (next_tools ti ev) = length ti + (if starts_tool ev then 1 else 0)"
    using fresh by (simp add: next_tools_def length_fresh)
  moreover have "map_of (next_tools ti ev) b \<noteq> None \<Longrightarrow> map_of ti b \<noteq> None \<or> (starts_tool ev \<and> b = ev_Index ev)" for b
    by (auto simp: next_tools_def split: if_splits)
  ultimately show ?case
    unfolding after using IH by (cases "starts_tool ev") (simp_all, blast+)
qed (simp add: tools_after_def)

lemma assembled_earlier:
  assumes "tools_ok ti" and "distinct (map ev_Index (filter starts_tool evs))"
    and "\<forall>ev \<in> set evs. starts_tool ev \<longrightarrow> map_of ti (ev_Index ev) = None"
    and "int (length ti + length (filter starts_tool evs)) \<le> i"
  shows "assembled i (run_calls ti evs) = []"
  using assms
proof (induction evs arbitrary: ti)
  case (Cons ev evs)
  have fresh: "starts_tool ev \<Longrightarrow> map_of ti (ev_Index ev) = None" using Cons.prems(3) by simp
  have "\<forall>ev' \<in> set evs. starts_tool ev' \<longrightarrow> map_of (next_tools ti ev) (ev_Index ev') = None"
    by (rule still_fresh [OF Cons.prems(2,3)])
  moreover have "distinct (map ev_Index (filter starts_tool evs))" using Cons.prems(2) by (auto split: if_splits)
  moreover have "int (length (next_tools ti ev) + length (filter starts_tool evs)) \<le> i"
    using Cons.prems(4) fresh by (auto simp: next_tools_def length_fresh split: if_splits)
  ultimately have "assembled i (run_calls (next_tools ti ev) evs) = []"
    using Cons.IH [OF tools_ok_next [OF Cons.prems(1) fresh]] by blast
  moreover have "assembled i (event_calls ti ev) = []"
  proof (cases "starts_tool ev")
    case True
    then show ?thesis by (simp add: event_calls_def)
  next
    case False
    have "map_of ti (ev_Index ev) \<noteq> Some i"
      using Cons.prems(4) tools_below [OF Cons.prems(1)] by fastforce
    with False show ?thesis by (auto simp: event_calls_def Let_def split: option.splits)
  qed
  ultimately show ?case by simp
qed simp

lemma tools_ok_Nil [simp]: "tools_ok []"
  by (simp add: tools_ok_def)

lemma assembled_call:
  assumes "distinct (map ev_Index (filter starts_tool (pre @ ev # post)))" and "starts_tool ev"
  defines "i \<equiv> int (length (filter starts_tool pre))"
  shows "fragment i (ev_BlockID ev) ''function'' (ev_BlockName ev) [] \<in> set (run_calls [] (pre @ ev # post)) \<and>
    assembled i (run_calls [] (pre @ ev # post)) = concat (map (event_args (ev_Index ev)) post)"
proof -
  let ?ti = "tools_after [] pre"
  have pre: "distinct (map ev_Index (filter starts_tool pre))" using assms(1) by simp
  from tools_after_spec [OF tools_ok_Nil pre] have ti: "tools_ok ?ti" "int (length ?ti) = i"
    "\<And>b. map_of ?ti b \<noteq> None \<Longrightarrow> b \<in> ev_Index ` set (filter starts_tool pre)"
    by (auto simp: i_def)
  have middle: "ev_Index ev \<notin> set (map ev_Index (filter starts_tool pre))"
    "\<forall>y \<in> set (map ev_Index (filter starts_tool post)). y \<noteq> ev_Index ev \<and> y \<notin> set (map ev_Index (filter starts_tool pre))"
    using distinct_middle [of "map ev_Index (filter starts_tool pre)" "ev_Index ev" "map ev_Index (filter starts_tool post)"]
      assms(1,2) by (simp_all del: set_map set_filter)
  have fresh: "map_of ?ti (ev_Index ev) = None" using middle(1) ti(3) [of "ev_Index ev"] by (auto simp del: set_filter)
  have ok: "tools_ok (next_tools ?ti ev)" using tools_ok_next [OF ti(1)] fresh by blast
  have "map_of (next_tools ?ti ev) (ev_Index ev) = Some i" using assms(2) ti(2) by (simp add: next_tools_def)
  moreover have "distinct (map ev_Index (filter starts_tool post))" using assms(1) by (auto split: if_splits)
  moreover have "\<forall>ev' \<in> set post. starts_tool ev' \<longrightarrow> map_of (next_tools ?ti ev) (ev_Index ev') = None"
  proof (intro ballI impI)
    fix ev' assume "ev' \<in> set post" and "starts_tool ev'"
    then have "ev_Index ev' \<in> set (map ev_Index (filter starts_tool post))" by simp
    from bspec [OF middle(2) this] have "ev_Index ev' \<noteq> ev_Index ev" "ev_Index ev' \<notin> ev_Index ` set (filter starts_tool pre)"
      unfolding set_map by (rule conjunct1, rule conjunct2)
    with ti(3) [of "ev_Index ev'"] show "map_of (next_tools ?ti ev) (ev_Index ev') = None"
      by (auto simp: next_tools_def)
  qed
  ultimately have later: "assembled i (run_calls (next_tools ?ti ev) post) = concat (map (event_args (ev_Index ev)) post)"
    by (rule assembled_later [OF ok])
  have earlier: "assembled i (run_calls [] pre) = []"
    by (rule assembled_earlier [OF tools_ok_Nil pre]) (simp_all add: i_def)
  show ?thesis
    using assms(2) ti(2) earlier later by (simp add: run_calls_append event_calls_def)
qed

text \<open>
  C36. A streamed Anthropic answer loses nothing on its way to an OpenAI client: the streamed text is the text of the
  events, in order, whether or not there are tools among them, and for every tool block, wherever it starts, the client
  gets a fragment with the call's id and name under the index that counts the tool blocks alone (not Anthropic's
  block index), and the fragments with that index assemble to the block's whole argument text. This needs what Anthropic
  documents: each tool block has its own index. A stream of such events ends with an error only when reading it failed.
\<close>

theorem anthropic_stream_assembles:
  assumes "scan_lines maxLine body = (ls, False)"
    and "each (unmarshal lib decode_StreamEvent) (sse_payloads ls) = Inr evs"
    and "\<forall>e \<in> set evs. ev_Type e \<noteq> ''error''"
    and "distinct (map ev_Index (filter starts_tool evs))"
  shows "case Anthropic_DecodeStream lib io m body broken willing of (usage, out, err) \<Rightarrow>
    err = broken \<and>
    streamed_text out = concat (map event_text evs) \<and>
    list_all (\<lambda>k. let ev = evs ! k; i = int (length (filter starts_tool (take k evs))) in
        fragment i (ev_BlockID ev) ''function'' (ev_BlockName ev) [] \<in> set (calls_of out) \<and>
        assembled i (calls_of out) = concat (map (event_args (ev_Index ev)) (drop (Suc k) evs)))
      (filter (\<lambda>k. starts_tool (evs ! k)) [0..<length evs])"
proof -
  obtain st out err where run: "sse_run (Anthropic_step lib io m) willing broken 0 (sse_payloads ls) anthropic_start = (st, out, err)"
    by (cases "sse_run (Anthropic_step lib io m) willing broken 0 (sse_payloads ls) anthropic_start") auto
  then have "Anthropic_DecodeStream lib io m body broken willing = (anthropic_usage st, out, err)"
    by (simp add: Anthropic_DecodeStream_def scanSSE_def assms(1))
  moreover from anthropic_run [OF assms(2,3) run] have "err = broken" "calls_of out = run_calls [] evs"
    "streamed_text out = concat (map event_text evs)"
    by (simp_all add: anthropic_start_def)
  moreover have "fragment (int (length (filter starts_tool (take k evs)))) (ev_BlockID (evs ! k)) ''function''
        (ev_BlockName (evs ! k)) [] \<in> set (run_calls [] evs) \<and>
      assembled (int (length (filter starts_tool (take k evs)))) (run_calls [] evs) =
        concat (map (event_args (ev_Index (evs ! k))) (drop (Suc k) evs))"
    if "k < length evs" and "starts_tool (evs ! k)" for k
    using assembled_call [of "take k evs" "evs ! k" "drop (Suc k) evs"] assms(4) that
    by (simp only: id_take_nth_drop [symmetric])
  ultimately show ?thesis
    by (simp add: Let_def list_all_iff)
qed

text \<open>A stream of one tool call, its arguments in one piece.\<close>

definition tool_docs :: "(string \<times> json) list" where
  "tool_docs =
     [(''start'', JObj [(''type'', JStr ''content_block_start''), (''index'', JNum ''1''),
        (''content_block'', JObj [(''type'', JStr ''tool_use''), (''id'', JStr ''c1''), (''name'', JStr ''now'')])]),
      (''args'', JObj [(''type'', JStr ''content_block_delta''), (''index'', JNum ''1''),
        (''delta'', JObj [(''type'', JStr ''input_json_delta''), (''partial_json'', JStr ''{}'')])])]"

definition tool_body :: string where
  "tool_body = ''data: start'' @ [nl, nl] @ ''data: args'' @ [nl]"

definition no_event :: anthropicStreamEvent where
  "no_event = \<lparr>ev_Type = [], ev_Index = 0, ev_DeltaType = [], ev_Text = [], PartialJSON = [], ev_StopReason = [],
     ev_BlockType = [], ev_BlockID = [], ev_BlockName = [], ev_MessageID = [], ev_InputTokens = 0, ev_OutputTokens = 0\<rparr>"

definition start_event :: anthropicStreamEvent where
  "start_event = no_event\<lparr>ev_Type := ''content_block_start'', ev_Index := 1, ev_BlockType := ''tool_use'',
     ev_BlockID := ''c1'', ev_BlockName := ''now''\<rparr>"

definition args_event :: anthropicStreamEvent where
  "args_event = no_event\<lparr>ev_Type := ''content_block_delta'', ev_Index := 1, ev_DeltaType := ''input_json_delta'',
     PartialJSON := ''{}''\<rparr>"

lemma tool_body_lines: "scan_lines maxLine tool_body = ([''data: start'', [], ''data: args''], False)"
  by (simp add: tool_body_def nl_def scan_lines.simps drop_cr_def cr_def maxLine_def Let_def)

lemma tool_body_payloads: "sse_payloads [''data: start'', [], ''data: args''] = [''start'', ''args'']"
  by (simp add: TrimRight_def trim_right_def cr_def TrimPrefix_def TrimSpace_def trim_left_def is_space_def
      done_payload_def Let_def)

lemma tool_body_events:
  "each (unmarshal (table_lib tool_docs) decode_StreamEvent) [''start'', ''args''] = Inr [start_event, args_event]"
  by (simp add: unmarshal_def tool_docs_def decode_StreamEvent_def fields_get_def raw_field_def json_simps start_event_def args_event_def
      no_event_def Atoi_def digit_val_def in_int64_def Let_def)

theorem anthropic_stream_assembles_witness:
  "case Anthropic_DecodeStream (table_lib tool_docs) \<lparr>id_at = 0, created_at = 0, uuids = (\<lambda>n. [])\<rparr> ''m'' tool_body None willing of
     (usage, out, err) \<Rightarrow> err = None \<and> assembled 0 (calls_of out) = ''{}''"
proof -
  have starts: "starts_tool start_event" "\<not> starts_tool args_event"
    by (simp_all add: starts_tool_def start_event_def args_event_def no_event_def)
  have "each (unmarshal (table_lib tool_docs) decode_StreamEvent)
      (sse_payloads [''data: start'', [], ''data: args'']) = Inr ([] @ start_event # [args_event])"
    by (simp only: tool_body_payloads tool_body_events append_Nil)
  from anthropic_stream_assembles [OF tool_body_lines this, where io = "\<lparr>id_at = 0, created_at = 0, uuids = (\<lambda>n. [])\<rparr>"
      and m = "''m''" and broken = None]
  show ?thesis
    using starts by (auto simp: start_event_def args_event_def no_event_def event_args_def Let_def)
qed

end
