(* ===== verification/Google.thy ===== *)
theory Google
  imports Client_Interface
begin

text \<open>
  \<open>internal/provider/google.go\<close>: the Gemini dialect. Tool results are matched by name, calls come whole and
  without an id, and STOP stands for a finished tool call too.
\<close>

section \<open>The request\<close>

record googleFunctionCall =
  gfc_ID :: string
  gfc_Name :: string
  gfc_Args :: "json option"

record googleFunctionResp =
  gfr_ID :: string
  gfr_Name :: string
  gfr_Response :: "(string \<times> json) list"

record googlePart =
  gp_Text :: string
  gp_Call :: "googleFunctionCall option"
  gp_Response :: "googleFunctionResp option"
  ThoughtSignature :: string

record googleContent =
  gc_Role :: string
  gc_Parts :: "googlePart list"

definition text_part :: "string \<Rightarrow> googlePart" where
  "text_part t = \<lparr>gp_Text = t, gp_Call = None, gp_Response = None, ThoughtSignature = []\<rparr>"

definition googleSkipSignature :: string where
  "googleSkipSignature = ''skip_thought_signature_validator''"

record googleFunctionDecl =
  gd_Name :: string
  gd_Description :: string
  ParametersJSONSchema :: "json option"

record googleToolConfig =
  gt_Mode :: string
  AllowedFunctionNames :: "string list"

record googleGenConfig =
  gg_Temperature :: "float64 option"
  gg_TopP :: "float64 option"
  MaxOutputTokens :: int
  StopSequences :: "string list"

text \<open>\<open>gr_Tools\<close> is \<open>None\<close> without function tools; otherwise it is the one \<open>googleTool\<close> with its declarations.\<close>

record googleRequest =
  Contents :: "googleContent list"
  SystemInstruction :: "googleContent option"
  gr_Tools :: "googleFunctionDecl list option"
  ToolConfig :: "googleToolConfig option"
  GenerationConfig :: "googleGenConfig option"

definition encode_googlePart :: "googlePart \<Rightarrow> json" where
  "encode_googlePart p = json_obj
     [(''text'', omit_string (gp_Text p)),
      (''functionCall'', map_option (\<lambda>c. json_obj
         [(''id'', omit_string (gfc_ID c)), (''name'', Some (JStr (gfc_Name c))), (''args'', gfc_Args c)]) (gp_Call p)),
      (''functionResponse'', map_option (\<lambda>r. json_obj
         [(''id'', omit_string (gfr_ID r)), (''name'', Some (JStr (gfr_Name r))),
          (''response'', Some (JObj (gfr_Response r)))]) (gp_Response p)),
      (''thoughtSignature'', omit_string (ThoughtSignature p))]"

definition encode_googleContent :: "googleContent \<Rightarrow> json" where
  "encode_googleContent c = json_obj
     [(''role'', omit_string (gc_Role c)), (''parts'', Some (JArr (map encode_googlePart (gc_Parts c))))]"

definition encode_googleDecl :: "googleFunctionDecl \<Rightarrow> json" where
  "encode_googleDecl d = json_obj
     [(''name'', Some (JStr (gd_Name d))), (''description'', omit_string (gd_Description d)),
      (''parametersJsonSchema'', ParametersJSONSchema d)]"

definition encode_googleToolConfig :: "googleToolConfig \<Rightarrow> json" where
  "encode_googleToolConfig t = json_obj
     [(''functionCallingConfig'', Some (json_obj
        [(''mode'', Some (JStr (gt_Mode t))), (''allowedFunctionNames'', omit_list JStr (AllowedFunctionNames t))]))]"

definition encode_googleGenConfig :: "golib \<Rightarrow> googleGenConfig \<Rightarrow> json" where
  "encode_googleGenConfig lib g = json_obj
     [(''temperature'', omit_float lib (gg_Temperature g)), (''topP'', omit_float lib (gg_TopP g)),
      (''maxOutputTokens'', omit_int (MaxOutputTokens g)), (''stopSequences'', omit_list JStr (StopSequences g))]"

definition encode_googleRequest :: "golib \<Rightarrow> googleRequest \<Rightarrow> json" where
  "encode_googleRequest lib r = json_obj
     [(''contents'', Some (JArr (map encode_googleContent (Contents r)))),
      (''systemInstruction'', map_option encode_googleContent (SystemInstruction r)),
      (''tools'', map_option (\<lambda>ds. JArr [json_obj [(''functionDeclarations'', Some (JArr (map encode_googleDecl ds)))]]) (gr_Tools r)),
      (''toolConfig'', map_option encode_googleToolConfig (ToolConfig r)),
      (''generationConfig'', map_option (encode_googleGenConfig lib) (GenerationConfig r))]"

text \<open>The names of the calls of the conversation, by id; a later call with the same id wins.\<close>

definition callNames :: "Message list \<Rightarrow> (string, string) gomap" where
  "callNames turns = fold (\<lambda>tc m. gm_set (tc_ID tc) (fc_Name (Function tc)) m) (concat (map ToolCalls turns)) []"

definition call_part :: "golib \<Rightarrow> ToolCall \<Rightarrow> googlePart" where
  "call_part lib tc =
     \<lparr>gp_Text = [],
      gp_Call = Some \<lparr>gfc_ID = [], gfc_Name = fc_Name (Function tc), gfc_Args = Some (toolArgs lib (Arguments (Function tc)))\<rparr>,
      gp_Response = None, ThoughtSignature = googleSkipSignature\<rparr>"

definition googleParts :: "golib \<Rightarrow> (string, string) gomap \<Rightarrow> Message \<Rightarrow> string \<times> googlePart list" where
  "googleParts lib names m =
     (if Role m = ''tool'' then
        (''user'', [\<lparr>gp_Text = [], gp_Call = None,
           gp_Response = Some \<lparr>gfr_ID = [], gfr_Name = gm_at [] names (ToolCallID m),
             gfr_Response = [(''content'', JStr (MsgContent m))]\<rparr>,
           ThoughtSignature = []\<rparr>])
      else let role = (if Role m = ''assistant'' then ''model'' else ''user'') in
        (role,
         (if MsgContent m \<noteq> [] \<or> ToolCalls m = [] then [text_part (MsgContent m)] else []) @
         (if role = ''model'' then map (call_part lib) (ToolCalls m) else [])))"

definition join_content :: "golib \<Rightarrow> (string, string) gomap \<Rightarrow> googleContent list \<Rightarrow> Message \<Rightarrow> googleContent list" where
  "join_content lib names cs m =
     (let (role, parts) = googleParts lib names m in
      if cs \<noteq> [] \<and> gc_Role (last cs) = role
      then butlast cs @ [(last cs)\<lparr>gc_Parts := gc_Parts (last cs) @ parts\<rparr>]
      else cs @ [\<lparr>gc_Role = role, gc_Parts = parts\<rparr>])"

definition googleTools :: "ChatRequest \<Rightarrow> googleFunctionDecl list option \<times> googleToolConfig option" where
  "googleTools req =
     (let fns = FunctionTools req in
      if fns = [] then (None, None)
      else
        (Some (map (\<lambda>t. \<lparr>gd_Name = tf_Name (tool_Function t), gd_Description = Description (tool_Function t),
            ParametersJSONSchema = (case Parameters (tool_Function t) of Some JNull \<Rightarrow> None | p \<Rightarrow> p)\<rparr>) fns),
         let (mode, name) = ToolChoiceMode req in
           if mode = ''none'' then Some \<lparr>gt_Mode = ''NONE'', AllowedFunctionNames = []\<rparr>
           else if mode = ''required'' then Some \<lparr>gt_Mode = ''ANY'', AllowedFunctionNames = []\<rparr>
           else if mode = ''function'' then Some \<lparr>gt_Mode = ''ANY'', AllowedFunctionNames = [name]\<rparr>
           else None))"

definition google_body :: "golib \<Rightarrow> ChatRequest \<Rightarrow> string + googleRequest" where
  "google_body lib req =
     (let (system, turns) = SystemAndTurns req;
          contents = foldl (join_content lib (callNames turns)) [] turns;
          (tools, config) = googleTools req
      in if contents = [] then Inl ''google: request has no user or assistant messages''
         else Inr
           \<lparr>Contents = contents,
            SystemInstruction = (if system \<noteq> [] then Some \<lparr>gc_Role = [], gc_Parts = [text_part system]\<rparr> else None),
            gr_Tools = tools, ToolConfig = config,
            GenerationConfig =
              (if Temperature req \<noteq> None \<or> TopP req \<noteq> None \<or> MaxTokens req > 0 \<or> Stop req \<noteq> []
               then Some \<lparr>gg_Temperature = Temperature req, gg_TopP = TopP req, MaxOutputTokens = MaxTokens req,
                 StopSequences = Stop req\<rparr>
               else None)\<rparr>)"

definition google_url :: "string \<Rightarrow> string \<Rightarrow> bool \<Rightarrow> string" where
  "google_url base m streaming =
     base @ ''/models/'' @ m @ '':'' @
     (if streaming then ''streamGenerateContent?alt=sse'' else ''generateContent'')"

definition Google_BuildRequest ::
  "golib \<Rightarrow> string \<Rightarrow> ChatRequest \<Rightarrow> string \<Rightarrow> bool \<Rightarrow> string + HttpRequest" where
  "Google_BuildRequest lib base req apiKey streaming =
     and_then (google_body lib req) (\<lambda>body.
       new_post lib (google_url base (ReqModel req) streaming) [json_content, (''x-goog-api-key'', apiKey)]
         (encode_googleRequest lib body))"

section \<open>An answer\<close>

record googleCandidate =
  gn_Parts :: "googlePart list"
  gn_Finish :: string

record googleResponse =
  Candidates :: "googleCandidate list"
  PromptTokenCount :: int
  CandidatesTokenCount :: int
  TotalTokenCount :: int

definition decode_googlePart :: "json \<Rightarrow> json_error + googlePart" where
  "decode_googlePart j =
     and_then (as_fields j) (\<lambda>fs.
     and_then (as_string (fields_get fs ''text'')) (\<lambda>t.
     and_then (as_ptr (\<lambda>c. and_then (as_fields c) (\<lambda>cs.
         and_then (as_string (fields_get cs ''id'')) (\<lambda>ident.
         and_then (as_string (fields_get cs ''name'')) (\<lambda>name.
         Inr \<lparr>gfc_ID = ident, gfc_Name = name, gfc_Args = raw_field cs ''args''\<rparr>)))) (fields_get fs ''functionCall'')) (\<lambda>call.
     and_then (as_ptr (\<lambda>r. and_then (as_fields r) (\<lambda>rs.
         and_then (as_string (fields_get rs ''id'')) (\<lambda>ident.
         and_then (as_string (fields_get rs ''name'')) (\<lambda>name.
         and_then (as_fields (fields_get rs ''response'')) (\<lambda>body.
         Inr \<lparr>gfr_ID = ident, gfr_Name = name, gfr_Response = body\<rparr>))))) (fields_get fs ''functionResponse'')) (\<lambda>resp.
     and_then (as_string (fields_get fs ''thoughtSignature'')) (\<lambda>sig.
     Inr \<lparr>gp_Text = t, gp_Call = call, gp_Response = resp, ThoughtSignature = sig\<rparr>)))))"

definition decode_googleCandidate :: "json \<Rightarrow> json_error + googleCandidate" where
  "decode_googleCandidate j =
     and_then (as_fields j) (\<lambda>fs.
     and_then (as_fields (fields_get fs ''content'')) (\<lambda>cs.
     and_then (as_list decode_googlePart (fields_get cs ''parts'')) (\<lambda>parts.
     and_then (as_string (fields_get fs ''finishReason'')) (\<lambda>why.
     Inr \<lparr>gn_Parts = parts, gn_Finish = why\<rparr>))))"

definition decode_googleResponse :: "json \<Rightarrow> json_error + googleResponse" where
  "decode_googleResponse j =
     and_then (as_fields j) (\<lambda>fs.
     and_then (as_list decode_googleCandidate (fields_get fs ''candidates'')) (\<lambda>cands.
     and_then (as_fields (fields_get fs ''usageMetadata'')) (\<lambda>us.
     and_then (as_int (fields_get us ''promptTokenCount'')) (\<lambda>prompt.
     and_then (as_int (fields_get us ''candidatesTokenCount'')) (\<lambda>cand.
     and_then (as_int (fields_get us ''totalTokenCount'')) (\<lambda>total.
     Inr \<lparr>Candidates = cands, PromptTokenCount = prompt, CandidatesTokenCount = cand, TotalTokenCount = total\<rparr>))))))"

definition googleFinish :: "string \<Rightarrow> string option" where
  "googleFinish why =
     (if why = [] then None
      else if why = ''MAX_TOKENS'' then Some ''length''
      else if why \<in> {''SAFETY'', ''RECITATION'', ''BLOCKLIST'', ''PROHIBITED_CONTENT''} then Some ''content_filter''
      else Some ''stop'')"

definition first_parts :: "googleResponse \<Rightarrow> googlePart list" where
  "first_parts r = (case Candidates r of [] \<Rightarrow> [] | c # cs \<Rightarrow> gn_Parts c)"

definition google_text :: "googleResponse \<Rightarrow> string" where
  "google_text r = concat (map gp_Text (first_parts r))"

text \<open>The calls of the parts; an id is minted where Gemini gave none. \<open>n\<close> ids have been minted before.\<close>

fun part_calls :: "golib \<Rightarrow> mint \<Rightarrow> nat \<Rightarrow> googlePart list \<Rightarrow> ToolCall list \<times> nat" where
  "part_calls lib io n [] = ([], n)"
| "part_calls lib io n (p # ps) =
     (case gp_Call p of
        None \<Rightarrow> part_calls lib io n ps
      | Some c \<Rightarrow>
          (let minted = (gfc_ID c = []);
               (calls, n') = part_calls lib io (if minted then Suc n else n) ps
           in (\<lparr>tc_Index = None, tc_ID = (if minted then ''call_'' @ uuids io n else gfc_ID c), tc_Type = ''function'',
                Function = \<lparr>fc_Name = gfc_Name c,
                  Arguments = (case gfc_Args c of None \<Rightarrow> ''{}'' | Some j \<Rightarrow> json_text lib j)\<rparr>\<rparr> # calls, n')))"

definition google_toolCalls :: "golib \<Rightarrow> mint \<Rightarrow> nat \<Rightarrow> googleResponse \<Rightarrow> ToolCall list \<times> nat" where
  "google_toolCalls lib io n r = part_calls lib io n (first_parts r)"

text \<open>STOP becomes \<open>tool_calls\<close> when there were calls; \<open>why\<close> is the first candidate's reason.\<close>

definition google_finish :: "string \<Rightarrow> bool \<Rightarrow> string option" where
  "google_finish why called =
     (if googleFinish why = Some ''stop'' \<and> called then Some ''tool_calls'' else googleFinish why)"

definition google_usage :: "googleResponse \<Rightarrow> Usage" where
  "google_usage r =
     \<lparr>PromptTokens = PromptTokenCount r, CompletionTokens = CandidatesTokenCount r, TotalTokens = TotalTokenCount r\<rparr>"

definition chat_id :: "mint \<Rightarrow> string" where
  "chat_id io = ''chatcmpl-'' @ Itoa (UnixNano (id_at io))"

definition Google_DecodeResponse :: "golib \<Rightarrow> mint \<Rightarrow> string \<Rightarrow> string \<Rightarrow> string + ChatResponse" where
  "Google_DecodeResponse lib io body m =
     (case unmarshal lib decode_googleResponse body of
        Inl e \<Rightarrow> Inl (''google: malformed response: '' @ e)
      | Inr resp \<Rightarrow>
          (case Candidates resp of
             [] \<Rightarrow> Inl ''google: response contained no candidates''
           | c # cs \<Rightarrow>
               (let calls = fst (google_toolCalls lib io 0 resp) in
                Inr \<lparr>resp_ID = chat_id io, resp_Object = ''chat.completion'', Created = Unix (created_at io), RespModel = m,
                  Choices = [\<lparr>ch_Index = 0,
                    ch_Message = Some \<lparr>Role = ''assistant'', MsgContent = google_text resp, ToolCalls = calls, ToolCallID = []\<rparr>,
                    ch_Delta = None, FinishReason = google_finish (gn_Finish c) (calls \<noteq> [])\<rparr>],
                  RespUsage = Some (google_usage resp)\<rparr>)))"

section \<open>A stream\<close>

record google_stream =
  gs_Usage :: Usage
  gs_First :: bool
  gs_Calls :: nat
  gs_Minted :: nat

definition google_start :: google_stream where
  "google_start = \<lparr>gs_Usage = no_usage, gs_First = True, gs_Calls = 0, gs_Minted = 0\<rparr>"

definition number_calls :: "nat \<Rightarrow> ToolCall list \<Rightarrow> ToolCall list" where
  "number_calls n calls = map (\<lambda>(i, tc). tc\<lparr>tc_Index := Some (int i)\<rparr>) (zip [n..<n + length calls] calls)"

definition google_chunk ::
  "golib \<Rightarrow> mint \<Rightarrow> string \<Rightarrow> google_stream \<Rightarrow> googleResponse \<Rightarrow> google_stream \<times> ChatResponse list" where
  "google_chunk lib io m st resp =
     (let u = google_usage resp;
          st1 = (if TotalTokens u > 0 \<or> PromptTokens u > 0 then st\<lparr>gs_Usage := u\<rparr> else st)
      in case Candidates resp of
          [] \<Rightarrow> (st1, [])
        | c # cs \<Rightarrow>
            (let (calls, minted) = google_toolCalls lib io (gs_Minted st1) resp;
                 total = gs_Calls st1 + length calls
             in (st1\<lparr>gs_First := False, gs_Calls := total, gs_Minted := minted\<rparr>,
                 [\<lparr>resp_ID = chat_id io, resp_Object = ''chat.completion.chunk'', Created = Unix (created_at io), RespModel = m,
                   Choices = [\<lparr>ch_Index = 0, ch_Message = None,
                     ch_Delta = Some \<lparr>dl_Role = (if gs_First st1 then ''assistant'' else []),
                       dl_Content = google_text resp, dl_ToolCalls = number_calls (gs_Calls st1) calls\<rparr>,
                     FinishReason = google_finish (gn_Finish c) (total > 0)\<rparr>],
                   RespUsage = None\<rparr>])))"

definition Google_step :: "golib \<Rightarrow> mint \<Rightarrow> string \<Rightarrow> google_stream decoder" where
  "Google_step lib io m st data =
     (case unmarshal lib decode_googleResponse data of
        Inl e \<Rightarrow> (st, [], Some (''google: malformed stream chunk: '' @ e))
      | Inr resp \<Rightarrow> (let (st', chs) = google_chunk lib io m st resp in (st', chs, None)))"

definition Google_DecodeStream ::
  "golib \<Rightarrow> mint \<Rightarrow> string \<Rightarrow> string \<Rightarrow> string option \<Rightarrow> (nat \<Rightarrow> string option) \<Rightarrow>
    Usage \<times> ChatResponse list \<times> string option" where
  "Google_DecodeStream lib io m body broken emit =
     (let (st, out, err) = scanSSE body broken (Google_step lib io m) emit google_start in (gs_Usage st, out, err))"

section \<open>The conversation\<close>

interpretation google_join: turn_joining gc_Role gc_Parts "googleParts lib names" "join_content lib names" for lib names
  by unfold_locales (auto simp: join_content_def case_prod_unfold Let_def)

lemma googleParts_role: "fst (googleParts lib names m) \<in> {''user'', ''model''}"
  by (simp add: googleParts_def Let_def)

definition turn_parts :: "golib \<Rightarrow> Message list \<Rightarrow> googlePart list" where
  "turn_parts lib turns = concat (map (\<lambda>m. snd (googleParts lib (callNames turns) m)) turns)"

lemma parts_calls:
  "filter (\<lambda>p. gp_Call p \<noteq> None) (concat (map (\<lambda>m. snd (googleParts lib names m)) turns)) =
     map (call_part lib) (calls_made turns)"
  by (induction turns) (auto simp: calls_made_def googleParts_def text_part_def call_part_def filter_map o_def)

lemma parts_results:
  "List.map_filter gp_Response (concat (map (\<lambda>m. snd (googleParts lib names m)) turns)) =
     map (\<lambda>(ident, content). \<lparr>gfr_ID = [], gfr_Name = gm_at [] names ident,
       gfr_Response = [(''content'', JStr content)]\<rparr>) (results_held turns)"
  by (induction turns)
    (auto simp: results_held_def googleParts_def text_part_def call_part_def List.map_filter_def filter_map o_def)

text \<open>A result answers a call whose name it carries when the id was used by one name only.\<close>

lemma callNames_of:
  assumes "tc \<in> set (concat (map ToolCalls turns))"
    and "\<forall>tc' \<in> set (concat (map ToolCalls turns)). tc_ID tc' = tc_ID tc \<longrightarrow> fc_Name (Function tc') = fc_Name (Function tc)"
  shows "gm_at [] (callNames turns) (tc_ID tc) = fc_Name (Function tc)"
proof -
  let ?f = "\<lambda>tc m. gm_set (tc_ID tc) (fc_Name (Function tc)) m"
  have "map_of (fold ?f tcs m) (tc_ID tc) = Some (fc_Name (Function tc))"
    if "tc \<in> set tcs \<or> map_of m (tc_ID tc) = Some (fc_Name (Function tc))"
      and "\<forall>tc' \<in> set tcs. tc_ID tc' = tc_ID tc \<longrightarrow> fc_Name (Function tc') = fc_Name (Function tc)" for tcs m
    using that
  proof (induction tcs arbitrary: m)
    case (Cons a tcs)
    have "tc \<in> set tcs \<or> map_of (?f a m) (tc_ID tc) = Some (fc_Name (Function tc))"
      using Cons.prems by (cases "tc_ID a = tc_ID tc") (simp_all, metis)
    moreover have "\<forall>tc' \<in> set tcs. tc_ID tc' = tc_ID tc \<longrightarrow> fc_Name (Function tc') = fc_Name (Function tc)"
      using Cons.prems(2) by simp
    ultimately show ?case using Cons.IH [of "?f a m"] by simp
  qed simp
  then have "map_of (callNames turns) (tc_ID tc) = Some (fc_Name (Function tc))"
    unfolding callNames_def using assms by blast
  then show ?thesis by (simp add: gm_at_def)
qed

text \<open>
  The conversation sent to Gemini: user and model messages alternate, the parts are those of the turns in order, so
  every tool call of an assistant turn is a \<open>functionCall\<close> part with its name and arguments, and every tool result is
  a \<open>functionResponse\<close> part that carries the name of the call it answers. Only a chat without turns is
  refused.
\<close>

theorem google_conversation:
  "case SystemAndTurns req of (system, turns) \<Rightarrow>
     (case google_body lib req of
        Inl e \<Rightarrow> turns = []
      | Inr body \<Rightarrow>
          Contents body \<noteq> [] \<and> alternating gc_Role (Contents body) \<and>
          gc_Role ` set (Contents body) \<subseteq> {''user'', ''model''} \<and>
          (let parts = concat (map gc_Parts (Contents body)) in
           filter (\<lambda>p. gp_Call p \<noteq> None) parts = map (call_part lib) (calls_made turns) \<and>
           List.map_filter gp_Response parts =
             map (\<lambda>(ident, content). \<lparr>gfr_ID = [], gfr_Name = gm_at [] (callNames turns) ident,
               gfr_Response = [(''content'', JStr content)]\<rparr>) (results_held turns)))"
proof -
  obtain system turns where s: "SystemAndTurns req = (system, turns)" by fastforce
  let ?cs = "foldl (join_content lib (callNames turns)) [] turns"
  have "alternating gc_Role ?cs" "concat (map gc_Parts ?cs) = turn_parts lib turns" "gc_Role ` set ?cs \<subseteq> {''user'', ''model''}"
    using google_join.joined [of "[]" lib "callNames turns" turns] googleParts_role by (auto simp: turn_parts_def)
  then show ?thesis
    by (auto simp: google_body_def s google_join.joined_Nil case_prod_unfold Let_def turn_parts_def parts_calls [unfolded not_None_eq] parts_results)
qed

section \<open>What the stream keeps\<close>

definition has_candidate :: "googleResponse \<Rightarrow> bool" where
  "has_candidate r \<longleftrightarrow> Candidates r \<noteq> []"

definition delta_roles :: "ChatResponse list \<Rightarrow> string list" where
  "delta_roles chs =
     concat (map (\<lambda>chunk. concat (map (\<lambda>ch. case ch_Delta ch of None \<Rightarrow> [] | Some d \<Rightarrow> [dl_Role d]) (Choices chunk))) chs)"

fun count_calls :: "googlePart list \<Rightarrow> nat" where
  "count_calls [] = 0"
| "count_calls (p # ps) = (if gp_Call p = None then 0 else 1) + count_calls ps"

lemma length_part_calls [simp]: "length (fst (part_calls lib io n ps)) = count_calls ps"
  by (induction lib io n ps rule: part_calls.induct)
    (auto simp: case_prod_unfold Let_def split: option.split)

lemma names_part_calls:
  "map (\<lambda>t. fc_Name (Function t)) (fst (part_calls lib io n ps)) = map gfc_Name (List.map_filter gp_Call ps)"
  by (induction lib io n ps rule: part_calls.induct)
    (auto simp: case_prod_unfold Let_def List.map_filter_simps split: option.split)

lemma number_calls_index [simp]: "map tc_Index (number_calls n calls) = map (Some \<circ> int) [n..<n + length calls]"
  by (rule nth_equalityI) (auto simp: number_calls_def)

lemma number_calls_name [simp]:
  "map (\<lambda>t. fc_Name (Function t)) (number_calls n calls) = map (\<lambda>t. fc_Name (Function t)) calls"
  by (rule nth_equalityI) (auto simp: number_calls_def)

definition call_names :: "googleResponse \<Rightarrow> string list" where
  "call_names r = map gfc_Name (List.map_filter gp_Call (first_parts r))"

lemma google_chunk_spec:
  assumes "google_chunk lib io m st resp = (st', chs)"
  shows "streamed_text chs = google_text resp \<and>
    map (\<lambda>t. fc_Name (Function t)) (calls_of chs) = call_names resp \<and>
    map tc_Index (calls_of chs) = map (Some \<circ> int) [gs_Calls st..<gs_Calls st + length (calls_of chs)] \<and>
    gs_Calls st' = gs_Calls st + length (calls_of chs) \<and>
    gs_First st' = (gs_First st \<and> \<not> has_candidate resp) \<and>
    delta_roles chs = (if has_candidate resp then [if gs_First st then ''assistant'' else []] else [])"
proof (cases "Candidates resp")
  case Nil
  with assms have "chs = []" "gs_Calls st' = gs_Calls st" "gs_First st' = gs_First st"
    by (auto simp: google_chunk_def Let_def split: if_splits)
  with Nil show ?thesis
    by (simp add: streamed_text_def calls_of_def delta_roles_def has_candidate_def google_text_def call_names_def
        first_parts_def List.map_filter_simps)
next
  case (Cons c cs)
  obtain calls minted where calls: "google_toolCalls lib io (gs_Minted st) resp = (calls, minted)" by fastforce
  have names: "map (\<lambda>t. fc_Name (Function t)) calls = call_names resp"
    using names_part_calls [of lib io "gs_Minted st" "first_parts resp"] calls
    by (simp add: google_toolCalls_def call_names_def)
  have "gs_Calls st' = gs_Calls st + length calls" "gs_First st' = False"
    "streamed_text chs = google_text resp" "calls_of chs = number_calls (gs_Calls st) calls"
    "delta_roles chs = [if gs_First st then ''assistant'' else []]"
    using assms Cons calls
    by (auto simp: google_chunk_def Let_def streamed_text_def calls_of_def delta_roles_def split: if_splits)
  moreover have "length (number_calls n calls) = length calls" for n by (simp add: number_calls_def)
  ultimately show ?thesis using Cons names by (simp add: has_candidate_def)
qed

lemma delta_lists [simp]:
  "streamed_text [] = []" "calls_of [] = []" "delta_roles [] = []"
  "streamed_text (a @ b) = streamed_text a @ streamed_text b" "calls_of (a @ b) = calls_of a @ calls_of b"
  "delta_roles (a @ b) = delta_roles a @ delta_roles b"
  by (simp_all add: streamed_text_def calls_of_def delta_roles_def)

definition roles_from :: "bool \<Rightarrow> nat \<Rightarrow> string list" where
  "roles_from first n = (if n = 0 then [] else (if first then ''assistant'' else []) # replicate (n - 1) [])"

lemma roles_from_Suc:
  "(if c then [if first then ''assistant'' else []] else []) @ roles_from (first \<and> \<not> c) n =
     roles_from first ((if c then 1 else 0) + n)"
  by (cases n) (auto simp: roles_from_def)

lemma google_run:
  "each (unmarshal lib decode_googleResponse) ds = Inr rs \<Longrightarrow>
    sse_run (Google_step lib io m) willing fin n ds st = (st', out, err) \<Longrightarrow>
    err = fin \<and> streamed_text out = concat (map google_text rs) \<and>
    map (\<lambda>t. fc_Name (Function t)) (calls_of out) = concat (map call_names rs) \<and>
    map tc_Index (calls_of out) = map (Some \<circ> int) [gs_Calls st..<gs_Calls st + length (calls_of out)] \<and>
    delta_roles out = roles_from (gs_First st) (length (filter has_candidate rs))"
proof (induction ds arbitrary: rs n st out)
  case Nil
  then show ?case by (simp add: roles_from_def)
next
  case (Cons d ds)
  then obtain r rs' where rs: "rs = r # rs'" "unmarshal lib decode_googleResponse d = Inr r"
    "each (unmarshal lib decode_googleResponse) ds = Inr rs'" by (auto simp: and_then_Inr)
  obtain st1 c1 where s: "google_chunk lib io m st r = (st1, c1)" by fastforce
  have step: "Google_step lib io m st d = (st1, c1, None)" by (simp add: Google_step_def rs(2) s)
  obtain o2 where run: "sse_run (Google_step lib io m) willing fin (n + length c1) ds st1 = (st', o2, err)"
    and out: "out = c1 @ o2"
    using Cons.prems(2) step by (auto split: prod.splits)
  from google_chunk_spec [OF s] have spec: "streamed_text c1 = google_text r"
    "map (\<lambda>t. fc_Name (Function t)) (calls_of c1) = call_names r"
    "map tc_Index (calls_of c1) = map (Some \<circ> int) [gs_Calls st..<gs_Calls st1]"
    "gs_Calls st1 = gs_Calls st + length (calls_of c1)" "gs_First st1 = (gs_First st \<and> \<not> has_candidate r)"
    "delta_roles c1 = (if has_candidate r then [if gs_First st then ''assistant'' else []] else [])" by simp_all
  from Cons.IH [OF rs(3) run] have IH: "err = fin" "streamed_text o2 = concat (map google_text rs')"
    "map (\<lambda>t. fc_Name (Function t)) (calls_of o2) = concat (map call_names rs')"
    "map tc_Index (calls_of o2) = map (Some \<circ> int) [gs_Calls st1..<gs_Calls st1 + length (calls_of o2)]"
    "delta_roles o2 = roles_from (gs_First st1) (length (filter has_candidate rs'))" by simp_all
  have "delta_roles out = roles_from (gs_First st) (length (filter has_candidate rs))"
    using roles_from_Suc [of "has_candidate r" "gs_First st" "length (filter has_candidate rs')"]
    by (simp only: out delta_lists spec(5,6) IH(5) rs(1)) (simp add: ac_simps)
  moreover have "map tc_Index (calls_of out) = map (Some \<circ> int) [gs_Calls st..<gs_Calls st + length (calls_of out)]"
    using upt_add_eq_append [of "gs_Calls st" "gs_Calls st1" "length (calls_of o2)"] spec(4)
    by (simp only: out delta_lists map_append spec(3) IH(4) length_append) (simp add: add.assoc)
  ultimately show ?case using IH spec by (simp add: out rs(1))
qed

text \<open>
  A streamed Gemini answer keeps its text and its calls: the streamed text is the text of the payloads in order;
  every function call is streamed once, in order, numbered 0, 1, 2, and so on without gaps over the whole stream; the
  assistant role is announced in the first chunk and in no later one.
\<close>

theorem google_stream_faithful:
  assumes "scan_lines maxLine body = (ls, False)"
    and "each (unmarshal lib decode_googleResponse) (sse_payloads ls) = Inr rs"
  shows "case Google_DecodeStream lib io m body broken willing of (usage, out, err) \<Rightarrow>
    err = broken \<and>
    streamed_text out = concat (map google_text rs) \<and>
    map (\<lambda>t. fc_Name (Function t)) (calls_of out) = concat (map call_names rs) \<and>
    map tc_Index (calls_of out) = map (Some \<circ> int) [0..<length (calls_of out)] \<and>
    delta_roles out = roles_from True (length (filter has_candidate rs))"
proof -
  obtain st out err where run: "sse_run (Google_step lib io m) willing broken 0 (sse_payloads ls) google_start = (st, out, err)"
    by (cases "sse_run (Google_step lib io m) willing broken 0 (sse_payloads ls) google_start") auto
  then have "Google_DecodeStream lib io m body broken willing = (gs_Usage st, out, err)"
    by (simp add: Google_DecodeStream_def scanSSE_def assms(1))
  with google_run [OF assms(2) run] show ?thesis by (simp add: google_start_def)
qed

definition hello_doc :: json where
  "hello_doc = JObj [(''candidates'', JArr [JObj [(''content'', JObj [(''parts'', JArr [JObj [(''text'', JStr ''hi'')]])])]])]"

theorem google_stream_faithful_witness:
  "case Google_DecodeStream (table_lib [(''d'', hello_doc)]) \<lparr>id_at = 0, created_at = 0, uuids = (\<lambda>n. [])\<rparr> ''m''
     (''data: d'' @ [nl]) None willing of
     (usage, out, err) \<Rightarrow> err = None \<and> streamed_text out = ''hi'' \<and> delta_roles out = [''assistant'']"
proof -
  have lines: "scan_lines maxLine (''data: d'' @ [nl]) = ([''data: d''], False)"
    by (simp add: nl_def scan_lines.simps drop_cr_def cr_def maxLine_def Let_def)
  have payloads: "sse_payloads [''data: d''] = [''d'']"
    by (simp add: TrimRight_def trim_right_def cr_def TrimPrefix_def TrimSpace_def trim_left_def is_space_def
        done_payload_def Let_def)
  let ?part = "\<lparr>gp_Text = ''hi'', gp_Call = None, gp_Response = None, ThoughtSignature = []\<rparr>"
  let ?resp = "\<lparr>Candidates = [\<lparr>gn_Parts = [?part], gn_Finish = []\<rparr>], PromptTokenCount = 0,
    CandidatesTokenCount = 0, TotalTokenCount = 0\<rparr>"
  have "each (unmarshal (table_lib [(''d'', hello_doc)]) decode_googleResponse) (sse_payloads [''data: d'']) = Inr [?resp]"
    unfolding payloads
    by (simp add: unmarshal_def hello_doc_def decode_googleResponse_def decode_googleCandidate_def decode_googlePart_def
        fields_get_def raw_field_def json_simps)
  from google_stream_faithful [OF lines this, where io = "\<lparr>id_at = 0, created_at = 0, uuids = (\<lambda>n. [])\<rparr>"
      and m = "''m''" and broken = None]
  show ?thesis
    by (auto simp: google_text_def first_parts_def has_candidate_def roles_from_def)
qed

end
