(* ===== verification/Dialects.thy ===== *)
theory Dialects
  imports OpenAI Anthropic_Facts Google Attempts
begin

text \<open>
  The three dialects behind the interface \<open>Client\<close>: which one a provider's client speaks, the contract each
  of them keeps, and what an attempt of the gateway sees of an upstream that speaks it. In theory \<open>Attempts\<close> the
  upstream is an argument; here it is built from the dialect and the HTTP exchange alone.
\<close>

section \<open>Dispatch\<close>

fun BuildRequest :: "golib \<Rightarrow> Client \<Rightarrow> ChatRequest \<Rightarrow> string \<Rightarrow> bool \<Rightarrow> string + HttpRequest" where
  "BuildRequest lib (AnthropicClient base n) = Anthropic_BuildRequest lib base"
| "BuildRequest lib (GoogleClient base n) = Google_BuildRequest lib base"
| "BuildRequest lib (OpenAIClient base n) = OpenAI_BuildRequest lib base"

fun DecodeResponse :: "golib \<Rightarrow> mint \<Rightarrow> Client \<Rightarrow> string \<Rightarrow> string \<Rightarrow> string + ChatResponse" where
  "DecodeResponse lib io (AnthropicClient base n) = Anthropic_DecodeResponse lib io"
| "DecodeResponse lib io (GoogleClient base n) = Google_DecodeResponse lib io"
| "DecodeResponse lib io (OpenAIClient base n) = OpenAI_DecodeResponse lib"

fun DecodeStream ::
  "golib \<Rightarrow> mint \<Rightarrow> Client \<Rightarrow> string \<Rightarrow> string \<Rightarrow> string option \<Rightarrow> (nat \<Rightarrow> string option) \<Rightarrow>
    Usage \<times> ChatResponse list \<times> string option" where
  "DecodeStream lib io (AnthropicClient base n) m body broken emit = Anthropic_DecodeStream lib io m body broken emit"
| "DecodeStream lib io (GoogleClient base n) m body broken emit = Google_DecodeStream lib io m body broken emit"
| "DecodeStream lib io (OpenAIClient base n) m body broken emit = OpenAI_DecodeStream lib body broken emit"

section \<open>The contract\<close>

lemma new_post_Inr: "new_post lib url hs body = Inr h \<longleftrightarrow>
    url_error lib url = None \<and> h = \<lparr>hr_URL = url, hr_Header = hs, hr_Body = body\<rparr>"
  by (auto simp: new_post_def split: option.splits)

lemma emitDelta_choices: "emitDelta io m st d = (st', chs, err) \<Longrightarrow> list_all (\<lambda>ch. Choices ch \<noteq> []) chs"
  by (auto simp: emitDelta_def stream_chunk_def)

interpretation openai: dialect "OpenAI_BuildRequest lib base" "OpenAI_DecodeResponse lib" "\<lambda>m. OpenAI_step lib"
  for lib base
proof unfold_locales
  fix m and st st' :: Usage and d chs err
  assume "OpenAI_step lib st d = (st', chs, err)"
  then show "list_all (\<lambda>ch. Choices ch \<noteq> []) chs"
    by (auto simp: OpenAI_step_def Let_def split: sum.splits if_splits)
qed (auto simp: OpenAI_BuildRequest_def and_then_Inr new_post_Inr carries_key_def OpenAI_DecodeResponse_def
    split: sum.splits if_splits)

interpretation anthropic: dialect "Anthropic_BuildRequest lib base" "Anthropic_DecodeResponse lib io" "Anthropic_step lib io"
  for lib base io
proof unfold_locales
  fix m and st st' :: anthropic_stream and d chs err
  assume "Anthropic_step lib io m st d = (st', chs, err)"
  then show "list_all (\<lambda>ch. Choices ch \<noteq> []) chs"
    by (auto simp: Anthropic_step_def anthropic_event_def Let_def stream_chunk_def
        dest: emitDelta_choices split: sum.splits if_splits option.splits)
qed (auto simp: Anthropic_BuildRequest_def and_then_Inr new_post_Inr carries_key_def Anthropic_DecodeResponse_def
    split: sum.splits)

interpretation google: dialect "Google_BuildRequest lib base" "Google_DecodeResponse lib io" "Google_step lib io"
  for lib base io
proof unfold_locales
  fix m and st st' :: google_stream and d chs err
  assume "Google_step lib io m st d = (st', chs, err)"
  then show "list_all (\<lambda>ch. Choices ch \<noteq> []) chs"
    by (auto simp: Google_step_def google_chunk_def Let_def case_prod_unfold split: sum.splits list.splits)
qed (auto simp: Google_BuildRequest_def and_then_Inr new_post_Inr carries_key_def Google_DecodeResponse_def Let_def
    split: sum.splits list.splits)

lemma DecodeStream_choices:
  "DecodeStream lib io c m body broken emit = (u, out, err) \<Longrightarrow> list_all (\<lambda>ch. Choices ch \<noteq> []) out"
  using openai.stream_choice [of body broken lib emit no_usage u out err]
    anthropic.stream_choice [of body broken lib io m emit anthropic_start]
    google.stream_choice [of body broken lib io m emit google_start]
  by (cases c) (auto simp: OpenAI_DecodeStream_def Anthropic_DecodeStream_def Google_DecodeStream_def split: prod.splits)

lemma DecodeResponse_choices: "DecodeResponse lib io c body m = Inr r \<Longrightarrow> Choices r \<noteq> []"
  using openai.decoded_choice [of lib body m r] anthropic.decoded_choice [of lib io body m r]
    google.decoded_choice [of lib io body m r]
  by (cases c) auto

text \<open>
  C37. The upstream key never leaves through anything but its header: for every provider dialect the address and the
  body of the request are the same whatever the key is, and the key is the value of one of the headers (so it
  appears in no URL and no logged body).
\<close>

theorem key_only_in_header:
  "case BuildRequest lib c req key streaming of
     Inl e \<Rightarrow> True
   | Inr h \<Rightarrow> (\<exists>x \<in> set (hr_Header h). carries_key key x) \<and>
       (\<exists>h'. BuildRequest lib c req key' streaming = Inr h' \<and> hr_URL h' = hr_URL h \<and> hr_Body h' = hr_Body h)"
proof (cases "BuildRequest lib c req key streaming")
  case (Inr h)
  then show ?thesis
    using openai.sends_key openai.header_only anthropic.sends_key anthropic.header_only
      google.sends_key google.header_only
    by (cases c) simp_all
qed simp

section \<open>An attempt over a dialect\<close>

text \<open>\<open>http\<close> answers a request: a transport error, or the status, the bytes read, and how the read ended.\<close>

definition upstream_of ::
  "golib \<Rightarrow> mint \<Rightarrow> (HttpRequest \<Rightarrow> string + (int \<times> string \<times> string option)) \<Rightarrow> internet" where
  "upstream_of lib io http c req key streaming =
     (case BuildRequest lib c req key streaming of
        Inl e \<Rightarrow> \<lparr>build_error = Some e, transport = Inl [], read_error = None, decoded = Inl [], chunks = [],
          stream_end = Inl []\<rparr>
      | Inr hr \<Rightarrow>
          (case http hr of
             Inl e \<Rightarrow> \<lparr>build_error = None, transport = Inl e, read_error = None, decoded = Inl [], chunks = [],
               stream_end = Inl []\<rparr>
           | Inr (code, body, broken) \<Rightarrow>
               (let (usage, chs, err) = DecodeStream lib io c (ReqModel req) body broken willing in
                \<lparr>build_error = None, transport = Inr (code, body), read_error = broken,
                 decoded = DecodeResponse lib io c body (ReqModel req), chunks = chs,
                 stream_end = (case err of Some e \<Rightarrow> Inl e | None \<Rightarrow> Inr usage)\<rparr>)))"

lemma scanSSE_emit:
  "scanSSE body broken step willing st = (st', chs, err) \<Longrightarrow>
    (case emit_chunks emit 0 chs of
       (out, Some e) \<Rightarrow> \<exists>st''. scanSSE body broken step emit st = (st'', out, Some e)
     | (out, None) \<Rightarrow> scanSSE body broken step emit st = (st', chs, err))"
proof -
  obtain ls long where s: "scan_lines maxLine body = (ls, long)" by fastforce
  have run: "scanSSE body broken step em st =
      sse_run step em (if long then Some too_long else broken) 0 (sse_payloads ls) st" for em
    by (simp add: scanSSE_def s)
  assume "scanSSE body broken step willing st = (st', chs, err)"
  then show ?thesis unfolding run by (rule sse_run_emit)
qed

lemma DecodeStream_emit:
  "DecodeStream lib io c m body broken willing = (usage, chs, err) \<Longrightarrow>
    (case emit_chunks emit 0 chs of
       (out, Some e) \<Rightarrow> \<exists>usage'. DecodeStream lib io c m body broken emit = (usage', out, Some e)
     | (out, None) \<Rightarrow> DecodeStream lib io c m body broken emit = (usage, chs, err))"
  using scanSSE_emit [of body broken "OpenAI_step lib" no_usage _ _ _ emit]
    scanSSE_emit [of body broken "Anthropic_step lib io m" anthropic_start _ _ _ emit]
    scanSSE_emit [of body broken "Google_step lib io m" google_start _ _ _ emit]
  by (cases c)
    (fastforce simp: OpenAI_DecodeStream_def Anthropic_DecodeStream_def Google_DecodeStream_def
      split: prod.splits option.splits)+

lemma attempt_dialect:
  assumes "map_of reg name = Some c" and "BuildRequest lib c req key (emit \<noteq> None) = Inr hr"
    and "http hr = Inr (code, body, broken)"
  shows "attempt (upstream_of lib io http) reg name req key emit =
    (if code \<noteq> 200 then ([], Inl (HTTPError name code (take 4096 body)))
     else case emit of
         Some em \<Rightarrow>
           (case DecodeStream lib io c (ReqModel req) body broken em of
              (usage, out, None) \<Rightarrow> (out, Inr (None, usage))
            | (usage, out, Some e) \<Rightarrow> (out, Inl e))
       | None \<Rightarrow>
           ([], case broken of
                  Some e \<Rightarrow> Inl e
                | None \<Rightarrow> map_sum id (\<lambda>r. (Some r, case RespUsage r of None \<Rightarrow> no_usage | Some u \<Rightarrow> u))
                    (DecodeResponse lib io c body (ReqModel req))))"
proof (cases emit)
  case None
  with assms show ?thesis
    by (simp add: attempt_def upstream_of_def case_prod_unfold Let_def split: option.split sum.split)
next
  case (Some em)
  obtain usage chs err where d: "DecodeStream lib io c (ReqModel req) body broken willing = (usage, chs, err)"
    by (cases "DecodeStream lib io c (ReqModel req) body broken willing") auto
  obtain out refused where o: "emit_chunks em 0 chs = (out, refused)" by fastforce
  from DecodeStream_emit [OF d, of em] o emit_all [of em 0 chs out] show ?thesis
    using assms Some d
    by (cases refused; cases err) (auto simp: attempt_def upstream_of_def)
qed

text \<open>
  C34. An attempt over a dialect is the dialect: when the request was built and the provider answered 200, a streaming
  attempt hands the client exactly the chunks of \<open>DecodeStream\<close> run against that client, and ends the way it ends;
  a whole answer is the one \<open>DecodeResponse\<close> reads; any other status becomes the error that names the provider and the
  status.
\<close>

theorem attempt_over_dialect:
  assumes "map_of reg name = Some c" and "BuildRequest lib c req key (emit \<noteq> None) = Inr hr"
    and "http hr = Inr (code, body, broken)"
  shows "attempt (upstream_of lib io http) reg name req key emit =
    (if code \<noteq> 200 then ([], Inl (HTTPError name code (take 4096 body)))
     else case emit of
         Some em \<Rightarrow>
           (case DecodeStream lib io c (ReqModel req) body broken em of
              (usage, out, None) \<Rightarrow> (out, Inr (None, usage))
            | (usage, out, Some e) \<Rightarrow> (out, Inl e))
       | None \<Rightarrow>
           ([], case broken of
                  Some e \<Rightarrow> Inl e
                | None \<Rightarrow> map_sum id (\<lambda>r. (Some r, case RespUsage r of None \<Rightarrow> no_usage | Some u \<Rightarrow> u))
                    (DecodeResponse lib io c body (ReqModel req))))"
  using assms by (rule attempt_dialect)

definition hello_request :: ChatRequest where
  "hello_request = model_request ''m'' [text_message ''user'' ''hello'']"

theorem attempt_over_dialect_witness:
  "attempt (upstream_of (table_lib []) \<lparr>id_at = 0, created_at = 0, uuids = (\<lambda>n. [])\<rparr> (\<lambda>hr. Inr (500, ''down'', None)))
     [(''groq'', OpenAIClient ''https://groq'' ''groq'')] ''groq'' hello_request ''key'' None =
   ([], Inl ''groq returned 500: down'')"
proof -
  have "\<exists>hr. BuildRequest (table_lib []) (OpenAIClient ''https://groq'' ''groq'') hello_request ''key''
      ((None :: (nat \<Rightarrow> string option) option) \<noteq> None) = Inr hr"
    by (simp add: OpenAI_BuildRequest_def renderBody_def body_fields_def hello_request_def model_request_def
        new_post_def Let_def)
  then obtain hr where hr: "BuildRequest (table_lib []) (OpenAIClient ''https://groq'' ''groq'') hello_request ''key''
      ((None :: (nat \<Rightarrow> string option) option) \<noteq> None) = Inr hr" ..
  have "Itoa 500 = ''500''" by code_simp
  then have "HTTPError ''groq'' 500 (take 4096 ''down'') = ''groq returned 500: down''"
    by (simp add: HTTPError_def TrimSpace_def trim_left_def trim_right_def is_space_def Let_def)
  with attempt_over_dialect [OF _ hr, where reg = "[(''groq'', OpenAIClient ''https://groq'' ''groq'')]" and name = "''groq''"
      and http = "\<lambda>hr. Inr (500, ''down'', None)" and io = "\<lparr>id_at = 0, created_at = 0, uuids = (\<lambda>n. [])\<rparr>"]
  show ?thesis by simp
qed

text \<open>
  C38. Whatever a provider sends, what the gateway passes on has a choice: every chunk an attempt streams and every
  whole answer it returns has at least one, so no caller indexes into an empty list.
\<close>

theorem attempts_carry_choices:
  "case attempt (upstream_of lib io http) reg name req key emit of
     (out, result) \<Rightarrow>
       list_all (\<lambda>ch. Choices ch \<noteq> []) out \<and>
       (case result of Inr (Some resp, usage) \<Rightarrow> Choices resp \<noteq> [] | _ \<Rightarrow> True)"
proof (cases "map_of reg name")
  case None
  then show ?thesis by (simp add: attempt_def)
next
  case (Some c)
  show ?thesis
  proof (cases "\<exists>hr answer. BuildRequest lib c req key (emit \<noteq> None) = Inr hr \<and> http hr = Inr answer")
    case True
    then obtain hr code body broken where hr: "BuildRequest lib c req key (emit \<noteq> None) = Inr hr"
      "http hr = Inr (code, body, broken)" by auto
    show ?thesis
      unfolding attempt_dialect [where http = http, OF Some hr]
      by (cases "DecodeResponse lib io c body (ReqModel req)")
        (auto split: option.splits prod.splits dest: DecodeStream_choices DecodeResponse_choices)
  next
    case False
    then show ?thesis
      using Some by (auto simp: attempt_def upstream_of_def split: sum.splits)
  qed
qed

end
