(* ===== verification/Probing.thy ===== *)
theory Probing
  imports Planning_Facts Attempts
begin

text \<open>
  Trial completions (\<open>internal/gateway/probe.go\<close>) and the table they are recorded in (\<open>internal/db/probes.go\<close>):
  which models a sweep tries and in which order, what one trial does to the bench, and what the sweep teaches
  the catalogue. The goroutines of a sweep take one provider each; a sweep is a schedule of the trials in the
  order they end, and each trial's effects are taken at its end.
\<close>

section \<open>The table of results\<close>

record ProbeResult =
  pr_Provider :: string
  pr_Model :: string
  pr_OK :: bool
  pr_LatencyMs :: int
  pr_Failure :: string

record ProbeRow =
  pb_OK :: bool
  pb_LatencyMs :: int
  pb_Failure :: "string option"
  pb_CheckedAt :: time

type_synonym probes = "(string \<times> string, ProbeRow) gomap"

definition RecordProbe :: "time \<Rightarrow> ProbeResult \<Rightarrow> probes \<Rightarrow> probes" where
  "RecordProbe now r t =
     gm_set (pr_Provider r, pr_Model r)
       \<lparr>pb_OK = pr_OK r, pb_LatencyMs = pr_LatencyMs r,
        pb_Failure = (if pr_Failure r \<noteq> [] then Some (pr_Failure r) else None), pb_CheckedAt = now\<rparr> t"

text \<open>\<open>intervalArg\<close>: whole seconds, and a day when the duration is not positive.\<close>

definition intervalArg :: "duration \<Rightarrow> duration" where
  "intervalArg d = (if d \<le> 0 then 24 * Hour else d div Second * Second)"

definition fresh :: "time \<Rightarrow> duration \<Rightarrow> ProbeRow \<Rightarrow> bool" where
  "fresh now window row \<longleftrightarrow> now - intervalArg window < pb_CheckedAt row"

definition row_key :: "string \<times> string \<Rightarrow> string" where
  "row_key pm = TagKey (fst pm) (snd pm)"

definition ConfirmedModels :: "time \<Rightarrow> duration \<Rightarrow> probes \<Rightarrow> (string, bool) gomap" where
  "ConfirmedModels now window t =
     fold (\<lambda>(pm, row). gm_set (row_key pm) True) (filter (\<lambda>(pm, row). pb_OK row \<and> fresh now window row) t) []"

definition AttemptedModels :: "time \<Rightarrow> duration \<Rightarrow> probes \<Rightarrow> string list" where
  "AttemptedModels now window t = map (\<lambda>(pm, row). row_key pm) (filter (\<lambda>(pm, row). fresh now window row) t)"

definition ForgetProbes :: "string \<Rightarrow> probes \<Rightarrow> probes" where
  "ForgetProbes providerName t = filter (\<lambda>(pm, row). fst pm \<noteq> providerName) t"

text \<open>The two reads of \<open>LoadConfirmedModels\<close>: when one fails the catalogue stays as it was.\<close>

record load_io =
  conf_at :: time
  conf_ok :: bool
  tried_at :: time
  tried_ok :: bool
  set_at :: time
  mark_at :: time

definition LoadConfirmedModels :: "load_io \<Rightarrow> Gateway \<Rightarrow> probes \<Rightarrow> Catalog \<Rightarrow> bool \<times> Catalog" where
  "LoadConfirmedModels io g t c =
     (if \<not> conf_ok io \<or> \<not> tried_ok io then (False, c)
      else (True,
        MarkProbed (mark_at io) (AttemptedModels (tried_at io) (ProbeFreshness (cfg g)) t)
          (SetConfirmed (set_at io) (ConfirmedModels (conf_at io) (ProbeFreshness (cfg g)) t) c)))"

section \<open>Which models a sweep tries\<close>

definition containsCandidate :: "candidate list \<Rightarrow> candidate \<Rightarrow> bool" where
  "containsCandidate cs want \<longleftrightarrow> list_ex (\<lambda>c. c = want) cs"

fun probe_sample :: "int \<Rightarrow> keys \<Rightarrow> (string, int) gomap \<Rightarrow> ModelProfile list \<Rightarrow> candidate list" where
  "probe_sample per keys counts [] = []"
| "probe_sample per keys counts (p # ps) =
     (if \<not> keyed keys (Provider p) \<or> per \<le> gm_at 0 counts (Provider p) then probe_sample per keys counts ps
      else profile_cand p # probe_sample per keys (gm_set (Provider p) (gm_at 0 counts (Provider p) + 1) counts) ps)"

text \<open>Every marked model is probed too.\<close>

fun add_marked :: "Gateway \<Rightarrow> keys \<Rightarrow> ModelProfile list \<Rightarrow> candidate list \<Rightarrow> candidate list" where
  "add_marked g keys [] out = out"
| "add_marked g keys (p # ps) out =
     (if \<not> keyed keys (Provider p) \<or> TagsFor (catalog g) (Provider p) (Model p) = [] then add_marked g keys ps out
      else add_marked g keys ps (if containsCandidate out (profile_cand p) then out else out @ [profile_cand p]))"

definition splitByProbeState ::
  "ModelProfile list \<Rightarrow> Catalog \<Rightarrow> ModelProfile list \<times> ModelProfile list \<times> ModelProfile list" where
  "splitByProbeState models c =
     (let conf = \<lambda>p. Confirmed c (Provider p) (Model p); prob = \<lambda>p. Probed c (Provider p) (Model p) in
      (filter conf models, filter (\<lambda>p. \<not> conf p \<and> \<not> prob p) models, filter (\<lambda>p. \<not> conf p \<and> prob p) models))"

definition probe_order :: "Gateway \<Rightarrow> ModelProfile list \<Rightarrow> ModelProfile list" where
  "probe_order g pool =
     slice_stable general_less (RankForTask pool TaskConversation (RoutingObjective (cfg g)))"

text \<open>\<open>r\<close> orders the map walk of \<open>FreeModels\<close>, \<open>r'\<close> that of the last \<open>Discovered\<close>.\<close>

definition freeProbeTargets :: "string list \<Rightarrow> string list \<Rightarrow> Gateway \<Rightarrow> keys \<Rightarrow> candidate list" where
  "freeProbeTargets r r' g keys =
     (let pool = filter (\<lambda>p. keyed keys (Provider p)) (probe_order g (FreeModels r (catalog g)));
          order = sort (remdups (map Provider pool));
          group = (\<lambda>name. let (confirmed, unprobed, failed) =
              splitByProbeState (filter (\<lambda>p. Provider p = name) pool) (catalog g)
            in map profile_cand (confirmed @ unprobed @ failed))
      in add_marked g keys (Discovered r' (catalog g)) (concat (map group order)))"

definition probeTargets :: "string list \<Rightarrow> string list \<Rightarrow> Gateway \<Rightarrow> keys \<Rightarrow> candidate list" where
  "probeTargets r r' g keys =
     (if freeOnlyFlag g then freeProbeTargets r r' g keys
      else
        let per = (if ProbeModelsPerProvider (cfg g) < 1 then 1 else ProbeModelsPerProvider (cfg g));
            pool = probe_order g (Discovered r (catalog g))
        in add_marked g keys (Discovered r' (catalog g)) (probe_sample per keys [] pool))"

section \<open>One trial\<close>

record probe_io =
  p_net :: internet
  p_latency :: duration
  p_bench_at :: time
  p_bench_ord :: "string list"
  p_saved :: bool
  p_saved_at :: time

definition probeMessages :: "Message list" where
  "probeMessages = [text_message ''user'' ''hi'']"

definition probe_request :: "string \<Rightarrow> ChatRequest" where
  "probe_request m = (model_request m probeMessages)\<lparr>MaxTokens := 1\<rparr>"

definition probeOne ::
  "Gateway \<Rightarrow> probe_io \<Rightarrow> candidate \<Rightarrow> string \<Rightarrow> Health \<Rightarrow> ProbeResult \<times> Health" where
  "probeOne g io c apiKey h =
     (let result = \<lparr>pr_Provider = cand_provider c, pr_Model = cand_model c, pr_OK = False, pr_LatencyMs = 0, pr_Failure = []\<rparr> in
      if apiKey = [] then (result\<lparr>pr_Failure := ''no API key configured''\<rparr>, h)
      else let result = result\<lparr>pr_LatencyMs := Milliseconds (p_latency io)\<rparr> in
        case snd (attempt (p_net io) (registry g) (cand_provider c) (probe_request (cand_model c)) apiKey None) of
          Inl err \<Rightarrow>
            (result\<lparr>pr_Failure := truncateReason err\<rparr>,
             benchIfAccessDenied (p_bench_ord io) (catalog g) (p_bench_at io) c err h)
        | Inr answer \<Rightarrow> (result\<lparr>pr_OK := True\<rparr>, unbench c h))"

section \<open>A sweep\<close>

record ProbeSummary =
  sm_Checked :: nat
  sm_Working :: nat
  sm_Failed :: nat
  ByProvider :: "(string, nat) gomap"

record Sweep =
  sw_summary :: ProbeSummary
  sw_health :: Health
  sw_probes :: probes

definition no_summary :: ProbeSummary where
  "no_summary = \<lparr>sm_Checked = 0, sm_Working = 0, sm_Failed = 0, ByProvider = []\<rparr>"

definition count_result :: "ProbeResult \<Rightarrow> ProbeSummary \<Rightarrow> ProbeSummary" where
  "count_result r s =
     (let s1 = s\<lparr>sm_Checked := sm_Checked s + 1\<rparr> in
      if pr_OK r then
        s1\<lparr>sm_Working := sm_Working s + 1,
          ByProvider := gm_set (pr_Provider r) (gm_at 0 (ByProvider s) (pr_Provider r) + 1) (ByProvider s)\<rparr>
      else s1\<lparr>sm_Failed := sm_Failed s + 1\<rparr>)"

definition probe_step :: "Gateway \<Rightarrow> keys \<Rightarrow> candidate \<times> probe_io \<Rightarrow> Sweep \<Rightarrow> Sweep" where
  "probe_step g keys step s =
     (let (c, io) = step;
          (r, h) = probeOne g io c (gm_at [] keys (cand_provider c)) (sw_health s)
      in \<lparr>sw_summary = count_result r (sw_summary s), sw_health = h,
          sw_probes = (if p_saved io then RecordProbe (p_saved_at io) r (sw_probes s) else sw_probes s)\<rparr>)"

text \<open>
  A schedule of a sweep takes each provider's targets in order; a cancelled context ends a provider's trials
  early, so they are a prefix, and a complete sweep takes them all.
\<close>

definition at_provider :: "string \<Rightarrow> candidate list \<Rightarrow> candidate list" where
  "at_provider name cs = filter (\<lambda>c. cand_provider c = name) cs"

definition schedule_of :: "candidate list \<Rightarrow> (candidate \<times> probe_io) list \<Rightarrow> bool" where
  "schedule_of targets steps \<longleftrightarrow>
     (\<forall>name \<in> set (map cand_provider (targets @ map fst steps)).
        \<exists>rest. at_provider name targets = at_provider name (map fst steps) @ rest)"

definition complete_schedule :: "candidate list \<Rightarrow> (candidate \<times> probe_io) list \<Rightarrow> bool" where
  "complete_schedule targets steps \<longleftrightarrow>
     (\<forall>name \<in> set (map cand_provider (targets @ map fst steps)).
        at_provider name targets = at_provider name (map fst steps))"

text \<open>\<open>keys_read\<close> is the read of the keys; without targets nothing is read or written.\<close>

definition ProbeModels ::
  "Gateway \<Rightarrow> keys option \<Rightarrow> string list \<Rightarrow> string list \<Rightarrow> (candidate \<times> probe_io) list \<Rightarrow> load_io \<Rightarrow> Health \<Rightarrow> probes \<Rightarrow>
    (ProbeSummary option \<times> Sweep \<times> Catalog)" where
  "ProbeModels g keys_read r r' steps io h t =
     (let idle = \<lparr>sw_summary = no_summary, sw_health = h, sw_probes = t\<rparr> in
      case keys_read of
        None \<Rightarrow> (None, idle, catalog g)
      | Some keys \<Rightarrow>
          if probeTargets r r' g keys = [] then (Some no_summary, idle, catalog g)
          else let s = fold (probe_step g keys) steps idle in
            (Some (sw_summary s), s, snd (LoadConfirmedModels io g (sw_probes s) (catalog g))))"

definition ConfirmedSummary :: "string list \<Rightarrow> Catalog \<Rightarrow> (string, nat) gomap" where
  "ConfirmedSummary r c =
     fold (\<lambda>p out. if Confirmed c (Provider p) (Model p) then gm_set (Provider p) (gm_at 0 out (Provider p) + 1) out else out)
       (Discovered r c) []"

section \<open>What a sweep tries\<close>

lemma set_add_marked:
  "set (add_marked g keys ps out) =
     set out \<union> profile_cand ` {p \<in> set ps. keyed keys (Provider p) \<and> TagsFor (catalog g) (Provider p) (Model p) \<noteq> []}"
  by (induction g keys ps out rule: add_marked.induct) (auto simp: containsCandidate_def list_ex_iff)

lemma set_probe_order [simp]: "set (probe_order g pool) = set pool"
  by (simp add: probe_order_def)

lemma set_split:
  "splitByProbeState ms c = (a, b, d) \<Longrightarrow> set a \<union> set b \<union> set d = set ms"
  by (auto simp: splitByProbeState_def Let_def)

lemma set_free_targets:
  assumes "freeOnlyFlag g"
  shows "set (probeTargets r r' g keys) =
    profile_cand ` {p \<in> set (FreeModels r (catalog g)). keyed keys (Provider p)} \<union>
    profile_cand ` {p \<in> set (Discovered r' (catalog g)). keyed keys (Provider p) \<and>
      TagsFor (catalog g) (Provider p) (Model p) \<noteq> []}"
proof -
  let ?pool = "filter (\<lambda>p. keyed keys (Provider p)) (probe_order g (FreeModels r (catalog g)))"
  let ?group = "\<lambda>name. let (confirmed, unprobed, failed) =
      splitByProbeState (filter (\<lambda>p. Provider p = name) ?pool) (catalog g)
    in map profile_cand (confirmed @ unprobed @ failed)"
  have "set (?group name) = profile_cand ` {p \<in> set ?pool. Provider p = name}" for name
    using set_split [of "filter (\<lambda>p. Provider p = name) ?pool" "catalog g"]
    by (cases "splitByProbeState (filter (\<lambda>p. Provider p = name) ?pool) (catalog g)") (simp flip: image_Un add: Un_assoc)
  then have "set (concat (map ?group (sort (remdups (map Provider ?pool))))) = profile_cand ` set ?pool"
    by (auto simp only: set_concat set_map set_sort set_remdups)
  with assms show ?thesis
    by (simp only: probeTargets_def freeProbeTargets_def Let_def set_add_marked if_True) simp
qed

text \<open>
  In free-only mode (the default) a sweep tries exactly the models that cost nothing, plus those the operator
  marked: every known free model at a provider with a key is a target, every marked discovered model at such a
  provider is, and nothing else.
\<close>

theorem free_sweep_covers:
  assumes "freeOnlyFlag g"
  shows "set (probeTargets r r' g keys) =
    profile_cand ` {p \<in> set (FreeModels r (catalog g)). keyed keys (Provider p)} \<union>
    profile_cand ` {p \<in> set (Discovered r' (catalog g)). keyed keys (Provider p) \<and>
      TagsFor (catalog g) (Provider p) (Model p) \<noteq> []}"
  using assms by (rule set_free_targets)

section \<open>What a sweep learns\<close>

definition probe_answered :: "Gateway \<Rightarrow> keys \<Rightarrow> candidate \<times> probe_io \<Rightarrow> bool" where
  "probe_answered g keys step \<longleftrightarrow>
     (let (c, io) = step; apiKey = gm_at [] keys (cand_provider c) in
      apiKey \<noteq> [] \<and>
      (case snd (attempt (p_net io) (registry g) (cand_provider c) (probe_request (cand_model c)) apiKey None) of
         Inl err \<Rightarrow> False | Inr answer \<Rightarrow> True))"

lemma probeOne_result:
  "probeOne g io c (gm_at [] keys (cand_provider c)) h = (r, h') \<Longrightarrow>
    pr_Provider r = cand_provider c \<and> pr_Model r = cand_model c \<and> pr_OK r = probe_answered g keys (c, io)"
  by (auto simp: probeOne_def probe_answered_def Let_def split: if_splits sum.splits)

definition sweep_row :: "Gateway \<Rightarrow> keys \<Rightarrow> candidate \<times> probe_io \<Rightarrow> ProbeRow \<Rightarrow> bool" where
  "sweep_row g keys step row \<longleftrightarrow> pb_OK row = probe_answered g keys step \<and> pb_CheckedAt row = p_saved_at (snd step)"

definition cand_key :: "candidate \<Rightarrow> string \<times> string" where
  "cand_key c = (cand_provider c, cand_model c)"

lemma cand_key_inj: "cand_key a = cand_key b \<longleftrightarrow> a = b"
  by (cases a; cases b) (simp add: cand_key_def)

lemma probe_step_table:
  assumes "p_saved io"
  shows "\<exists>row. sw_probes (probe_step g keys (c, io) s) = gm_set (cand_key c) row (sw_probes s) \<and> sweep_row g keys (c, io) row"
proof -
  obtain r h where r: "probeOne g io c (gm_at [] keys (cand_provider c)) (sw_health s) = (r, h)" by fastforce
  from probeOne_result [OF r] r assms show ?thesis
    by (auto simp: probe_step_def RecordProbe_def cand_key_def sweep_row_def)
qed

lemma sweep_table:
  assumes "distinct (map fst steps)" and "\<forall>step \<in> set steps. p_saved (snd step)"
  shows "(\<forall>step \<in> set steps. \<exists>row. map_of (sw_probes (fold (probe_step g keys) steps s)) (cand_key (fst step)) = Some row \<and>
      sweep_row g keys step row) \<and>
    (\<forall>pm. pm \<notin> cand_key ` set (map fst steps) \<longrightarrow>
      map_of (sw_probes (fold (probe_step g keys) steps s)) pm = map_of (sw_probes s) pm) \<and>
    (gm_ok (sw_probes s) \<longrightarrow> gm_ok (sw_probes (fold (probe_step g keys) steps s))) \<and>
    fst ` set (sw_probes (fold (probe_step g keys) steps s)) = fst ` set (sw_probes s) \<union> cand_key ` set (map fst steps)"
  using assms
proof (induction steps arbitrary: s)
  case (Cons step steps)
  obtain c io where step: "step = (c, io)" by (cases step)
  obtain row where row: "sw_probes (probe_step g keys (c, io) s) = gm_set (cand_key c) row (sw_probes s)"
    "sweep_row g keys (c, io) row"
    using probe_step_table [of io g keys c s] Cons.prems(2) by (auto simp: step)
  have tail: "distinct (map fst steps)" "\<forall>step \<in> set steps. p_saved (snd step)" using Cons.prems by simp_all
  have IH: "\<forall>st \<in> set steps. \<exists>row. map_of (sw_probes (fold (probe_step g keys) steps (probe_step g keys (c, io) s)))
      (cand_key (fst st)) = Some row \<and> sweep_row g keys st row"
    "\<And>pm. pm \<notin> cand_key ` set (map fst steps) \<Longrightarrow>
      map_of (sw_probes (fold (probe_step g keys) steps (probe_step g keys (c, io) s))) pm =
        map_of (sw_probes (probe_step g keys (c, io) s)) pm"
    "gm_ok (sw_probes (probe_step g keys (c, io) s)) \<Longrightarrow>
      gm_ok (sw_probes (fold (probe_step g keys) steps (probe_step g keys (c, io) s)))"
    "fst ` set (sw_probes (fold (probe_step g keys) steps (probe_step g keys (c, io) s))) =
      fst ` set (sw_probes (probe_step g keys (c, io) s)) \<union> cand_key ` set (map fst steps)"
    using Cons.IH [OF tail, of "probe_step g keys (c, io) s"] by blast+
  have "cand_key c \<notin> cand_key ` set (map fst steps)"
    using Cons.prems(1) by (force simp: step cand_key_inj)
  from IH(2) [OF this] have "map_of (sw_probes (fold (probe_step g keys) steps (probe_step g keys (c, io) s))) (cand_key c) = Some row"
    by (simp add: row)
  moreover have "fst ` set (gm_set (cand_key c) row (sw_probes s)) = insert (cand_key c) (fst ` set (sw_probes s))"
    by (rule gm_keys_set)
  ultimately show ?case
    using IH row gm_ok_set [of "sw_probes s" "cand_key c" row] by (simp add: step)
qed simp

lemma sweep_counts:
  "let s' = sw_summary (fold (probe_step g keys) steps s) in
    sm_Checked s' = sm_Checked (sw_summary s) + length steps \<and>
    sm_Working s' = sm_Working (sw_summary s) + length (filter (probe_answered g keys) steps) \<and>
    sm_Failed s' = sm_Failed (sw_summary s) + length (filter (\<lambda>st. \<not> probe_answered g keys st) steps) \<and>
    (\<forall>name. gm_at 0 (ByProvider s') name = gm_at 0 (ByProvider (sw_summary s)) name +
      length (filter (\<lambda>st. probe_answered g keys st \<and> cand_provider (fst st) = name) steps))"
proof (induction steps arbitrary: s)
  case (Cons step steps)
  obtain c io where step: "step = (c, io)" by (cases step)
  obtain r h where r: "probeOne g io c (gm_at [] keys (cand_provider c)) (sw_health s) = (r, h)" by fastforce
  from probeOne_result [OF r] r
  have "sw_summary (probe_step g keys step s) = count_result r (sw_summary s)" "pr_OK r = probe_answered g keys step"
    "pr_Provider r = cand_provider (fst step)"
    by (simp_all add: probe_step_def step)
  with Cons.IH [of "probe_step g keys step s"] show ?case
    by (auto simp: count_result_def Let_def)
qed (simp add: Let_def)

lemma TagKey_eq:
  assumes "CHR ''/'' \<notin> set p" and "CHR ''/'' \<notin> set p'"
  shows "TagKey p m = TagKey p' m' \<longleftrightarrow> p = p' \<and> m = m'"
proof
  assume eq: "TagKey p m = TagKey p' m'"
  have "takeWhile (\<lambda>c. c \<noteq> CHR ''/'') (TagKey q n) = q" if "CHR ''/'' \<notin> set q" for q n
    using that by (induction q) (auto simp: TagKey_def)
  with assms eq have "p = p'" by metis
  with eq show "p = p' \<and> m = m'" by (simp add: TagKey_def)
qed simp

lemma ConfirmedModels_spec:
  "gm_ok (ConfirmedModels now window t) \<and>
    (gm_at False (ConfirmedModels now window t) k \<longleftrightarrow>
      (\<exists>(pm, row) \<in> set t. pb_OK row \<and> fresh now window row \<and> row_key pm = k))"
proof -
  have "gm_ok m \<Longrightarrow> gm_ok (fold (\<lambda>(pm, row). gm_set (row_key pm) True) rows m) \<and>
      (gm_at False (fold (\<lambda>(pm, row). gm_set (row_key pm) True) rows m) k \<longleftrightarrow>
        gm_at False m k \<or> (\<exists>(pm, row) \<in> set rows. row_key pm = k))" for rows m
  proof (induction rows arbitrary: m)
    case (Cons x rows)
    from Cons.IH [of "gm_set (row_key (fst x)) True m"] Cons.prems show ?case
      by (auto simp: gm_ok_set case_prod_unfold)
  qed simp
  from this [of "[]"] show ?thesis unfolding ConfirmedModels_def by fastforce
qed

lemma Confirmed_loaded:
  assumes "conf_ok io" and "tried_ok io"
  shows "Confirmed (snd (LoadConfirmedModels io g t c)) p m \<longleftrightarrow>
    (\<exists>(pm, row) \<in> set t. pb_OK row \<and> fresh (conf_at io) (ProbeFreshness (cfg g)) row \<and> row_key pm = TagKey p m)"
proof -
  let ?conf = "ConfirmedModels (conf_at io) (ProbeFreshness (cfg g)) t"
  have "Confirmed (snd (LoadConfirmedModels io g t c)) p m = gm_at False ?conf (TagKey p m)"
    using assms ConfirmedModels_spec [of "conf_at io" "ProbeFreshness (cfg g)" t]
    by (simp add: LoadConfirmedModels_def Confirmed_def MarkProbed_def SetConfirmed_def gm_at_def map_of_copy_map
        map_of_only_true split: option.splits)
  then show ?thesis by (simp add: ConfirmedModels_spec)
qed

text \<open>
  C39. A sweep is believed: when the results were saved and read back within the freshness window, a model the sweep
  tried counts as confirmed afterwards exactly when its trial completion was answered, whatever the table and the
  catalogue said before. The summary counts each trial once, as working or as failed, and the working ones
  per provider. (Provider names have no slash, as \<open>ValidateSpec\<close> demands.)
\<close>

theorem sweep_confirms:
  assumes "ProbeModels g (Some keys) r r' steps io h t = (Some summary, s, cat)"
    and "probeTargets r r' g keys \<noteq> []" and "distinct (map fst steps)"
    and "\<forall>(c, p) \<in> set steps. p_saved p \<and> conf_at io - intervalArg (ProbeFreshness (cfg g)) < p_saved_at p"
    and "conf_ok io" and "tried_ok io" and "gm_ok t"
    and "\<forall>pm \<in> fst ` set t \<union> cand_key ` set (map fst steps). CHR ''/'' \<notin> set (fst pm)"
  shows "(\<forall>step \<in> set steps. Confirmed cat (cand_provider (fst step)) (cand_model (fst step)) = probe_answered g keys step) \<and>
    sm_Checked summary = length steps \<and> sm_Working summary = length (filter (probe_answered g keys) steps) \<and>
    sm_Failed summary = length (filter (\<lambda>st. \<not> probe_answered g keys st) steps) \<and>
    (\<forall>name. gm_at 0 (ByProvider summary) name =
      length (filter (\<lambda>st. probe_answered g keys st \<and> cand_provider (fst st) = name) steps))"
proof -
  let ?idle = "\<lparr>sw_summary = no_summary, sw_health = h, sw_probes = t\<rparr>"
  let ?after = "fold (probe_step g keys) steps ?idle"
  from assms(1,2) have s: "s = ?after" "summary = sw_summary ?after"
    "cat = snd (LoadConfirmedModels io g (sw_probes ?after) (catalog g))"
    by (auto simp: ProbeModels_def Let_def)
  have saved: "\<forall>step \<in> set steps. p_saved (snd step)" using assms(4) by auto
  note table = sweep_table [OF assms(3) saved, of g keys ?idle]
  note rows = conjunct1 [OF table] and rest = conjunct2 [OF conjunct2 [OF table]]
  have ok: "gm_ok (sw_probes ?after)" using conjunct1 [OF rest] assms(7) by simp
  have keys: "fst ` set (sw_probes ?after) = fst ` set t \<union> cand_key ` set (map fst steps)"
    using conjunct2 [OF rest] by simp
  have "Confirmed cat (cand_provider (fst step)) (cand_model (fst step)) = probe_answered g keys step" if st: "step \<in> set steps" for step
  proof -
    obtain row where row: "map_of (sw_probes ?after) (cand_key (fst step)) = Some row" "sweep_row g keys step row"
      using bspec [OF rows st] by (elim exE conjE) (rule that)
    have own: "pm = cand_key (fst step) \<and> row' = row"
      if "(pm, row') \<in> set (sw_probes ?after)" "row_key pm = TagKey (cand_provider (fst step)) (cand_model (fst step))" for pm row'
    proof -
      have "pm \<in> fst ` set t \<union> cand_key ` set (map fst steps)" using that(1) keys by force
      from bspec [OF assms(8) this] have 1: "CHR ''/'' \<notin> set (fst pm)" .
      have "cand_key (fst step) \<in> fst ` set t \<union> cand_key ` set (map fst steps)" using st by auto
      from bspec [OF assms(8) this] have 2: "CHR ''/'' \<notin> set (cand_provider (fst step))" by (simp add: cand_key_def)
      from that(2) TagKey_eq [OF 1 2] have pm: "pm = cand_key (fst step)"
        by (simp add: row_key_def cand_key_def prod_eq_iff)
      with that(1) row(1) ok show ?thesis by (simp add: map_of_is_SomeI)
    qed
    have "conf_at io - intervalArg (ProbeFreshness (cfg g)) < p_saved_at (snd step)"
      using bspec [OF assms(4) st] by (simp add: case_prod_unfold)
    then have fresh: "fresh (conf_at io) (ProbeFreshness (cfg g)) row"
      using row(2) by (simp add: fresh_def sweep_row_def)
    have mem: "(cand_key (fst step), row) \<in> set (sw_probes ?after)" using row(1) by (rule map_of_SomeD)
    show ?thesis unfolding s(3) Confirmed_loaded [OF assms(5,6)]
    proof
      assume "\<exists>(pm, row) \<in> set (sw_probes ?after). pb_OK row \<and> fresh (conf_at io) (ProbeFreshness (cfg g)) row \<and>
          row_key pm = TagKey (cand_provider (fst step)) (cand_model (fst step))"
      with own have "pb_OK row" by (elim bexE) auto
      with row(2) show "probe_answered g keys step" by (simp add: sweep_row_def)
    next
      assume "probe_answered g keys step"
      with row(2) have "pb_OK row" by (simp add: sweep_row_def)
      with mem fresh show "\<exists>(pm, row) \<in> set (sw_probes ?after). pb_OK row \<and>
          fresh (conf_at io) (ProbeFreshness (cfg g)) row \<and>
          row_key pm = TagKey (cand_provider (fst step)) (cand_model (fst step))"
        by (intro bexI [of _ "(cand_key (fst step), row)"]) (simp_all add: row_key_def cand_key_def)
    qed
  qed
  moreover from sweep_counts [of g keys steps ?idle] have
    "sm_Checked summary = length steps" "sm_Working summary = length (filter (probe_answered g keys) steps)"
    "sm_Failed summary = length (filter (\<lambda>st. \<not> probe_answered g keys st) steps)"
    "\<And>name. gm_at 0 (ByProvider summary) name = length (filter (\<lambda>st. probe_answered g keys st \<and> cand_provider (fst st) = name) steps)"
    by (simp_all add: s(2) Let_def no_summary_def)
  ultimately show ?thesis by blast
qed

text \<open>A sweep of two models of the small gateway: one answers, the other is refused.\<close>

definition probe_with :: "upstream \<Rightarrow> probe_io" where
  "probe_with u = \<lparr>p_net = (\<lambda>_ _ _ _. u), p_latency = 0, p_bench_at = 1, p_bench_ord = [''groq''], p_saved = True,
     p_saved_at = 1\<rparr>"

definition refusing :: upstream where
  "refusing = \<lparr>build_error = None, transport = Inl ''context canceled'', read_error = None, decoded = Inl [], chunks = [],
     stream_end = Inl []\<rparr>"

definition replying :: upstream where
  "replying = \<lparr>build_error = None, transport = Inr (200, []), read_error = None,
     decoded = Inr \<lparr>resp_ID = [], resp_Object = [], Created = 0, RespModel = [], Choices = [], RespUsage = None\<rparr>,
     chunks = [], stream_end = Inl []\<rparr>"

definition two_probes :: "(candidate \<times> probe_io) list" where
  "two_probes = [(cand ''groq'' ''a1'', probe_with replying), (cand ''groq'' ''a2'', probe_with refusing)]"

definition load_at_once :: load_io where
  "load_at_once = \<lparr>conf_at = 1, conf_ok = True, tried_at = 1, tried_ok = True, set_at = 1, mark_at = 1\<rparr>"

lemma two_probes_answered:
  "probe_answered (small_gateway True) small_keys (cand ''groq'' ''a1'', probe_with replying)"
  "\<not> probe_answered (small_gateway True) small_keys (cand ''groq'' ''a2'', probe_with refusing)"
  by (simp_all add: probe_answered_def attempt_def probe_with_def replying_def refusing_def small_gateway_config
      small_keys_def gm_at_def Let_def)

lemma small_freshness: "0 < intervalArg (ProbeFreshness (cfg (small_gateway True)))"
  by (simp add: small_gateway_def Load_def Let_def intervalArg_def getEnvDuration_def Hour_def Minute_def Second_def)

theorem sweep_confirms_witness:
  "case ProbeModels (small_gateway True) (Some small_keys) [''groq''] [''groq''] two_probes load_at_once healthy [] of
     (summary, s, cat) \<Rightarrow> Confirmed cat ''groq'' ''a1'' \<and> \<not> Confirmed cat ''groq'' ''a2''"
proof -
  let ?g = "small_gateway True"
  have "convert_discovered (listed ''a1'' 0) \<in> set (FreeModels [''groq''] small_catalog)"
    by (simp add: small_gateway_free)
  moreover have "keyed small_keys (Provider (convert_discovered (listed ''a1'' 0)))"
    using small_gateway_catalog by (simp add: convert_discovered_def listed_def)
  ultimately have targets: "probeTargets [''groq''] [''groq''] ?g small_keys \<noteq> []"
    using set_free_targets [of ?g "[''groq'']" "[''groq'']" small_keys] by (force simp: small_gateway_config)
  obtain summary s cat where run: "ProbeModels ?g (Some small_keys) [''groq''] [''groq''] two_probes load_at_once healthy [] =
      (Some summary, s, cat)"
    using targets by (auto simp: ProbeModels_def Let_def)
  have "\<forall>(c, p) \<in> set two_probes. p_saved p \<and>
      conf_at load_at_once - intervalArg (ProbeFreshness (cfg ?g)) < p_saved_at p"
    using small_freshness by (simp add: two_probes_def probe_with_def load_at_once_def)
  from sweep_confirms [OF run targets _ this] have
    "\<forall>step \<in> set two_probes. Confirmed cat (cand_provider (fst step)) (cand_model (fst step)) =
      probe_answered ?g small_keys step"
    by (simp add: two_probes_def load_at_once_def cand_key_def)
  then have "Confirmed cat ''groq'' ''a1'' \<and> \<not> Confirmed cat ''groq'' ''a2''"
    using two_probes_answered by (simp add: two_probes_def)
  then show ?thesis unfolding run by simp
qed

text \<open>A trial cut off by the gateway's own shutdown is recorded like a refusal, and saved all the same.\<close>

lemma cancelled_trial_is_a_refusal:
  "pb_OK (the (map_of (sw_probes (probe_step (small_gateway True) small_keys (cand ''groq'' ''a2'', probe_with refusing) s))
    (''groq'', ''a2''))) = False"
proof -
  obtain row where "sw_probes (probe_step (small_gateway True) small_keys (cand ''groq'' ''a2'', probe_with refusing) s) =
      gm_set (cand_key (cand ''groq'' ''a2'')) row (sw_probes s)"
    "sweep_row (small_gateway True) small_keys (cand ''groq'' ''a2'', probe_with refusing) row"
    using probe_step_table [of "probe_with refusing" "small_gateway True" small_keys "cand ''groq'' ''a2''" s]
    by (auto simp add: probe_with_def [of refusing, THEN arg_cong [where f = p_saved]])
  then show ?thesis using two_probes_answered(2) by (simp add: cand_key_def sweep_row_def)
qed

theorem free_sweep_covers_witness:
  "cand ''groq'' ''a1'' \<in> set (probeTargets [''groq''] [''groq''] (small_gateway True) small_keys)"
proof -
  have "convert_discovered (listed ''a1'' 0) \<in> set (FreeModels [''groq''] small_catalog)"
    by (simp add: small_gateway_free)
  moreover have "keyed small_keys (Provider (convert_discovered (listed ''a1'' 0)))"
    "profile_cand (convert_discovered (listed ''a1'' 0)) = cand ''groq'' ''a1''"
    using small_gateway_catalog by (simp_all add: convert_discovered_def listed_def profile_cand_def)
  ultimately show ?thesis
    using free_sweep_covers [of "small_gateway True" "[''groq'']" "[''groq'']" small_keys]
    by (force simp: small_gateway_config)
qed

end
