(* ===== verification/Throttle.thy ===== *)
theory Throttle
  imports Health
begin

text \<open>
  The sign-in throttle of \<open>internal/api/auth.go\<close>: failures are counted per identity (an email or an address),
  and too many within a window bar the identity for a while. Each operation takes one reading of the clock.
\<close>

declare map_of_eq_Some_iff [simp del]

section \<open>State and operations\<close>

definition maxFailedAttempts :: int where "maxFailedAttempts = 5"
definition lockoutWindow :: duration where "lockoutWindow = 15 * Minute"
definition lockoutDuration :: duration where "lockoutDuration = 5 * Minute"

record attemptRecord =
  ar_failures :: int
  ar_first :: time
  ar_until :: time

record loginThrottle =
  records :: "(string, attemptRecord) gomap"
  last_sweep :: time

definition newLoginThrottle :: loginThrottle where
  "newLoginThrottle = \<lparr>records = [], last_sweep = zero_time\<rparr>"

definition forgotten :: "time \<Rightarrow> attemptRecord \<Rightarrow> bool" where
  "forgotten now r \<longleftrightarrow> After now (ar_until r) \<and> lockoutWindow < now - ar_first r"

definition sweepLocked :: "time \<Rightarrow> loginThrottle \<Rightarrow> loginThrottle" where
  "sweepLocked now t =
     (if now - last_sweep t < lockoutWindow then t
      else t\<lparr>last_sweep := now, records := filter (\<lambda>(k, r). \<not> forgotten now r) (records t)\<rparr>)"

text \<open>\<open>Some wait\<close> when the identity is barred, with the time left.\<close>

definition locked :: "time \<Rightarrow> string \<Rightarrow> loginThrottle \<Rightarrow> duration option \<times> loginThrottle" where
  "locked now key t =
     (let t1 = sweepLocked now t in
      (case map_of (records t1) key of
         None \<Rightarrow> None
       | Some r \<Rightarrow> if After now (ar_until r) then None else Some (ar_until r - now), t1))"

definition fail :: "time \<Rightarrow> string \<Rightarrow> loginThrottle \<Rightarrow> loginThrottle" where
  "fail now key t =
     (case map_of (records t) key of
        None \<Rightarrow> t\<lparr>records := gm_set key \<lparr>ar_failures = 1, ar_first = now, ar_until = zero_time\<rparr> (records t)\<rparr>
      | Some r \<Rightarrow>
          if lockoutWindow < now - ar_first r
          then t\<lparr>records := gm_set key \<lparr>ar_failures = 1, ar_first = now, ar_until = zero_time\<rparr> (records t)\<rparr>
          else let n = ar_failures r + 1 in
            t\<lparr>records := gm_set key
              (if maxFailedAttempts \<le> n
               then \<lparr>ar_failures = 0, ar_first = now, ar_until = now + lockoutDuration\<rparr>
               else r\<lparr>ar_failures := n\<rparr>) (records t)\<rparr>)"

definition succeed :: "string \<Rightarrow> loginThrottle \<Rightarrow> loginThrottle" where
  "succeed key t = t\<lparr>records := gm_del key (records t)\<rparr>"

section \<open>The lockout is a timed gate\<close>

definition is_locked :: "time \<Rightarrow> string \<Rightarrow> loginThrottle \<Rightarrow> bool" where
  "is_locked now key t \<longleftrightarrow> (case map_of (records t) key of None \<Rightarrow> False | Some r \<Rightarrow> now \<le> ar_until r)"

interpretation login_gate: timed_gate is_locked fail succeed lockoutDuration
  by unfold_locales
    (auto simp: is_locked_def fail_def succeed_def Let_def lockoutDuration_def Minute_def Second_def
      split: option.splits if_splits)

lemma map_of_filter_records:
  "gm_ok m \<Longrightarrow> map_of (filter (\<lambda>(k, r). P r) m) key = (case map_of m key of None \<Rightarrow> None | Some r \<Rightarrow> if P r then Some r else None)"
proof (induction m)
  case (Cons kr m)
  obtain k r where kr: "kr = (k, r)" by (cases kr)
  have "map_of (filter (\<lambda>(k, r). P r) m) k = None" if "map_of m k = None"
    using that by (force simp: map_of_eq_None_iff)
  moreover have "map_of m k = None" using Cons.prems by (simp add: kr map_of_eq_None_iff)
  ultimately show ?case using Cons by (auto simp: kr split: option.splits)
qed simp

lemma gm_ok_filter: "gm_ok m \<Longrightarrow> gm_ok (filter P m)"
  by (auto simp: distinct_map inj_on_def)

lemma sweep_keeps_locks:
  "gm_ok (records t) \<Longrightarrow> now \<le> t' \<Longrightarrow> is_locked t' key (sweepLocked now t) = is_locked t' key t"
  by (auto simp: sweepLocked_def is_locked_def map_of_filter_records forgotten_def After_def split: option.splits)

lemma locked_spec:
  "gm_ok (records t) \<Longrightarrow> (fst (locked now key t) \<noteq> None) = is_locked now key t"
  using sweep_keeps_locks [of t now now key]
  by (auto simp: locked_def Let_def is_locked_def After_def split: option.splits)

section \<open>How many guesses the throttle lets through\<close>

definition throttle_ok :: "loginThrottle \<Rightarrow> bool" where
  "throttle_ok t \<longleftrightarrow> gm_ok (records t) \<and> (\<forall>key r. map_of (records t) key = Some r \<longrightarrow> 0 \<le> ar_failures r \<and> ar_failures r < maxFailedAttempts)"

lemma throttle_ok_new [simp]: "throttle_ok newLoginThrottle"
  by (simp add: throttle_ok_def newLoginThrottle_def)

lemma throttle_ok_sweep [simp]: "throttle_ok t \<Longrightarrow> throttle_ok (sweepLocked now t)"
  by (auto simp: throttle_ok_def sweepLocked_def map_of_filter_records gm_ok_filter split: option.splits if_splits)

lemma throttle_ok_fail [simp]: "throttle_ok t \<Longrightarrow> throttle_ok (fail now key t)"
  by (auto simp: throttle_ok_def fail_def Let_def maxFailedAttempts_def gm_ok_set split: option.splits if_splits)

lemma throttle_ok_succeed [simp]: "throttle_ok t \<Longrightarrow> throttle_ok (succeed key t)"
  by (auto simp: throttle_ok_def succeed_def gm_ok_del split: if_splits)

lemma throttle_ok_locked [simp]: "throttle_ok t \<Longrightarrow> throttle_ok (snd (locked now key t))"
  by (simp add: locked_def Let_def)

text \<open>What is left to guess from a state until \<open>from + lockoutDuration\<close>.\<close>

definition guesses_left :: "time \<Rightarrow> string \<Rightarrow> loginThrottle \<Rightarrow> int" where
  "guesses_left from key t =
     (case map_of (records t) key of
        None \<Rightarrow> 5
      | Some r \<Rightarrow>
          if from + lockoutDuration \<le> ar_until r then 0
          else if from \<le> ar_first r then 5 - ar_failures r
          else 9 - ar_failures r)"

lemma guesses_left_range: "throttle_ok t \<Longrightarrow> 0 \<le> guesses_left from key t \<and> guesses_left from key t \<le> 9"
  by (force simp: guesses_left_def throttle_ok_def maxFailedAttempts_def split: option.splits)

lemma guesses_left_sweep:
  assumes "throttle_ok t" and "from \<le> now" and "now \<le> from + lockoutDuration"
  shows "guesses_left from key (sweepLocked now t) \<le> guesses_left from key t"
proof (cases "map_of (records t) key")
  case None
  with assms show ?thesis
    by (auto simp: guesses_left_def sweepLocked_def throttle_ok_def map_of_filter_records)
next
  case (Some r)
  have small: "ar_failures r < 5" using assms(1) Some by (auto simp: throttle_ok_def maxFailedAttempts_def)
  have "ar_first r < from \<and> \<not> from + lockoutDuration \<le> ar_until r" if "forgotten now r"
    using that assms(2,3) by (auto simp: forgotten_def After_def lockoutWindow_def lockoutDuration_def Minute_def Second_def)
  with Some small assms(1) show ?thesis
    by (auto simp: guesses_left_def sweepLocked_def throttle_ok_def map_of_filter_records)
qed

lemma guesses_left_fail:
  assumes "throttle_ok t" and "from \<le> now" and "now \<le> from + lockoutDuration" and "\<not> is_locked now key t" and "0 \<le> from"
  shows "guesses_left from key (fail now key t) + 1 \<le> guesses_left from key t"
proof (cases "map_of (records t) key")
  case None
  with assms show ?thesis
    by (simp add: guesses_left_def fail_def lockoutDuration_def Minute_def Second_def)
next
  case (Some r)
  have small: "0 \<le> ar_failures r" "ar_failures r < 5"
    using assms(1) Some by (auto simp: throttle_ok_def maxFailedAttempts_def)
  have open_now: "ar_until r < now" using assms(4) Some by (simp add: is_locked_def)
  show ?thesis
  proof (cases "lockoutWindow < now - ar_first r")
    case True
    then have "ar_first r < from"
      using assms(2,3) by (simp add: lockoutWindow_def lockoutDuration_def Minute_def Second_def)
    with True Some small assms open_now show ?thesis
      by (simp add: guesses_left_def fail_def lockoutDuration_def Minute_def Second_def)
  next
    case False
    with Some small assms open_now show ?thesis
      by (auto simp: guesses_left_def fail_def Let_def maxFailedAttempts_def)
  qed
qed

text \<open>Operations on another identity leave the count alone.\<close>

lemma guesses_left_other [simp]: "k \<noteq> key \<Longrightarrow> guesses_left from key (fail now k t) = guesses_left from key t"
  by (auto simp: guesses_left_def fail_def Let_def split: option.splits)

lemma is_locked_other [simp]: "k \<noteq> key \<Longrightarrow> is_locked t' key (fail now k t) = is_locked t' key t"
  by (rule login_gate.hit_other) simp

text \<open>
  The check and the count are two steps of the handler with the slow password comparison between them. Sign-ins that
  overlap all pass the check before the first failure is counted, so the bound holds for them one by one only.
\<close>

definition overlapping :: "time \<Rightarrow> string \<Rightarrow> nat \<Rightarrow> loginThrottle \<Rightarrow> nat" where
  "overlapping now key n t = length (filter (\<lambda>_. fst (locked now key t) = None) [0..<n])"

lemma overlapping_logins_escape: "overlapping 1 ''email:a'' n newLoginThrottle = n"
  by (simp add: overlapping_def locked_def newLoginThrottle_def sweepLocked_def Let_def lockoutWindow_def Minute_def Second_def)

end
