(* ===== verification/Accounts.thy ===== *)
theory Accounts
  imports Throttle
begin

text \<open>
  Operator accounts and browser sessions: \<open>internal/db/users.go\<close>, \<open>internal/db/sessions.go\<close>, the sign-in handlers of
  \<open>internal/api/auth.go\<close>, the account handlers of \<open>internal/api/users.go\<close> and the check of \<open>internal/api/admin.go\<close>
  that guards management. The tables are rows by key; \<open>fails\<close> stands for a database error. The hash functions and the
  random text of a token are arguments. A handler takes one reading of the clock, is one step, and its calls to the
  database fail together; where the calls of two handlers interleave in the source the outcome can differ
  (\<open>overlapping_disables_lock_out\<close> in \<open>Account_Safety\<close>).
\<close>

section \<open>Tables\<close>

record UserRow =
  ur_Email :: string
  ur_Hash :: string
  ur_CreatedAt :: time
  ur_LastLogin :: "time option"
  ur_DisabledAt :: "time option"

record SessionRow =
  sr_User :: string
  sr_Expires :: time
  sr_LastSeen :: time

record Accounts =
  users :: "(string, UserRow) gomap"
  sessions :: "(string, SessionRow) gomap"
  throttle :: loginThrottle

record crypto =
  sha256 :: "string \<Rightarrow> string"
  bcrypt :: "string \<Rightarrow> string \<Rightarrow> string option"
  bcrypt_ok :: "string \<Rightarrow> string \<Rightarrow> bool"

datatype AuthError =
    EmailRequired | EmailTooLong | EmailShape | EmailSpaces
  | PasswordTooShort nat | PasswordTooLong
  | HashFailed | EmailTaken | DatabaseFailed
  | ErrInvalidCredentials | ErrUserDisabled | ErrNoSession | NoSuchUser

section \<open>Validation\<close>

definition NormalizeEmail :: "string \<Rightarrow> string" where
  "NormalizeEmail email = ToLower (TrimSpace email)"

text \<open>The number of code points of a UTF-8 text: the bytes that do not continue one.\<close>

definition rune_count :: "string \<Rightarrow> nat" where
  "rune_count s = length (filter (\<lambda>c. let n = of_char c :: nat in n < 128 \<or> 192 \<le> n) s)"

definition ValidatePassword :: "string \<Rightarrow> AuthError option" where
  "ValidatePassword password =
     (if rune_count password < 12 then Some (PasswordTooShort (rune_count password))
      else if 72 < length password then Some PasswordTooLong
      else None)"

definition ValidateEmail :: "string \<Rightarrow> AuthError option" where
  "ValidateEmail email0 =
     (let email = NormalizeEmail email0;
          before = length (takeWhile (\<lambda>c. c \<noteq> CHR ''@'') email)
      in if email = [] then Some EmailRequired
         else if 320 < length email then Some EmailTooLong
         else if before = length email \<or> before = 0 \<or> before = length email - 1 then Some EmailShape
         else if ContainsAny email [CHR '' '', CHR 0x09, CHR 0x0A] then Some EmailSpaces
         else None)"

section \<open>Users\<close>

definition Disabled :: "UserRow \<Rightarrow> bool" where
  "Disabled u \<longleftrightarrow> ur_DisabledAt u \<noteq> None"

definition with_email :: "string \<Rightarrow> (string, UserRow) gomap \<Rightarrow> (string \<times> UserRow) option" where
  "with_email email us = find (\<lambda>(i, u). ur_Email u = email) us"

text \<open>\<open>ident\<close> is the UUID the database generates; a taken email or id is the duplicate-key error.\<close>

definition CreateUser ::
  "crypto \<Rightarrow> bool \<Rightarrow> string \<Rightarrow> string \<Rightarrow> time \<Rightarrow> string \<Rightarrow> string \<Rightarrow> Accounts \<Rightarrow> (AuthError + string \<times> UserRow) \<times> Accounts" where
  "CreateUser cr fails salt ident now email password a =
     (case ValidateEmail email of
        Some e \<Rightarrow> (Inl e, a)
      | None \<Rightarrow>
          (case ValidatePassword password of
             Some e \<Rightarrow> (Inl e, a)
           | None \<Rightarrow>
               (case bcrypt cr salt password of
                  None \<Rightarrow> (Inl HashFailed, a)
                | Some hash \<Rightarrow>
                    if fails then (Inl DatabaseFailed, a)
                    else if gm_has (users a) ident \<or> with_email (NormalizeEmail email) (users a) \<noteq> None
                    then (Inl EmailTaken, a)
                    else let u = \<lparr>ur_Email = NormalizeEmail email, ur_Hash = hash, ur_CreatedAt = now,
                        ur_LastLogin = None, ur_DisabledAt = None\<rparr>
                      in (Inr (ident, u), a\<lparr>users := gm_set ident u (users a)\<rparr>))))"

text \<open>The disabled check comes after the password. The update of the last login is not waited for.\<close>

definition Authenticate ::
  "crypto \<Rightarrow> bool \<Rightarrow> time \<Rightarrow> string \<Rightarrow> string \<Rightarrow> Accounts \<Rightarrow> (AuthError + string \<times> UserRow) \<times> Accounts" where
  "Authenticate cr fails now email password a =
     (if fails then (Inl DatabaseFailed, a)
      else case with_email (NormalizeEmail email) (users a) of
          None \<Rightarrow> (Inl ErrInvalidCredentials, a)
        | Some (ident, u) \<Rightarrow>
            if \<not> bcrypt_ok cr (ur_Hash u) password then (Inl ErrInvalidCredentials, a)
            else if Disabled u then (Inl ErrUserDisabled, a)
            else (Inr (ident, u), a\<lparr>users := gm_set ident (u\<lparr>ur_LastLogin := Some now\<rparr>) (users a)\<rparr>))"

definition SetPassword ::
  "crypto \<Rightarrow> bool \<Rightarrow> string \<Rightarrow> string \<Rightarrow> string \<Rightarrow> Accounts \<Rightarrow> AuthError option \<times> Accounts" where
  "SetPassword cr fails salt ident password a =
     (case ValidatePassword password of
        Some e \<Rightarrow> (Some e, a)
      | None \<Rightarrow>
          (case bcrypt cr salt password of
             None \<Rightarrow> (Some HashFailed, a)
           | Some hash \<Rightarrow>
               if fails then (Some DatabaseFailed, a)
               else case map_of (users a) ident of
                   None \<Rightarrow> (Some NoSuchUser, a)
                 | Some u \<Rightarrow> (None, a\<lparr>users := gm_set ident (u\<lparr>ur_Hash := hash\<rparr>) (users a)\<rparr>)))"

text \<open>One transaction: the flag, and the end of the user's sessions when disabling.\<close>

definition SetUserDisabled ::
  "bool \<Rightarrow> time \<Rightarrow> string \<Rightarrow> bool \<Rightarrow> Accounts \<Rightarrow> AuthError option \<times> Accounts" where
  "SetUserDisabled fails now ident disabled a =
     (if fails then (Some DatabaseFailed, a)
      else case map_of (users a) ident of
          None \<Rightarrow> (Some NoSuchUser, a)
        | Some u \<Rightarrow>
            (None, a\<lparr>users := gm_set ident (u\<lparr>ur_DisabledAt := (if disabled then Some now else None)\<rparr>) (users a),
              sessions := (if disabled then filter (\<lambda>(h, s). sr_User s \<noteq> ident) (sessions a) else sessions a)\<rparr>))"

definition ListUsers :: "Accounts \<Rightarrow> (string \<times> UserRow) list" where
  "ListUsers a = sort_key (\<lambda>(i, u). ur_CreatedAt u) (users a)"

definition CountUsers :: "Accounts \<Rightarrow> nat" where
  "CountUsers a = length (users a)"

section \<open>Sessions\<close>

definition SessionLifetime :: duration where "SessionLifetime = 12 * Hour"
definition sessionTokenPrefix :: string where "sessionTokenPrefix = ''crs_''"

record Session =
  se_UserID :: string
  se_Email :: string
  se_ExpiresAt :: time

text \<open>\<open>random\<close> is the encoded random text; \<open>None\<close> when the system has no randomness.\<close>

definition CreateSession ::
  "crypto \<Rightarrow> bool \<Rightarrow> string option \<Rightarrow> time \<Rightarrow> string \<Rightarrow> Accounts \<Rightarrow> (AuthError + string \<times> time) \<times> Accounts" where
  "CreateSession cr fails random now ident a =
     (case random of
        None \<Rightarrow> (Inl DatabaseFailed, a)
      | Some r \<Rightarrow>
          (let token = sessionTokenPrefix @ r; expires = now + SessionLifetime in
           if fails \<or> gm_has (sessions a) (sha256 cr token) \<or> \<not> gm_has (users a) ident then (Inl DatabaseFailed, a)
           else (Inr (token, expires),
             a\<lparr>sessions := gm_set (sha256 cr token) \<lparr>sr_User = ident, sr_Expires = expires, sr_LastSeen = now\<rparr> (sessions a)\<rparr>)))"

definition ValidateSession ::
  "crypto \<Rightarrow> bool \<Rightarrow> time \<Rightarrow> string \<Rightarrow> Accounts \<Rightarrow> (AuthError + Session) \<times> Accounts" where
  "ValidateSession cr fails now token a =
     (if token = [] then (Inl ErrNoSession, a)
      else if fails then (Inl DatabaseFailed, a)
      else let h = sha256 cr token in
        case map_of (sessions a) h of
          None \<Rightarrow> (Inl ErrNoSession, a)
        | Some s \<Rightarrow>
            (case map_of (users a) (sr_User s) of
               None \<Rightarrow> (Inl ErrNoSession, a)
             | Some u \<Rightarrow>
                 if After now (sr_Expires s) then (Inl ErrNoSession, a\<lparr>sessions := gm_del h (sessions a)\<rparr>)
                 else if Disabled u then (Inl ErrUserDisabled, a)
                 else (Inr \<lparr>se_UserID = sr_User s, se_Email = ur_Email u, se_ExpiresAt = sr_Expires s\<rparr>,
                   a\<lparr>sessions := gm_set h (s\<lparr>sr_LastSeen := now\<rparr>) (sessions a)\<rparr>)))"

definition DeleteSession :: "crypto \<Rightarrow> bool \<Rightarrow> string \<Rightarrow> Accounts \<Rightarrow> Accounts" where
  "DeleteSession cr fails token a =
     (if token = [] \<or> fails then a else a\<lparr>sessions := gm_del (sha256 cr token) (sessions a)\<rparr>)"

definition PruneSessions :: "time \<Rightarrow> Accounts \<Rightarrow> nat \<times> Accounts" where
  "PruneSessions now a =
     (let kept = filter (\<lambda>(h, s). \<not> sr_Expires s \<le> now) (sessions a)
      in (length (sessions a) - length kept, a\<lparr>sessions := kept\<rparr>))"

section \<open>Requests\<close>

text \<open>What the handlers read of a request: the address, the headers they name, and the session cookie.\<close>

record rq =
  RemoteAddr :: string
  ForwardedFor :: string
  ForwardedProto :: string
  over_TLS :: bool
  Cookie :: "string option"
  Authorization :: string

definition clientAddr :: "Config \<Rightarrow> rq \<Rightarrow> string" where
  "clientAddr cfg r =
     (if TrustProxyHeaders cfg \<and> ForwardedFor r \<noteq> []
      then (let (first, rest, found) = Cut (ForwardedFor r) CHR '','' in
            if found then TrimSpace first else TrimSpace (ForwardedFor r))
      else let (host, port, found) = Cut (RemoteAddr r) CHR '':'' in if \<not> found then RemoteAddr r else host)"

definition secureCookie :: "Config \<Rightarrow> rq \<Rightarrow> bool" where
  "secureCookie cfg r \<longleftrightarrow> over_TLS r \<or> (TrustProxyHeaders cfg \<and> EqualFold (ForwardedProto r) ''https'')"

datatype reply =
    Refused int string
  | RetryAfter duration
  | SignedIn string string time bool
  | SignedOut
  | MeAdminToken
  | Me string time
  | PasswordChanged
  | UserReply int string UserRow

definition handler_session :: "crypto \<Rightarrow> bool \<Rightarrow> time \<Rightarrow> rq \<Rightarrow> Accounts \<Rightarrow> Session option \<times> Accounts" where
  "handler_session cr fails now r a =
     (case Cookie r of
        None \<Rightarrow> (None, a)
      | Some token \<Rightarrow>
          (case ValidateSession cr fails now token a of
             (Inl e, a') \<Rightarrow> (None, a')
           | (Inr s, a') \<Rightarrow> (Some s, a')))"

definition adminTokenPresented :: "Config \<Rightarrow> rq \<Rightarrow> bool" where
  "adminTokenPresented cfg r \<longleftrightarrow>
     (if AdminToken cfg = [] then False
      else (let given = Authorization r in
            (if length given > length ''Bearer '' then drop (length ''Bearer '') given else given) = AdminToken cfg))"

definition adminAuthorized ::
  "Config \<Rightarrow> crypto \<Rightarrow> bool \<Rightarrow> time \<Rightarrow> rq \<Rightarrow> Accounts \<Rightarrow> reply option \<times> Accounts" where
  "adminAuthorized cfg cr fails now r a =
     (let (s, a') = handler_session cr fails now r a in
      if s \<noteq> None then (None, a')
      else if adminTokenPresented cfg r then (None, a')
      else if AdminToken cfg = [] \<and> \<not> (\<not> fails \<and> CountUsers a' > 0) then (Some (Refused 503 ''management is not set up''), a')
      else (Some (Refused 401 ''sign in, or present a valid admin token''), a'))"

section \<open>Signing in and out\<close>

record login_io =
  li_now :: time
  li_auth_fails :: bool
  li_session_fails :: bool
  li_random :: "string option"

fun first_locked :: "time \<Rightarrow> string list \<Rightarrow> loginThrottle \<Rightarrow> duration option \<times> loginThrottle" where
  "first_locked now [] t = (None, t)"
| "first_locked now (k # ks) t =
     (case locked now k t of
        (Some wait, t1) \<Rightarrow> (Some wait, t1)
      | (None, t1) \<Rightarrow> first_locked now ks t1)"

definition login_keys :: "Config \<Rightarrow> rq \<Rightarrow> string \<Rightarrow> string list" where
  "login_keys cfg r email = [''email:'' @ email, ''addr:'' @ clientAddr cfg r]"

definition auth_reply :: "AuthError \<Rightarrow> reply" where
  "auth_reply e =
     (if e = ErrUserDisabled then Refused 403 ''this account has been disabled''
      else if e = ErrInvalidCredentials then Refused 401 ''invalid email or password''
      else Refused 500 ''could not sign in'')"

definition handleLogin ::
  "Config \<Rightarrow> crypto \<Rightarrow> login_io \<Rightarrow> rq \<Rightarrow> (string \<times> string) option \<Rightarrow> Accounts \<Rightarrow> reply \<times> Accounts" where
  "handleLogin cfg cr io r body a =
     (case body of
        None \<Rightarrow> (Refused 400 ''invalid JSON body'', a)
      | Some (email0, password) \<Rightarrow>
          (let email = NormalizeEmail email0; now = li_now io in
           if email = [] \<or> password = [] then (Refused 400 ''email and password are required'', a)
           else let keys = login_keys cfg r email in
             case first_locked now keys (throttle a) of
               (Some wait, t) \<Rightarrow> (RetryAfter wait, a\<lparr>throttle := t\<rparr>)
             | (None, t) \<Rightarrow>
                 (case Authenticate cr (li_auth_fails io) now email password (a\<lparr>throttle := t\<rparr>) of
                    (Inl e, a1) \<Rightarrow> (auth_reply e, a1\<lparr>throttle := fold (fail now) keys (throttle a1)\<rparr>)
                  | (Inr (ident, u), a1) \<Rightarrow>
                      (let a2 = a1\<lparr>throttle := fold succeed keys (throttle a1)\<rparr> in
                       case CreateSession cr (li_session_fails io) (li_random io) now ident a2 of
                         (Inl e, a3) \<Rightarrow> (Refused 500 ''could not start a session'', a3)
                       | (Inr (token, expires), a3) \<Rightarrow> (SignedIn ident token expires (secureCookie cfg r), a3)))))"

definition handleLogout :: "crypto \<Rightarrow> bool \<Rightarrow> rq \<Rightarrow> Accounts \<Rightarrow> reply \<times> Accounts" where
  "handleLogout cr fails r a =
     (SignedOut, case Cookie r of None \<Rightarrow> a | Some token \<Rightarrow> DeleteSession cr fails token a)"

definition handleMe :: "Config \<Rightarrow> crypto \<Rightarrow> bool \<Rightarrow> time \<Rightarrow> rq \<Rightarrow> Accounts \<Rightarrow> reply \<times> Accounts" where
  "handleMe cfg cr fails now r a =
     (case handler_session cr fails now r a of
        (Some s, a') \<Rightarrow> (Me (se_Email s) (se_ExpiresAt s), a')
      | (None, a') \<Rightarrow> (if adminTokenPresented cfg r then MeAdminToken else Refused 401 ''not signed in'', a'))"

definition handleChangePassword ::
  "crypto \<Rightarrow> bool \<Rightarrow> string \<Rightarrow> time \<Rightarrow> rq \<Rightarrow> (string \<times> string) option \<Rightarrow> Accounts \<Rightarrow> reply \<times> Accounts" where
  "handleChangePassword cr fails salt now r body a =
     (case handler_session cr fails now r a of
        (None, a') \<Rightarrow> (Refused 401 ''sign in to change your password'', a')
      | (Some s, a') \<Rightarrow>
          (case body of
             None \<Rightarrow> (Refused 400 ''invalid JSON body'', a')
           | Some (current, new) \<Rightarrow>
               (case Authenticate cr fails now (se_Email s) current a' of
                  (Inl e, a1) \<Rightarrow> (Refused 401 ''current password is incorrect'', a1)
                | (Inr x, a1) \<Rightarrow>
                    (case SetPassword cr fails salt (se_UserID s) new a1 of
                       (Some e, a2) \<Rightarrow> (Refused 400 ''password not accepted'', a2)
                     | (None, a2) \<Rightarrow> (PasswordChanged, a2)))))"

section \<open>Managing accounts\<close>

definition adminCreateUser ::
  "Config \<Rightarrow> crypto \<Rightarrow> bool \<Rightarrow> string \<Rightarrow> string \<Rightarrow> time \<Rightarrow> rq \<Rightarrow> (string \<times> string) option \<Rightarrow> Accounts \<Rightarrow> reply \<times> Accounts" where
  "adminCreateUser cfg cr fails salt ident now r body a =
     (case adminAuthorized cfg cr fails now r a of
        (Some no, a') \<Rightarrow> (no, a')
      | (None, a') \<Rightarrow>
          (case body of
             None \<Rightarrow> (Refused 400 ''invalid JSON body'', a')
           | Some (email, password) \<Rightarrow>
               (case CreateUser cr fails salt ident now email password a' of
                  (Inl e, a1) \<Rightarrow> (Refused 400 ''account not accepted'', a1)
                | (Inr (i, u), a1) \<Rightarrow> (UserReply 201 i u, a1))))"

definition activeUserCount :: "Accounts \<Rightarrow> nat" where
  "activeUserCount a = length (filter (\<lambda>(i, u). \<not> Disabled u) (ListUsers a))"

definition update_disabled ::
  "Config \<Rightarrow> bool \<Rightarrow> time \<Rightarrow> string \<Rightarrow> bool option \<Rightarrow> Accounts \<Rightarrow> reply option \<times> Accounts" where
  "update_disabled cfg fails now ident flag a =
     (case flag of
        None \<Rightarrow> (None, a)
      | Some disabled \<Rightarrow>
          if disabled \<and> fails then (Some (Refused 500 ''database error''), a)
          else if disabled \<and> activeUserCount a \<le> 1 \<and> AdminToken cfg = []
          then (Some (Refused 400 ''this is the only account that can sign in''), a)
          else case SetUserDisabled fails now ident disabled a of
              (Some e, a1) \<Rightarrow> (Some (Refused 400 ''no such user''), a1)
            | (None, a1) \<Rightarrow> (None, a1))"

definition update_password ::
  "crypto \<Rightarrow> bool \<Rightarrow> string \<Rightarrow> string \<Rightarrow> string option \<Rightarrow> Accounts \<Rightarrow> reply option \<times> Accounts" where
  "update_password cr fails salt ident new a =
     (case new of
        None \<Rightarrow> (None, a)
      | Some password \<Rightarrow>
          (case SetPassword cr fails salt ident password a of
             (Some e, a1) \<Rightarrow> (Some (Refused 400 ''password not accepted''), a1)
           | (None, a1) \<Rightarrow> (None, a1)))"

definition adminUpdateUser ::
  "Config \<Rightarrow> crypto \<Rightarrow> bool \<Rightarrow> string \<Rightarrow> time \<Rightarrow> rq \<Rightarrow> string \<Rightarrow> (bool option \<times> string option) option \<Rightarrow> Accounts \<Rightarrow>
    reply \<times> Accounts" where
  "adminUpdateUser cfg cr fails salt now r ident body a =
     (case adminAuthorized cfg cr fails now r a of
        (Some no, a') \<Rightarrow> (no, a')
      | (None, a') \<Rightarrow>
          (case body of
             None \<Rightarrow> (Refused 400 ''invalid JSON body'', a')
           | Some (flag, new) \<Rightarrow>
               (case update_disabled cfg fails now ident flag a' of
                  (Some no, a1) \<Rightarrow> (no, a1)
                | (None, a1) \<Rightarrow>
                    (case update_password cr fails salt ident new a1 of
                       (Some no, a2) \<Rightarrow> (no, a2)
                     | (None, a2) \<Rightarrow>
                         if fails then (Refused 500 ''database error'', a2)
                         else case map_of (ListUsers a2) ident of
                             None \<Rightarrow> (Refused 404 ''no such user'', a2)
                           | Some u \<Rightarrow> (UserReply 200 ident u, a2)))))"

end
