(* ===== verification/Accounts_Facts.thy ===== *)
theory Accounts_Facts
  imports Accounts
begin

text \<open>
  What sign-in promises: how many guesses the throttle lets through, that only a token obtained with the right password
  opens a session, that sessions and accounts stay consistent whatever the handlers do in any order, and that
  the last operator cannot be locked out.
\<close>

section \<open>Guessing passwords\<close>

lemma first_locked_spec:
  "throttle_ok t \<Longrightarrow> first_locked now ks t = (w, t') \<Longrightarrow>
    throttle_ok t' \<and> (w = None \<longrightarrow> (\<forall>k \<in> set ks. \<not> is_locked now k t')) \<and>
    (\<forall>key t0. now \<le> t0 \<longrightarrow> is_locked t0 key t' = is_locked t0 key t) \<and>
    (\<forall>from key. from \<le> now \<longrightarrow> now \<le> from + lockoutDuration \<longrightarrow> guesses_left from key t' \<le> guesses_left from key t)"
proof (induction ks arbitrary: t)
  case Nil
  then show ?case by simp
next
  case (Cons k ks)
  let ?t1 = "sweepLocked now t"
  have ok: "throttle_ok ?t1" using Cons.prems(1) by (rule throttle_ok_sweep)
  have gm: "gm_ok (records t)" using Cons.prems(1) by (simp add: throttle_ok_def)
  have snd: "snd (locked now k t) = ?t1" by (simp add: locked_def Let_def)
  have keeps: "is_locked t0 key ?t1 = is_locked t0 key t" if "now \<le> t0" for t0 key
    using sweep_keeps_locks [OF gm that] .
  have left: "guesses_left from key ?t1 \<le> guesses_left from key t" if "from \<le> now" "now \<le> from + lockoutDuration" for "from" key
    using guesses_left_sweep [OF Cons.prems(1) that] .
  show ?case
  proof (cases "fst (locked now k t)")
    case None
    then have l: "locked now k t = (None, ?t1)" using snd by (cases "locked now k t") simp
    with Cons.prems(2) have rest: "first_locked now ks ?t1 = (w, t')" by simp
    have "\<not> is_locked now k t" using None locked_spec [OF gm, of now k] by simp
    note IH = Cons.IH [OF ok rest]
    have "guesses_left from key t' \<le> guesses_left from key t" if "from \<le> now" "now \<le> from + lockoutDuration" for "from" key
      using IH left [OF that, of key] that by (meson order_trans)
    moreover have same: "is_locked t0 key t' = is_locked t0 key t" if "now \<le> t0" for t0 key
      using IH keeps [OF that] that by blast
    moreover have "\<forall>k' \<in> set (k # ks). \<not> is_locked now k' t'" if "w = None"
      using IH that \<open>\<not> is_locked now k t\<close> same [of now] by simp
    ultimately show ?thesis using IH by blast
  next
    case (Some wait)
    then have "locked now k t = (Some wait, ?t1)" using snd by (cases "locked now k t") simp
    with Cons.prems(2) have "w = Some wait" "t' = ?t1" by auto
    with ok keeps left show ?thesis by simp
  qed
qed

lemma Authenticate_throttle [simp]: "throttle (snd (Authenticate cr fails now email password a)) = throttle a"
  by (auto simp: Authenticate_def split: option.splits)

lemma CreateSession_throttle [simp]: "throttle (snd (CreateSession cr fails random now ident a)) = throttle a"
  by (auto simp: CreateSession_def Let_def split: option.splits)

lemma email_not_addr: "''email:'' @ e \<noteq> ''addr:'' @ a"
  by simp

text \<open>The replies after a password was looked at and found wrong (or could not be compared), and after a right one.\<close>

definition told_wrong :: "reply \<Rightarrow> bool" where
  "told_wrong rep \<longleftrightarrow> rep \<in> set (map auth_reply [ErrInvalidCredentials, ErrUserDisabled, DatabaseFailed])"

definition let_in :: "reply \<Rightarrow> bool" where
  "let_in rep \<longleftrightarrow>
     (case rep of SignedIn i token e secure \<Rightarrow> True | _ \<Rightarrow> rep = Refused 500 ''could not start a session'')"

definition wrong_guesses :: "string \<Rightarrow> (string \<times> string) option \<Rightarrow> reply \<Rightarrow> nat \<Rightarrow> nat" where
  "wrong_guesses email body rep n =
     (case body of
        None \<Rightarrow> n
      | Some (who, password) \<Rightarrow>
          if NormalizeEmail who \<noteq> NormalizeEmail email then n
          else if let_in rep then 0
          else if told_wrong rep then n + 1
          else n)"

text \<open>
  A stretch of the process, from \<open>from\<close> for as long as a lockout lasts, in which sign-ins of any account come from any
  address, one after another, and whatever leaves the throttle alone happens in between. The number counts the
  wrong passwords of one account that were looked at since the stretch began or the account was last signed in to.
\<close>

inductive guessing ::
  "Config \<Rightarrow> crypto \<Rightarrow> string \<Rightarrow> time \<Rightarrow> Accounts \<Rightarrow> nat \<Rightarrow> Accounts \<Rightarrow> bool"
  for cfg cr email "from" a0 where
  start: "guessing cfg cr email from a0 0 a0"
| sign_in: "guessing cfg cr email from a0 n a \<Longrightarrow> from \<le> li_now io \<Longrightarrow> li_now io \<le> from + lockoutDuration \<Longrightarrow>
    handleLogin cfg cr io r body a = (rep, a') \<Longrightarrow> guessing cfg cr email from a0 (wrong_guesses email body rep n) a'"
| other: "guessing cfg cr email from a0 n a \<Longrightarrow> throttle a' = throttle a \<Longrightarrow> guessing cfg cr email from a0 n a'"

lemma guesses_left_succeed: "throttle_ok t \<Longrightarrow> guesses_left from key (succeed key t) = 5"
  by (simp add: guesses_left_def succeed_def throttle_ok_def)

lemma guesses_left_succeed_other [simp]: "k \<noteq> key \<Longrightarrow> guesses_left from key (succeed k t) = guesses_left from key t"
  by (simp add: guesses_left_def succeed_def)

lemma handleLogin_guess:
  assumes ok: "throttle_ok (throttle a)" and times: "from \<le> li_now io" "li_now io \<le> from + lockoutDuration" "0 \<le> from"
    and login: "handleLogin cfg cr io r body a = (rep, a')"
    and budget: "int n + guesses_left from (''email:'' @ NormalizeEmail email) (throttle a) \<le> 9"
  shows "throttle_ok (throttle a') \<and>
    int (wrong_guesses email body rep n) + guesses_left from (''email:'' @ NormalizeEmail email) (throttle a') \<le> 9"
proof (cases "\<exists>who password. body = Some (who, password) \<and> NormalizeEmail who \<noteq> [] \<and> password \<noteq> []")
  case False
  with login have "(rep = Refused 400 ''invalid JSON body'' \<or> rep = Refused 400 ''email and password are required'') \<and> a' = a"
    by (auto simp: handleLogin_def Let_def split: option.splits if_splits)
  with ok budget show ?thesis
    by (auto simp: wrong_guesses_def let_in_def told_wrong_def auth_reply_def split: option.splits)
next
  case True
  then obtain who password where body: "body = Some (who, password)" "NormalizeEmail who \<noteq> []" "password \<noteq> []" by blast
  let ?key = "''email:'' @ NormalizeEmail email" and ?who = "''email:'' @ NormalizeEmail who"
    and ?addr = "''addr:'' @ clientAddr cfg r" and ?now = "li_now io"
  obtain w t where fl: "first_locked ?now [?who, ?addr] (throttle a) = (w, t)" by fastforce
  note spec = first_locked_spec [OF ok fl]
  have left: "guesses_left from ?key t \<le> guesses_left from ?key (throttle a)" using spec times by blast
  have tok: "throttle_ok t" using spec by blast
  show ?thesis
  proof (cases w)
    case (Some wait)
    with body login fl have "rep = RetryAfter wait" "a' = a\<lparr>throttle := t\<rparr>"
      by (auto simp: handleLogin_def login_keys_def Let_def)
    with tok left budget body show ?thesis
      by (auto simp: wrong_guesses_def let_in_def told_wrong_def auth_reply_def)
  next
    case None
    obtain x a1 where auth: "Authenticate cr (li_auth_fails io) ?now (NormalizeEmail who) password (a\<lparr>throttle := t\<rparr>) = (x, a1)"
      by fastforce
    have t1: "throttle a1 = t"
      using Authenticate_throttle [of cr "li_auth_fails io" ?now "NormalizeEmail who" password "a\<lparr>throttle := t\<rparr>"] auth by simp
    show ?thesis
    proof (cases x)
      case (Inl e)
      with None body login fl auth have res: "rep = auth_reply e" "throttle a' = fail ?now ?addr (fail ?now ?who t)"
        by (auto simp: handleLogin_def login_keys_def Let_def t1)
      show ?thesis
      proof (cases "NormalizeEmail who = NormalizeEmail email")
        case True
        have "\<not> is_locked ?now ?key t" using spec None True by simp
        then have "guesses_left from ?key (fail ?now ?key t) + 1 \<le> guesses_left from ?key t"
          using guesses_left_fail [OF tok] times by blast
        with res tok left budget body True show ?thesis
          by (auto simp: wrong_guesses_def let_in_def auth_reply_def split: if_splits)
      next
        case False
        with res tok left budget body show ?thesis by (simp add: wrong_guesses_def)
      qed
    next
      case (Inr iu)
      obtain ident u where iu: "iu = (ident, u)" by fastforce
      let ?a2 = "a1\<lparr>throttle := succeed ?addr (succeed ?who t)\<rparr>"
      obtain y a3 where cs: "CreateSession cr (li_session_fails io) (li_random io) ?now ident ?a2 = (y, a3)" by fastforce
      then have t3: "throttle a3 = succeed ?addr (succeed ?who t)"
        using CreateSession_throttle [of cr "li_session_fails io" "li_random io" ?now ident ?a2] by simp
      from Inr iu None body login fl auth cs t3 have "throttle a' = succeed ?addr (succeed ?who t)" and in_: "let_in rep"
        by (auto simp: handleLogin_def login_keys_def Let_def t1 let_in_def simp del: first_locked.simps
            split: sum.splits prod.splits)
      with tok left budget body show ?thesis
        by (cases "NormalizeEmail who = NormalizeEmail email")
          (simp_all add: wrong_guesses_def guesses_left_succeed)
    qed
  qed
qed

lemma guessing_budget:
  assumes "guessing cfg cr email from a0 n a" and "throttle_ok (throttle a0)" and "0 \<le> from"
  shows "throttle_ok (throttle a) \<and> int n + guesses_left from (''email:'' @ NormalizeEmail email) (throttle a) \<le> 9"
  using assms(1)
proof induction
  case start
  with assms(2) guesses_left_range show ?case by simp
next
  case (sign_in n a io r body rep a')
  with handleLogin_guess [OF _ sign_in.hyps(2,3) assms(3) sign_in.hyps(4)] show ?case by blast
next
  case (other n a a')
  then show ?case by simp
qed

section \<open>Reachable accounts and sessions\<close>

text \<open>
  What the handlers, the bootstrap, the sweeper and a restart, which forgets the throttle but not the tables, can make of an
  empty database. The second argument is the list of
  tokens handed out, with whose they are and until when: a trace of the sign-ins, not part of the program's state.
\<close>

definition no_accounts :: Accounts where
  "no_accounts = \<lparr>users = [], sessions = [], throttle = newLoginThrottle\<rparr>"

type_synonym issued = "(string \<times> string \<times> time) list"

definition issued_by :: "reply \<Rightarrow> issued" where
  "issued_by rep = (case rep of SignedIn i tok e sec \<Rightarrow> [(tok, i, e)] | _ \<Rightarrow> [])"

inductive reachable_accounts :: "Config \<Rightarrow> crypto \<Rightarrow> Accounts \<Rightarrow> issued \<Rightarrow> bool"
  for cfg cr where
  empty: "reachable_accounts cfg cr no_accounts []"
| bootstrap: "reachable_accounts cfg cr a iss \<Longrightarrow>
    CreateUser cr fails salt ident now email password a = (x, a') \<Longrightarrow> reachable_accounts cfg cr a' iss"
| login: "reachable_accounts cfg cr a iss \<Longrightarrow>
    handleLogin cfg cr io r body a = (rep, a') \<Longrightarrow> reachable_accounts cfg cr a' (issued_by rep @ iss)"
| logout: "reachable_accounts cfg cr a iss \<Longrightarrow>
    handleLogout cr fails r a = (rep, a') \<Longrightarrow> reachable_accounts cfg cr a' iss"
| me: "reachable_accounts cfg cr a iss \<Longrightarrow>
    handleMe cfg cr fails now r a = (rep, a') \<Longrightarrow> reachable_accounts cfg cr a' iss"
| change: "reachable_accounts cfg cr a iss \<Longrightarrow>
    handleChangePassword cr fails salt now r pws a = (rep, a') \<Longrightarrow> reachable_accounts cfg cr a' iss"
| guard: "reachable_accounts cfg cr a iss \<Longrightarrow>
    adminAuthorized cfg cr fails now r a = (no, a') \<Longrightarrow> reachable_accounts cfg cr a' iss"
| create: "reachable_accounts cfg cr a iss \<Longrightarrow>
    adminCreateUser cfg cr fails salt ident now r pws a = (rep, a') \<Longrightarrow> reachable_accounts cfg cr a' iss"
| update: "reachable_accounts cfg cr a iss \<Longrightarrow>
    adminUpdateUser cfg cr fails salt now r ident changes a = (rep, a') \<Longrightarrow> reachable_accounts cfg cr a' iss"
| prune: "reachable_accounts cfg cr a iss \<Longrightarrow> PruneSessions now a = (n, a') \<Longrightarrow> reachable_accounts cfg cr a' iss"
| restart: "reachable_accounts cfg cr a iss \<Longrightarrow> reachable_accounts cfg cr (a\<lparr>throttle := newLoginThrottle\<rparr>) iss"

definition user_ok :: "crypto \<Rightarrow> UserRow \<Rightarrow> bool" where
  "user_ok cr u \<longleftrightarrow> NormalizeEmail (ur_Email u) = ur_Email u \<and> ValidateEmail (ur_Email u) = None \<and>
     (\<exists>salt password. ValidatePassword password = None \<and> bcrypt cr salt password = Some (ur_Hash u))"

definition users_ok :: "crypto \<Rightarrow> (string, UserRow) gomap \<Rightarrow> bool" where
  "users_ok cr us \<longleftrightarrow> gm_ok us \<and> (\<forall>i u. map_of us i = Some u \<longrightarrow> user_ok cr u) \<and>
     (\<forall>i j u v. map_of us i = Some u \<longrightarrow> map_of us j = Some v \<longrightarrow> ur_Email u = ur_Email v \<longrightarrow> i = j)"

definition session_ok :: "crypto \<Rightarrow> issued \<Rightarrow> (string, UserRow) gomap \<Rightarrow> string \<Rightarrow> SessionRow \<Rightarrow> bool" where
  "session_ok cr iss us h s \<longleftrightarrow>
     (\<exists>u. map_of us (sr_User s) = Some u \<and> \<not> Disabled u) \<and> (\<exists>tok. (tok, sr_User s, sr_Expires s) \<in> set iss \<and> sha256 cr tok = h)"

definition sessions_ok :: "crypto \<Rightarrow> issued \<Rightarrow> Accounts \<Rightarrow> bool" where
  "sessions_ok cr iss a \<longleftrightarrow> gm_ok (sessions a) \<and> (\<forall>h s. map_of (sessions a) h = Some s \<longrightarrow> session_ok cr iss (users a) h s)"

definition accounts_ok :: "crypto \<Rightarrow> issued \<Rightarrow> Accounts \<Rightarrow> bool" where
  "accounts_ok cr iss a \<longleftrightarrow> users_ok cr (users a) \<and> sessions_ok cr iss a \<and> throttle_ok (throttle a)"

text \<open>Normalising an address twice changes nothing.\<close>

lemma is_space_lower [simp]: "is_space (lower_char c) = is_space c"
proof (cases "65 \<le> (of_char c :: nat) \<and> (of_char c :: nat) \<le> 90")
  case True
  then have "(of_char c :: nat) \<notin> {9, 10, 11, 12, 13, 32}" "(of_char (lower_char c) :: nat) \<notin> {9, 10, 11, 12, 13, 32}"
    by (auto simp: lower_char_def)
  then have "\<not> is_space c" "\<not> is_space (lower_char c)" by (auto simp: is_space_def)
  then show ?thesis by simp
next
  case False
  then have "lower_char c = c" by (auto simp: lower_char_def Let_def)
  then show ?thesis by simp
qed

lemma trim_ToLower: "trim_left is_space (ToLower s) = ToLower (trim_left is_space s)"
  "trim_right is_space (ToLower s) = ToLower (trim_right is_space s)"
  by (simp_all add: trim_left_def trim_right_def ToLower_def dropWhile_map rev_map o_def)

lemma NormalizeEmail_idem [simp]: "NormalizeEmail (NormalizeEmail e) = NormalizeEmail e"
proof -
  have "TrimSpace (ToLower (TrimSpace e)) = ToLower (TrimSpace (TrimSpace e))"
    by (simp only: TrimSpace_def trim_ToLower)
  then show ?thesis by (simp add: NormalizeEmail_def)
qed

lemma ValidateEmail_normalized [simp]: "ValidateEmail (NormalizeEmail e) = ValidateEmail e"
  by (simp add: ValidateEmail_def)

text \<open>The tables under the two kinds of change: one row written, rows deleted.\<close>

lemma users_ok_set:
  assumes "users_ok cr us" and "user_ok cr u" and "\<And>j v. map_of us j = Some v \<Longrightarrow> ur_Email v = ur_Email u \<Longrightarrow> j = i"
  shows "users_ok cr (gm_set i u us)"
  using assms unfolding users_ok_def by (auto split: if_splits)

lemma users_ok_same_email:
  assumes "users_ok cr us" and "map_of us i = Some u0" and "user_ok cr u" and "ur_Email u = ur_Email u0"
  shows "users_ok cr (gm_set i u us)"
  using assms(1,3)
proof (rule users_ok_set)
  fix j v
  assume "map_of us j = Some v" "ur_Email v = ur_Email u"
  with assms(1,2,4) show "j = i" unfolding users_ok_def by metis
qed

lemma sessions_ok_keeps:
  assumes "sessions_ok cr iss a" and "gm_ok (sessions a')" and "set iss \<subseteq> set iss'"
    and "\<And>h s. map_of (sessions a') h = Some s \<Longrightarrow> \<exists>s0. map_of (sessions a) h = Some s0 \<and> sr_User s0 = sr_User s \<and> sr_Expires s0 = sr_Expires s"
    and "\<And>h s u. map_of (sessions a') h = Some s \<Longrightarrow> map_of (users a) (sr_User s) = Some u \<Longrightarrow> \<not> Disabled u \<Longrightarrow>
      \<exists>v. map_of (users a') (sr_User s) = Some v \<and> \<not> Disabled v"
  shows "sessions_ok cr iss' a'"
  unfolding sessions_ok_def
proof (intro conjI allI impI)
  fix h s
  assume h: "map_of (sessions a') h = Some s"
  obtain s0 where "map_of (sessions a) h = Some s0" "sr_User s0 = sr_User s" "sr_Expires s0 = sr_Expires s" using assms(4) [OF h] by blast
  then have "session_ok cr iss (users a) h s" using assms(1) unfolding sessions_ok_def session_ok_def by metis
  with assms(3) assms(5) [OF h] show "session_ok cr iss' (users a') h s" by (auto simp: session_ok_def)
qed (rule assms(2))

lemma with_email_Some: "with_email e us = Some (i, u) \<Longrightarrow> gm_ok us \<Longrightarrow> map_of us i = Some u \<and> ur_Email u = e"
  unfolding with_email_def find_Some_iff using map_of_is_SomeI nth_mem by fastforce

lemma with_email_None: "with_email e us = None \<Longrightarrow> map_of us j = Some v \<Longrightarrow> ur_Email v \<noteq> e"
  by (force simp: with_email_def find_None_iff dest: map_of_SomeD)

lemma session_write_ok:
  "accounts_ok cr iss a \<Longrightarrow> map_of (sessions a) h = Some s \<Longrightarrow> sr_User s' = sr_User s \<Longrightarrow> sr_Expires s' = sr_Expires s \<Longrightarrow>
    accounts_ok cr iss (a\<lparr>sessions := gm_set h s' (sessions a)\<rparr>)"
  by (auto simp: accounts_ok_def sessions_ok_def session_ok_def split: if_splits)

lemma session_filter_ok:
  "accounts_ok cr iss a \<Longrightarrow> accounts_ok cr iss (a\<lparr>sessions := filter (\<lambda>(h, s). P s) (sessions a)\<rparr>)"
  by (auto simp: accounts_ok_def sessions_ok_def map_of_filter_records gm_ok_filter split: option.splits if_splits)

lemma session_delete_ok: "accounts_ok cr iss a \<Longrightarrow> accounts_ok cr iss (a\<lparr>sessions := gm_del h (sessions a)\<rparr>)"
  by (auto simp: accounts_ok_def sessions_ok_def gm_ok_del split: if_splits)

lemma user_write_ok:
  assumes "accounts_ok cr iss a" and "map_of (users a) i = Some u0" and "user_ok cr u"
    and "ur_Email u = ur_Email u0" and "ur_DisabledAt u = ur_DisabledAt u0"
  shows "accounts_ok cr iss (a\<lparr>users := gm_set i u (users a)\<rparr>)"
proof -
  have "users_ok cr (gm_set i u (users a))"
    using assms(1-4) users_ok_same_email unfolding accounts_ok_def by blast
  moreover have "sessions_ok cr iss (a\<lparr>users := gm_set i u (users a)\<rparr>)"
    by (rule sessions_ok_keeps [of cr iss a])
      (use assms in \<open>auto simp: accounts_ok_def sessions_ok_def Disabled_def\<close>)
  ultimately show ?thesis using assms(1) by (simp add: accounts_ok_def)
qed

lemma throttle_write_ok: "accounts_ok cr iss a \<Longrightarrow> throttle_ok t \<Longrightarrow> accounts_ok cr iss (a\<lparr>throttle := t\<rparr>)"
  by (simp add: accounts_ok_def sessions_ok_def)

lemma user_okD: "accounts_ok cr iss a \<Longrightarrow> map_of (users a) i = Some u \<Longrightarrow> user_ok cr u"
  by (auto simp: accounts_ok_def users_ok_def)

lemma accounts_gm_ok: "accounts_ok cr iss a \<Longrightarrow> gm_ok (users a) \<and> gm_ok (sessions a)"
  by (simp add: accounts_ok_def users_ok_def sessions_ok_def)

text \<open>Every operation keeps the tables consistent.\<close>

lemma CreateUser_ok:
  assumes "accounts_ok cr iss a" and "CreateUser cr fails salt ident now email password a = (x, a')"
  shows "accounts_ok cr iss a'"
proof (cases x)
  case (Inl e)
  with assms show ?thesis by (auto simp: CreateUser_def Let_def split: option.splits if_splits)
next
  case (Inr iu)
  let ?u = "\<lambda>hash. \<lparr>ur_Email = NormalizeEmail email, ur_Hash = hash, ur_CreatedAt = now,
    ur_LastLogin = None, ur_DisabledAt = None\<rparr>"
  from Inr assms(2) obtain hash where h: "ValidateEmail email = None" "ValidatePassword password = None"
    "bcrypt cr salt password = Some hash" "\<not> gm_has (users a) ident" "with_email (NormalizeEmail email) (users a) = None"
    "a' = a\<lparr>users := gm_set ident (?u hash) (users a)\<rparr>"
    by (cases "with_email (NormalizeEmail email) (users a)")
      (auto simp: CreateUser_def Let_def split: option.splits if_splits)
  have "user_ok cr (?u hash)" using h(1-3) by (auto simp: user_ok_def)
  moreover have "ur_Email v \<noteq> NormalizeEmail email" if "map_of (users a) j = Some v" for j v
    using with_email_None [OF h(5) that] .
  ultimately have "users_ok cr (users a')"
    using assms(1) unfolding h(6) by (auto intro!: users_ok_set simp: accounts_ok_def)
  moreover have "sessions_ok cr iss a'"
    by (rule sessions_ok_keeps [of cr iss a])
      (use assms(1) h(4) in \<open>auto simp: h(6) accounts_ok_def sessions_ok_def gm_has_def\<close>)
  ultimately show ?thesis using assms(1) by (simp add: accounts_ok_def h(6))
qed

lemma Authenticate_cases:
  assumes "Authenticate cr fails now email password a = (x, a')" and "gm_ok (users a)"
  obtains (no) e where "x = Inl e" "a' = a"
  | (yes) i u where "x = Inr (i, u)" "map_of (users a) i = Some u" "ur_Email u = NormalizeEmail email"
      "bcrypt_ok cr (ur_Hash u) password" "\<not> Disabled u"
      "a' = a\<lparr>users := gm_set i (u\<lparr>ur_LastLogin := Some now\<rparr>) (users a)\<rparr>"
proof (cases "with_email (NormalizeEmail email) (users a)")
  case None
  with assms(1) no show thesis by (cases fails) (auto simp: Authenticate_def)
next
  case (Some iu)
  obtain i u where iu: "iu = (i, u)" by (cases iu)
  have u: "map_of (users a) i = Some u" "ur_Email u = NormalizeEmail email"
    using with_email_Some [OF Some [unfolded iu] assms(2)] by auto
  show thesis
  proof (cases "fails \<or> \<not> bcrypt_ok cr (ur_Hash u) password \<or> Disabled u")
    case True
    with assms(1) Some iu have "a' = a" "x = Inl (if fails then DatabaseFailed
        else if \<not> bcrypt_ok cr (ur_Hash u) password then ErrInvalidCredentials else ErrUserDisabled)"
      by (auto simp: Authenticate_def split: if_splits)
    then show thesis using no by blast
  next
    case False
    with assms(1) Some iu have "x = Inr (i, u)" "a' = a\<lparr>users := gm_set i (u\<lparr>ur_LastLogin := Some now\<rparr>) (users a)\<rparr>"
      by (auto simp: Authenticate_def)
    with False u yes show thesis by blast
  qed
qed

lemma Authenticate_ok:
  assumes "accounts_ok cr iss a" and "Authenticate cr fails now email password a = (x, a')"
  shows "accounts_ok cr iss a'"
  using assms(2) accounts_gm_ok [OF assms(1), THEN conjunct1]
proof (cases rule: Authenticate_cases)
  case (yes i u)
  have "user_ok cr (u\<lparr>ur_LastLogin := Some now\<rparr>)" using user_okD [OF assms(1) yes(2)] by (simp add: user_ok_def)
  then show ?thesis using user_write_ok [OF assms(1) yes(2)] yes(6) by simp
qed (simp add: assms(1))

lemma SetPassword_ok:
  assumes "accounts_ok cr iss a" and "SetPassword cr fails salt ident password a = (x, a')"
  shows "accounts_ok cr iss a'"
proof (cases "a' = a")
  case False
  with assms(2) obtain hash u where h: "ValidatePassword password = None" "bcrypt cr salt password = Some hash"
    "map_of (users a) ident = Some u" "a' = a\<lparr>users := gm_set ident (u\<lparr>ur_Hash := hash\<rparr>) (users a)\<rparr>"
    by (auto simp: SetPassword_def split: option.splits if_splits)
  have "user_ok cr (u\<lparr>ur_Hash := hash\<rparr>)"
    using user_okD [OF assms(1) h(3)] h(1,2) by (auto simp: user_ok_def)
  then show ?thesis using user_write_ok [OF assms(1) h(3)] h(4) by simp
qed (simp add: assms(1))

lemma SetUserDisabled_cases:
  assumes "SetUserDisabled fails now ident disabled a = (x, a')"
  obtains (no) e where "x = Some e" "a' = a"
  | (yes) u where "x = None" "map_of (users a) ident = Some u"
      "a' = a\<lparr>users := gm_set ident (u\<lparr>ur_DisabledAt := (if disabled then Some now else None)\<rparr>) (users a),
        sessions := (if disabled then filter (\<lambda>(h, s). sr_User s \<noteq> ident) (sessions a) else sessions a)\<rparr>"
proof (cases "fails \<or> map_of (users a) ident = None")
  case True
  with assms have "x = Some (if fails then DatabaseFailed else NoSuchUser)" "a' = a"
    by (auto simp: SetUserDisabled_def split: if_splits)
  then show thesis using no by blast
next
  case False
  then obtain u where u: "map_of (users a) ident = Some u" by auto
  have "SetUserDisabled fails now ident disabled a =
    (None, a\<lparr>users := gm_set ident (u\<lparr>ur_DisabledAt := (if disabled then Some now else None)\<rparr>) (users a),
      sessions := (if disabled then filter (\<lambda>(h, s). sr_User s \<noteq> ident) (sessions a) else sessions a)\<rparr>)"
    using False u by (simp only: SetUserDisabled_def option.case de_Morgan_disj if_False)
  with assms u yes show thesis by simp
qed

lemma enable_ok:
  assumes "accounts_ok cr iss a" and "map_of (users a) ident = Some u"
  shows "accounts_ok cr iss (a\<lparr>users := gm_set ident (u\<lparr>ur_DisabledAt := None\<rparr>) (users a)\<rparr>)"
proof -
  let ?a = "a\<lparr>users := gm_set ident (u\<lparr>ur_DisabledAt := None\<rparr>) (users a)\<rparr>"
  have "users_ok cr (users a)" using assms(1) by (simp add: accounts_ok_def)
  then have "users_ok cr (users ?a)"
    using users_ok_same_email [of cr "users a" ident u "u\<lparr>ur_DisabledAt := None\<rparr>"] assms(2) user_okD [OF assms]
    by (simp add: user_ok_def)
  moreover have "sessions_ok cr iss ?a"
  proof (rule sessions_ok_keeps [of cr iss a])
    show "sessions_ok cr iss a" using assms(1) by (simp add: accounts_ok_def)
  qed (use accounts_gm_ok [OF assms(1)] in \<open>auto simp: Disabled_def\<close>)
  ultimately show ?thesis using assms(1) by (simp add: accounts_ok_def)
qed

lemma disable_ok:
  assumes "accounts_ok cr iss a" and "map_of (users a) ident = Some u"
  shows "accounts_ok cr iss (a\<lparr>users := gm_set ident (u\<lparr>ur_DisabledAt := Some now\<rparr>) (users a),
    sessions := filter (\<lambda>(h, s). sr_User s \<noteq> ident) (sessions a)\<rparr>)" (is "accounts_ok cr iss ?a")
proof -
  have gm: "gm_ok (sessions a)" using accounts_gm_ok [OF assms(1)] by simp
  have "users_ok cr (users a)" using assms(1) by (simp add: accounts_ok_def)
  then have "users_ok cr (users ?a)"
    using users_ok_same_email [of cr "users a" ident u "u\<lparr>ur_DisabledAt := Some now\<rparr>"] assms(2) user_okD [OF assms]
    by (simp add: user_ok_def)
  moreover have "sessions_ok cr iss ?a"
  proof (rule sessions_ok_keeps [of cr iss a])
    show "sessions_ok cr iss a" using assms(1) by (simp add: accounts_ok_def)
  qed (use gm in \<open>auto simp: gm_ok_filter map_of_filter_records Disabled_def split: option.splits if_splits\<close>)
  ultimately show ?thesis using assms(1) by (simp add: accounts_ok_def)
qed

lemma SetUserDisabled_ok:
  assumes "accounts_ok cr iss a" and "SetUserDisabled fails now ident disabled a = (x, a')"
  shows "accounts_ok cr iss a'"
  using assms(2)
proof (cases rule: SetUserDisabled_cases)
  case (yes u)
  show ?thesis
  proof (cases disabled)
    case True
    with disable_ok [OF assms(1) yes(2), of now] yes(3) show ?thesis by simp
  next
    case False
    with enable_ok [OF assms(1) yes(2)] yes(3) show ?thesis by simp
  qed
qed (simp add: assms(1))

lemma ValidateSession_cases:
  assumes "ValidateSession cr fails now token a = (x, a')"
  obtains (no) e where "x = Inl e" "a' = a"
  | (stale) s where "x = Inl ErrNoSession" "map_of (sessions a) (sha256 cr token) = Some s" "sr_Expires s < now"
      "a' = a\<lparr>sessions := gm_del (sha256 cr token) (sessions a)\<rparr>"
  | (yes) s u where "x = Inr \<lparr>se_UserID = sr_User s, se_Email = ur_Email u, se_ExpiresAt = sr_Expires s\<rparr>"
      "map_of (sessions a) (sha256 cr token) = Some s" "map_of (users a) (sr_User s) = Some u"
      "now \<le> sr_Expires s" "\<not> Disabled u"
      "a' = a\<lparr>sessions := gm_set (sha256 cr token) (s\<lparr>sr_LastSeen := now\<rparr>) (sessions a)\<rparr>"
proof (cases "token = [] \<or> fails \<or> map_of (sessions a) (sha256 cr token) = None")
  case True
  with assms no show thesis by (auto simp: ValidateSession_def Let_def split: if_splits)
next
  case False
  then obtain s where s: "map_of (sessions a) (sha256 cr token) = Some s" by auto
  show thesis
  proof (cases "map_of (users a) (sr_User s)")
    case None
    with assms False s have "x = Inl ErrNoSession" "a' = a" by (auto simp: ValidateSession_def Let_def)
    then show thesis by (rule no)
  next
    case (Some u)
    consider "sr_Expires s < now" | "now \<le> sr_Expires s" "Disabled u" | "now \<le> sr_Expires s" "\<not> Disabled u" by linarith
    then show thesis
    proof cases
      case 1
      with assms False s Some stale show thesis by (simp add: ValidateSession_def Let_def After_def)
    next
      case 2
      with assms False s Some have "x = Inl ErrUserDisabled" "a' = a"
        by (auto simp: ValidateSession_def Let_def After_def)
      then show thesis by (rule no)
    next
      case 3
      with assms False s Some have "x = Inr \<lparr>se_UserID = sr_User s, se_Email = ur_Email u, se_ExpiresAt = sr_Expires s\<rparr>"
        "a' = a\<lparr>sessions := gm_set (sha256 cr token) (s\<lparr>sr_LastSeen := now\<rparr>) (sessions a)\<rparr>"
        by (auto simp: ValidateSession_def Let_def After_def)
      then show thesis using s Some 3 by (intro yes)
    qed
  qed
qed

lemma ValidateSession_ok:
  assumes "accounts_ok cr iss a" and "ValidateSession cr fails now token a = (x, a')"
  shows "accounts_ok cr iss a'"
  using assms(2)
proof (cases rule: ValidateSession_cases)
  case (no e)
  then show ?thesis using assms(1) by simp
next
  case (stale s)
  then show ?thesis using session_delete_ok [OF assms(1)] by simp
next
  case (yes s u)
  then show ?thesis using session_write_ok [OF assms(1) yes(2)] by simp
qed

lemma CreateSession_Inr:
  assumes "CreateSession cr fails random now ident a = (Inr (token, expires), a')"
  shows "expires = now + SessionLifetime \<and> token \<noteq> [] \<and> map_of (sessions a) (sha256 cr token) = None \<and>
    a' = a\<lparr>sessions := gm_set (sha256 cr token) \<lparr>sr_User = ident, sr_Expires = expires, sr_LastSeen = now\<rparr> (sessions a)\<rparr>"
  using assms
  by (auto simp: CreateSession_def Let_def gm_has_def sessionTokenPrefix_def split: option.splits if_splits)

lemma CreateSession_Inl: "CreateSession cr fails random now ident a = (Inl e, a') \<Longrightarrow> a' = a"
  by (auto simp: CreateSession_def Let_def split: option.splits if_splits)

lemma CreateSession_ok:
  assumes "accounts_ok cr iss a" and "CreateSession cr fails random now ident a = (Inr (token, expires), a')"
    and "map_of (users a) ident = Some u" and "\<not> Disabled u"
  shows "accounts_ok cr ((token, ident, expires) # iss) a'"
proof -
  have a': "a' = a\<lparr>sessions := gm_set (sha256 cr token) \<lparr>sr_User = ident, sr_Expires = expires, sr_LastSeen = now\<rparr> (sessions a)\<rparr>"
    using CreateSession_Inr [OF assms(2)] by blast
  have ok: "sessions_ok cr iss a" "gm_ok (sessions a)" using assms(1) accounts_gm_ok by (auto simp: accounts_ok_def)
  have "session_ok cr ((token, ident, expires) # iss) (users a) h s"
    if "map_of (sessions a') h = Some s" for h s
  proof (cases "h = sha256 cr token")
    case True
    then show ?thesis using that assms(3,4) by (auto simp: a' session_ok_def)
  next
    case False
    then have "session_ok cr iss (users a) h s" using that ok(1) by (auto simp: a' sessions_ok_def)
    then show ?thesis by (auto simp: session_ok_def)
  qed
  then show ?thesis using assms(1) ok(2) by (simp add: a' accounts_ok_def sessions_ok_def)
qed

section \<open>What every operation keeps\<close>

text \<open>
  An invariant of the tables and of the throttle need only be kept by the operations on them; the handlers are
  compositions of those, so it then holds in every reachable state.
\<close>

locale account_invariant =
  fixes cfg :: Config and cr :: crypto and I :: "issued \<Rightarrow> Accounts \<Rightarrow> bool"
  assumes initially: "I [] no_accounts"
    and throttle_fine: "I iss a \<Longrightarrow> throttle_ok (throttle a)"
    and keeps_throttle: "I iss a \<Longrightarrow> throttle_ok t \<Longrightarrow> I iss (a\<lparr>throttle := t\<rparr>)"
    and keeps_create: "I iss a \<Longrightarrow> CreateUser cr fails salt ident now email password a = (x, a') \<Longrightarrow> I iss a'"
    and keeps_authenticate: "I iss a \<Longrightarrow> Authenticate cr fails now email password a = (x, a') \<Longrightarrow> I iss a'"
    and signs_in: "I iss a \<Longrightarrow> Authenticate cr fails now email password a = (Inr (ident, u), a') \<Longrightarrow>
      \<exists>v. map_of (users a') ident = Some v \<and> \<not> Disabled v"
    and keeps_password: "I iss a \<Longrightarrow> SetPassword cr fails salt ident password a = (e, a') \<Longrightarrow> I iss a'"
    and keeps_disabled: "I iss a \<Longrightarrow> update_disabled cfg fails now ident flag a = (no, a') \<Longrightarrow> I iss a'"
    and keeps_session: "I iss a \<Longrightarrow> CreateSession cr fails random now ident a = (Inr (token, expires), a') \<Longrightarrow>
      map_of (users a) ident = Some u \<Longrightarrow> \<not> Disabled u \<Longrightarrow> I ((token, ident, expires) # iss) a'"
    and keeps_validate: "I iss a \<Longrightarrow> ValidateSession cr fails now token a = (y, a') \<Longrightarrow> I iss a'"
    and keeps_delete: "I iss a \<Longrightarrow> I iss (DeleteSession cr fails token a)"
    and keeps_prune: "I iss a \<Longrightarrow> PruneSessions now a = (n, a') \<Longrightarrow> I iss a'"
begin

lemma keeps_handler_session: "I iss a \<Longrightarrow> handler_session cr fails now r a = (s, a') \<Longrightarrow> I iss a'"
  using keeps_validate
  by (fastforce simp: handler_session_def split: option.splits prod.splits sum.splits)

lemma keeps_guard: "I iss a \<Longrightarrow> adminAuthorized cfg cr fails now r a = (no, a') \<Longrightarrow> I iss a'"
  using keeps_handler_session
  by (fastforce simp: adminAuthorized_def Let_def split: prod.splits if_splits)

lemma keeps_logout: "I iss a \<Longrightarrow> handleLogout cr fails r a = (rep, a') \<Longrightarrow> I iss a'"
  using keeps_delete by (auto simp: handleLogout_def split: option.splits)

lemma keeps_me: "I iss a \<Longrightarrow> handleMe cfg cr fails now r a = (rep, a') \<Longrightarrow> I iss a'"
  using keeps_handler_session
  by (fastforce simp: handleMe_def split: prod.splits option.splits)

lemma keeps_change:
  assumes "I iss a" and "handleChangePassword cr fails salt now r pws a = (rep, a')"
  shows "I iss a'"
proof -
  obtain s a1 where s: "handler_session cr fails now r a = (s, a1)" by fastforce
  have 1: "I iss a1" using keeps_handler_session [OF assms(1) s] .
  show ?thesis
  proof (cases "s = None \<or> pws = None")
    case True
    with assms(2) s 1 show ?thesis by (auto simp: handleChangePassword_def split: option.splits)
  next
    case False
    then obtain se current new where se: "s = Some se" "pws = Some (current, new)" by (cases s; cases pws) auto
    obtain x a2 where x: "Authenticate cr fails now (se_Email se) current a1 = (x, a2)" by fastforce
    obtain e a3 where e: "SetPassword cr fails salt (se_UserID se) new a2 = (e, a3)" by fastforce
    have 2: "I iss a2" using keeps_authenticate [OF 1 x] .
    have "I iss a3" using keeps_password [OF 2 e] .
    with 2 assms(2) s se x e show ?thesis
      by (auto simp: handleChangePassword_def split: sum.splits option.splits)
  qed
qed

lemma keeps_admin_create:
  assumes "I iss a" and "adminCreateUser cfg cr fails salt ident now r pws a = (rep, a')"
  shows "I iss a'"
proof -
  obtain no a1 where no: "adminAuthorized cfg cr fails now r a = (no, a1)" by fastforce
  have 1: "I iss a1" using keeps_guard [OF assms(1) no] .
  show ?thesis
  proof (cases "no = None \<and> pws \<noteq> None")
    case True
    then obtain email password where pws: "no = None" "pws = Some (email, password)" by auto
    obtain x a2 where x: "CreateUser cr fails salt ident now email password a1 = (x, a2)" by fastforce
    have "I iss a2" using keeps_create [OF 1 x] .
    with assms(2) no pws x show ?thesis by (auto simp: adminCreateUser_def split: sum.splits)
  next
    case False
    with assms(2) no 1 show ?thesis by (auto simp: adminCreateUser_def split: option.splits)
  qed
qed

lemma keeps_update_password: "I iss a \<Longrightarrow> update_password cr fails salt ident new a = (no, a') \<Longrightarrow> I iss a'"
  using keeps_password by (fastforce simp: update_password_def split: option.splits prod.splits)

lemma keeps_admin_update:
  assumes "I iss a" and "adminUpdateUser cfg cr fails salt now r ident changes a = (rep, a')"
  shows "I iss a'"
proof -
  obtain no a1 where no: "adminAuthorized cfg cr fails now r a = (no, a1)" by fastforce
  have 1: "I iss a1" using keeps_guard [OF assms(1) no] .
  show ?thesis
  proof (cases "no = None \<and> changes \<noteq> None")
    case True
    then obtain flag new where ch: "no = None" "changes = Some (flag, new)" by auto
    obtain no2 a2 where n2: "update_disabled cfg fails now ident flag a1 = (no2, a2)" by fastforce
    obtain no3 a3 where n3: "update_password cr fails salt ident new a2 = (no3, a3)" by fastforce
    have 2: "I iss a2" using keeps_disabled [OF 1 n2] .
    have "I iss a3" using keeps_update_password [OF 2 n3] .
    with 2 assms(2) no ch n2 n3 show ?thesis
      by (auto simp: adminUpdateUser_def split: option.splits if_splits)
  next
    case False
    with assms(2) no 1 show ?thesis by (auto simp: adminUpdateUser_def split: option.splits)
  qed
qed

lemma keeps_login:
  assumes "I iss a" and "handleLogin cfg cr io r body a = (rep, a')"
  shows "I (issued_by rep @ iss) a'"
proof (cases "body = None \<or> (\<exists>e p. body = Some (e, p) \<and> (NormalizeEmail e = [] \<or> p = []))")
  case True
  with assms show ?thesis by (auto simp: handleLogin_def issued_by_def Let_def)
next
  case False
  then obtain email password where b: "body = Some (email, password)" "NormalizeEmail email \<noteq> []" "password \<noteq> []" by auto
  let ?keys = "login_keys cfg r (NormalizeEmail email)"
  obtain w t where t: "first_locked (li_now io) ?keys (throttle a) = (w, t)" by fastforce
  have tok: "throttle_ok t" using first_locked_spec [OF throttle_fine [OF assms(1)] t] by blast
  have 1: "I iss (a\<lparr>throttle := t\<rparr>)" using keeps_throttle [OF assms(1) tok] .
  have swept: "throttle_ok (fold f ks t)" if "\<And>k t. throttle_ok t \<Longrightarrow> throttle_ok (f k t)" for f ks
    using tok that by (induction ks arbitrary: t) auto
  show ?thesis
  proof (cases w)
    case (Some wait)
    with assms(2) b t 1 show ?thesis by (auto simp: handleLogin_def issued_by_def Let_def)
  next
    case None
    obtain x a1 where x: "Authenticate cr (li_auth_fails io) (li_now io) (NormalizeEmail email) password (a\<lparr>throttle := t\<rparr>) = (x, a1)"
      by fastforce
    have 2: "I iss a1" using keeps_authenticate [OF 1 x] .
    have th: "throttle a1 = t" using Authenticate_throttle [of cr "li_auth_fails io" "li_now io" "NormalizeEmail email" password "a\<lparr>throttle := t\<rparr>"]
      by (simp add: x)
    show ?thesis
    proof (cases x)
      case (Inl e)
      have "I iss (a1\<lparr>throttle := fold (fail (li_now io)) ?keys (throttle a1)\<rparr>)"
        using keeps_throttle [OF 2] swept [of "fail (li_now io)" ?keys] by (simp add: th)
      with assms(2) b t None x Inl show ?thesis
        by (auto simp: handleLogin_def issued_by_def auth_reply_def Let_def)
    next
      case (Inr iu)
      obtain ident u where iu: "iu = (ident, u)" by (cases iu)
      let ?a2 = "a1\<lparr>throttle := fold succeed ?keys (throttle a1)\<rparr>"
      have 3: "I iss ?a2" using keeps_throttle [OF 2] swept [of succeed ?keys] by (simp add: th)
      obtain v where v: "map_of (users ?a2) ident = Some v" "\<not> Disabled v"
        using signs_in [OF 1 x [unfolded Inr iu]] by auto
      obtain y a3 where y: "CreateSession cr (li_session_fails io) (li_random io) (li_now io) ident ?a2 = (y, a3)" by fastforce
      show ?thesis
      proof (cases y)
        case (Inl e)
        then have "a3 = ?a2" using CreateSession_Inl y by blast
        with assms(2) b t None x Inr iu y Inl 3 show ?thesis by (auto simp: handleLogin_def issued_by_def Let_def)
      next
        case (Inr te)
        obtain token expires where "te = (token, expires)" by (cases te)
        with keeps_session [OF 3 _ v] y Inr have "I ((token, ident, expires) # iss) a3" by blast
        with assms(2) b t None x \<open>x = Inr iu\<close> iu y Inr \<open>te = _\<close> show ?thesis
          by (auto simp: handleLogin_def issued_by_def Let_def)
      qed
    qed
  qed
qed

lemma keeps_restart: "I iss a \<Longrightarrow> I iss (a\<lparr>throttle := newLoginThrottle\<rparr>)"
  by (rule keeps_throttle) simp_all

lemma reachable: "reachable_accounts cfg cr a iss \<Longrightarrow> I iss a"
  by (induction rule: reachable_accounts.induct)
    (blast intro: initially keeps_create keeps_login keeps_logout keeps_me keeps_change keeps_guard keeps_admin_create
      keeps_admin_update keeps_prune keeps_restart)+

end

end
