(* ===== verification/Account_Safety.thy ===== *)
theory Account_Safety
  imports Accounts_Facts
begin

text \<open>
  What an operator relies on: bounded guessing, sessions that only a sign-in opens and that end on time or with the
  account, and management nobody can be locked out of. The first two locale interpretations here discharge the laws of
  \<open>account_invariant\<close> for the model's own operations.
\<close>

section \<open>Invariants of the reachable states\<close>

lemma accounts_ok_initially: "accounts_ok cr [] no_accounts"
  by (simp add: accounts_ok_def users_ok_def sessions_ok_def no_accounts_def)

lemma signed_in_user:
  assumes "accounts_ok cr iss a" and "Authenticate cr fails now email password a = (Inr (ident, u), a')"
  shows "\<exists>v. map_of (users a') ident = Some v \<and> \<not> Disabled v"
  using assms(2) accounts_gm_ok [OF assms(1), THEN conjunct1]
  by (cases rule: Authenticate_cases) (auto simp: Disabled_def)

lemma update_disabled_cases:
  assumes "update_disabled cfg fails now ident flag a = (no, a')"
  obtains (same) "a' = a" | (set) disabled x where "flag = Some disabled" "SetUserDisabled fails now ident disabled a = (x, a')"
    "disabled \<Longrightarrow> activeUserCount a \<le> 1 \<Longrightarrow> AdminToken cfg \<noteq> []"
proof (cases flag)
  case None
  with assms same show thesis by (simp add: update_disabled_def)
next
  case (Some disabled)
  show thesis
  proof (cases "disabled \<and> (fails \<or> activeUserCount a \<le> 1 \<and> AdminToken cfg = [])")
    case True
    with assms Some same show thesis by (auto simp: update_disabled_def split: if_splits)
  next
    case False
    obtain x a1 where x: "SetUserDisabled fails now ident disabled a = (x, a1)" by fastforce
    with assms Some False have "a' = a1" by (auto simp: update_disabled_def split: option.splits if_splits)
    with x Some False set show thesis by blast
  qed
qed

lemma DeleteSession_ok: "accounts_ok cr iss a \<Longrightarrow> accounts_ok cr iss (DeleteSession cr fails token a)"
  by (simp add: DeleteSession_def session_delete_ok)

lemma PruneSessions_ok: "accounts_ok cr iss a \<Longrightarrow> PruneSessions now a = (n, a') \<Longrightarrow> accounts_ok cr iss a'"
  using session_filter_ok [of cr iss a] by (auto simp: PruneSessions_def Let_def)

lemma update_disabled_ok:
  "accounts_ok cr iss a \<Longrightarrow> update_disabled cfg fails now ident flag a = (no, a') \<Longrightarrow> accounts_ok cr iss a'"
  by (erule update_disabled_cases) (auto intro: SetUserDisabled_ok)

lemma accounts_throttle: "accounts_ok cr iss a \<Longrightarrow> throttle_ok (throttle a)"
  by (simp add: accounts_ok_def)

interpretation tables: account_invariant cfg cr "accounts_ok cr" for cfg cr
  by unfold_locales
    (blast intro: accounts_ok_initially accounts_throttle throttle_write_ok CreateUser_ok Authenticate_ok signed_in_user
      SetPassword_ok update_disabled_ok CreateSession_ok ValidateSession_ok DeleteSession_ok PruneSessions_ok)+

text \<open>Some account can sign in. Without an admin token this is all that keeps management reachable.\<close>

definition enabled_ids :: "Accounts \<Rightarrow> string set" where
  "enabled_ids a = {i. \<exists>u. map_of (users a) i = Some u \<and> \<not> Disabled u}"

definition operable :: "Config \<Rightarrow> Accounts \<Rightarrow> bool" where
  "operable cfg a \<longleftrightarrow> (AdminToken cfg = [] \<longrightarrow> users a \<noteq> [] \<longrightarrow> enabled_ids a \<noteq> {})"

lemma enabled_ids_write:
  "map_of (users a) i = Some u0 \<Longrightarrow> (Disabled u \<Longrightarrow> Disabled u0) \<Longrightarrow>
    enabled_ids a \<subseteq> enabled_ids (a\<lparr>users := gm_set i u (users a)\<rparr>)"
  by (auto simp: enabled_ids_def)

lemma enabled_ids_users: "users a' = users a \<Longrightarrow> enabled_ids a' = enabled_ids a"
  by (simp add: enabled_ids_def)

lemma operable_users: "operable cfg a \<Longrightarrow> users a' = users a \<Longrightarrow> operable cfg a'"
  by (simp add: operable_def enabled_ids_def)

lemma map_of_not_Nil: "map_of m k = Some v \<Longrightarrow> m \<noteq> []"
  by auto

lemma operable_more: "operable cfg a \<Longrightarrow> users a \<noteq> [] \<Longrightarrow> enabled_ids a \<subseteq> enabled_ids a' \<Longrightarrow> operable cfg a'"
  by (auto simp: operable_def)

lemma operable_write:
  assumes "operable cfg a" and "map_of (users a) i = Some u0" and "Disabled u = Disabled u0"
  shows "operable cfg (a\<lparr>users := gm_set i u (users a)\<rparr>)"
  using operable_more [OF assms(1) map_of_not_Nil [OF assms(2)] enabled_ids_write [OF assms(2), of u]] assms(3) by simp

lemma operable_Create:
  assumes "CreateUser cr fails salt ident now email password a = (x, a')" and "operable cfg a"
  shows "operable cfg a'"
proof (cases x)
  case (Inl e)
  with assms show ?thesis by (auto simp: CreateUser_def Let_def split: option.splits if_splits)
next
  case (Inr iu)
  with assms(1) have "ident \<in> enabled_ids a'"
    by (auto simp: CreateUser_def Let_def enabled_ids_def Disabled_def split: option.splits if_splits)
  then show ?thesis by (auto simp: operable_def)
qed

lemma operable_Authenticate:
  assumes "Authenticate cr fails now email password a = (x, a')" and "gm_ok (users a)" and "operable cfg a"
  shows "operable cfg a'"
  using assms(1,2)
proof (cases rule: Authenticate_cases)
  case (yes i u)
  show ?thesis
    using operable_write [OF assms(3) yes(2), of "u\<lparr>ur_LastLogin := Some now\<rparr>"] yes(6) by (simp add: Disabled_def)
qed (simp add: assms(3))

lemma operable_SetPassword:
  assumes "SetPassword cr fails salt ident password a = (e, a')" and "operable cfg a"
  shows "operable cfg a'"
proof (cases "a' = a")
  case False
  with assms(1) obtain hash u where h: "map_of (users a) ident = Some u"
    "a' = a\<lparr>users := gm_set ident (u\<lparr>ur_Hash := hash\<rparr>) (users a)\<rparr>"
    by (auto simp: SetPassword_def split: option.splits if_splits)
  show ?thesis
    using operable_write [OF assms(2) h(1), of "u\<lparr>ur_Hash := hash\<rparr>"] h(2) by (simp add: Disabled_def)
qed (simp add: assms(2))

lemma many_keys:
  assumes "gm_ok m" and "1 < length (filter (\<lambda>(i, u). P u) m)"
  shows "\<exists>i u. map_of m i = Some u \<and> P u \<and> i \<noteq> ident"
proof (rule ccontr)
  assume no: "\<not> ?thesis"
  let ?f = "filter (\<lambda>(i, u). P u) m"
  have "i = ident" if "(i, u) \<in> set ?f" for i u
    using that no map_of_is_SomeI [OF assms(1)] by auto
  then have "set (map fst ?f) \<subseteq> {ident}" by auto
  then have "card (set (map fst ?f)) \<le> card {ident}" by (intro card_mono) simp_all
  moreover have "distinct (map fst ?f)" using assms(1) by (rule gm_ok_filter)
  ultimately have "length (map fst ?f) \<le> 1" using distinct_card [of "map fst ?f"] by (simp del: set_map set_filter)
  with assms(2) show False by simp
qed

lemma operable_update:
  assumes "update_disabled cfg fails now ident flag a = (no, a')" and "gm_ok (users a)" and "operable cfg a"
  shows "operable cfg a'"
  using assms(1)
proof (cases rule: update_disabled_cases)
  case (set disabled x)
  from set(2) show ?thesis
  proof (cases rule: SetUserDisabled_cases)
    case (yes u)
    show ?thesis
    proof (cases "AdminToken cfg = []")
      case True
      have "enabled_ids a' \<noteq> {}" if "enabled_ids a \<noteq> {}"
      proof (cases disabled)
        case True
        then have "1 < length (filter (\<lambda>(i, u). \<not> Disabled u) (users a))"
          using set(3) \<open>AdminToken cfg = []\<close> by (force simp: activeUserCount_def ListUsers_def filter_sort)
        then obtain j v where "map_of (users a) j = Some v" "\<not> Disabled v" "j \<noteq> ident"
          using many_keys [OF assms(2), of "\<lambda>u. \<not> Disabled u" ident] by auto
        then have "j \<in> enabled_ids a'" by (simp add: enabled_ids_def yes(3))
        then show ?thesis by blast
      next
        case False
        then have "ident \<in> enabled_ids a'" by (simp add: enabled_ids_def yes(3) Disabled_def)
        then show ?thesis by blast
      qed
      then show ?thesis using assms(3) map_of_not_Nil [OF yes(2)] by (auto simp: operable_def)
    qed (simp add: operable_def)
  qed (simp add: assms(3))
qed (simp add: assms(3))

lemma operable_Validate: "ValidateSession cr fails now token a = (x, a') \<Longrightarrow> operable cfg a \<Longrightarrow> operable cfg a'"
  by (erule ValidateSession_cases) (auto intro: operable_users)

lemma operable_sessions: "operable cfg a \<Longrightarrow> operable cfg (DeleteSession cr fails token a)"
  "operable cfg a \<Longrightarrow> PruneSessions now a = (n, a') \<Longrightarrow> operable cfg a'"
  "operable cfg a \<Longrightarrow> CreateSession cr fails random now ident a = (Inr (token, expires), a') \<Longrightarrow> operable cfg a'"
  by (auto intro!: operable_users [of cfg a] simp: DeleteSession_def PruneSessions_def Let_def dest!: CreateSession_Inr)

lemma operable_throttle: "operable cfg a \<Longrightarrow> operable cfg (a\<lparr>throttle := t\<rparr>)"
  by (rule operable_users) simp_all

lemma operable_initially: "operable cfg no_accounts"
  by (simp add: operable_def no_accounts_def)

interpretation operators: account_invariant cfg cr "\<lambda>iss a. accounts_ok cr iss a \<and> operable cfg a" for cfg cr
  by unfold_locales
    (blast intro: accounts_ok_initially accounts_throttle throttle_write_ok CreateUser_ok Authenticate_ok signed_in_user
      SetPassword_ok update_disabled_ok CreateSession_ok ValidateSession_ok DeleteSession_ok PruneSessions_ok
      operable_initially operable_Create operable_Authenticate operable_SetPassword operable_update operable_Validate
      operable_sessions operable_throttle dest: accounts_gm_ok)+

section \<open>Guessing\<close>

text \<open>
  C15. The sign-in throttle bounds online guessing between two restarts: however sign-ins of any accounts, right and
  wrong, are timed and from however many addresses they come, and whatever else changes the accounts in between, in any
  span of five minutes at most nine wrong passwords of one account are looked at since the last sign-in to that account
  (four left over from a window that ran out, and the five that lead to a lockout). A right password forgets the wrong
  ones before it, so the count starts again with each. This is for sign-ins that do not overlap.
\<close>

theorem login_guess_bound:
  assumes "throttle_ok (throttle a0)" and "0 \<le> from" and "guessing cfg cr email from a0 n a"
  shows "n \<le> 9"
proof -
  from guessing_budget [OF assms(3,1,2)] guesses_left_range [of "throttle a" "from" "''email:'' @ NormalizeEmail email"]
  have "int n \<le> 9" by linarith
  then show ?thesis by simp
qed

text \<open>A deployment to try the statements on: hashing is reversible, there is no proxy and no admin token.\<close>

definition toy_crypto :: crypto where
  "toy_crypto = \<lparr>sha256 = (\<lambda>t. CHR ''#'' # t), bcrypt = (\<lambda>salt p. Some (salt @ p)), bcrypt_ok = (\<lambda>h p. h = CHR ''s'' # p)\<rparr>"

definition plain_config :: Config where
  "plain_config = (Load bare_host two_providers)\<lparr>AdminToken := [], TrustProxyHeaders := False\<rparr>"

lemma plain_config_fields [simp]: "AdminToken plain_config = []" "TrustProxyHeaders plain_config = False"
  by (simp_all add: plain_config_def)

definition no_request :: rq where
  "no_request = \<lparr>RemoteAddr = ''10.0.0.1:99'', ForwardedFor = [], ForwardedProto = [], over_TLS = False,
     Cookie = None, Authorization = []\<rparr>"

definition at_time :: "time \<Rightarrow> login_io" where
  "at_time now = \<lparr>li_now = now, li_auth_fails = False, li_session_fails = False, li_random = Some ''r''\<rparr>"

section \<open>Sessions\<close>

text \<open>
  A session cookie is worth exactly one sign-in: in every state the handlers, the bootstrap and the sweeper can
  reach, a token that passes the session check was handed out by a sign-in to that very account, the account exists and
  is enabled, and the time of expiry is the one fixed at the sign-in and has not passed: using a session does not
  prolong it, and disabling an account ends it. The hash must not map the token and another one that was handed out to
  one value.
\<close>

theorem session_is_a_sign_in:
  assumes "reachable_accounts cfg cr a iss" and "ValidateSession cr fails now token a = (Inr s, a')"
    and "\<forall>(t, i, e) \<in> set iss. sha256 cr t = sha256 cr token \<longrightarrow> t = token"
  shows "(token, se_UserID s, se_ExpiresAt s) \<in> set iss \<and> now \<le> se_ExpiresAt s \<and>
    (\<exists>u. map_of (users a) (se_UserID s) = Some u \<and> ur_Email u = se_Email s \<and> \<not> Disabled u)"
  using assms(2)
proof (cases rule: ValidateSession_cases)
  case (yes row u)
  have "accounts_ok cr iss a" using tables.reachable [OF assms(1)] .
  with yes(2) have "session_ok cr iss (users a) (sha256 cr token) row" by (simp add: accounts_ok_def sessions_ok_def)
  then obtain t where t: "(t, sr_User row, sr_Expires row) \<in> set iss" "sha256 cr t = sha256 cr token"
    by (auto simp: session_ok_def)
  with assms(3) have "t = token" by fastforce
  with t(1) yes show ?thesis by simp
qed simp_all

lemma sign_in_cases:
  assumes "handleLogin cfg cr io r (Some (email, password)) a = (SignedIn ident token expires secure, a')"
  obtains t u a1 where "first_locked (li_now io) (login_keys cfg r (NormalizeEmail email)) (throttle a) = (None, t)"
    "Authenticate cr (li_auth_fails io) (li_now io) (NormalizeEmail email) password (a\<lparr>throttle := t\<rparr>) = (Inr (ident, u), a1)"
    "CreateSession cr (li_session_fails io) (li_random io) (li_now io) ident
      (a1\<lparr>throttle := fold succeed (login_keys cfg r (NormalizeEmail email)) (throttle a1)\<rparr>) = (Inr (token, expires), a')"
  using assms
  by (auto simp: handleLogin_def auth_reply_def Let_def split: if_splits prod.splits option.splits sum.splits)

text \<open>
  C16. Signing in needs the right password of an enabled account, no lockout on the email or the address, and gives a
  session: the returned token passes the session check, as that account, at every moment until twelve hours after the
  sign-in (unless it is revoked) and at none after.
\<close>

theorem sign_in_opens_session:
  assumes "accounts_ok cr iss a"
    and "handleLogin cfg cr io r (Some (email, password)) a = (SignedIn ident token expires secure, a')"
  shows "\<exists>u. map_of (users a) ident = Some u \<and> ur_Email u = NormalizeEmail email \<and> bcrypt_ok cr (ur_Hash u) password \<and>
    \<not> Disabled u \<and> (\<forall>key \<in> set (login_keys cfg r (NormalizeEmail email)). \<not> is_locked (li_now io) key (throttle a)) \<and>
    expires = li_now io + 12 * Hour \<and>
    (\<forall>now. fst (ValidateSession cr False now token a') =
      (if now \<le> expires then Inr \<lparr>se_UserID = ident, se_Email = ur_Email u, se_ExpiresAt = expires\<rparr> else Inl ErrNoSession))"
proof -
  obtain t u a1 where h: "first_locked (li_now io) (login_keys cfg r (NormalizeEmail email)) (throttle a) = (None, t)"
    "Authenticate cr (li_auth_fails io) (li_now io) (NormalizeEmail email) password (a\<lparr>throttle := t\<rparr>) = (Inr (ident, u), a1)"
    "CreateSession cr (li_session_fails io) (li_random io) (li_now io) ident
      (a1\<lparr>throttle := fold succeed (login_keys cfg r (NormalizeEmail email)) (throttle a1)\<rparr>) = (Inr (token, expires), a')"
    using sign_in_cases [OF assms(2)] .
  have gm: "gm_ok (users (a\<lparr>throttle := t\<rparr>))" using accounts_gm_ok [OF assms(1)] by simp
  have free: "\<forall>key \<in> set (login_keys cfg r (NormalizeEmail email)). \<not> is_locked (li_now io) key (throttle a)"
    using first_locked_spec [OF accounts_throttle [OF assms(1)] h(1)] by blast
  from h(2) gm have u: "map_of (users a) ident = Some u" "ur_Email u = NormalizeEmail email" "bcrypt_ok cr (ur_Hash u) password"
    "\<not> Disabled u" "users a1 = gm_set ident (u\<lparr>ur_LastLogin := Some (li_now io)\<rparr>) (users a)"
    by (cases rule: Authenticate_cases; simp)+
  note s = CreateSession_Inr [OF h(3)]
  have "map_of (users a') ident = Some (u\<lparr>ur_LastLogin := Some (li_now io)\<rparr>)" using s u(5) by simp
  moreover have "map_of (sessions a') (sha256 cr token) = Some \<lparr>sr_User = ident, sr_Expires = expires, sr_LastSeen = li_now io\<rparr>"
    using s by simp
  ultimately have "fst (ValidateSession cr False now token a') =
      (if now \<le> expires then Inr \<lparr>se_UserID = ident, se_Email = ur_Email u, se_ExpiresAt = expires\<rparr> else Inl ErrNoSession)" for now
    using s u(4) by (simp add: ValidateSession_def Let_def After_def Disabled_def)
  with u free s show ?thesis by (auto simp: SessionLifetime_def)
qed

text \<open>
  Management is never locked out of: whatever operators do, in any order, while there is no admin token there is an
  enabled account from the first one created on, so someone can always sign in. Each request runs by itself: two
  requests that disable the last two accounts at once can both pass the check.
\<close>

theorem operators_never_locked_out:
  assumes "reachable_accounts cfg cr a iss" and "AdminToken cfg = []" and "users a \<noteq> []"
  shows "\<exists>ident u. map_of (users a) ident = Some u \<and> \<not> Disabled u \<and> 1 \<le> activeUserCount a"
proof -
  have inv: "accounts_ok cr iss a" "operable cfg a" using operators.reachable [OF assms(1)] by auto
  with assms(2,3) obtain ident u where u: "map_of (users a) ident = Some u" "\<not> Disabled u"
    by (auto simp: operable_def enabled_ids_def)
  then have "(ident, u) \<in> set (filter (\<lambda>(i, u). \<not> Disabled u) (users a))" by (auto dest: map_of_SomeD)
  then have "1 \<le> length (filter (\<lambda>(i, u). \<not> Disabled u) (users a))"
    by (metis One_nat_def Suc_leI length_pos_if_in_set)
  with u show ?thesis by (force simp: activeUserCount_def ListUsers_def filter_sort)
qed

text \<open>One operator, who signs in.\<close>

definition operator :: UserRow where
  "operator = \<lparr>ur_Email = ''op@x'', ur_Hash = ''slongpassword'', ur_CreatedAt = 1, ur_LastLogin = None, ur_DisabledAt = None\<rparr>"

definition one_account :: Accounts where
  "one_account = no_accounts\<lparr>users := [(''u1'', operator)]\<rparr>"

definition opened :: Accounts where
  "opened = one_account\<lparr>users := [(''u1'', operator\<lparr>ur_LastLogin := Some 5\<rparr>)],
     sessions := [(''#crs_r'', \<lparr>sr_User = ''u1'', sr_Expires = 43200000000005, sr_LastSeen = 5\<rparr>)]\<rparr>"

lemma op_email: "NormalizeEmail ''op@x'' = ''op@x''" "ValidateEmail ''op@x'' = None" "ValidatePassword ''longpassword'' = None"
  by code_simp+

lemma operator_created:
  "CreateUser toy_crypto False ''s'' ''u1'' 1 ''op@x'' ''longpassword'' no_accounts = (Inr (''u1'', operator), one_account)"
  by (simp add: CreateUser_def op_email toy_crypto_def no_accounts_def one_account_def operator_def with_email_def gm_has_def Let_def)

lemma twelve_hours: "12 * Hour = 43200000000000"
  by (simp add: Hour_def Minute_def Second_def)

lemma operator_signs_in:
  "handleLogin plain_config toy_crypto (at_time 5) no_request (Some (''op@x'', ''longpassword'')) one_account =
     (SignedIn ''u1'' ''crs_r'' 43200000000005 False, opened)"
  by (simp add: handleLogin_def op_email login_keys_def locked_def sweepLocked_def at_time_def one_account_def no_accounts_def
      newLoginThrottle_def lockoutWindow_def Minute_def Second_def Authenticate_def with_email_def operator_def toy_crypto_def
      Disabled_def CreateSession_def sessionTokenPrefix_def SessionLifetime_def twelve_hours gm_has_def succeed_def
      secureCookie_def no_request_def opened_def Let_def)

text \<open>A wrong password at five, and then the right one, which starts the count again.\<close>

lemma operator_mistypes:
  "fst (handleLogin plain_config toy_crypto (at_time 5) no_request (Some (''op@x'', ''guess'')) one_account) =
     auth_reply ErrInvalidCredentials"
  by (simp add: handleLogin_def op_email login_keys_def locked_def sweepLocked_def at_time_def one_account_def no_accounts_def
      newLoginThrottle_def lockoutWindow_def Minute_def Second_def Authenticate_def with_email_def operator_def toy_crypto_def
      Disabled_def no_request_def Let_def)

lemma login_guess_bound_witness:
  "\<exists>a. guessing plain_config toy_crypto ''op@x'' 0 one_account 1 a \<and> (1 :: nat) \<le> 9 \<and>
     guessing plain_config toy_crypto ''op@x'' 0 one_account 0 opened \<and> (0 :: nat) \<le> 9"
proof -
  have ok: "throttle_ok (throttle one_account)" by (simp add: one_account_def no_accounts_def)
  have times: "0 \<le> li_now (at_time 5)" "li_now (at_time 5) \<le> 0 + lockoutDuration"
    by (simp_all add: at_time_def lockoutDuration_def Minute_def Second_def)
  obtain a where a: "handleLogin plain_config toy_crypto (at_time 5) no_request (Some (''op@x'', ''guess'')) one_account =
      (auth_reply ErrInvalidCredentials, a)"
    using operator_mistypes by (metis prod.collapse)
  have "wrong_guesses ''op@x'' (Some (''op@x'', ''guess'')) (auth_reply ErrInvalidCredentials) 0 = 1"
    by (simp add: wrong_guesses_def let_in_def told_wrong_def auth_reply_def)
  with guessing.sign_in [OF guessing.start times a] have 1: "guessing plain_config toy_crypto ''op@x'' 0 one_account 1 a" by metis
  have "wrong_guesses ''op@x'' (Some (''op@x'', ''longpassword'')) (SignedIn ''u1'' ''crs_r'' 43200000000005 False) 0 = 0"
    by (simp add: wrong_guesses_def let_in_def)
  with guessing.sign_in [OF guessing.start times operator_signs_in]
  have 0: "guessing plain_config toy_crypto ''op@x'' 0 one_account 0 opened" by metis
  from login_guess_bound [OF ok _ 1] login_guess_bound [OF ok _ 0] 1 0 show ?thesis by auto
qed

lemma operator_reachable: "reachable_accounts plain_config toy_crypto one_account []"
  using reachable_accounts.bootstrap [OF reachable_accounts.empty operator_created] .

lemma opened_reachable: "reachable_accounts plain_config toy_crypto opened [(''crs_r'', ''u1'', 43200000000005)]"
  using reachable_accounts.login [OF operator_reachable operator_signs_in] by (simp add: issued_by_def)

lemma opened_validates:
  "ValidateSession toy_crypto False 9 ''crs_r'' opened =
     (Inr \<lparr>se_UserID = ''u1'', se_Email = ''op@x'', se_ExpiresAt = 43200000000005\<rparr>,
      opened\<lparr>sessions := [(''#crs_r'', \<lparr>sr_User = ''u1'', sr_Expires = 43200000000005, sr_LastSeen = 9\<rparr>)]\<rparr>)"
  by (simp add: ValidateSession_def opened_def one_account_def no_accounts_def operator_def toy_crypto_def After_def Disabled_def Let_def)

lemma session_is_a_sign_in_witness:
  "(''crs_r'', ''u1'', 43200000000005) \<in> set [(''crs_r'', ''u1'', 43200000000005 :: int)]"
  using session_is_a_sign_in [OF opened_reachable opened_validates] by simp

lemma sign_in_opens_session_witness:
  "fst (ValidateSession toy_crypto False 43200000000005 ''crs_r'' opened) =
     Inr \<lparr>se_UserID = ''u1'', se_Email = ''op@x'', se_ExpiresAt = 43200000000005\<rparr> \<and>
   fst (ValidateSession toy_crypto False 43200000000006 ''crs_r'' opened) = Inl ErrNoSession"
  using sign_in_opens_session [OF tables.reachable [OF operator_reachable] operator_signs_in]
  by (auto simp: op_email)

lemma operators_never_locked_out_witness:
  "\<exists>ident u. map_of (users opened) ident = Some u \<and> \<not> Disabled u \<and> 1 \<le> activeUserCount opened"
proof (rule operators_never_locked_out [OF opened_reachable])
  show "AdminToken plain_config = []" by simp
  show "users opened \<noteq> []" by (simp add: opened_def)
qed

section \<open>What the code does not promise\<close>

text \<open>
  Failures are counted in a window anchored at the first of them, not in the last fifteen minutes: one wrong password,
  three in the last seconds of its window and four right after it are seven in as many seconds, and nobody is locked
  out.
\<close>

lemma anchored_window_lets_more:
  "is_locked (905 * Second) ''email:a'' (fold (\<lambda>t. fail t ''email:a'')
     [0, 898 * Second, 899 * Second, 900 * Second, 901 * Second, 902 * Second, 903 * Second, 904 * Second] newLoginThrottle) = False"
  by (simp add: fail_def newLoginThrottle_def is_locked_def lockoutWindow_def maxFailedAttempts_def Minute_def Second_def Let_def)

text \<open>The address of an IPv6 caller is cut at its first colon, so all of one network share a lockout.\<close>

lemma clientAddr_IPv6_collide:
  "clientAddr plain_config (no_request\<lparr>RemoteAddr := ''[2001:db8::7]:443''\<rparr>) = ''[2001'' \<and>
   clientAddr plain_config (no_request\<lparr>RemoteAddr := ''[2001:41d0::1]:9000''\<rparr>) = ''[2001'' \<and>
   clientAddr plain_config (no_request\<lparr>RemoteAddr := ''[::1]:443''\<rparr>) = ''[''"
proof -
  have "Cut ''[2001:db8::7]:443'' CHR '':'' = (''[2001'', ''db8::7]:443'', True)"
    "Cut ''[2001:41d0::1]:9000'' CHR '':'' = (''[2001'', ''41d0::1]:9000'', True)"
    "Cut ''[::1]:443'' CHR '':'' = (''['', '':1]:443'', True)" by code_simp+
  then show ?thesis by (simp add: clientAddr_def)
qed

text \<open>Behind a trusted proxy that appends to the header, the leftmost entry is what the caller wrote.\<close>

lemma clientAddr_forged:
  assumes "TrustProxyHeaders cfg" and "CHR '','' \<notin> set claimed" and "TrimSpace claimed = claimed"
  shows "clientAddr cfg (r\<lparr>ForwardedFor := claimed @ CHR '','' # true_addr\<rparr>) = claimed"
proof -
  have "Cut (claimed @ CHR '','' # true_addr) CHR '','' = (claimed, true_addr, True)"
    using assms(2) by (auto simp: Cut_def takeWhile_append dropWhile_append split: list.splits)
  with assms show ?thesis by (simp add: clientAddr_def)
qed

text \<open>Neither the check of the old password when changing it nor its failures go through the throttle.\<close>

lemma change_password_unthrottled: "throttle (snd (handleChangePassword cr fails salt now r pws a)) = throttle a"
proof -
  have v: "throttle a' = throttle a" if "ValidateSession cr fails now token a = (x, a')" for token x a'
    using that by (cases rule: ValidateSession_cases) auto
  have h: "throttle a' = throttle a" if "handler_session cr fails now r a = (s, a')" for s a'
    using that v by (fastforce simp: handler_session_def split: option.splits prod.splits sum.splits)
  have au: "throttle a' = throttle b" if "Authenticate cr fails now email password b = (x, a')" for email password b x a'
    using Authenticate_throttle [of cr fails now email password b] that by simp
  have p: "throttle a' = throttle b" if "SetPassword cr fails salt ident password b = (x, a')" for ident password b x a'
    using that by (auto simp: SetPassword_def split: option.splits if_splits)
  show ?thesis
    by (auto simp: handleChangePassword_def split: option.splits prod.splits sum.splits dest!: h au p)
qed

text \<open>A new password leaves the sessions opened with the old one as they are.\<close>

lemma SetPassword_keeps_sessions: "sessions (snd (SetPassword cr fails salt ident password a)) = sessions a"
  by (auto simp: SetPassword_def split: option.splits)

text \<open>
  The count of active accounts and the write that disables one are separate statements. Two operators who disable each other
  at the same time both read two active accounts, and after both writes nobody can sign in.
\<close>

definition two_operators :: Accounts where
  "two_operators = no_accounts\<lparr>users := [(''u1'', operator), (''u2'', operator\<lparr>ur_Email := ''other@x''\<rparr>)]\<rparr>"

lemma overlapping_disables_lock_out:
  "1 < activeUserCount two_operators \<and>
   activeUserCount (snd (SetUserDisabled False 6 ''u2'' True (snd (SetUserDisabled False 5 ''u1'' True two_operators)))) = 0"
  by (simp add: activeUserCount_def ListUsers_def SetUserDisabled_def two_operators_def no_accounts_def operator_def Disabled_def)

end
