(* ===== verification/Responses.thy ===== *)
theory Responses
  imports OpenAI Config
begin

text \<open>
  \<open>internal/api/responses.go\<close>: the Responses surface. A request is read, turned into the chat request the gateway
  routes, and a whole answer is rendered back. Identifiers come from \<open>uuids\<close> in the order they are minted.
\<close>

section \<open>The request\<close>

record responsesTool =
  rt_Type :: string
  rt_Name :: string
  rt_Description :: string
  rt_Parameters :: "json option"
  rt_Strict :: "bool option"

record responsesItem =
  it_Type :: string
  it_Role :: string
  it_Content :: "json option"
  it_Name :: string
  it_Arguments :: string
  it_CallID :: string
  it_Output :: "json option"

record responsesRequest =
  rr_Model :: string
  Instructions :: string
  Input :: "json option"
  rr_Tools :: "responsesTool list"
  rr_ToolChoice :: "json option"
  MaxOutputTokens :: int
  rr_Temperature :: "float64 option"
  rr_TopP :: "float64 option"
  rr_Stream :: bool
  PreviousResponseID :: string

definition decode_responsesTool :: "json \<Rightarrow> json_error + responsesTool" where
  "decode_responsesTool j =
     and_then (as_fields j) (\<lambda>fs.
     and_then (as_string (fields_get fs ''type'')) (\<lambda>ty.
     and_then (as_string (fields_get fs ''name'')) (\<lambda>name.
     and_then (as_string (fields_get fs ''description'')) (\<lambda>desc.
     and_then (as_ptr as_bool (fields_get fs ''strict'')) (\<lambda>strict.
     Inr \<lparr>rt_Type = ty, rt_Name = name, rt_Description = desc, rt_Parameters = raw_field fs ''parameters'', rt_Strict = strict\<rparr>)))))"

definition decode_responsesItem :: "json \<Rightarrow> json_error + responsesItem" where
  "decode_responsesItem j =
     and_then (as_fields j) (\<lambda>fs.
     and_then (as_string (fields_get fs ''type'')) (\<lambda>ty.
     and_then (as_string (fields_get fs ''role'')) (\<lambda>role.
     and_then (as_string (fields_get fs ''name'')) (\<lambda>name.
     and_then (as_string (fields_get fs ''arguments'')) (\<lambda>args.
     and_then (as_string (fields_get fs ''call_id'')) (\<lambda>call.
     Inr \<lparr>it_Type = ty, it_Role = role, it_Content = raw_field fs ''content'', it_Name = name, it_Arguments = args,
       it_CallID = call, it_Output = raw_field fs ''output''\<rparr>))))))"

definition decode_responsesRequest :: "golib \<Rightarrow> json \<Rightarrow> json_error + responsesRequest" where
  "decode_responsesRequest lib j =
     and_then (as_fields j) (\<lambda>fs.
     and_then (as_string (fields_get fs ''model'')) (\<lambda>model.
     and_then (as_string (fields_get fs ''instructions'')) (\<lambda>instr.
     and_then (as_list decode_responsesTool (fields_get fs ''tools'')) (\<lambda>tools.
     and_then (as_int (fields_get fs ''max_output_tokens'')) (\<lambda>max.
     and_then (as_ptr (as_float lib) (fields_get fs ''temperature'')) (\<lambda>temp.
     and_then (as_ptr (as_float lib) (fields_get fs ''top_p'')) (\<lambda>topp.
     and_then (as_bool (fields_get fs ''stream'')) (\<lambda>stream.
     and_then (as_string (fields_get fs ''previous_response_id'')) (\<lambda>prev.
     Inr \<lparr>rr_Model = model, Instructions = instr, Input = raw_field fs ''input'', rr_Tools = tools,
       rr_ToolChoice = raw_field fs ''tool_choice'', MaxOutputTokens = max, rr_Temperature = temp, rr_TopP = topp,
       rr_Stream = stream, PreviousResponseID = prev\<rparr>)))))))))"

definition jsonString :: "json \<Rightarrow> string option" where
  "jsonString j = (case as_string j of Inl e \<Rightarrow> None | Inr s \<Rightarrow> Some s)"

definition decode_part_text :: "json \<Rightarrow> json_error + string" where
  "decode_part_text j =
     and_then (as_fields j) (\<lambda>fs.
     and_then (as_string (fields_get fs ''type'')) (\<lambda>ty.
     as_string (fields_get fs ''text'')))"

definition decode_single_text :: "json \<Rightarrow> json_error + string" where
  "decode_single_text j = and_then (as_fields j) (\<lambda>fs. as_string (fields_get fs ''text''))"

definition partsText :: "golib \<Rightarrow> json option \<Rightarrow> string" where
  "partsText lib raw =
     (case raw of
        None \<Rightarrow> []
      | Some j \<Rightarrow>
          (case jsonString j of
             Some s \<Rightarrow> s
           | None \<Rightarrow>
               (case as_list decode_part_text j of
                  Inr texts \<Rightarrow> concat texts
                | Inl _ \<Rightarrow>
                    (case decode_single_text j of
                       Inr t \<Rightarrow> if t \<noteq> [] then t else json_text lib j
                     | Inl _ \<Rightarrow> json_text lib j))))"

text \<open>\<open>Inr None\<close>: the item produces no message.\<close>

definition messageFromItem :: "golib \<Rightarrow> responsesItem \<Rightarrow> string + Message option" where
  "messageFromItem lib it =
     (let kind = (if it_Type it = [] \<and> it_Role it \<noteq> [] then ''message'' else it_Type it) in
      if kind = ''message'' then
        Inr (Some (text_message (if it_Role it = [] then ''user'' else it_Role it) (partsText lib (it_Content it))))
      else if kind = ''function_call'' then
        (if it_CallID it = [] then Inl ''function_call item is missing call_id''
         else Inr (Some ((text_message ''assistant'' [])\<lparr>ToolCalls :=
           [\<lparr>tc_Index = None, tc_ID = it_CallID it, tc_Type = ''function'',
             Function = \<lparr>fc_Name = it_Name it, Arguments = it_Arguments it\<rparr>\<rparr>]\<rparr>)))
      else if kind = ''function_call_output'' then
        (if it_CallID it = [] then Inl ''function_call_output item is missing call_id''
         else Inr (Some ((text_message ''tool'' (partsText lib (it_Output it)))\<lparr>ToolCallID := it_CallID it\<rparr>)))
      else Inr None)"

definition add_message :: "Message list \<Rightarrow> Message \<Rightarrow> Message list" where
  "add_message out msg =
     (if out \<noteq> [] \<and> ToolCalls msg \<noteq> [] \<and> Role (last out) = ''assistant'' \<and> ToolCallID (last out) = []
      then butlast out @ [(last out)\<lparr>ToolCalls := ToolCalls (last out) @ ToolCalls msg\<rparr>]
      else out @ [msg])"

fun items_messages :: "golib \<Rightarrow> responsesItem list \<Rightarrow> Message list \<Rightarrow> string + Message list" where
  "items_messages lib [] out = Inr out"
| "items_messages lib (it # its) out =
     (case messageFromItem lib it of
        Inl e \<Rightarrow> Inl e
      | Inr None \<Rightarrow> items_messages lib its out
      | Inr (Some msg) \<Rightarrow> items_messages lib its (add_message out msg))"

definition responsesMessages :: "golib \<Rightarrow> responsesRequest \<Rightarrow> string + Message list" where
  "responsesMessages lib rr =
     (let s = TrimSpace (Instructions rr);
          out = (if s \<noteq> [] then [text_message ''system'' s] else [])
      in case Input rr of
           None \<Rightarrow> Inr out
         | Some j \<Rightarrow>
             (case jsonString j of
                Some text \<Rightarrow> Inr (out @ [text_message ''user'' text])
              | None \<Rightarrow>
                  (case as_list decode_responsesItem j of
                     Inl _ \<Rightarrow> Inl (''input must be a string or an array of items: '' @ unmarshal_why lib (json_text lib j))
                   | Inr items \<Rightarrow> items_messages lib items out)))"

definition chatTools :: "responsesTool list \<Rightarrow> Tool list" where
  "chatTools tools =
     map (\<lambda>t. \<lparr>tool_Type = ''function'', tool_Function = \<lparr>tf_Name = rt_Name t, Description = rt_Description t,
         Parameters = rt_Parameters t, Strict = rt_Strict t\<rparr>\<rparr>)
       (filter (\<lambda>t. rt_Type t = [] \<or> rt_Type t = ''function'') tools)"

definition decode_named_choice :: "json \<Rightarrow> json_error + string" where
  "decode_named_choice j =
     and_then (as_fields j) (\<lambda>fs.
     and_then (as_string (fields_get fs ''type'')) (\<lambda>ty.
     as_string (fields_get fs ''name'')))"

definition chatToolChoice :: "json option \<Rightarrow> json option" where
  "chatToolChoice raw =
     (case raw of
        None \<Rightarrow> None
      | Some j \<Rightarrow>
          (case jsonString j of
             Some s \<Rightarrow> Some (JStr s)
           | None \<Rightarrow>
               (case decode_named_choice j of
                  Inl _ \<Rightarrow> None
                | Inr name \<Rightarrow>
                    if name = [] then None
                    else Some (JObj [(''function'', JObj [(''name'', JStr name)]), (''type'', JStr ''function'')]))))"

text \<open>The body that stands in for the caller's: a Go map, so its keys come out in order.\<close>

definition chat_body :: "golib \<Rightarrow> responsesRequest \<Rightarrow> string \<Rightarrow> Message list \<Rightarrow> json" where
  "chat_body lib rr model messages =
     marshal_map (to_gomap (written
       [(''model'', Some (JStr model)),
        (''messages'', Some (JArr (map encode_Message messages))),
        (''max_tokens'', if MaxOutputTokens rr > 0 then Some (jint (MaxOutputTokens rr)) else None),
        (''temperature'', omit_float lib (rr_Temperature rr)),
        (''top_p'', omit_float lib (rr_TopP rr)),
        (''tools'', omit_list encode_Tool (chatTools (rr_Tools rr))),
        (''tool_choice'', chatToolChoice (rr_ToolChoice rr))]))"

definition previous_unsupported :: string where
  "previous_unsupported = ''previous_response_id is not supported: this gateway does not store responses, so send the '' @
     ''full conversation in input and set store to false''"

definition chatRequestFrom :: "golib \<Rightarrow> string \<Rightarrow> responsesRequest \<Rightarrow> string + ChatRequest" where
  "chatRequestFrom lib default_model rr =
     (if PreviousResponseID rr \<noteq> [] then Inl previous_unsupported
      else and_then (responsesMessages lib rr) (\<lambda>messages.
        if messages = [] then Inl ''input must not be empty''
        else
          let model = (if rr_Model rr = [] then default_model else rr_Model rr) in
          Inr \<lparr>ReqModel = model, Messages = messages, MaxTokens = MaxOutputTokens rr, Temperature = rr_Temperature rr,
            TopP = rr_TopP rr, Stop = [], Stream = rr_Stream rr, Tools = chatTools (rr_Tools rr),
            ToolChoice = chatToolChoice (rr_ToolChoice rr), Raw = Some (chat_body lib rr model messages)\<rparr>))"

section \<open>The answer\<close>

record responsesOutput =
  ro_Type :: string
  ro_ID :: string
  ro_Status :: string
  ro_Role :: string
  ro_Content :: "string list"
  ro_CallID :: string
  ro_Name :: string
  ro_Arguments :: string

record responsesBody =
  rb_ID :: string
  rb_CreatedAt :: int
  rb_Status :: string
  rb_Model :: string
  rb_Output :: "responsesOutput list"
  rb_Usage :: "Usage option"
  rb_Error :: "string option"

definition encode_responsesPart :: "string \<Rightarrow> json" where
  "encode_responsesPart text = JObj [(''type'', JStr ''output_text''), (''text'', JStr text), (''annotations'', JArr [])]"

definition encode_responsesOutput :: "responsesOutput \<Rightarrow> json" where
  "encode_responsesOutput item = json_obj
     [(''type'', Some (JStr (ro_Type item))),
      (''id'', Some (JStr (ro_ID item))),
      (''status'', omit_string (ro_Status item)),
      (''role'', omit_string (ro_Role item)),
      (''content'', omit_list encode_responsesPart (ro_Content item)),
      (''call_id'', omit_string (ro_CallID item)),
      (''name'', omit_string (ro_Name item)),
      (''arguments'', omit_string (ro_Arguments item))]"

definition encode_responsesUsage :: "Usage \<Rightarrow> json" where
  "encode_responsesUsage u = JObj
     [(''input_tokens'', jint (PromptTokens u)), (''output_tokens'', jint (CompletionTokens u)),
      (''total_tokens'', jint (TotalTokens u))]"

definition encode_responsesBody :: "responsesBody \<Rightarrow> json" where
  "encode_responsesBody b = json_obj
     [(''id'', Some (JStr (rb_ID b))),
      (''object'', Some (JStr ''response'')),
      (''created_at'', Some (jint (rb_CreatedAt b))),
      (''status'', Some (JStr (rb_Status b))),
      (''model'', Some (JStr (rb_Model b))),
      (''output'', Some (JArr (map encode_responsesOutput (rb_Output b)))),
      (''usage'', map_option encode_responsesUsage (rb_Usage b)),
      (''error'', Some (case rb_Error b of None \<Rightarrow> JNull
         | Some e \<Rightarrow> JObj [(''message'', JStr e), (''type'', JStr ''upstream_error'')])),
      (''incomplete_details'', Some JNull),
      (''parallel_tool_calls'', Some (JBool False))]"

text \<open>The body takes the first identifier.\<close>

definition newResponsesBody :: "mint \<Rightarrow> string \<Rightarrow> responsesBody" where
  "newResponsesBody io model =
     \<lparr>rb_ID = ''resp_'' @ uuids io 0, rb_CreatedAt = Unix (created_at io), rb_Status = ''in_progress'', rb_Model = model,
      rb_Output = [], rb_Usage = None, rb_Error = None\<rparr>"

definition message_output :: "string \<Rightarrow> string \<Rightarrow> responsesOutput" where
  "message_output ident text =
     \<lparr>ro_Type = ''message'', ro_ID = ident, ro_Status = ''completed'', ro_Role = ''assistant'', ro_Content = [text],
      ro_CallID = [], ro_Name = [], ro_Arguments = []\<rparr>"

definition call_output :: "string \<Rightarrow> string \<Rightarrow> string \<Rightarrow> string \<Rightarrow> responsesOutput" where
  "call_output ident call name args =
     \<lparr>ro_Type = ''function_call'', ro_ID = ident, ro_Status = ''completed'', ro_Role = [], ro_Content = [],
      ro_CallID = call, ro_Name = name, ro_Arguments = args\<rparr>"

definition textOutput :: "mint \<Rightarrow> nat \<Rightarrow> string \<Rightarrow> responsesOutput" where
  "textOutput io n text = message_output (''msg_'' @ uuids io n) text"

definition toolOutput :: "mint \<Rightarrow> nat \<Rightarrow> ToolCall \<Rightarrow> responsesOutput \<times> nat" where
  "toolOutput io n tc =
     (let (call, n1) = (if tc_ID tc = [] then (''call_'' @ uuids io n, Suc n) else (tc_ID tc, n))
      in (call_output (''fc_'' @ uuids io n1) call (fc_Name (Function tc)) (Arguments (Function tc)), Suc n1))"

fun toolOutputs :: "mint \<Rightarrow> nat \<Rightarrow> ToolCall list \<Rightarrow> responsesOutput list" where
  "toolOutputs io n [] = []"
| "toolOutputs io n (tc # tcs) = (let (item, n1) = toolOutput io n tc in item # toolOutputs io n1 tcs)"

definition responsesFromChat :: "mint \<Rightarrow> ChatResponse \<Rightarrow> string \<Rightarrow> responsesBody" where
  "responsesFromChat io resp model0 =
     (let model = (if RespModel resp \<noteq> [] then RespModel resp else model0);
          body = (newResponsesBody io model)\<lparr>rb_Status := ''completed''\<rparr>;
          body1 = (if resp_ID resp \<noteq> [] then body\<lparr>rb_ID := ''resp_'' @ TrimPrefix (resp_ID resp) ''chatcmpl-''\<rparr> else body);
          body2 = (if Created resp > 0 then body1\<lparr>rb_CreatedAt := Created resp\<rparr> else body1);
          output = (case Choices resp of
              [] \<Rightarrow> []
            | ch # _ \<Rightarrow>
                (case ch_Message ch of
                   None \<Rightarrow> []
                 | Some msg \<Rightarrow>
                     (if MsgContent msg \<noteq> [] then [textOutput io 1 (MsgContent msg)] else []) @
                     toolOutputs io (if MsgContent msg \<noteq> [] then 2 else 1) (ToolCalls msg)))
      in body2\<lparr>rb_Output := output, rb_Usage := RespUsage resp\<rparr>)"

end
