(* ===== verification/Responses_Facts.thy ===== *)
theory Responses_Facts
  imports Responses
begin

text \<open>
  What the translation of a Responses request keeps: the whole conversation in order with every tool call and result,
  and a body for OpenAI-compatible providers that says the same as the request the native dialects are given.
\<close>

section \<open>The transcript\<close>

definition item_call :: "responsesItem \<Rightarrow> ToolCall" where
  "item_call it = \<lparr>tc_Index = None, tc_ID = it_CallID it, tc_Type = ''function'',
     Function = \<lparr>fc_Name = it_Name it, Arguments = it_Arguments it\<rparr>\<rparr>"

definition is_message :: "responsesItem \<Rightarrow> bool" where
  "is_message it \<longleftrightarrow> it_Type it = ''message'' \<or> it_Type it = [] \<and> it_Role it \<noteq> []"

definition item_role :: "responsesItem \<Rightarrow> string" where
  "item_role it = (if it_Role it = [] then ''user'' else it_Role it)"

definition function_calls :: "responsesItem list \<Rightarrow> ToolCall list" where
  "function_calls items = map item_call (filter (\<lambda>it. it_Type it = ''function_call'') items)"

definition call_results :: "golib \<Rightarrow> responsesItem list \<Rightarrow> (string \<times> string) list" where
  "call_results lib items =
     map (\<lambda>it. (it_CallID it, partsText lib (it_Output it))) (filter (\<lambda>it. it_Type it = ''function_call_output'') items)"

definition said :: "golib \<Rightarrow> responsesItem list \<Rightarrow> (string \<times> string) list" where
  "said lib items = filter (\<lambda>(role, t). t \<noteq> [])
     (map (\<lambda>it. (item_role it, partsText lib (it_Content it))) (filter is_message items))"

definition missing_call_id :: "responsesItem \<Rightarrow> bool" where
  "missing_call_id it \<longleftrightarrow> it_Type it \<in> {''function_call'', ''function_call_output''} \<and> it_CallID it = []"

definition msg_calls :: "Message list \<Rightarrow> ToolCall list" where
  "msg_calls ms = concat (map ToolCalls ms)"

definition msg_results :: "Message list \<Rightarrow> (string \<times> string) list" where
  "msg_results ms = map (\<lambda>m. (ToolCallID m, MsgContent m)) (filter (\<lambda>m. ToolCallID m \<noteq> []) ms)"

definition msg_said :: "Message list \<Rightarrow> (string \<times> string) list" where
  "msg_said ms = filter (\<lambda>(role, t). t \<noteq> []) (map (\<lambda>m. (Role m, MsgContent m)) (filter (\<lambda>m. ToolCallID m = []) ms))"

lemma msg_append [simp]:
  "msg_calls (xs @ ys) = msg_calls xs @ msg_calls ys" "msg_results (xs @ ys) = msg_results xs @ msg_results ys"
  "msg_said (xs @ ys) = msg_said xs @ msg_said ys"
  by (simp_all add: msg_calls_def msg_results_def msg_said_def)

text \<open>
  The transcript of a list of messages: the calls that directly follow an assistant message join it, so all calls of a run
  sit on one message.
\<close>

definition is_assistant :: "Message \<Rightarrow> bool" where
  "is_assistant m \<longleftrightarrow> Role m = ''assistant'' \<and> ToolCallID m = []"

definition carries :: "Message \<Rightarrow> bool" where
  "carries m \<longleftrightarrow> ToolCalls m \<noteq> []"

definition with_calls :: "Message \<Rightarrow> ToolCall list \<Rightarrow> Message" where
  "with_calls m cs = m\<lparr>ToolCalls := ToolCalls m @ cs\<rparr>"

function gather :: "Message list \<Rightarrow> Message list" where
  "gather [] = []"
| "gather (m # ms) =
     (if is_assistant m then with_calls m (msg_calls (takeWhile carries ms)) # gather (dropWhile carries ms)
      else m # gather ms)"
  by pat_completeness auto
termination
  by (relation "measure length") (auto simp: less_Suc_eq_le length_dropWhile_le)

definition item_message :: "golib \<Rightarrow> responsesItem \<Rightarrow> Message option" where
  "item_message lib it =
     (if is_message it then Some (text_message (item_role it) (partsText lib (it_Content it)))
      else if it_Type it = ''function_call'' then Some (with_calls (text_message ''assistant'' []) [item_call it])
      else if it_Type it = ''function_call_output''
      then Some ((text_message ''tool'' (partsText lib (it_Output it)))\<lparr>ToolCallID := it_CallID it\<rparr>)
      else None)"

definition item_messages :: "golib \<Rightarrow> responsesItem list \<Rightarrow> Message list" where
  "item_messages lib items = List.map_filter (item_message lib) items"

lemma messageFromItem_spec:
  "messageFromItem lib it = (if missing_call_id it then Inl (it_Type it @ '' item is missing call_id'') else Inr (item_message lib it))"
  by (auto simp: messageFromItem_def item_message_def missing_call_id_def is_message_def item_role_def item_call_def
      with_calls_def text_message_def)

text \<open>Adding messages one by one is gathering them.\<close>

definition continued :: "Message list \<Rightarrow> Message list \<Rightarrow> Message list" where
  "continued out ms =
     (if out \<noteq> [] \<and> is_assistant (last out)
      then butlast out @ with_calls (last out) (msg_calls (takeWhile carries ms)) # gather (dropWhile carries ms)
      else out @ gather ms)"

definition calls_fine :: "Message \<Rightarrow> bool" where
  "calls_fine m \<longleftrightarrow> (carries m \<longrightarrow> is_assistant m \<and> MsgContent m = [])"

lemma is_assistant_with_calls [simp]: "is_assistant (with_calls m cs) = is_assistant m"
  by (simp add: is_assistant_def with_calls_def)

lemma with_calls_twice [simp]: "with_calls (with_calls m cs) ds = with_calls m (cs @ ds)"
  by (simp add: with_calls_def)

lemma with_calls_Nil [simp]: "with_calls m [] = m"
  by (simp add: with_calls_def)

lemma msg_calls_Cons [simp]: "msg_calls [] = []" "msg_calls (m # ms) = ToolCalls m @ msg_calls ms"
  by (simp_all add: msg_calls_def)

lemma continued_add:
  assumes "calls_fine m"
  shows "continued (add_message out m) ms = continued out (m # ms)"
proof (cases out rule: rev_cases)
  case Nil
  then show ?thesis by (simp add: continued_def add_message_def)
next
  case (snoc pre a)
  show ?thesis
  proof (cases "is_assistant a")
    case True
    then show ?thesis
      using snoc by (cases "carries m") (simp_all add: continued_def add_message_def carries_def is_assistant_def with_calls_def butlast_append)
  next
    case False
    then show ?thesis
      using snoc by (auto simp: continued_def add_message_def is_assistant_def butlast_append)
  qed
qed

lemma fold_add_message: "list_all calls_fine ms \<Longrightarrow> foldl add_message out ms = continued out ms"
proof (induction ms arbitrary: out)
  case Nil
  then show ?case by (cases out rule: rev_cases) (auto simp: continued_def)
next
  case (Cons m ms)
  then show ?case by (simp add: continued_add)
qed

lemma item_message_fine: "item_message lib it = Some m \<Longrightarrow> calls_fine m"
  by (auto simp: item_message_def calls_fine_def carries_def is_assistant_def with_calls_def text_message_def split: if_splits)

lemma items_messages_spec:
  "items_messages lib items out =
     (case find missing_call_id items of
        Some it \<Rightarrow> Inl (it_Type it @ '' item is missing call_id'')
      | None \<Rightarrow> Inr (foldl add_message out (item_messages lib items)))"
  by (induction items arbitrary: out)
    (auto simp: messageFromItem_spec item_messages_def List.map_filter_simps split: option.splits)

lemma item_messages_fine: "list_all calls_fine (item_messages lib items)"
  by (auto simp: list_all_iff item_messages_def List.map_filter_def item_message_fine)

text \<open>Gathering keeps every call, every result and every text, in order.\<close>

lemma msg_parts_Cons:
  "msg_results (m # ms) = (if ToolCallID m = [] then [] else [(ToolCallID m, MsgContent m)]) @ msg_results ms"
  "msg_said (m # ms) = (if ToolCallID m = [] \<and> MsgContent m \<noteq> [] then [(Role m, MsgContent m)] else []) @ msg_said ms"
  by (simp_all add: msg_results_def msg_said_def)

lemma carries_silent: "list_all calls_fine ms \<Longrightarrow> msg_results (takeWhile carries ms) = [] \<and> msg_said (takeWhile carries ms) = []"
  by (induction ms) (auto simp: msg_parts_Cons calls_fine_def is_assistant_def msg_results_def msg_said_def)

lemma silent_drop:
  assumes "list_all calls_fine ms"
  shows "msg_results (dropWhile carries ms) = msg_results ms" "msg_said (dropWhile carries ms) = msg_said ms"
    "list_all calls_fine (dropWhile carries ms)"
  using msg_append(2,3) [of "takeWhile carries ms" "dropWhile carries ms"] carries_silent [OF assms] assms
  by (auto simp: list_all_iff dest: set_dropWhileD)

lemma gather_keeps:
  "list_all calls_fine ms \<Longrightarrow>
    msg_calls (gather ms) = msg_calls ms \<and> msg_results (gather ms) = msg_results ms \<and> msg_said (gather ms) = msg_said ms"
proof (induction ms rule: gather.induct)
  case (2 m ms)
  have split: "msg_calls ms = msg_calls (takeWhile carries ms) @ msg_calls (dropWhile carries ms)"
    using msg_append(1) [of "takeWhile carries ms" "dropWhile carries ms"] by simp
  from 2 silent_drop [of ms] show ?case
    by (cases "is_assistant m") (simp_all add: split msg_parts_Cons with_calls_def)
qed simp

lemma item_messages_parts:
  assumes "\<forall>it \<in> set items. \<not> missing_call_id it"
  shows "msg_calls (item_messages lib items) = function_calls items \<and>
    msg_results (item_messages lib items) = call_results lib items \<and> msg_said (item_messages lib items) = said lib items"
  using assms
proof (induction items)
  case Nil
  then show ?case
    by (simp add: item_messages_def List.map_filter_simps function_calls_def call_results_def said_def msg_results_def msg_said_def)
next
  case (Cons it items)
  then show ?case
    by (auto simp: item_messages_def List.map_filter_simps function_calls_def call_results_def said_def msg_parts_Cons
        item_message_def missing_call_id_def is_message_def with_calls_def text_message_def)
qed

definition system_turn :: "responsesRequest \<Rightarrow> Message list" where
  "system_turn rr = (if TrimSpace (Instructions rr) = [] then [] else [text_message ''system'' (TrimSpace (Instructions rr))])"

text \<open>
  C33. The conversation a Responses client sends reaches the gateway whole: the transcript is the instructions, then the
  items in order, where each run of function calls becomes one assistant message (joining the assistant message just
  before it). No call, result or text is lost, reordered or moved to another role, and the request is refused exactly
  when a call or a result has no call id.
\<close>

theorem responses_transcript:
  assumes "Input rr = Some (JArr js)" and "each decode_responsesItem js = Inr items"
  shows "case find missing_call_id items of
      Some it \<Rightarrow> responsesMessages lib rr = Inl (it_Type it @ '' item is missing call_id'')
    | None \<Rightarrow> \<exists>ms. responsesMessages lib rr = Inr (system_turn rr @ ms) \<and> ms = gather (item_messages lib items) \<and>
        msg_calls ms = function_calls items \<and> msg_results ms = call_results lib items \<and> msg_said ms = said lib items"
proof -
  have r: "responsesMessages lib rr = items_messages lib items (system_turn rr)"
    using assms by (simp add: responsesMessages_def Let_def jsonString_def system_turn_def)
  show ?thesis
  proof (cases "find missing_call_id items")
    case None
    then have ok: "\<forall>it \<in> set items. \<not> missing_call_id it" by (simp add: find_None_iff)
    have "continued (system_turn rr) ms = system_turn rr @ gather ms" for ms
      by (simp add: continued_def system_turn_def is_assistant_def text_message_def)
    then have "responsesMessages lib rr = Inr (system_turn rr @ gather (item_messages lib items))"
      using None by (simp add: r items_messages_spec fold_add_message item_messages_fine)
    with None gather_keeps [OF item_messages_fine] item_messages_parts [OF ok] show ?thesis by simp
  next
    case (Some it)
    then show ?thesis by (simp add: r items_messages_spec)
  qed
qed

text \<open>A conversation with two parallel calls and a reasoning item between them.\<close>

definition call_item :: "string \<Rightarrow> json" where
  "call_item ident = JObj [(''type'', JStr ''function_call''), (''call_id'', JStr ident), (''name'', JStr ''now''), (''arguments'', JStr ''{}'')]"

definition message_item :: "string \<Rightarrow> string \<Rightarrow> json" where
  "message_item role text = JObj [(''role'', JStr role), (''content'', JStr text)]"

definition parallel_calls :: "json list" where
  "parallel_calls = [message_item ''user'' ''hi'', call_item ''a'', JObj [(''type'', JStr ''reasoning'')], call_item ''b'',
     JObj [(''type'', JStr ''function_call_output''), (''call_id'', JStr ''a''), (''output'', JStr ''1'')]]"

definition plain_responses :: "json \<Rightarrow> responsesRequest" where
  "plain_responses input =
     \<lparr>rr_Model = ''m'', Instructions = [], Input = Some input, rr_Tools = [], rr_ToolChoice = None, MaxOutputTokens = 0,
      rr_Temperature = None, rr_TopP = None, rr_Stream = False, PreviousResponseID = []\<rparr>"

definition an_item :: responsesItem where
  "an_item = \<lparr>it_Type = [], it_Role = [], it_Content = None, it_Name = [], it_Arguments = [], it_CallID = [], it_Output = None\<rparr>"

definition parallel_items :: "responsesItem list" where
  "parallel_items =
     [an_item\<lparr>it_Role := ''user'', it_Content := Some (JStr ''hi'')\<rparr>,
      an_item\<lparr>it_Type := ''function_call'', it_CallID := ''a'', it_Name := ''now'', it_Arguments := ''{}''\<rparr>,
      an_item\<lparr>it_Type := ''reasoning''\<rparr>,
      an_item\<lparr>it_Type := ''function_call'', it_CallID := ''b'', it_Name := ''now'', it_Arguments := ''{}''\<rparr>,
      an_item\<lparr>it_Type := ''function_call_output'', it_CallID := ''a'', it_Output := Some (JStr ''1'')\<rparr>]"

lemma parallel_items_decoded: "each decode_responsesItem parallel_calls = Inr parallel_items"
  by (simp add: parallel_calls_def parallel_items_def an_item_def call_item_def message_item_def decode_responsesItem_def
      fields_get_def raw_field_def json_simps)

lemma responses_transcript_witness:
  "\<exists>ms. responsesMessages (table_lib []) (plain_responses (JArr parallel_calls)) = Inr ms \<and> length ms = 3 \<and>
    map tc_ID (msg_calls ms) = [''a'', ''b''] \<and> msg_results ms = [(''a'', ''1'')]"
proof -
  let ?rr = "plain_responses (JArr parallel_calls)" and ?ms = "gather (item_messages (table_lib []) parallel_items)"
  have input: "Input ?rr = Some (JArr parallel_calls)" by (simp add: plain_responses_def)
  have sys: "system_turn ?rr = []" by (simp add: system_turn_def plain_responses_def TrimSpace_def trim_left_def trim_right_def)
  have ok: "find missing_call_id parallel_items = None"
    by (simp add: parallel_items_def an_item_def missing_call_id_def)
  have ms: "responsesMessages (table_lib []) ?rr = Inr ?ms \<and> msg_calls ?ms = function_calls parallel_items \<and>
      msg_results ?ms = call_results (table_lib []) parallel_items"
    using responses_transcript [OF input parallel_items_decoded, of "table_lib []"] ok sys by simp
  moreover have "length ?ms = 3"
    by (simp add: item_messages_def parallel_items_def an_item_def List.map_filter_simps item_message_def is_message_def
        is_assistant_def carries_def with_calls_def text_message_def item_role_def)
  moreover have "map tc_ID (function_calls parallel_items) = [''a'', ''b'']"
    "call_results (table_lib []) parallel_items = [(''a'', ''1'')]"
    by (simp_all add: function_calls_def call_results_def parallel_items_def an_item_def item_call_def partsText_def jsonString_def)
  ultimately show ?thesis by auto
qed

section \<open>Two forms of one request\<close>

lemma to_gomap_distinct: "distinct (map fst xs) \<Longrightarrow> to_gomap xs = xs"
proof -
  have "fold (\<lambda>(k, v). gm_set k v) xs m = m @ xs" if "distinct (map fst (m @ xs))" for m
    using that
  proof (induction xs arbitrary: m)
    case (Cons kv xs)
    have "gm_set (fst kv) (snd kv) m = m @ [kv]" if "fst kv \<notin> fst ` set m"
      using that by (induction m) auto
    with Cons show ?case by (auto simp: split_beta)
  qed simp
  then show "distinct (map fst xs) \<Longrightarrow> to_gomap xs = xs" by (simp add: to_gomap_def)
qed

lemma map_fst_folded: "map fst (folded xs) = map ToLower (map fst xs)"
  by (simp add: folded_def split_beta)

lemma folded_sorted: "distinct (map fst (folded xs)) \<Longrightarrow> map_of (rev (folded (sort_key fst xs))) = map_of (folded xs)"
proof -
  assume d: "distinct (map fst (folded xs))"
  have "mset (map fst (folded (sort_key fst xs))) = mset (map fst (folded xs))" by (simp add: folded_def split_beta)
  with d have d': "distinct (map fst (folded (sort_key fst xs)))" by (metis mset_eq_imp_distinct_iff)
  have "set (folded (sort_key fst xs)) = set (folded xs)" by (simp add: folded_def)
  with d d' have "map_of (folded (sort_key fst xs)) = map_of (folded xs)" by (simp add: map_of_inject_set)
  with d' show ?thesis by (simp add: map_of_rev_distinct)
qed

lemma raw_field_written:
  "distinct (map fst (folded fs)) \<Longrightarrow> raw_field (written fs) k = Option.bind (map_of (folded fs) (ToLower k)) id"
  by (simp add: raw_field_def folded_written map_of_written distinct_written map_of_rev_distinct)

lemma raw_field_marshalled:
  assumes "distinct (map fst (folded fs))"
  shows "raw_field (sort_key fst (to_gomap (written fs))) k = Option.bind (map_of (folded fs) (ToLower k)) id"
proof -
  have d: "distinct (map fst (folded (written fs)))" using distinct_written [OF assms] by (simp add: folded_written)
  then have "distinct (map fst (written fs))" unfolding map_fst_folded by (metis distinct_map)
  then show ?thesis
    by (simp add: to_gomap_distinct raw_field_def folded_sorted [OF d]) (simp add: folded_written map_of_written [OF assms])
qed

lemma fields_get_raw: "fields_get fs k = (case raw_field fs k of None \<Rightarrow> JNull | Some v \<Rightarrow> v)"
  by (simp add: fields_get_def)

lemma decode_Tool_encode: "decode_Tool (encode_Tool t) = Inr t"
proof -
  have "as_ptr as_bool (case map_option JBool s of None \<Rightarrow> JNull | Some v \<Rightarrow> v) = Inr s" for s
    by (cases s) simp_all
  then show ?thesis
    by (cases t, cases "tool_Function t")
      (simp add: decode_Tool_def encode_Tool_def json_simps raw_field_written)
qed

lemma as_float_omit:
  "(\<And>x. v = Some x \<Longrightarrow> parse_float lib (float_literal lib x) = Some x) \<Longrightarrow>
    as_ptr (as_float lib) (case omit_float lib v of None \<Rightarrow> JNull | Some j \<Rightarrow> j) = Inr v"
  by (cases v) (simp_all add: omit_float_def)

lemma messages_ok:
  assumes "responsesMessages lib rr = Inr ms"
  shows "list_all (\<lambda>m. list_all ToolCall_ok (ToolCalls m)) ms"
proof -
  have item: "list_all ToolCall_ok (ToolCalls m)" if "item_message lib it = Some m" for it m
    using that by (auto simp: item_message_def with_calls_def text_message_def item_call_def ToolCall_ok_def split: if_splits)
  have add: "list_all (\<lambda>m. list_all ToolCall_ok (ToolCalls m)) (add_message out m)"
    if "list_all (\<lambda>m. list_all ToolCall_ok (ToolCalls m)) out" "list_all ToolCall_ok (ToolCalls m)" for out m
    using that by (cases out rule: rev_cases) (auto simp: add_message_def)
  have fold: "list_all (\<lambda>m. list_all ToolCall_ok (ToolCalls m)) (foldl add_message out (item_messages lib items))"
    if "list_all (\<lambda>m. list_all ToolCall_ok (ToolCalls m)) out" for out items
    using that
    by (induction items arbitrary: out)
      (auto simp: item_messages_def List.map_filter_simps split: option.splits intro: add item)
  show ?thesis
    using assms fold
    by (auto simp: responsesMessages_def Let_def items_messages_spec text_message_def split: option.splits sum.splits if_splits)
qed

text \<open>
  The two forms of a translated request agree: reading the chat body that OpenAI-compatible providers are sent gives
  back exactly the request the native dialects are built from, the model, every message with its tool calls, the
  limits, the tools with their parameters and the tool choice. (Reading a written float must give the same float.)
\<close>

theorem translated_body_agrees:
  assumes "chatRequestFrom lib default_model rr = Inr req" and "0 \<le> MaxOutputTokens rr" and "in_int64 (MaxOutputTokens rr)"
    and "\<forall>x. rr_Temperature rr = Some x \<or> rr_TopP rr = Some x \<longrightarrow> parse_float lib (float_literal lib x) = Some x"
  shows "\<exists>body. Raw req = Some body \<and> decode_ChatRequest lib body = Inr (req\<lparr>Raw := None, Stream := False\<rparr>)"
proof -
  from assms(1) obtain ms where ms: "responsesMessages lib rr = Inr ms"
    "req = \<lparr>ReqModel = (if rr_Model rr = [] then default_model else rr_Model rr), Messages = ms, MaxTokens = MaxOutputTokens rr,
      Temperature = rr_Temperature rr, TopP = rr_TopP rr, Stop = [], Stream = rr_Stream rr, Tools = chatTools (rr_Tools rr),
      ToolChoice = chatToolChoice (rr_ToolChoice rr),
      Raw = Some (chat_body lib rr (if rr_Model rr = [] then default_model else rr_Model rr) ms)\<rparr>"
    by (auto simp: chatRequestFrom_def and_then_Inr Let_def split: if_splits)
  have msgs: "each (decode_Message \<circ> encode_Message) ms = Inr ms"
    using messages_ok [OF ms(1)] by (intro as_list_encoded) (auto simp: list_all_iff decode_Message_encode)
  have tools: "each (decode_Tool \<circ> encode_Tool) ts = Inr ts" for ts
    by (rule as_list_encoded) (simp add: decode_Tool_encode)
  have floats: "as_ptr (as_float lib) (case omit_float lib (rr_Temperature rr) of None \<Rightarrow> JNull | Some j \<Rightarrow> j) = Inr (rr_Temperature rr)"
    "as_ptr (as_float lib) (case omit_float lib (rr_TopP rr) of None \<Rightarrow> JNull | Some j \<Rightarrow> j) = Inr (rr_TopP rr)"
    using assms(4) by (auto intro: as_float_omit)
  show ?thesis
    using assms(2,3)
    by (simp add: ms(2) chat_body_def marshal_map_def decode_ChatRequest_def fields_get_raw raw_field_marshalled json_simps
        msgs tools floats)
qed

definition limited :: responsesRequest where
  "limited = (plain_responses (JStr ''hi''))\<lparr>MaxOutputTokens := 9, rr_Temperature := Some 1,
     rr_Tools := [\<lparr>rt_Type = ''function'', rt_Name = ''now'', rt_Description = [], rt_Parameters = Some JNull, rt_Strict = None\<rparr>],
     rr_ToolChoice := Some (JStr ''required'')\<rparr>"

lemma translated_body_agrees_witness:
  "\<exists>req body. chatRequestFrom ((table_lib [])\<lparr>parse_float := \<lambda>_. Some 1\<rparr>) ''d'' limited = Inr req \<and> MaxTokens req = 9 \<and>
    Raw req = Some body \<and> decode_ChatRequest ((table_lib [])\<lparr>parse_float := \<lambda>_. Some 1\<rparr>) body = Inr (req\<lparr>Raw := None, Stream := False\<rparr>)"
proof -
  let ?lib = "(table_lib [])\<lparr>parse_float := \<lambda>_. Some 1\<rparr>"
  have "responsesMessages ?lib limited = Inr [text_message ''user'' ''hi'']"
    by (simp add: limited_def plain_responses_def responsesMessages_def jsonString_def TrimSpace_def trim_left_def trim_right_def)
  then obtain req where req: "chatRequestFrom ?lib ''d'' limited = Inr req" "MaxTokens req = 9"
    by (simp add: chatRequestFrom_def limited_def plain_responses_def Let_def)
  moreover have "\<exists>body. Raw req = Some body \<and> decode_ChatRequest ?lib body = Inr (req\<lparr>Raw := None, Stream := False\<rparr>)"
    by (rule translated_body_agrees [OF req(1)]) (auto simp: limited_def plain_responses_def in_int64_def)
  ultimately show ?thesis by blast
qed

section \<open>Where the translation falls short\<close>

text \<open>An explicit \<open>null\<close> tool choice is sent on as the empty string, which is no tool choice.\<close>

lemma null_tool_choice_forwarded: "chatToolChoice (Some JNull) = Some (JStr [])"
  by (simp add: chatToolChoice_def jsonString_def)

text \<open>The emptiness check lets an empty input through, and \<open>null\<close> as well: both become an empty user turn.\<close>

lemma empty_input_accepted:
  "TrimSpace (Instructions rr) = [] \<Longrightarrow> Input rr = Some JNull \<or> Input rr = Some (JStr []) \<Longrightarrow>
    responsesMessages lib rr = Inr [text_message ''user'' []]"
  by (auto simp: responsesMessages_def jsonString_def)

text \<open>
  An assistant text between the calls of one turn splits them: the first call is then followed by another assistant
  message and not by its result.
\<close>

lemma text_between_calls_splits_the_turn:
  "gather (item_messages (table_lib [])
     [an_item\<lparr>it_Type := ''function_call'', it_CallID := ''a''\<rparr>,
      an_item\<lparr>it_Role := ''assistant'', it_Content := Some (JStr ''and'')\<rparr>,
      an_item\<lparr>it_Type := ''function_call'', it_CallID := ''b''\<rparr>,
      an_item\<lparr>it_Type := ''function_call_output'', it_CallID := ''a''\<rparr>]) =
   [with_calls (text_message ''assistant'' []) [item_call (an_item\<lparr>it_CallID := ''a''\<rparr>)],
    with_calls (text_message ''assistant'' ''and'') [item_call (an_item\<lparr>it_CallID := ''b''\<rparr>)],
    (text_message ''tool'' [])\<lparr>ToolCallID := ''a''\<rparr>]"
  by (simp add: item_messages_def an_item_def List.map_filter_simps item_message_def is_message_def partsText_def jsonString_def
      is_assistant_def carries_def with_calls_def text_message_def item_role_def item_call_def)

end
