(* ===== verification/Responses_Stream.thy ===== *)
theory Responses_Stream
  imports Responses
begin

text \<open>
  \<open>internal/api/responses_stream.go\<close>: the framing of a chat stream as Responses events. The writer is the list of
  events sent, each with its sequence number; \<open>event_fields\<close> is the object that stands in its data line.
\<close>

section \<open>Events\<close>

datatype event =
    Created_event responsesBody
  | InProgress responsesBody
  | Completed responsesBody
  | Failed responsesBody
  | MessageAdded nat string
  | CallAdded nat string string string
  | PartAdded nat string
  | TextDelta nat string string
  | TextDone nat string string
  | PartDone nat string string
  | ArgsDelta nat string string
  | ArgsDone nat string string
  | ItemDone nat responsesOutput

fun event_kind :: "event \<Rightarrow> string" where
  "event_kind (Created_event b) = ''response.created''"
| "event_kind (InProgress b) = ''response.in_progress''"
| "event_kind (Completed b) = ''response.completed''"
| "event_kind (Failed b) = ''response.failed''"
| "event_kind (MessageAdded i ident) = ''response.output_item.added''"
| "event_kind (CallAdded i ident call name) = ''response.output_item.added''"
| "event_kind (PartAdded i ident) = ''response.content_part.added''"
| "event_kind (TextDelta i ident t) = ''response.output_text.delta''"
| "event_kind (TextDone i ident t) = ''response.output_text.done''"
| "event_kind (PartDone i ident t) = ''response.content_part.done''"
| "event_kind (ArgsDelta i ident t) = ''response.function_call_arguments.delta''"
| "event_kind (ArgsDone i ident t) = ''response.function_call_arguments.done''"
| "event_kind (ItemDone i item) = ''response.output_item.done''"

definition jnat :: "nat \<Rightarrow> json" where "jnat n = jint (int n)"

text \<open>A part and an item that are Go maps have their keys in order; the ones that are structs, in the order declared.\<close>

definition text_part :: "string \<Rightarrow> json" where
  "text_part text = marshal_map [(''type'', JStr ''output_text''), (''text'', JStr text), (''annotations'', JArr [])]"

fun event_fields :: "event \<Rightarrow> (string \<times> json) list" where
  "event_fields (Created_event b) = [(''response'', encode_responsesBody b)]"
| "event_fields (InProgress b) = [(''response'', encode_responsesBody b)]"
| "event_fields (Completed b) = [(''response'', encode_responsesBody b)]"
| "event_fields (Failed b) = [(''response'', encode_responsesBody b)]"
| "event_fields (MessageAdded i ident) =
     [(''output_index'', jnat i),
      (''item'', marshal_map [(''type'', JStr ''message''), (''id'', JStr ident), (''status'', JStr ''in_progress''),
        (''role'', JStr ''assistant''), (''content'', JArr [])])]"
| "event_fields (CallAdded i ident call name) =
     [(''output_index'', jnat i),
      (''item'', marshal_map [(''type'', JStr ''function_call''), (''id'', JStr ident), (''status'', JStr ''in_progress''),
        (''call_id'', JStr call), (''name'', JStr name), (''arguments'', JStr [])])]"
| "event_fields (PartAdded i ident) =
     [(''item_id'', JStr ident), (''output_index'', jnat i), (''content_index'', jint 0), (''part'', text_part [])]"
| "event_fields (TextDelta i ident t) =
     [(''item_id'', JStr ident), (''output_index'', jnat i), (''content_index'', jint 0), (''delta'', JStr t)]"
| "event_fields (TextDone i ident t) =
     [(''item_id'', JStr ident), (''output_index'', jnat i), (''content_index'', jint 0), (''text'', JStr t)]"
| "event_fields (PartDone i ident t) =
     [(''item_id'', JStr ident), (''output_index'', jnat i), (''content_index'', jint 0), (''part'', text_part t)]"
| "event_fields (ArgsDelta i ident t) =
     [(''item_id'', JStr ident), (''output_index'', jnat i), (''delta'', JStr t)]"
| "event_fields (ArgsDone i ident t) =
     [(''item_id'', JStr ident), (''output_index'', jnat i), (''arguments'', JStr t)]"
| "event_fields (ItemDone i item) = [(''output_index'', jnat i), (''item'', encode_responsesOutput item)]"

text \<open>The bytes of one event; \<open>write\<close> is \<open>json.Marshal\<close>.\<close>

definition event_frame :: "(json \<Rightarrow> string) \<Rightarrow> nat \<times> event \<Rightarrow> string" where
  "event_frame write ne =
     (case ne of (n, ev) \<Rightarrow>
        ''event: '' @ event_kind ev @ [nl] @ ''data: '' @
        write (marshal_map ((''type'', JStr (event_kind ev)) # (''sequence_number'', jnat n) # event_fields ev)) @ [nl, nl])"

section \<open>The stream\<close>

record toolStream =
  ts_itemID :: string
  ts_callID :: string
  ts_name :: string
  ts_args :: string
  ts_idx :: nat

record responsesStream =
  seq :: nat
  started :: bool
  body :: responsesBody
  textID :: string
  textIdx :: nat
  textOpen :: bool
  text_acc :: string
  tools :: "(int, toolStream) gomap"
  toolOrder :: "int list"
  nextIdx :: nat
  minted :: nat
  sent :: "(nat \<times> event) list"

definition new_stream :: "mint \<Rightarrow> string \<Rightarrow> responsesStream" where
  "new_stream io model =
     \<lparr>seq = 0, started = False, body = newResponsesBody io model, textID = [], textIdx = 0, textOpen = False, text_acc = [],
      tools = [], toolOrder = [], nextIdx = 0, minted = 1, sent = []\<rparr>"

definition send :: "event \<Rightarrow> responsesStream \<Rightarrow> responsesStream" where
  "send ev s = s\<lparr>seq := Suc (seq s), sent := sent s @ [(seq s, ev)]\<rparr>"

definition begin_stream :: "string \<Rightarrow> responsesStream \<Rightarrow> responsesStream" where
  "begin_stream model s =
     (if started s then s
      else let s1 = s\<lparr>started := True, body := (if model \<noteq> [] then (body s)\<lparr>rb_Model := model\<rparr> else body s)\<rparr>
        in send (InProgress (body s1)) (send (Created_event (body s1)) s1))"

definition open_text :: "mint \<Rightarrow> responsesStream \<Rightarrow> responsesStream" where
  "open_text io s =
     (if textOpen s then s
      else let s1 = s\<lparr>textOpen := True, textID := ''msg_'' @ uuids io (minted s), minted := Suc (minted s),
             textIdx := nextIdx s, nextIdx := Suc (nextIdx s)\<rparr>
        in send (PartAdded (textIdx s1) (textID s1)) (send (MessageAdded (textIdx s1) (textID s1)) s1))"

definition appendText :: "mint \<Rightarrow> string \<Rightarrow> responsesStream \<Rightarrow> responsesStream" where
  "appendText io text s =
     (let s1 = open_text io s
      in send (TextDelta (textIdx s1) (textID s1) text) (s1\<lparr>text_acc := text_acc s1 @ text\<rparr>))"

definition call_index :: "nat \<Rightarrow> ToolCall \<Rightarrow> int" where
  "call_index position tc = (case tc_Index tc of None \<Rightarrow> int position | Some i \<Rightarrow> i)"

definition open_call :: "mint \<Rightarrow> int \<Rightarrow> ToolCall \<Rightarrow> responsesStream \<Rightarrow> toolStream \<times> responsesStream" where
  "open_call io k tc s =
     (case map_of (tools s) k of
        Some call \<Rightarrow> (call, s)
      | None \<Rightarrow>
          (let item = ''fc_'' @ uuids io (minted s);
               (ident, m1) = (if tc_ID tc = [] then (''call_'' @ uuids io (Suc (minted s)), minted s + 2) else (tc_ID tc, Suc (minted s)));
               call = \<lparr>ts_itemID = item, ts_callID = ident, ts_name = fc_Name (Function tc), ts_args = [], ts_idx = nextIdx s\<rparr>;
               s1 = s\<lparr>minted := m1, nextIdx := Suc (nextIdx s), tools := gm_set k call (tools s), toolOrder := toolOrder s @ [k]\<rparr>
           in (call, send (CallAdded (ts_idx call) (ts_itemID call) (ts_callID call) (ts_name call)) s1)))"

definition appendToolCall :: "mint \<Rightarrow> nat \<Rightarrow> ToolCall \<Rightarrow> responsesStream \<Rightarrow> responsesStream" where
  "appendToolCall io position tc s =
     (let k = call_index position tc; (call, s1) = open_call io k tc s;
          call1 = (if tc_ID tc \<noteq> [] then call\<lparr>ts_callID := tc_ID tc\<rparr> else call);
          call2 = (if fc_Name (Function tc) \<noteq> [] then call1\<lparr>ts_name := fc_Name (Function tc)\<rparr> else call1);
          args = Arguments (Function tc);
          s2 = s1\<lparr>tools := gm_set k (call2\<lparr>ts_args := ts_args call2 @ args\<rparr>) (tools s1)\<rparr>
      in if args \<noteq> [] then send (ArgsDelta (ts_idx call2) (ts_itemID call2) args) s2 else s2)"

definition consume_delta :: "mint \<Rightarrow> Delta \<Rightarrow> responsesStream \<Rightarrow> responsesStream" where
  "consume_delta io d s =
     (let s1 = (if dl_Content d \<noteq> [] then appendText io (dl_Content d) s else s)
      in fold (\<lambda>(i, tc). appendToolCall io i tc) (List.enumerate 0 (dl_ToolCalls d)) s1)"

definition consume_choice :: "mint \<Rightarrow> Choice \<Rightarrow> responsesStream \<Rightarrow> responsesStream" where
  "consume_choice io ch s = (case ch_Delta ch of None \<Rightarrow> s | Some d \<Rightarrow> consume_delta io d s)"

text \<open>It never returns an error: a write that fails goes unnoticed.\<close>

definition consume :: "mint \<Rightarrow> ChatResponse \<Rightarrow> responsesStream \<Rightarrow> responsesStream" where
  "consume io chunk s =
     (let s1 = begin_stream (RespModel chunk) s;
          s2 = (case RespUsage chunk of None \<Rightarrow> s1 | Some u \<Rightarrow> s1\<lparr>body := (body s1)\<lparr>rb_Usage := Some u\<rparr>\<rparr>)
      in fold (consume_choice io) (Choices chunk) s2)"

definition add_output :: "nat \<Rightarrow> responsesOutput \<Rightarrow> responsesStream \<Rightarrow> responsesStream" where
  "add_output i item s =
     send (ItemDone i item) (s\<lparr>body := (body s)\<lparr>rb_Output := rb_Output (body s) @ [item]\<rparr>\<rparr>)"

definition close_text :: "responsesStream \<Rightarrow> responsesStream" where
  "close_text s =
     (if textOpen s
      then add_output (textIdx s) (message_output (textID s) (text_acc s))
        (send (PartDone (textIdx s) (textID s) (text_acc s)) (send (TextDone (textIdx s) (textID s) (text_acc s)) s))
      else s)"

definition no_tool :: toolStream where
  "no_tool = \<lparr>ts_itemID = [], ts_callID = [], ts_name = [], ts_args = [], ts_idx = 0\<rparr>"

definition close_call :: "int \<Rightarrow> responsesStream \<Rightarrow> responsesStream" where
  "close_call k s =
     (let call = gm_at no_tool (tools s) k
      in add_output (ts_idx call) (call_output (ts_itemID call) (ts_callID call) (ts_name call) (ts_args call))
        (send (ArgsDone (ts_idx call) (ts_itemID call) (ts_args call)) s))"

definition finish :: "responsesStream \<Rightarrow> responsesStream" where
  "finish s =
     (let s1 = close_text (begin_stream (rb_Model (body s)) s);
          s2 = fold close_call (toolOrder s1) s1;
          s3 = s2\<lparr>body := (body s2)\<lparr>rb_Status := ''completed''\<rparr>\<rparr>
      in send (Completed (body s3)) s3)"

definition fail_stream :: "string \<Rightarrow> responsesStream \<Rightarrow> responsesStream" where
  "fail_stream err s =
     (let s1 = s\<lparr>body := (body s)\<lparr>rb_Status := ''failed'', rb_Error := Some err\<rparr>\<rparr>
      in send (Failed (body s1)) s1)"

text \<open>
  \<open>chunks\<close> is what the gateway handed over before it returned, \<open>err\<close> its error. \<open>Inl\<close> is a plain HTTP error reply.
\<close>

definition streamResponses ::
  "mint \<Rightarrow> string \<Rightarrow> ChatResponse list \<Rightarrow> string option \<Rightarrow> (int \<times> string) + responsesStream" where
  "streamResponses io model chunks err =
     (let s = fold (consume io) chunks (new_stream io model)
      in case err of
           None \<Rightarrow> Inr (finish s)
         | Some e \<Rightarrow> if \<not> started s then Inl (502, e) else Inr (fail_stream e s))"

end
