(* ===== verification/Responses_Stream_Facts.thy ===== *)
theory Responses_Stream_Facts
  imports Responses_Stream
begin

text \<open>
  What a Responses client can rely on: the events of a stream are framed (numbered, each item opened, filled and closed
  once, the pieces adding up to what the closing events and the final body say), and the final body is the one the
  whole answer would have been rendered to.
\<close>

section \<open>A client of the stream\<close>

text \<open>
  The strictest reader: it keeps the items by output index, checks each event against them and refuses (\<open>None\<close>) a stream
  that breaks the protocol.
\<close>

datatype citem = OpenMsg string string | OpenCall string string | Closed responsesOutput

datatype phase = Fresh | Announced | Running | Finished | Broken string

definition item_at :: "citem list \<Rightarrow> nat \<Rightarrow> citem option" where
  "item_at items i = (if i < length items then Some (items ! i) else None)"

definition closed_outputs :: "citem list \<Rightarrow> responsesOutput list" where
  "closed_outputs items = List.map_filter (\<lambda>it. case it of Closed o' \<Rightarrow> Some o' | _ \<Rightarrow> None) items"

definition closes :: "citem \<Rightarrow> responsesOutput \<Rightarrow> bool" where
  "closes it out \<longleftrightarrow>
     (case it of
        OpenMsg ident t \<Rightarrow> out = message_output ident t
      | OpenCall ident args \<Rightarrow> out = call_output ident (ro_CallID out) (ro_Name out) args
      | Closed o' \<Rightarrow> False)"

fun client_step :: "event \<Rightarrow> phase \<times> citem list \<Rightarrow> (phase \<times> citem list) option" where
  "client_step (Created_event b) (p, items) =
     (if p = Fresh \<and> items = [] \<and> rb_Output b = [] then Some (Announced, items) else None)"
| "client_step (InProgress b) (p, items) = (if p = Announced \<and> rb_Output b = [] then Some (Running, items) else None)"
| "client_step (MessageAdded i ident) (p, items) =
     (if p = Running \<and> i = length items then Some (p, items @ [OpenMsg ident []]) else None)"
| "client_step (CallAdded i ident call name) (p, items) =
     (if p = Running \<and> i = length items then Some (p, items @ [OpenCall ident []]) else None)"
| "client_step (PartAdded i ident) (p, items) =
     (if p = Running \<and> item_at items i = Some (OpenMsg ident []) then Some (p, items) else None)"
| "client_step (TextDelta i ident t) (p, items) =
     (case item_at items i of
        Some (OpenMsg ident' acc) \<Rightarrow>
          if p = Running \<and> ident' = ident \<and> t \<noteq> [] then Some (p, items[i := OpenMsg ident (acc @ t)]) else None
      | _ \<Rightarrow> None)"
| "client_step (ArgsDelta i ident t) (p, items) =
     (case item_at items i of
        Some (OpenCall ident' acc) \<Rightarrow>
          if p = Running \<and> ident' = ident \<and> t \<noteq> [] then Some (p, items[i := OpenCall ident (acc @ t)]) else None
      | _ \<Rightarrow> None)"
| "client_step (TextDone i ident t) (p, items) =
     (if p = Running \<and> item_at items i = Some (OpenMsg ident t) then Some (p, items) else None)"
| "client_step (PartDone i ident t) (p, items) =
     (if p = Running \<and> item_at items i = Some (OpenMsg ident t) then Some (p, items) else None)"
| "client_step (ArgsDone i ident t) (p, items) =
     (if p = Running \<and> item_at items i = Some (OpenCall ident t) then Some (p, items) else None)"
| "client_step (ItemDone i out) (p, items) =
     (case item_at items i of
        Some it \<Rightarrow> if p = Running \<and> closes it out then Some (p, items[i := Closed out]) else None
      | None \<Rightarrow> None)"
| "client_step (Completed b) (p, items) =
     (if p = Running \<and> length (closed_outputs items) = length items \<and> mset (rb_Output b) = mset (closed_outputs items) \<and>
        rb_Status b = ''completed'' \<and> rb_Error b = None
      then Some (Finished, items) else None)"
| "client_step (Failed b) (p, items) =
     (case rb_Error b of
        Some why \<Rightarrow> if p = Running \<and> rb_Status b = ''failed'' then Some (Broken why, items) else None
      | None \<Rightarrow> None)"

definition client_run :: "event list \<Rightarrow> (phase \<times> citem list) option" where
  "client_run evs = foldl (\<lambda>st ev. Option.bind st (client_step ev)) (Some (Fresh, [])) evs"

definition seen :: "responsesStream \<Rightarrow> (phase \<times> citem list) option" where
  "seen s = client_run (map snd (sent s))"

lemma seen_send [simp]: "seen (send ev s) = Option.bind (seen s) (client_step ev)"
  by (simp add: seen_def client_run_def send_def)

lemma seen_update [simp]:
  "seen (s\<lparr>started := x1\<rparr>) = seen s" "seen (s\<lparr>body := x2\<rparr>) = seen s" "seen (s\<lparr>textID := x3\<rparr>) = seen s"
  "seen (s\<lparr>textIdx := x4\<rparr>) = seen s" "seen (s\<lparr>textOpen := x5\<rparr>) = seen s" "seen (s\<lparr>text_acc := x6\<rparr>) = seen s"
  "seen (s\<lparr>tools := x7\<rparr>) = seen s" "seen (s\<lparr>toolOrder := x8\<rparr>) = seen s" "seen (s\<lparr>nextIdx := x9\<rparr>) = seen s"
  "seen (s\<lparr>minted := x10\<rparr>) = seen s"
  by (simp_all add: seen_def)

lemma send_fields [simp]:
  "started (send ev s) = started s" "body (send ev s) = body s" "textID (send ev s) = textID s"
  "textIdx (send ev s) = textIdx s" "textOpen (send ev s) = textOpen s" "text_acc (send ev s) = text_acc s"
  "tools (send ev s) = tools s" "toolOrder (send ev s) = toolOrder s" "nextIdx (send ev s) = nextIdx s"
  "minted (send ev s) = minted s"
  by (simp_all add: send_def)

section \<open>The client follows\<close>

definition text_fits :: "responsesStream \<Rightarrow> citem list \<Rightarrow> bool" where
  "text_fits s items \<longleftrightarrow>
     (if textOpen s then item_at items (textIdx s) = Some (OpenMsg (textID s) (text_acc s)) else text_acc s = [])"

definition tools_fit :: "(int, toolStream) gomap \<Rightarrow> int list \<Rightarrow> citem list \<Rightarrow> bool" where
  "tools_fit ts order items \<longleftrightarrow>
     (\<forall>k c. map_of ts k = Some c \<longrightarrow> item_at items (ts_idx c) = Some (OpenCall (ts_itemID c) (ts_args c))) \<and>
     (\<forall>k c k' c'. map_of ts k = Some c \<longrightarrow> map_of ts k' = Some c' \<longrightarrow> ts_idx c = ts_idx c' \<longrightarrow> k = k') \<and>
     distinct order \<and> (\<forall>k. k \<in> set order \<longleftrightarrow> map_of ts k \<noteq> None)"

definition covered :: "responsesStream \<Rightarrow> bool" where
  "covered s \<longleftrightarrow> (\<forall>i < nextIdx s. textOpen s \<and> i = textIdx s \<or> (\<exists>k c. map_of (tools s) k = Some c \<and> ts_idx c = i))"

definition in_step :: "responsesStream \<Rightarrow> citem list \<Rightarrow> bool" where
  "in_step s items \<longleftrightarrow>
     seen s = Some (if started s then Running else Fresh, items) \<and> length items = nextIdx s \<and>
     (\<not> started s \<longrightarrow> items = []) \<and> rb_Output (body s) = [] \<and> rb_Error (body s) = None \<and>
     text_fits s items \<and> tools_fit (tools s) (toolOrder s) items \<and> covered s"

lemmas fit_defs = text_fits_def tools_fit_def covered_def

lemma in_step_new: "in_step (new_stream io model) []"
  by (simp add: in_step_def fit_defs new_stream_def seen_def client_run_def newResponsesBody_def)

lemma in_step_begin: "in_step s items \<Longrightarrow> in_step (begin_stream m s) items \<and> started (begin_stream m s)"
  by (auto simp: begin_stream_def Let_def in_step_def fit_defs)

lemma in_step_usage: "in_step s items \<Longrightarrow> in_step (s\<lparr>body := (body s)\<lparr>rb_Usage := u\<rparr>\<rparr>) items"
  by (simp add: in_step_def fit_defs)

lemma item_at_append [simp]:
  "item_at (items @ [x]) i = (if i = length items then Some x else item_at items i)"
  by (auto simp: item_at_def nth_append)

lemma item_at_update [simp]:
  "item_at (items[i := x]) j = (if j = i \<and> i < length items then Some x else item_at items j)"
  by (auto simp: item_at_def)

lemma item_at_Some: "item_at items i = Some x \<Longrightarrow> i < length items"
  by (auto simp: item_at_def split: if_splits)

lemma item_at_length [simp]: "item_at items (length items) = None"
  by (simp add: item_at_def)

lemma fits_send [simp]: "text_fits (send ev s) items = text_fits s items" "covered (send ev s) = covered s"
  by (simp_all add: text_fits_def covered_def)

lemma text_fits_tools [simp]: "text_fits (s\<lparr>tools := ts\<rparr>) items = text_fits s items"
  by (simp add: text_fits_def)

lemma covered_more:
  assumes "covered s" and "textOpen s' = textOpen s" and "textIdx s' = textIdx s"
    and "\<And>k c. map_of (tools s) k = Some c \<Longrightarrow> \<exists>c'. map_of (tools s') k = Some c' \<and> ts_idx c' = ts_idx c"
    and "nextIdx s' = nextIdx s \<or> nextIdx s' = Suc (nextIdx s) \<and> (\<exists>k c. map_of (tools s') k = Some c \<and> ts_idx c = nextIdx s)"
  shows "covered s'"
  unfolding covered_def
proof (intro allI impI)
  fix j
  assume "j < nextIdx s'"
  with assms(5) consider "j < nextIdx s" | "\<exists>k c. map_of (tools s') k = Some c \<and> ts_idx c = j"
    by (metis less_Suc_eq)
  then show "textOpen s' \<and> j = textIdx s' \<or> (\<exists>k c. map_of (tools s') k = Some c \<and> ts_idx c = j)"
  proof cases
    case 1
    with assms(1) consider "textOpen s \<and> j = textIdx s" | k c where "map_of (tools s) k = Some c" "ts_idx c = j"
      unfolding covered_def by blast
    then show ?thesis using assms(2-4) by cases (simp, metis)
  qed blast
qed

text \<open>Opening an item.\<close>

lemma tools_fit_append: "tools_fit ts order items \<Longrightarrow> tools_fit ts order (items @ [x])"
  using item_at_Some by (fastforce simp: tools_fit_def)

lemma tools_fit_text:
  assumes "tools_fit ts order items" and "item_at items i = Some (OpenMsg ident t)"
  shows "tools_fit ts order (items[i := x])"
  using assms by (fastforce simp: tools_fit_def)

lemma open_text_fields:
  assumes "\<not> textOpen s"
  shows "textOpen (open_text io s)" "started (open_text io s) = started s" "body (open_text io s) = body s"
    "textIdx (open_text io s) = nextIdx s" "text_acc (open_text io s) = text_acc s" "tools (open_text io s) = tools s"
    "toolOrder (open_text io s) = toolOrder s" "nextIdx (open_text io s) = Suc (nextIdx s)"
    "seen (open_text io s) = Option.bind (Option.bind (seen s) (client_step (MessageAdded (nextIdx s) (textID (open_text io s)))))
      (client_step (PartAdded (nextIdx s) (textID (open_text io s))))"
  using assms by (simp_all add: open_text_def Let_def)

lemma in_step_open_text:
  assumes "in_step s items" and "started s"
  shows "\<exists>items'. in_step (open_text io s) items' \<and> started (open_text io s) \<and> textOpen (open_text io s)"
proof (cases "textOpen s")
  case True
  then show ?thesis using assms by (auto simp: open_text_def)
next
  case False
  note f = open_text_fields [OF False]
  have "covered (open_text io s)"
    using assms(1) False by (auto simp: in_step_def covered_def f less_Suc_eq)
  then have "in_step (open_text io s) (items @ [OpenMsg (textID (open_text io s)) []])"
    using assms False tools_fit_append by (simp add: in_step_def text_fits_def f)
  then show ?thesis using assms(2) f by auto
qed

lemma in_step_appendText:
  assumes "in_step s items" and "started s" and "t \<noteq> []"
  shows "\<exists>items'. in_step (appendText io t s) items' \<and> started (appendText io t s)"
proof -
  obtain items1 where i: "in_step (open_text io s) items1" "started (open_text io s)" "textOpen (open_text io s)"
    using in_step_open_text [OF assms(1,2)] by blast
  let ?s = "open_text io s"
  let ?items = "items1[textIdx ?s := OpenMsg (textID ?s) (text_acc ?s @ t)]"
  have at: "item_at items1 (textIdx ?s) = Some (OpenMsg (textID ?s) (text_acc ?s))"
    using i by (simp add: in_step_def text_fits_def)
  have "tools_fit (tools ?s) (toolOrder ?s) ?items"
    using i(1) tools_fit_text [OF _ at] by (simp add: in_step_def)
  then have "in_step (appendText io t s) ?items"
    using i at assms(3) item_at_Some [OF at] by (simp add: in_step_def text_fits_def covered_def appendText_def Let_def)
  then show ?thesis using i by (auto simp: appendText_def Let_def)
qed

definition renamed :: "ToolCall \<Rightarrow> toolStream \<Rightarrow> toolStream" where
  "renamed tc c =
     (let c1 = (if tc_ID tc \<noteq> [] then c\<lparr>ts_callID := tc_ID tc\<rparr> else c)
      in if fc_Name (Function tc) \<noteq> [] then c1\<lparr>ts_name := fc_Name (Function tc)\<rparr> else c1)"

lemma renamed_fields [simp]: "ts_itemID (renamed tc c) = ts_itemID c" "ts_args (renamed tc c) = ts_args c"
  "ts_idx (renamed tc c) = ts_idx c"
  "ts_callID (renamed tc c) = (if tc_ID tc \<noteq> [] then tc_ID tc else ts_callID c)"
  "ts_name (renamed tc c) = (if fc_Name (Function tc) \<noteq> [] then fc_Name (Function tc) else ts_name c)"
  by (simp_all add: renamed_def Let_def)

lemma appendToolCall_alt:
  "appendToolCall io i tc s =
     (let k = call_index i tc; (c, s1) = open_call io k tc s;
          s2 = s1\<lparr>tools := gm_set k ((renamed tc c)\<lparr>ts_args := ts_args c @ Arguments (Function tc)\<rparr>) (tools s1)\<rparr>
      in if Arguments (Function tc) \<noteq> [] then send (ArgsDelta (ts_idx c) (ts_itemID c) (Arguments (Function tc))) s2 else s2)"
  by (simp add: appendToolCall_def renamed_def Let_def split: prod.splits)

lemma in_step_open_call:
  assumes "in_step s items" and "started s" and "open_call io k tc s = (c, s')"
  shows "\<exists>items'. in_step s' items' \<and> started s' \<and> map_of (tools s') k = Some c"
proof (cases "map_of (tools s) k")
  case (Some c')
  then show ?thesis using assms by (auto simp: open_call_def)
next
  case None
  with assms(3) have f: "started s' = started s" "body s' = body s" "textOpen s' = textOpen s" "textIdx s' = textIdx s"
    "textID s' = textID s" "text_acc s' = text_acc s" "nextIdx s' = Suc (nextIdx s)" "tools s' = gm_set k c (tools s)"
    "toolOrder s' = toolOrder s @ [k]" "ts_idx c = nextIdx s" "ts_args c = []"
    "seen s' = Option.bind (seen s) (client_step (CallAdded (ts_idx c) (ts_itemID c) (ts_callID c) (ts_name c)))"
    by (auto simp: open_call_def Let_def split: if_splits)
  have len: "length items = nextIdx s" using assms(1) by (simp add: in_step_def)
  have fit: "tools_fit (tools s) (toolOrder s) items" using assms(1) by (simp add: in_step_def)
  have idx: "ts_idx c' < nextIdx s" if "map_of (tools s) k' = Some c'" for k' c'
    using fit that item_at_Some len unfolding tools_fit_def by metis
  have "tools_fit (tools s') (toolOrder s') (items @ [OpenCall (ts_itemID c) []])"
    unfolding tools_fit_def f
  proof (intro conjI allI impI)
    fix k1 c1
    assume m: "map_of (gm_set k c (tools s)) k1 = Some c1"
    show "item_at (items @ [OpenCall (ts_itemID c) []]) (ts_idx c1) = Some (OpenCall (ts_itemID c1) (ts_args c1))"
    proof (cases "k1 = k")
      case True
      with m have "c1 = c" by simp
      then show ?thesis by (simp add: f len)
    next
      case False
      with m have "map_of (tools s) k1 = Some c1" by simp
      with fit idx [of k1 c1] show ?thesis by (auto simp: tools_fit_def len)
    qed
  next
    fix k1 c1 k2 c2
    assume m: "map_of (gm_set k c (tools s)) k1 = Some c1" "map_of (gm_set k c (tools s)) k2 = Some c2" "ts_idx c1 = ts_idx c2"
    have which: "ki = k \<and> ts_idx ci = nextIdx s \<or> ki \<noteq> k \<and> map_of (tools s) ki = Some ci \<and> ts_idx ci < nextIdx s"
      if "map_of (gm_set k c (tools s)) ki = Some ci" for ki ci
      using that f(10) idx [of ki ci] by (cases "ki = k") auto
    show "k1 = k2"
      using which [OF m(1)] which [OF m(2)] m(3) fit unfolding tools_fit_def by (metis less_irrefl)
  next
    show "distinct (toolOrder s @ [k])" using fit None by (simp add: tools_fit_def)
  next
    show "(k1 \<in> set (toolOrder s @ [k])) = (map_of (gm_set k c (tools s)) k1 \<noteq> None)" for k1
      using fit by (auto simp: tools_fit_def)
  qed
  moreover have "covered s'"
  proof (rule covered_more [of s])
    show "covered s" using assms(1) by (simp add: in_step_def)
    show "\<exists>c'. map_of (tools s') ka = Some c' \<and> ts_idx c' = ts_idx ca" if "map_of (tools s) ka = Some ca" for ka ca
      using that None by (cases "ka = k") (simp_all add: f)
    show "nextIdx s' = nextIdx s \<or> nextIdx s' = Suc (nextIdx s) \<and> (\<exists>ka ca. map_of (tools s') ka = Some ca \<and> ts_idx ca = nextIdx s)"
      using f(7,8,10) by auto
  qed (simp_all add: f)
  moreover have "text_fits s' (items @ [OpenCall (ts_itemID c) []])"
  proof -
    have "item_at items (nextIdx s) = None" using len by (simp add: item_at_def)
    then have "textOpen s \<Longrightarrow> textIdx s \<noteq> nextIdx s" using assms(1) by (auto simp: in_step_def text_fits_def)
    then show ?thesis using assms(1) len by (simp add: in_step_def text_fits_def f)
  qed
  ultimately have "in_step s' (items @ [OpenCall (ts_itemID c) []])"
    using assms(1,2) by (simp add: in_step_def f len)
  then show ?thesis using assms(2) by (auto simp: f)
qed

lemma in_step_appendToolCall:
  assumes "in_step s items" and "started s"
  shows "\<exists>items'. in_step (appendToolCall io i tc s) items' \<and> started (appendToolCall io i tc s)"
proof -
  let ?k = "call_index i tc" and ?args = "Arguments (Function tc)"
  obtain c s1 where oc: "open_call io ?k tc s = (c, s1)" by fastforce
  obtain items1 where i: "in_step s1 items1" "started s1" "map_of (tools s1) ?k = Some c"
    using in_step_open_call [OF assms oc] by blast
  let ?c = "(renamed tc c)\<lparr>ts_args := ts_args c @ ?args\<rparr>"
  let ?s2 = "s1\<lparr>tools := gm_set ?k ?c (tools s1)\<rparr>"
  let ?items = "items1[ts_idx c := OpenCall (ts_itemID c) (ts_args c @ ?args)]"
  have fit: "tools_fit (tools s1) (toolOrder s1) items1" using i by (simp add: in_step_def)
  then have at: "item_at items1 (ts_idx c) = Some (OpenCall (ts_itemID c) (ts_args c))"
    using i(3) by (simp add: tools_fit_def)
  have "tools_fit (tools ?s2) (toolOrder s1) ?items"
    unfolding tools_fit_def
  proof (intro conjI allI impI)
    fix k1 c1
    assume m: "map_of (tools ?s2) k1 = Some c1"
    show "item_at ?items (ts_idx c1) = Some (OpenCall (ts_itemID c1) (ts_args c1))"
    proof (cases "k1 = ?k")
      case True
      with m have "c1 = ?c" by simp
      then show ?thesis using item_at_Some [OF at] by simp
    next
      case False
      with m have m1: "map_of (tools s1) k1 = Some c1" by simp
      with False fit i(3) have "ts_idx c1 \<noteq> ts_idx c" unfolding tools_fit_def by blast
      with m1 fit show ?thesis by (simp add: tools_fit_def)
    qed
  next
    fix k1 c1 k2 c2
    assume m: "map_of (tools ?s2) k1 = Some c1" "map_of (tools ?s2) k2 = Some c2" "ts_idx c1 = ts_idx c2"
    have old: "\<exists>c'. map_of (tools s1) k = Some c' \<and> ts_idx c' = ts_idx c'0" if "map_of (tools ?s2) k = Some c'0" for k c'0
      using that i(3) by (auto split: if_splits)
    from old [OF m(1)] old [OF m(2)] m(3) fit show "k1 = k2" unfolding tools_fit_def by metis
  next
    show "distinct (toolOrder s1)" using fit by (simp add: tools_fit_def)
  next
    show "(k1 \<in> set (toolOrder s1)) = (map_of (tools ?s2) k1 \<noteq> None)" for k1
      using fit i(3) by (auto simp: tools_fit_def)
  qed
  moreover have "covered ?s2"
  proof (rule covered_more [of s1])
    show "covered s1" using i(1) by (simp add: in_step_def)
    show "\<exists>c'. map_of (tools ?s2) k = Some c' \<and> ts_idx c' = ts_idx ca" if "map_of (tools s1) k = Some ca" for k ca
      using that i(3) by (cases "k = ?k") simp_all
  qed simp_all
  moreover have "text_fits ?s2 ?items"
    using i(1) at by (auto simp: in_step_def text_fits_def)
  ultimately have fits: "tools_fit (tools ?s2) (toolOrder s1) ?items" "covered ?s2" "text_fits s1 ?items" by simp_all
  have "in_step (appendToolCall io i tc s) ?items"
  proof (cases "?args = []")
    case False
    then show ?thesis using i(1,2) at fits by (simp add: appendToolCall_alt oc Let_def in_step_def)
  next
    case True
    then have "?items = items1" using at by (simp add: item_at_def list_update_same_conv split: if_splits)
    then show ?thesis using True i(1,2) fits by (simp add: appendToolCall_alt oc Let_def in_step_def)
  qed
  then show ?thesis using i(2) by (auto simp: appendToolCall_alt oc Let_def)
qed

lemma in_step_fold:
  assumes "\<And>x s items. in_step s items \<Longrightarrow> started s \<Longrightarrow> \<exists>items'. in_step (f x s) items' \<and> started (f x s)"
    and "in_step s items" and "started s"
  shows "\<exists>items'. in_step (fold f xs s) items' \<and> started (fold f xs s)"
  using assms(2,3)
proof (induction xs arbitrary: s items)
  case (Cons x xs)
  obtain items' where "in_step (f x s) items'" "started (f x s)" using assms(1) [OF Cons.prems] by blast
  then show ?case using Cons.IH by simp
qed auto

lemma in_step_choice:
  assumes "in_step s items" and "started s"
  shows "\<exists>items'. in_step (consume_choice io ch s) items' \<and> started (consume_choice io ch s)"
proof (cases "ch_Delta ch")
  case (Some d)
  let ?s1 = "if dl_Content d \<noteq> [] then appendText io (dl_Content d) s else s"
  obtain items1 where 1: "in_step ?s1 items1" "started ?s1"
    using in_step_appendText [OF assms, of "dl_Content d" io] assms by (cases "dl_Content d = []") auto
  have "\<exists>items'. in_step (fold (\<lambda>(i, tc). appendToolCall io i tc) xs ?s1) items' \<and>
      started (fold (\<lambda>(i, tc). appendToolCall io i tc) xs ?s1)" for xs
    by (rule in_step_fold [OF _ 1]) (simp only: split_paired_all case_prod_conv, rule in_step_appendToolCall)
  with Some show ?thesis by (simp add: consume_choice_def consume_delta_def Let_def)
qed (use assms in \<open>auto simp: consume_choice_def\<close>)

lemma in_step_consume:
  assumes "in_step s items"
  shows "\<exists>items'. in_step (consume io chunk s) items' \<and> started (consume io chunk s)"
proof -
  let ?s1 = "begin_stream (RespModel chunk) s"
  let ?s2 = "case RespUsage chunk of None \<Rightarrow> ?s1 | Some u \<Rightarrow> ?s1\<lparr>body := (body ?s1)\<lparr>rb_Usage := Some u\<rparr>\<rparr>"
  have 2: "in_step ?s2 items" "started ?s2"
    using in_step_begin [OF assms, of "RespModel chunk"] in_step_usage by (auto split: option.split)
  show ?thesis
    unfolding consume_def Let_def
    by (rule in_step_fold [OF _ 2]) (rule in_step_choice)
qed

lemma in_step_consumed: "\<exists>items. in_step (fold (consume io) chunks (new_stream io model)) items"
proof (induction chunks rule: rev_induct)
  case Nil
  then show ?case using in_step_new by auto
next
  case (snoc chunk chunks)
  then show ?case using in_step_consume by fastforce
qed

section \<open>Closing\<close>

lemma closed_outputs_update:
  assumes "item_at items i = Some it" and "closes it out"
  shows "mset (closed_outputs (items[i := Closed out])) = add_mset out (mset (closed_outputs items))"
    and "closed_outputs [] = []"
proof -
  have "mset (List.map_filter f (xs[i := y])) = add_mset b (mset (List.map_filter f xs))"
    if "i < length xs" "f (xs ! i) = None" "f y = Some b" for f :: "citem \<Rightarrow> responsesOutput option" and xs y b
    using that
  proof (induction xs arbitrary: i)
    case (Cons a xs)
    then show ?case by (cases i) (auto simp: List.map_filter_simps split: option.splits)
  qed simp
  from this [of items "\<lambda>it. case it of Closed o' \<Rightarrow> Some o' | _ \<Rightarrow> None" "Closed out" out]
  show "mset (closed_outputs (items[i := Closed out])) = add_mset out (mset (closed_outputs items))"
    using assms by (auto simp: closed_outputs_def item_at_def closes_def split: if_splits citem.splits)
qed (simp add: closed_outputs_def List.map_filter_simps)

text \<open>While the items are closed one by one.\<close>

definition closing :: "responsesStream \<Rightarrow> citem list \<Rightarrow> nat set \<Rightarrow> bool" where
  "closing s items shut \<longleftrightarrow>
     seen s = Some (Running, items) \<and> mset (rb_Output (body s)) = mset (closed_outputs items) \<and> rb_Error (body s) = None \<and>
     (\<forall>i \<in> shut. \<exists>out. item_at items i = Some (Closed out))"

lemma add_output_fields [simp]:
  "started (add_output i out s) = started s" "textOpen (add_output i out s) = textOpen s" "textIdx (add_output i out s) = textIdx s"
  "textID (add_output i out s) = textID s" "text_acc (add_output i out s) = text_acc s"
  "tools (add_output i out s) = tools s" "toolOrder (add_output i out s) = toolOrder s"
  "rb_Output (body (add_output i out s)) = rb_Output (body s) @ [out]" "rb_Error (body (add_output i out s)) = rb_Error (body s)"
  "seen (add_output i out s) = Option.bind (seen s) (client_step (ItemDone i out))"
  by (simp_all add: add_output_def)

lemma closing_add:
  assumes "closing s items shut" and "item_at items i = Some it" and "closes it out" and "i \<notin> shut"
  shows "closing (add_output i out s) (items[i := Closed out]) (insert i shut)"
  using assms item_at_Some [OF assms(2)] closed_outputs_update(1) [OF assms(2,3)]
  by (auto simp: closing_def)

lemma closing_send:
  "closing s items shut \<Longrightarrow> client_step ev (Running, items) = Some (Running, items) \<Longrightarrow> closing (send ev s) items shut"
  by (simp add: closing_def)

lemma closing_call:
  assumes "closing s items shut" and "map_of (tools s) k = Some c" and "item_at items (ts_idx c) = Some (OpenCall (ts_itemID c) (ts_args c))"
  shows "\<exists>out. closing (close_call k s) (items[ts_idx c := Closed out]) (insert (ts_idx c) shut) \<and>
    tools (close_call k s) = tools s"
proof -
  let ?out = "call_output (ts_itemID c) (ts_callID c) (ts_name c) (ts_args c)"
  let ?s1 = "send (ArgsDone (ts_idx c) (ts_itemID c) (ts_args c)) s"
  have "closing ?s1 items shut" by (rule closing_send [OF assms(1)]) (simp add: assms(3))
  moreover have "closes (OpenCall (ts_itemID c) (ts_args c)) ?out" by (simp add: closes_def call_output_def)
  moreover have "ts_idx c \<notin> shut" using assms(1,3) by (force simp: closing_def)
  ultimately have "closing (add_output (ts_idx c) ?out ?s1) (items[ts_idx c := Closed ?out]) (insert (ts_idx c) shut)"
    using assms(3) closing_add by blast
  then show ?thesis using assms(2) by (auto simp: close_call_def Let_def gm_at_def)
qed

lemma closing_calls:
  assumes "closing s items shut" and "distinct ks" and "tools s = ts"
    and "\<forall>k \<in> set ks. \<exists>c. map_of ts k = Some c \<and> item_at items (ts_idx c) = Some (OpenCall (ts_itemID c) (ts_args c))"
    and "\<forall>k c k' c'. map_of ts k = Some c \<longrightarrow> map_of ts k' = Some c' \<longrightarrow> ts_idx c = ts_idx c' \<longrightarrow> k = k'"
  shows "\<exists>items'. length items' = length items \<and>
    closing (fold close_call ks s) items' (shut \<union> {ts_idx c |k c. k \<in> set ks \<and> map_of ts k = Some c})"
  using assms(1-4)
proof (induction ks arbitrary: s items shut)
  case Nil
  then show ?case by auto
next
  case (Cons k ks)
  obtain c where c: "map_of ts k = Some c" "item_at items (ts_idx c) = Some (OpenCall (ts_itemID c) (ts_args c))"
    using Cons.prems(4) by auto
  obtain out where out: "closing (close_call k s) (items[ts_idx c := Closed out]) (insert (ts_idx c) shut)"
    "tools (close_call k s) = ts"
    using closing_call [OF Cons.prems(1)] c Cons.prems(3) by auto
  have rest: "\<forall>k' \<in> set ks. \<exists>c'. map_of ts k' = Some c' \<and>
      item_at (items[ts_idx c := Closed out]) (ts_idx c') = Some (OpenCall (ts_itemID c') (ts_args c'))"
  proof
    fix k'
    assume k': "k' \<in> set ks"
    then obtain c' where c': "map_of ts k' = Some c'" "item_at items (ts_idx c') = Some (OpenCall (ts_itemID c') (ts_args c'))"
      using Cons.prems(4) by auto
    have "k' \<noteq> k" using k' Cons.prems(2) by auto
    then have "ts_idx c' \<noteq> ts_idx c" using assms(5) c(1) c'(1) by blast
    then show "\<exists>c'. map_of ts k' = Some c' \<and>
      item_at (items[ts_idx c := Closed out]) (ts_idx c') = Some (OpenCall (ts_itemID c') (ts_args c'))"
      using c' by auto
  qed
  obtain items' where items': "length items' = length items"
    "closing (fold close_call ks (close_call k s)) items'
      (insert (ts_idx c) shut \<union> {ts_idx c |k c. k \<in> set ks \<and> map_of ts k = Some c})"
    using Cons.IH [OF out(1) _ out(2) rest] Cons.prems(2) by auto
  have "insert (ts_idx c) shut \<union> {ts_idx c |k c. k \<in> set ks \<and> map_of ts k = Some c} =
      shut \<union> {ts_idx c' |k' c'. k' \<in> set (k # ks) \<and> map_of ts k' = Some c'}"
    using c(1) by auto
  with items' show ?case by auto
qed

lemma closing_text:
  assumes "in_step s items" and "started s"
  shows "\<exists>items'. length items' = length items \<and> closing (close_text s) items' (if textOpen s then {textIdx s} else {}) \<and>
    tools (close_text s) = tools s \<and> toolOrder (close_text s) = toolOrder s \<and>
    tools_fit (tools s) (toolOrder s) items'"
proof -
  have none: "closed_outputs items = [] \<and> closing s items {}"
  proof -
    have "\<exists>ident t. items ! i = OpenMsg ident t \<or> items ! i = OpenCall ident t" if "i < length items" for i
    proof -
      have "i < nextIdx s" using that assms(1) by (simp add: in_step_def)
      then consider "textOpen s \<and> i = textIdx s" | k c where "map_of (tools s) k = Some c" "ts_idx c = i"
        using assms(1) unfolding in_step_def covered_def by blast
      then have "\<exists>ident t. item_at items i = Some (OpenMsg ident t) \<or> item_at items i = Some (OpenCall ident t)"
        using assms(1) by cases (auto simp: in_step_def text_fits_def tools_fit_def)
      then show ?thesis using that by (auto simp: item_at_def)
    qed
    then have "\<forall>it \<in> set items. \<exists>ident t. it = OpenMsg ident t \<or> it = OpenCall ident t"
      by (metis in_set_conv_nth)
    then have "closed_outputs items = []"
      unfolding closed_outputs_def by (induction items) (auto simp: List.map_filter_simps)
    then show ?thesis using assms by (simp add: closing_def in_step_def)
  qed
  show ?thesis
  proof (cases "textOpen s")
    case False
    then show ?thesis using none assms(1) by (auto simp: close_text_def in_step_def)
  next
    case True
    let ?out = "message_output (textID s) (text_acc s)"
    let ?s1 = "send (PartDone (textIdx s) (textID s) (text_acc s)) (send (TextDone (textIdx s) (textID s) (text_acc s)) s)"
    have at: "item_at items (textIdx s) = Some (OpenMsg (textID s) (text_acc s))"
      using assms(1) True by (simp add: in_step_def text_fits_def)
    have "closing ?s1 items {}"
      using none at by (intro closing_send) simp_all
    then have "closing (add_output (textIdx s) ?out ?s1) (items[textIdx s := Closed ?out]) {textIdx s}"
      using closing_add [OF _ at, of ?s1 "{}" ?out] by (simp add: closes_def)
    moreover have "tools_fit (tools s) (toolOrder s) (items[textIdx s := Closed ?out])"
      using assms(1) tools_fit_text [OF _ at] by (simp add: in_step_def)
    ultimately show ?thesis
      using True by (intro exI [of _ "items[textIdx s := Closed ?out]"]) (simp add: close_text_def)
  qed
qed

lemma all_closed:
  assumes "\<forall>i < length items. \<exists>out. item_at items i = Some (Closed out)"
  shows "length (closed_outputs items) = length items"
proof -
  have "\<forall>it \<in> set items. \<exists>out. it = Closed out"
    using assms by (metis in_set_conv_nth item_at_def option.inject)
  then show ?thesis unfolding closed_outputs_def by (induction items) (auto simp: List.map_filter_simps)
qed

lemma finish_accepted:
  assumes "in_step s items"
  shows "\<exists>items'. seen (finish s) = Some (Finished, items')"
proof -
  let ?s0 = "begin_stream (rb_Model (body s)) s"
  let ?s1 = "close_text ?s0"
  have 0: "in_step ?s0 items" "started ?s0" using in_step_begin [OF assms] by auto
  obtain items1 where 1: "length items1 = length items" "closing ?s1 items1 (if textOpen ?s0 then {textIdx ?s0} else {})"
    "tools ?s1 = tools ?s0" "toolOrder ?s1 = toolOrder ?s0" "tools_fit (tools ?s0) (toolOrder ?s0) items1"
    using closing_text [OF 0] by blast
  have open1: "\<forall>k \<in> set (toolOrder ?s0). \<exists>c. map_of (tools ?s0) k = Some c \<and>
      item_at items1 (ts_idx c) = Some (OpenCall (ts_itemID c) (ts_args c))"
    using 1(5) unfolding tools_fit_def by fast
  have apart: "\<forall>k c k' c'. map_of (tools ?s0) k = Some c \<longrightarrow> map_of (tools ?s0) k' = Some c' \<longrightarrow> ts_idx c = ts_idx c' \<longrightarrow> k = k'"
    and dist: "distinct (toolOrder ?s0)"
    using 1(5) by (simp_all add: tools_fit_def)
  obtain items2 where 2: "length items2 = length items1"
    "closing (fold close_call (toolOrder ?s0) ?s1) items2 ((if textOpen ?s0 then {textIdx ?s0} else {}) \<union>
      {ts_idx c |k c. k \<in> set (toolOrder ?s0) \<and> map_of (tools ?s0) k = Some c})"
    using closing_calls [OF 1(2) dist 1(3) open1 apart] by blast
  have "\<exists>out. item_at items2 i = Some (Closed out)" if "i < length items2" for i
  proof -
    have "i < nextIdx ?s0" using that 0(1) 1(1) 2(1) by (simp add: in_step_def)
    then have "textOpen ?s0 \<and> i = textIdx ?s0 \<or> (\<exists>k c. map_of (tools ?s0) k = Some c \<and> ts_idx c = i)"
      using 0(1) unfolding in_step_def covered_def by blast
    moreover have "k \<in> set (toolOrder ?s0)" if "map_of (tools ?s0) k = Some c" for k c
      using 1(5) that by (simp add: tools_fit_def)
    ultimately have "i \<in> (if textOpen ?s0 then {textIdx ?s0} else {}) \<union>
      {ts_idx c |k c. k \<in> set (toolOrder ?s0) \<and> map_of (tools ?s0) k = Some c}" by auto
    then show ?thesis using 2(2) unfolding closing_def by blast
  qed
  then have "length (closed_outputs items2) = length items2" by (intro all_closed) blast
  then show ?thesis using 2(2) 1(4) by (simp add: finish_def Let_def closing_def)
qed

lemma fail_accepted: "in_step s items \<Longrightarrow> started s \<Longrightarrow> seen (fail_stream e s) = Some (Broken e, items)"
  by (simp add: fail_stream_def Let_def in_step_def)

text \<open>Sequence numbers count the events.\<close>

definition numbered :: "responsesStream \<Rightarrow> bool" where
  "numbered s \<longleftrightarrow> map fst (sent s) = [0..<seq s]"

lemma numbered_send [simp]: "numbered s \<Longrightarrow> numbered (send ev s)"
  by (simp add: numbered_def send_def)

lemma numbered_update [simp]:
  "numbered (s\<lparr>started := x1\<rparr>) = numbered s" "numbered (s\<lparr>body := x2\<rparr>) = numbered s" "numbered (s\<lparr>textID := x3\<rparr>) = numbered s"
  "numbered (s\<lparr>textIdx := x4\<rparr>) = numbered s" "numbered (s\<lparr>textOpen := x5\<rparr>) = numbered s" "numbered (s\<lparr>text_acc := x6\<rparr>) = numbered s"
  "numbered (s\<lparr>tools := x7\<rparr>) = numbered s" "numbered (s\<lparr>toolOrder := x8\<rparr>) = numbered s" "numbered (s\<lparr>nextIdx := x9\<rparr>) = numbered s"
  "numbered (s\<lparr>minted := x10\<rparr>) = numbered s"
  by (simp_all add: numbered_def)

lemma numbered_fold: "(\<And>x s. numbered s \<Longrightarrow> numbered (f x s)) \<Longrightarrow> numbered s \<Longrightarrow> numbered (fold f xs s)"
  by (induction xs arbitrary: s) auto

lemma numbered_ops [simp]:
  assumes "numbered s"
  shows "numbered (begin_stream m s)" "numbered (appendText io t s)" "numbered (appendToolCall io i tc s)"
    "numbered (add_output j out s)" "numbered (close_text s)" "numbered (close_call k s)"
  using assms
  by (simp_all add: begin_stream_def appendText_def open_text_def appendToolCall_alt open_call_def add_output_def close_text_def
      close_call_def Let_def split: option.split)

lemma numbered_consume: "numbered s \<Longrightarrow> numbered (consume io chunk s)"
proof -
  assume n: "numbered s"
  have delta: "numbered (consume_delta io d t)" if "numbered t" for d t
    unfolding consume_delta_def Let_def using that by (intro numbered_fold) auto
  have "numbered (consume_choice io ch t)" if "numbered t" for ch t
    using that delta by (simp add: consume_choice_def split: option.split)
  then show ?thesis
    unfolding consume_def Let_def using n by (intro numbered_fold) (auto split: option.split)
qed

lemma numbered_run: "numbered (fold (consume io) chunks (new_stream io model))"
  by (rule numbered_fold) (simp_all add: numbered_consume, simp add: numbered_def new_stream_def)

lemma numbered_end: "numbered s \<Longrightarrow> numbered (finish s) \<and> numbered (fail_stream e s)"
  by (simp add: finish_def fail_stream_def Let_def numbered_fold)

text \<open>
  C32. A Responses stream is well framed whatever the provider streamed: the events are numbered from 0 without a gap, it
  opens with created and in_progress, every output item is announced under the next index, filled under its own id,
  and its deltas, which are never empty, go to it while it is open. A stream the upstream ended ends with
  response.completed, after every item was closed exactly once with the concatenation of its pieces, and the final
  body holds exactly the closed items and no error. One that broke off ends with response.failed, whose body has the
  upstream's error, or, when nothing had been written yet, is a plain HTTP error with it. Neither end stands for the other.
\<close>

theorem responses_stream_well_framed:
  "case streamResponses io model chunks err of
     Inl (status, msg) \<Rightarrow> status = 502 \<and> err = Some msg \<and> chunks = []
   | Inr s \<Rightarrow> map fst (sent s) = [0..<length (sent s)] \<and>
       (case err of
          None \<Rightarrow> \<exists>items. client_run (map snd (sent s)) = Some (Finished, items)
        | Some e \<Rightarrow> chunks \<noteq> [] \<and> (\<exists>items. client_run (map snd (sent s)) = Some (Broken e, items)))"
proof -
  let ?s = "fold (consume io) chunks (new_stream io model)"
  obtain items where i: "in_step ?s items" using in_step_consumed by blast
  have n: "numbered s \<Longrightarrow> map fst (sent s) = [0..<length (sent s)]" for s
    by (metis length_map length_upt minus_nat.diff_0 numbered_def)
  have "\<not> started (new_stream io model)" by (simp add: new_stream_def)
  moreover have "started ?s" if "chunks \<noteq> []"
    using that in_step_consume in_step_consumed by (cases chunks rule: rev_cases) (auto, blast)
  ultimately have started: "started ?s \<longleftrightarrow> chunks \<noteq> []" by (cases chunks) auto
  show ?thesis
  proof (cases err)
    case None
    then show ?thesis
      using finish_accepted [OF i] n numbered_end [OF numbered_run] by (auto simp: streamResponses_def Let_def seen_def)
  next
    case (Some e)
    then show ?thesis
      using fail_accepted [OF i] n numbered_end [OF numbered_run] started
      by (cases "chunks = []") (auto simp: streamResponses_def Let_def seen_def)
  qed
qed

end
