(* ===== verification/Responses_Equivalence.thy ===== *)
theory Responses_Equivalence
  imports Responses_Stream_Facts
begin

text \<open>
  A Responses client sees the same answer streamed or whole: the final body of a stream is what \<open>responsesFromChat\<close>
  renders of the message a chat client would assemble from the same chunks.
\<close>

section \<open>What a chat client assembles\<close>

text \<open>The fragments of tool calls, each under the index that says which call it continues.\<close>

definition delta_frags :: "Delta \<Rightarrow> (int \<times> ToolCall) list" where
  "delta_frags d = map (\<lambda>(i, tc). (call_index i tc, tc)) (List.enumerate 0 (dl_ToolCalls d))"

definition choice_frags :: "Choice \<Rightarrow> (int \<times> ToolCall) list" where
  "choice_frags ch = (case ch_Delta ch of None \<Rightarrow> [] | Some d \<Rightarrow> delta_frags d)"

definition frags :: "ChatResponse list \<Rightarrow> (int \<times> ToolCall) list" where
  "frags chunks = concat (map (\<lambda>chunk. concat (map choice_frags (Choices chunk))) chunks)"

definition pieces :: "(int \<times> ToolCall) list \<Rightarrow> int \<Rightarrow> ToolCall list" where
  "pieces fr k = map snd (filter (\<lambda>p. fst p = k) fr)"

definition last_given :: "string list \<Rightarrow> string" where
  "last_given xs = fold (\<lambda>x acc. if x \<noteq> [] then x else acc) xs []"

definition order_of :: "int list \<Rightarrow> int list" where
  "order_of ks = fold (\<lambda>k acc. if k \<in> set acc then acc else acc @ [k]) ks []"

definition assembled_call :: "ToolCall list \<Rightarrow> ToolCall" where
  "assembled_call ps =
     \<lparr>tc_Index = None, tc_ID = last_given (map tc_ID ps), tc_Type = ''function'',
      Function = \<lparr>fc_Name = last_given (map (\<lambda>tc. fc_Name (Function tc)) ps),
        Arguments = concat (map (\<lambda>tc. Arguments (Function tc)) ps)\<rparr>\<rparr>"

definition assembled_calls :: "(int \<times> ToolCall) list \<Rightarrow> ToolCall list" where
  "assembled_calls fr = map (\<lambda>k. assembled_call (pieces fr k)) (order_of (map fst fr))"

lemma last_given_snoc [simp]: "last_given (xs @ [x]) = (if x \<noteq> [] then x else last_given xs)"
  by (simp add: last_given_def)

lemma last_given_Nil [simp]: "last_given [] = []"
  by (simp add: last_given_def)

lemma order_of_snoc [simp]: "order_of (ks @ [k]) = (if k \<in> set (order_of ks) then order_of ks else order_of ks @ [k])"
  by (simp add: order_of_def)

lemma set_order_of [simp]: "set (order_of ks) = set ks"
  by (induction ks rule: rev_induct) (auto, simp add: order_of_def)

lemma pieces_snoc [simp]: "pieces (fr @ [(k, tc)]) k' = pieces fr k' @ (if k' = k then [tc] else [])"
  by (simp add: pieces_def)

section \<open>The stream collects the same\<close>

definition minted_call :: "string \<Rightarrow> bool" where
  "minted_call ident \<longleftrightarrow> (\<exists>u. ident = ''call_'' @ u)"

definition call_collected :: "ToolCall list \<Rightarrow> toolStream \<Rightarrow> bool" where
  "call_collected ps c \<longleftrightarrow>
     ts_args c = Arguments (Function (assembled_call ps)) \<and> ts_name c = fc_Name (Function (assembled_call ps)) \<and>
     (if tc_ID (assembled_call ps) = [] then minted_call (ts_callID c) else ts_callID c = tc_ID (assembled_call ps))"

definition collected :: "responsesStream \<Rightarrow> string \<Rightarrow> (int \<times> ToolCall) list \<Rightarrow> bool" where
  "collected s text fr \<longleftrightarrow>
     text_acc s = text \<and> textOpen s = (text \<noteq> []) \<and> toolOrder s = order_of (map fst fr) \<and>
     (\<forall>k. map_of (tools s) k = None \<longleftrightarrow> k \<notin> set (map fst fr)) \<and>
     (\<forall>k c. map_of (tools s) k = Some c \<longrightarrow> call_collected (pieces fr k) c)"

lemma collected_begin [simp]: "collected (begin_stream m s) text fr = collected s text fr"
  by (simp add: begin_stream_def Let_def collected_def)

lemma collected_body [simp]: "collected (s\<lparr>body := b\<rparr>) text fr = collected s text fr"
  by (simp add: collected_def)

lemma collected_send [simp]: "collected (send ev s) text fr = collected s text fr"
  by (simp add: collected_def)

lemma collected_appendText: "collected s text fr \<Longrightarrow> t \<noteq> [] \<Longrightarrow> collected (appendText io t s) (text @ t) fr"
  by (auto simp: appendText_def open_text_def Let_def collected_def)

lemma call_collected_step:
  assumes "call_collected ps c"
  shows "call_collected (ps @ [tc]) ((renamed tc c)\<lparr>ts_args := ts_args c @ Arguments (Function tc)\<rparr>)"
  using assms by (simp add: call_collected_def assembled_call_def)

lemma call_collected_first:
  assumes "ts_args c = []" and "ts_name c = fc_Name (Function tc)"
    and "if tc_ID tc = [] then minted_call (ts_callID c) else ts_callID c = tc_ID tc"
  shows "call_collected [tc] ((renamed tc c)\<lparr>ts_args := ts_args c @ Arguments (Function tc)\<rparr>)"
  using assms last_given_snoc [of "[]"] by (simp add: call_collected_def assembled_call_def)

lemma collected_appendToolCall:
  assumes "collected s text fr"
  shows "collected (appendToolCall io i tc s) text (fr @ [(call_index i tc, tc)])"
proof -
  let ?k = "call_index i tc" and ?args = "Arguments (Function tc)"
  obtain c s1 where oc: "open_call io ?k tc s = (c, s1)" by fastforce
  let ?c = "(renamed tc c)\<lparr>ts_args := ts_args c @ ?args\<rparr>"
  let ?s2 = "s1\<lparr>tools := gm_set ?k ?c (tools s1)\<rparr>"
  have new: "call_collected (pieces fr ?k @ [tc]) ?c \<and> text_acc s1 = text_acc s \<and> textOpen s1 = textOpen s \<and>
      toolOrder s1 = order_of (map fst fr @ [?k]) \<and> (\<forall>k. k \<noteq> ?k \<longrightarrow> map_of (tools s1) k = map_of (tools s) k)"
  proof (cases "map_of (tools s) ?k")
    case (Some c')
    with assms have "call_collected (pieces fr ?k) c'" "?k \<in> set (map fst fr)"
      unfolding collected_def by (blast, metis option.distinct(1))
    with Some oc assms show ?thesis by (auto simp: open_call_def collected_def call_collected_step)
  next
    case None
    then have k: "?k \<notin> set (map fst fr)" using assms by (simp add: collected_def)
    then have "pieces fr ?k = []" by (force simp: pieces_def filter_empty_conv)
    moreover have "call_collected [tc] ?c"
      using oc None by (intro call_collected_first) (auto simp: open_call_def Let_def minted_call_def split: if_splits)
    ultimately show ?thesis
      using oc None k assms by (auto simp: open_call_def Let_def collected_def split: if_splits)
  qed
  then have "collected ?s2 text (fr @ [(?k, tc)])"
    using assms by (auto simp: collected_def)
  then show ?thesis unfolding appendToolCall_alt oc Let_def by (cases "?args = []") simp_all
qed

lemma collected_calls:
  "collected s text fr \<Longrightarrow>
    collected (fold (\<lambda>(i, tc). appendToolCall io i tc) xs s) text (fr @ map (\<lambda>(i, tc). (call_index i tc, tc)) xs)"
proof (induction xs arbitrary: s fr)
  case (Cons x xs)
  obtain i tc where x: "x = (i, tc)" by (cases x)
  from Cons.IH [OF collected_appendToolCall [OF Cons.prems, of io i tc]] show ?case by (simp add: x)
qed simp

definition choice_text :: "Choice \<Rightarrow> string" where
  "choice_text ch = (case ch_Delta ch of None \<Rightarrow> [] | Some d \<Rightarrow> dl_Content d)"

lemma collected_choice: "collected s text fr \<Longrightarrow> collected (consume_choice io ch s) (text @ choice_text ch) (fr @ choice_frags ch)"
  using collected_calls collected_appendText
  by (auto simp: consume_choice_def consume_delta_def choice_text_def choice_frags_def delta_frags_def Let_def split: option.split)

lemma collected_choices:
  "collected s t fr \<Longrightarrow>
    collected (fold (consume_choice io) chs s) (t @ concat (map choice_text chs)) (fr @ concat (map choice_frags chs))"
proof (induction chs arbitrary: s t fr)
  case (Cons ch chs)
  from Cons.IH [OF collected_choice [OF Cons.prems]] show ?case by simp
qed simp

lemma collected_consume:
  assumes "collected s (streamed_text chunks) (frags chunks)"
  shows "collected (consume io chunk s) (streamed_text (chunks @ [chunk])) (frags (chunks @ [chunk]))"
proof -
  have 1: "collected (case RespUsage chunk of None \<Rightarrow> begin_stream m s | Some u \<Rightarrow> (begin_stream m s)\<lparr>body := f u\<rparr>)
      (streamed_text chunks) (frags chunks)" for m f
    using assms by (simp split: option.split)
  have tx: "streamed_text (chunks @ [chunk]) = streamed_text chunks @ concat (map choice_text (Choices chunk))"
    by (simp add: streamed_text_def choice_text_def [abs_def])
  show ?thesis
    unfolding consume_def Let_def tx using collected_choices [OF 1] by (simp add: frags_def)
qed

lemma collected_run: "collected (fold (consume io) chunks (new_stream io model)) (streamed_text chunks) (frags chunks)"
proof (induction chunks rule: rev_induct)
  case Nil
  then show ?case by (simp add: collected_def new_stream_def streamed_text_def frags_def order_of_def)
next
  case (snoc chunk chunks)
  then show ?case using collected_consume by simp
qed

section \<open>The final body\<close>

text \<open>Two items are the same up to identifiers the gateway mints.\<close>

definition same_item :: "responsesOutput \<Rightarrow> responsesOutput \<Rightarrow> bool" where
  "same_item a b \<longleftrightarrow>
     ro_Type a = ro_Type b \<and> ro_Status a = ro_Status b \<and> ro_Role a = ro_Role b \<and> ro_Content a = ro_Content b \<and>
     ro_Name a = ro_Name b \<and> ro_Arguments a = ro_Arguments b \<and>
     (ro_CallID a = ro_CallID b \<or> minted_call (ro_CallID a) \<and> minted_call (ro_CallID b))"

lemma outputs_of_calls:
  "rb_Output (body (fold close_call ks s)) = rb_Output (body s) @
     map (\<lambda>k. let c = gm_at no_tool (tools s) k in call_output (ts_itemID c) (ts_callID c) (ts_name c) (ts_args c)) ks"
  by (induction ks arbitrary: s) (simp_all add: close_call_def Let_def)

lemma begin_stream_fields [simp]:
  "textOpen (begin_stream m s) = textOpen s" "textID (begin_stream m s) = textID s" "text_acc (begin_stream m s) = text_acc s"
  "tools (begin_stream m s) = tools s" "toolOrder (begin_stream m s) = toolOrder s"
  "rb_Output (body (begin_stream m s)) = rb_Output (body s)"
  by (simp_all add: begin_stream_def Let_def)

lemma close_text_fields:
  "tools (close_text s) = tools s" "toolOrder (close_text s) = toolOrder s"
  "rb_Output (body (close_text s)) = rb_Output (body s) @ (if textOpen s then [message_output (textID s) (text_acc s)] else [])"
  by (simp_all add: close_text_def)

lemma finish_output:
  "rb_Output (body (finish s)) = rb_Output (body s) @ (if textOpen s then [message_output (textID s) (text_acc s)] else []) @
     map (\<lambda>k. let c = gm_at no_tool (tools s) k in call_output (ts_itemID c) (ts_callID c) (ts_name c) (ts_args c)) (toolOrder s)"
  by (simp add: finish_def Let_def outputs_of_calls close_text_fields)

lemma toolOutputs_same:
  assumes "\<And>k. k \<in> set ks \<Longrightarrow> call_collected (ps k) (c k)"
  shows "list_all2 same_item
    (map (\<lambda>k. call_output (ts_itemID (c k)) (ts_callID (c k)) (ts_name (c k)) (ts_args (c k))) ks)
    (toolOutputs io n (map (\<lambda>k. assembled_call (ps k)) ks))"
  using assms
proof (induction ks arbitrary: n)
  case (Cons k ks)
  then have "call_collected (ps k) (c k)" by simp
  then have "same_item (call_output (ts_itemID (c k)) (ts_callID (c k)) (ts_name (c k)) (ts_args (c k)))
      (fst (toolOutput io n (assembled_call (ps k))))"
    by (auto simp: toolOutput_def Let_def same_item_def call_output_def call_collected_def minted_call_def split: if_splits)
  moreover obtain item n1 where "toolOutput io n (assembled_call (ps k)) = (item, n1)" by fastforce
  ultimately show ?case using Cons by simp
qed simp

text \<open>
  C31. Streamed or whole, a Responses client gets the same answer: for any chunks, the body in response.completed holds
  the same items as the one rendered from the message those chunks assemble to: the whole text, then each tool call in
  order of its first fragment with its name, its arguments joined and its own call id. Only identifiers that the
  gateway mints differ.
\<close>

theorem streamed_equals_whole:
  assumes "Choices resp = ch # chs" and "ch_Message ch = Some msg"
    and "MsgContent msg = streamed_text chunks" and "ToolCalls msg = assembled_calls (frags chunks)"
  shows "\<exists>s. streamResponses io model chunks None = Inr s \<and>
    list_all2 same_item (rb_Output (body s)) (rb_Output (responsesFromChat io' resp model'))"
proof -
  let ?s = "fold (consume io) chunks (new_stream io model)" and ?ks = "order_of (map fst (frags chunks))"
  have c: "collected ?s (streamed_text chunks) (frags chunks)" by (rule collected_run)
  obtain items where "in_step ?s items" using in_step_consumed by blast
  then have empty: "rb_Output (body ?s) = []" by (simp add: in_step_def)
  have call: "call_collected (pieces (frags chunks) k) (gm_at no_tool (tools ?s) k)" if "k \<in> set ?ks" for k
    using c that by (auto simp: collected_def gm_at_def split: option.split)
  have calls: "list_all2 same_item
      (map (\<lambda>k. let c = gm_at no_tool (tools ?s) k in call_output (ts_itemID c) (ts_callID c) (ts_name c) (ts_args c)) ?ks)
      (toolOutputs io' n (ToolCalls msg))" for n
    using toolOutputs_same [of ?ks "pieces (frags chunks)" "gm_at no_tool (tools ?s)" io' n, OF call]
    by (simp add: assms(4) assembled_calls_def Let_def)
  have tx: "same_item (message_output i t) (textOutput io' n t)" for i t n
    by (simp add: same_item_def message_output_def textOutput_def)
  have "list_all2 same_item (rb_Output (body (finish ?s))) (rb_Output (responsesFromChat io' resp model'))"
    using c calls tx
    by (simp add: finish_output empty responsesFromChat_def Let_def assms(1-3) collected_def)
  then show ?thesis by (simp add: streamResponses_def Let_def)
qed

definition delta_chunk :: "Delta \<Rightarrow> ChatResponse" where
  "delta_chunk d = \<lparr>resp_ID = [], resp_Object = [], Created = 0, RespModel = [],
     Choices = [\<lparr>ch_Index = 0, ch_Message = None, ch_Delta = Some d, FinishReason = None\<rparr>], RespUsage = None\<rparr>"

definition call_delta :: "int option \<Rightarrow> string \<Rightarrow> string \<Rightarrow> Delta" where
  "call_delta index ident args = \<lparr>dl_Role = [], dl_Content = [],
     dl_ToolCalls = [\<lparr>tc_Index = index, tc_ID = ident, tc_Type = ''function'', Function = \<lparr>fc_Name = ''now'', Arguments = args\<rparr>\<rparr>]\<rparr>"

definition call_then_text :: "ChatResponse list" where
  "call_then_text = [delta_chunk (call_delta (Some 0) ''c1'' ''{'' ), delta_chunk (call_delta (Some 0) [] ''}''),
     delta_chunk \<lparr>dl_Role = [], dl_Content = ''ok'', dl_ToolCalls = []\<rparr>]"

definition assembled_answer :: "ChatResponse list \<Rightarrow> ChatResponse" where
  "assembled_answer chunks = \<lparr>resp_ID = ''r'', resp_Object = [], Created = 0, RespModel = ''m'',
     Choices = [\<lparr>ch_Index = 0,
       ch_Message = Some ((text_message ''assistant'' (streamed_text chunks))\<lparr>ToolCalls := assembled_calls (frags chunks)\<rparr>),
       ch_Delta = None, FinishReason = Some ''stop''\<rparr>], RespUsage = None\<rparr>"

definition some_mint :: mint where
  "some_mint = \<lparr>id_at = 0, created_at = 0, uuids = (\<lambda>n. replicate n CHR ''u'')\<rparr>"

lemma streamed_equals_whole_witness:
  "\<exists>s. streamResponses some_mint ''m'' call_then_text None = Inr s \<and>
    map ro_Type (rb_Output (body s)) = [''message'', ''function_call''] \<and>
    map ro_Arguments (rb_Output (body s)) = [[], ''{}''] \<and> ro_CallID (rb_Output (body s) ! 1) = ''c1''"
proof -
  let ?resp = "assembled_answer call_then_text"
  let ?msg = "(text_message ''assistant'' (streamed_text call_then_text))\<lparr>ToolCalls := assembled_calls (frags call_then_text)\<rparr>"
  let ?ch = "\<lparr>ch_Index = 0, ch_Message = Some ?msg, ch_Delta = None, FinishReason = Some ''stop''\<rparr>"
  have ch: "Choices ?resp = ?ch # []" "ch_Message ?ch = Some ?msg" "MsgContent ?msg = streamed_text call_then_text"
    "ToolCalls ?msg = assembled_calls (frags call_then_text)"
    by (simp_all add: assembled_answer_def text_message_def)
  obtain s where s: "streamResponses some_mint ''m'' call_then_text None = Inr s"
    "list_all2 same_item (rb_Output (body s)) (rb_Output (responsesFromChat some_mint ?resp ''m''))"
    using streamed_equals_whole [OF ch] by blast
  have tx: "streamed_text call_then_text = ''ok''"
    by (simp add: call_then_text_def streamed_text_def delta_chunk_def call_delta_def)
  have fr: "assembled_calls (frags call_then_text) =
      [\<lparr>tc_Index = None, tc_ID = ''c1'', tc_Type = ''function'', Function = \<lparr>fc_Name = ''now'', Arguments = ''{}''\<rparr>\<rparr>]"
    by (simp add: call_then_text_def frags_def choice_frags_def delta_frags_def delta_chunk_def call_delta_def call_index_def
        assembled_calls_def order_of_def pieces_def assembled_call_def last_given_def)
  have "rb_Output (responsesFromChat some_mint ?resp ''m'') =
      [message_output ''msg_u'' ''ok'', call_output ''fc_uu'' ''c1'' ''now'' ''{}'']"
    by (simp add: responsesFromChat_def assembled_answer_def tx fr text_message_def textOutput_def toolOutput_def some_mint_def
        newResponsesBody_def numeral_2_eq_2)
  with s(2) obtain a b where "rb_Output (body s) = [a, b]" "same_item a (message_output ''msg_u'' ''ok'')"
    "same_item b (call_output ''fc_uu'' ''c1'' ''now'' ''{}'')"
    by (auto simp: list_all2_Cons2)
  with s(1) show ?thesis by (auto simp: same_item_def message_output_def call_output_def minted_call_def)
qed

section \<open>Where the stream falls short\<close>

text \<open>
  When a call comes before the text, the final body lists the text first although it was announced under index 1: the
  position in the final output is not the output index.
\<close>

lemma final_output_out_of_order:
  "case streamResponses some_mint ''m'' call_then_text None of Inl _ \<Rightarrow> False
   | Inr s \<Rightarrow> map ro_Type (rb_Output (body s)) = [''message'', ''function_call''] \<and>
       CallAdded 0 ''fc_u'' ''c1'' ''now'' \<in> set (map snd (sent s)) \<and> MessageAdded 1 ''msg_uu'' \<in> set (map snd (sent s))"
  by (simp add: streamResponses_def new_stream_def newResponsesBody_def call_then_text_def delta_chunk_def call_delta_def
      consume_def consume_choice_def consume_delta_def begin_stream_def appendToolCall_def call_index_def open_call_def
      appendText_def open_text_def finish_def close_text_def close_call_def add_output_def send_def gm_at_def
      message_output_def call_output_def some_mint_def numeral_2_eq_2 Let_def)

text \<open>Two whole calls in two chunks of a provider that gives no index become one call with both arguments.\<close>

lemma unindexed_calls_merge:
  "assembled_calls (frags [delta_chunk (call_delta None ''a'' ''{}''), delta_chunk (call_delta None ''b'' ''{}'')]) =
    [\<lparr>tc_Index = None, tc_ID = ''b'', tc_Type = ''function'', Function = \<lparr>fc_Name = ''now'', Arguments = ''{}{}''\<rparr>\<rparr>]"
  by (simp add: frags_def choice_frags_def delta_frags_def delta_chunk_def call_delta_def call_index_def
      assembled_calls_def order_of_def pieces_def assembled_call_def last_given_def)

text \<open>The finish reason is never read: an answer cut off at its token limit is reported as completed.\<close>

lemma truncated_answer_completed: "rb_Status (responsesFromChat io resp model) = ''completed''"
  by (simp add: responsesFromChat_def Let_def)

end
