(* ===== verification/Keys.thy ===== *)
theory Keys
  imports Accounts_Facts Json
begin

text \<open>
  \<open>internal/db/keys.go\<close> and its handlers: the client keys callers present, the upstream keys operators store, and how
  both are sealed at rest. The cipher, base64 and the hash are arguments; \<open>fails\<close> stands for a database error.
\<close>

declare map_of_eq_Some_iff [simp del]

section \<open>Sealing\<close>

record sealer =
  aes_key :: "string \<Rightarrow> bool"
  gcm_seal :: "string \<Rightarrow> string \<Rightarrow> string \<Rightarrow> string"
  gcm_open :: "string \<Rightarrow> string \<Rightarrow> string \<Rightarrow> string option"
  base64 :: "string \<Rightarrow> string"
  unbase64 :: "string \<Rightarrow> string option"

definition NonceSize :: nat where "NonceSize = 12"

datatype KeyError =
    ErrInvalidKey | ErrKeyDisabled | ErrKeyNotRevealable | ErrNoProviderKey | NoActiveKey
  | NoRandomness | BadEncryptionKey | BadBase64 | CiphertextTooShort | NotAuthentic | DecryptFor string KeyError
  | KeysUnavailable

text \<open>\<open>nonce\<close> is the random text of this call, \<open>None\<close> when there is none.\<close>

definition encrypt :: "sealer \<Rightarrow> string option \<Rightarrow> string \<Rightarrow> string \<Rightarrow> KeyError + string" where
  "encrypt sl nonce plaintext key =
     (if \<not> aes_key sl key then Inl BadEncryptionKey
      else case nonce of
          None \<Rightarrow> Inl NoRandomness
        | Some n \<Rightarrow> Inr (base64 sl (n @ gcm_seal sl key n plaintext)))"

definition decrypt :: "sealer \<Rightarrow> string \<Rightarrow> string \<Rightarrow> KeyError + string" where
  "decrypt sl ciphertext key =
     (case unbase64 sl ciphertext of
        None \<Rightarrow> Inl BadBase64
      | Some data \<Rightarrow>
          if \<not> aes_key sl key then Inl BadEncryptionKey
          else if length data < NonceSize then Inl CiphertextTooShort
          else case gcm_open sl key (take NonceSize data) (drop NonceSize data) of
              None \<Rightarrow> Inl NotAuthentic
            | Some plaintext \<Rightarrow> Inr plaintext)"

definition hex_digit :: "nat \<Rightarrow> char" where
  "hex_digit n = ''0123456789abcdef'' ! n"

definition hex_encode :: "string \<Rightarrow> string" where
  "hex_encode s = concat (map (\<lambda>c. let n = of_char c :: nat in [hex_digit (n div 16), hex_digit (n mod 16)]) s)"

definition FingerprintKey :: "crypto \<Rightarrow> string \<Rightarrow> string" where
  "FingerprintKey cr apiKey = hex_encode (take 4 (sha256 cr apiKey))"

section \<open>Client keys\<close>

definition clientKeyPrefix :: string where "clientKeyPrefix = ''cr_''"

record KeyRow =
  kr_Hash :: string
  kr_Encrypted :: "string option"
  kr_Name :: string
  kr_CreatedAt :: time
  kr_LastUsed :: "time option"
  kr_DisabledAt :: "time option"

type_synonym key_table = "(string, KeyRow) gomap"

record ClientKey =
  ck_ID :: string
  ck_Name :: string
  ck_CreatedAt :: time
  ck_LastUsedAt :: "time option"
  ck_DisabledAt :: "time option"
  Revealable :: bool

definition key_Disabled :: "ClientKey \<Rightarrow> bool" where
  "key_Disabled k \<longleftrightarrow> ck_DisabledAt k \<noteq> None"

definition with_hash :: "string \<Rightarrow> key_table \<Rightarrow> (string \<times> KeyRow) option" where
  "with_hash h ks = find (\<lambda>(i, k). kr_Hash k = h) ks"

text \<open>\<open>random\<close> is the encoded random text and \<open>ident\<close> the new UUID; the hash and the id are unique in the table.\<close>

definition CreateClientKey ::
  "crypto \<Rightarrow> sealer \<Rightarrow> string \<Rightarrow> bool \<Rightarrow> string option \<Rightarrow> string option \<Rightarrow> string \<Rightarrow> time \<Rightarrow> string \<Rightarrow> key_table \<Rightarrow>
    (KeyError + string) \<times> key_table" where
  "CreateClientKey cr sl key fails random nonce ident now name ks =
     (case random of
        None \<Rightarrow> (Inl NoRandomness, ks)
      | Some r \<Rightarrow>
          (let rawKey = clientKeyPrefix @ r in
           case encrypt sl nonce rawKey key of
             Inl e \<Rightarrow> (Inl e, ks)
           | Inr encrypted \<Rightarrow>
               if fails \<or> gm_has ks ident \<or> with_hash (sha256 cr rawKey) ks \<noteq> None then (Inl KeysUnavailable, ks)
               else (Inr rawKey, gm_set ident \<lparr>kr_Hash = sha256 cr rawKey, kr_Encrypted = Some encrypted, kr_Name = name,
                   kr_CreatedAt = now, kr_LastUsed = None, kr_DisabledAt = None\<rparr> ks)))"

definition ValidateClientKey ::
  "crypto \<Rightarrow> bool \<Rightarrow> time \<Rightarrow> string \<Rightarrow> key_table \<Rightarrow> (KeyError + ClientKey) \<times> key_table" where
  "ValidateClientKey cr fails now header ks =
     (let provided = TrimSpace (TrimPrefix header ''Bearer '') in
      if provided = [] then (Inl ErrInvalidKey, ks)
      else if fails then (Inl KeysUnavailable, ks)
      else case with_hash (sha256 cr provided) ks of
          None \<Rightarrow> (Inl ErrInvalidKey, ks)
        | Some (ident, k) \<Rightarrow>
            if kr_DisabledAt k \<noteq> None then (Inl ErrKeyDisabled, ks)
            else (Inr \<lparr>ck_ID = ident, ck_Name = kr_Name k, ck_CreatedAt = kr_CreatedAt k, ck_LastUsedAt = kr_LastUsed k,
                ck_DisabledAt = None, Revealable = False\<rparr>, gm_set ident (k\<lparr>kr_LastUsed := Some now\<rparr>) ks))"

definition RevokeClientKey :: "bool \<Rightarrow> time \<Rightarrow> string \<Rightarrow> key_table \<Rightarrow> KeyError option \<times> key_table" where
  "RevokeClientKey fails now ident ks =
     (if fails then (Some KeysUnavailable, ks)
      else case map_of ks ident of
          None \<Rightarrow> (Some NoActiveKey, ks)
        | Some k \<Rightarrow>
            if kr_DisabledAt k \<noteq> None then (Some NoActiveKey, ks)
            else (None, gm_set ident (k\<lparr>kr_DisabledAt := Some now\<rparr>) ks))"

definition ListClientKeys :: "key_table \<Rightarrow> ClientKey list" where
  "ListClientKeys ks =
     map (\<lambda>(i, k). \<lparr>ck_ID = i, ck_Name = kr_Name k, ck_CreatedAt = kr_CreatedAt k, ck_LastUsedAt = kr_LastUsed k,
         ck_DisabledAt = kr_DisabledAt k, Revealable = (kr_Encrypted k \<noteq> None)\<rparr>)
       (sort_key (\<lambda>(i, k). kr_CreatedAt k) ks)"

definition RevealClientKey :: "sealer \<Rightarrow> string \<Rightarrow> bool \<Rightarrow> string \<Rightarrow> key_table \<Rightarrow> KeyError + string" where
  "RevealClientKey sl key fails ident ks =
     (if fails then Inl KeysUnavailable
      else case map_of ks ident of
          None \<Rightarrow> Inl ErrInvalidKey
        | Some k \<Rightarrow>
            (case kr_Encrypted k of
               None \<Rightarrow> Inl ErrKeyNotRevealable
             | Some encrypted \<Rightarrow>
                 (case decrypt sl encrypted key of Inl e \<Rightarrow> Inl (DecryptFor [] e) | Inr raw \<Rightarrow> Inr raw)))"

definition CountClientKeys :: "key_table \<Rightarrow> nat" where
  "CountClientKeys ks = length ks"

section \<open>Upstream keys\<close>

record ProviderKeyRow =
  pk_Encrypted :: string
  pk_CreatedAt :: time
  pk_UpdatedAt :: time

type_synonym provider_table = "(string, ProviderKeyRow) gomap"

definition StoreProviderKey ::
  "sealer \<Rightarrow> string \<Rightarrow> bool \<Rightarrow> string option \<Rightarrow> time \<Rightarrow> string \<Rightarrow> string \<Rightarrow> provider_table \<Rightarrow> KeyError option \<times> provider_table" where
  "StoreProviderKey sl key fails nonce now p apiKey ps =
     (case encrypt sl nonce apiKey key of
        Inl e \<Rightarrow> (Some e, ps)
      | Inr encrypted \<Rightarrow>
          if fails then (Some KeysUnavailable, ps)
          else (None, gm_set p (case map_of ps p of
              None \<Rightarrow> \<lparr>pk_Encrypted = encrypted, pk_CreatedAt = now, pk_UpdatedAt = now\<rparr>
            | Some r \<Rightarrow> r\<lparr>pk_Encrypted := encrypted, pk_UpdatedAt := now\<rparr>) ps))"

definition open_row :: "sealer \<Rightarrow> string \<Rightarrow> string \<times> ProviderKeyRow \<Rightarrow> KeyError + string \<times> string" where
  "open_row sl key row =
     (case row of (p, r) \<Rightarrow>
        (case decrypt sl (pk_Encrypted r) key of Inl e \<Rightarrow> Inl (DecryptFor p e) | Inr k \<Rightarrow> Inr (p, k)))"

definition ProviderKeys :: "sealer \<Rightarrow> string \<Rightarrow> bool \<Rightarrow> provider_table \<Rightarrow> KeyError + (string, string) gomap" where
  "ProviderKeys sl key fails ps = (if fails then Inl KeysUnavailable else each (open_row sl key) ps)"

record ProviderKeyInfo =
  pi_Provider :: string
  pi_Fingerprint :: string
  pi_CreatedAt :: time
  pi_UpdatedAt :: time

definition key_info :: "crypto \<Rightarrow> sealer \<Rightarrow> string \<Rightarrow> string \<times> ProviderKeyRow \<Rightarrow> ProviderKeyInfo" where
  "key_info cr sl key row =
     (case row of (p, r) \<Rightarrow>
        \<lparr>pi_Provider = p,
         pi_Fingerprint = (case decrypt sl (pk_Encrypted r) key of Inl e \<Rightarrow> ''undecryptable'' | Inr k \<Rightarrow> FingerprintKey cr k),
         pi_CreatedAt = pk_CreatedAt r, pi_UpdatedAt = pk_UpdatedAt r\<rparr>)"

definition ListProviderKeys :: "crypto \<Rightarrow> sealer \<Rightarrow> string \<Rightarrow> provider_table \<Rightarrow> ProviderKeyInfo list" where
  "ListProviderKeys cr sl key ps = map (key_info cr sl key) (sort_key fst ps)"

definition DeleteProviderKey :: "bool \<Rightarrow> string \<Rightarrow> provider_table \<Rightarrow> (KeyError + bool) \<times> provider_table" where
  "DeleteProviderKey fails p ps = (if fails then (Inl KeysUnavailable, ps) else (Inr (gm_has ps p), gm_del p ps))"

definition ProviderKey :: "sealer \<Rightarrow> string \<Rightarrow> bool \<Rightarrow> string \<Rightarrow> provider_table \<Rightarrow> KeyError + string" where
  "ProviderKey sl key fails p ps =
     (if fails then Inl KeysUnavailable
      else case map_of ps p of
          None \<Rightarrow> Inl ErrNoProviderKey
        | Some r \<Rightarrow> (case decrypt sl (pk_Encrypted r) key of Inl e \<Rightarrow> Inl (DecryptFor p e) | Inr k \<Rightarrow> Inr k))"

section \<open>Handlers\<close>

definition authorize :: "crypto \<Rightarrow> bool \<Rightarrow> time \<Rightarrow> rq \<Rightarrow> key_table \<Rightarrow> (reply + ClientKey) \<times> key_table" where
  "authorize cr fails now r ks =
     (case ValidateClientKey cr fails now (Authorization r) ks of
        (Inr key, ks') \<Rightarrow> (Inr key, ks')
      | (Inl e, ks') \<Rightarrow>
          (Inl (if e = ErrKeyDisabled then Refused 401 ''this API key has been revoked''
                else if e = ErrInvalidKey then Refused 401 ''invalid API key''
                else Refused 500 ''failed to verify API key''), ks'))"

datatype key_reply =
    KeysRefused reply
  | KeyList "ClientKey list"
  | KeyCreated string string
  | KeyShown string
  | KeyRevoked

text \<open>The state the admin handlers share: the accounts behind the guard, and the key tables.\<close>

record Vault =
  accounts :: Accounts
  client_keys :: key_table
  provider_keys :: provider_table

definition guarded :: "Config \<Rightarrow> crypto \<Rightarrow> bool \<Rightarrow> time \<Rightarrow> rq \<Rightarrow> Vault \<Rightarrow> reply option \<times> Vault" where
  "guarded cfg cr fails now r v =
     (let (no, a) = adminAuthorized cfg cr fails now r (accounts v) in (no, v\<lparr>accounts := a\<rparr>))"

definition adminListKeys :: "Config \<Rightarrow> crypto \<Rightarrow> bool \<Rightarrow> time \<Rightarrow> rq \<Rightarrow> Vault \<Rightarrow> key_reply \<times> Vault" where
  "adminListKeys cfg cr fails now r v =
     (case guarded cfg cr fails now r v of
        (Some no, v') \<Rightarrow> (KeysRefused no, v')
      | (None, v') \<Rightarrow>
          (if fails then KeysRefused (Refused 500 ''database error'') else KeyList (ListClientKeys (client_keys v')), v'))"

definition adminCreateKey ::
  "Config \<Rightarrow> crypto \<Rightarrow> sealer \<Rightarrow> bool \<Rightarrow> string option \<Rightarrow> string option \<Rightarrow> string \<Rightarrow> time \<Rightarrow> rq \<Rightarrow> string option \<Rightarrow> Vault \<Rightarrow>
    key_reply \<times> Vault" where
  "adminCreateKey cfg cr sl fails random nonce ident now r body v =
     (case guarded cfg cr fails now r v of
        (Some no, v') \<Rightarrow> (KeysRefused no, v')
      | (None, v') \<Rightarrow>
          (case body of
             None \<Rightarrow> (KeysRefused (Refused 400 ''invalid JSON body''), v')
           | Some name \<Rightarrow>
               (case CreateClientKey cr sl (EncryptionKey cfg) fails random nonce ident now name (client_keys v') of
                  (Inl e, ks) \<Rightarrow> (KeysRefused (Refused 500 ''could not create the key''), v'\<lparr>client_keys := ks\<rparr>)
                | (Inr raw, ks) \<Rightarrow> (KeyCreated raw name, v'\<lparr>client_keys := ks\<rparr>))))"

definition adminRevealKey :: "Config \<Rightarrow> crypto \<Rightarrow> sealer \<Rightarrow> bool \<Rightarrow> time \<Rightarrow> rq \<Rightarrow> string \<Rightarrow> Vault \<Rightarrow> key_reply \<times> Vault" where
  "adminRevealKey cfg cr sl fails now r ident v =
     (case guarded cfg cr fails now r v of
        (Some no, v') \<Rightarrow> (KeysRefused no, v')
      | (None, v') \<Rightarrow>
          (case RevealClientKey sl (EncryptionKey cfg) fails ident (client_keys v') of
             Inr raw \<Rightarrow> KeyShown raw
           | Inl e \<Rightarrow>
               KeysRefused (if e = ErrInvalidKey then Refused 404 ''no key with that id''
                 else if e = ErrKeyNotRevealable then Refused 409 ''this key cannot be revealed; recreate it to get a viewable key''
                 else Refused 500 ''failed to decrypt key''), v'))"

definition adminRevokeKey :: "Config \<Rightarrow> crypto \<Rightarrow> bool \<Rightarrow> time \<Rightarrow> rq \<Rightarrow> string \<Rightarrow> Vault \<Rightarrow> key_reply \<times> Vault" where
  "adminRevokeKey cfg cr fails now r ident v =
     (case guarded cfg cr fails now r v of
        (Some no, v') \<Rightarrow> (KeysRefused no, v')
      | (None, v') \<Rightarrow>
          (case RevokeClientKey fails now ident (client_keys v') of
             (Some e, ks) \<Rightarrow> (KeysRefused (Refused 404 ''no active key with that id''), v'\<lparr>client_keys := ks\<rparr>)
           | (None, ks) \<Rightarrow> (KeyRevoked, v'\<lparr>client_keys := ks\<rparr>)))"

end
