(* ===== verification/Keys_Facts.thy ===== *)
theory Keys_Facts
  imports Keys
begin

text \<open>
  What the key store promises: a minted key works until it is revoked and never after, nothing else works, and what is
  sealed is read back, under the key it was sealed with.
\<close>

section \<open>What is sealed is read back\<close>

text \<open>The documented laws of AES-GCM and base64.\<close>

definition sealer_laws :: "sealer \<Rightarrow> bool" where
  "sealer_laws sl \<longleftrightarrow>
     (\<forall>x. unbase64 sl (base64 sl x) = Some x) \<and>
     (\<forall>k n p. aes_key sl k \<longrightarrow> gcm_open sl k n (gcm_seal sl k n p) = Some p)"

lemma decrypt_encrypt:
  assumes "sealer_laws sl" and "encrypt sl (Some nonce) plain key = Inr c" and "length nonce = NonceSize"
  shows "decrypt sl c key = Inr plain"
proof -
  have "aes_key sl key" "c = base64 sl (nonce @ gcm_seal sl key nonce plain)"
    using assms(2) by (auto simp: encrypt_def split: if_splits)
  then show ?thesis using assms(1,3) by (simp add: decrypt_def sealer_laws_def)
qed

text \<open>A sealer to try the statements on: the text is kept with the key that sealed it.\<close>

definition toy_sealer :: sealer where
  "toy_sealer = \<lparr>aes_key = (\<lambda>k. length k = 32), gcm_seal = (\<lambda>k n p. k @ p),
     gcm_open = (\<lambda>k n c. if HasPrefix c k then Some (drop (length k) c) else None), base64 = id, unbase64 = Some\<rparr>"

lemma toy_sealer_laws: "sealer_laws toy_sealer"
  by (simp add: sealer_laws_def toy_sealer_def HasPrefix_iff)

definition toy_key :: string where "toy_key = replicate 32 CHR ''k''"
definition toy_nonce :: string where "toy_nonce = replicate 12 CHR ''n''"

lemma toy_encrypt: "encrypt toy_sealer (Some toy_nonce) plain toy_key = Inr (toy_nonce @ toy_key @ plain)"
  by (simp add: encrypt_def toy_sealer_def toy_key_def)

section \<open>Upstream keys\<close>

lemma each_Inr_all: "each f xs = Inr ys \<Longrightarrow> x \<in> set xs \<Longrightarrow> \<exists>y. f x = Inr y"
  by (induction xs arbitrary: ys) (auto simp: and_then_Inr)

definition opened_row :: "sealer \<Rightarrow> string \<Rightarrow> ProviderKeyRow \<Rightarrow> string" where
  "opened_row sl key r = (case decrypt sl (pk_Encrypted r) key of Inl e \<Rightarrow> [] | Inr k \<Rightarrow> k)"

lemma open_row_Inr:
  "open_row sl key (p, r) = Inr y \<longleftrightarrow> (\<exists>k. decrypt sl (pk_Encrypted r) key = Inr k \<and> y = (p, k))"
  by (auto simp: open_row_def split: sum.splits)

lemma ProviderKeys_rows:
  assumes "\<And>p r. (p, r) \<in> set ps \<Longrightarrow> \<exists>k. decrypt sl (pk_Encrypted r) key = Inr k"
  shows "ProviderKeys sl key False ps = Inr (map (\<lambda>(p, r). (p, opened_row sl key r)) ps)"
  unfolding ProviderKeys_def using assms
  by (auto intro!: each_Inr simp: open_row_def opened_row_def split: sum.splits) fastforce

lemma map_of_opened: "map_of (map (\<lambda>(p, r). (p, f r)) ps) q = map_option f (map_of ps q)"
  by (induction ps) auto

text \<open>
  An upstream key that is stored is the key that goes out: after storing, both the single read and the read of all
  keys give back exactly that key for that provider and leave the others alone, and its row is replaced, never doubled.
\<close>

theorem stored_provider_key_is_read:
  assumes "sealer_laws sl" and "gm_ok ps" and "length nonce = NonceSize"
    and "StoreProviderKey sl key False (Some nonce) now p apiKey ps = (None, ps')"
  shows "ProviderKey sl key False p ps' = Inr apiKey \<and> gm_ok ps' \<and>
    (\<forall>q. q \<noteq> p \<longrightarrow> ProviderKey sl key False q ps' = ProviderKey sl key False q ps) \<and>
    (\<forall>ks. ProviderKeys sl key False ps = Inr ks \<longrightarrow>
      (\<exists>ks'. ProviderKeys sl key False ps' = Inr ks' \<and> (\<forall>q. map_of ks' q = (if q = p then Some apiKey else map_of ks q))))"
proof -
  obtain c row where c: "encrypt sl (Some nonce) apiKey key = Inr c" "ps' = gm_set p row ps" "pk_Encrypted row = c"
    using assms(4) by (auto simp: StoreProviderKey_def split: sum.splits option.splits)
  have dec: "decrypt sl c key = Inr apiKey" by (rule decrypt_encrypt [OF assms(1) c(1) assms(3)])
  have ok: "gm_ok ps'" using assms(2) by (simp add: c(2))
  have "\<exists>ks'. ProviderKeys sl key False ps' = Inr ks' \<and> (\<forall>q. map_of ks' q = (if q = p then Some apiKey else map_of ks q))"
    if "ProviderKeys sl key False ps = Inr ks" for ks
  proof -
    have all: "\<exists>k. decrypt sl (pk_Encrypted r) key = Inr k" if "(q, r) \<in> set ps" for q r
      using each_Inr_all [of "open_row sl key" ps ks "(q, r)"] that \<open>ProviderKeys sl key False ps = Inr ks\<close>
      by (auto simp: ProviderKeys_def open_row_Inr)
    have "\<exists>k. decrypt sl (pk_Encrypted r) key = Inr k" if "(q, r) \<in> set ps'" for q r
    proof -
      have "map_of ps' q = Some r" using ok that by simp
      then show ?thesis using all dec c(3) by (auto simp: c(2) split: if_splits dest: map_of_SomeD)
    qed
    then have "ProviderKeys sl key False ps' = Inr (map (\<lambda>(p, r). (p, opened_row sl key r)) ps')"
      by (rule ProviderKeys_rows)
    moreover have "ks = map (\<lambda>(p, r). (p, opened_row sl key r)) ps"
      using ProviderKeys_rows [of ps sl key] all \<open>ProviderKeys sl key False ps = Inr ks\<close> by simp
    ultimately show ?thesis by (simp add: map_of_opened c(2,3) opened_row_def dec)
  qed
  then show ?thesis using ok dec c(2,3) by (simp add: ProviderKey_def)
qed

lemma stored_provider_key_is_read_witness:
  "\<exists>ps. StoreProviderKey toy_sealer toy_key False (Some toy_nonce) 7 ''groq'' ''gsk'' [] = (None, ps) \<and>
    ProviderKey toy_sealer toy_key False ''groq'' ps = Inr ''gsk''"
proof -
  obtain ps where ps: "StoreProviderKey toy_sealer toy_key False (Some toy_nonce) 7 ''groq'' ''gsk'' [] = (None, ps)"
    by (simp add: StoreProviderKey_def toy_encrypt)
  then show ?thesis
    using stored_provider_key_is_read [OF toy_sealer_laws _ _ ps] by (simp add: toy_nonce_def NonceSize_def)
qed

section \<open>Client keys\<close>

text \<open>
  What minting, presenting and revoking can make of an empty table: \<open>issued\<close> is the keys handed out with their ids,
  \<open>revoked\<close> the ids that were revoked. The random part of a key is base64url text, which has no spaces.
\<close>

inductive reachable_keys :: "crypto \<Rightarrow> sealer \<Rightarrow> string \<Rightarrow> key_table \<Rightarrow> (string \<times> string) list \<Rightarrow> string list \<Rightarrow> bool"
  for cr sl key where
  empty: "reachable_keys cr sl key [] [] []"
| create: "reachable_keys cr sl key ks issued revoked \<Longrightarrow>
    CreateClientKey cr sl key fails random (Some nonce) ident now name ks = (Inr raw, ks') \<Longrightarrow> length nonce = NonceSize \<Longrightarrow>
    TrimSpace raw = raw \<Longrightarrow> reachable_keys cr sl key ks' ((ident, raw) # issued) revoked"
| refuse: "reachable_keys cr sl key ks issued revoked \<Longrightarrow>
    CreateClientKey cr sl key fails random nonce ident now name ks = (Inl e, ks') \<Longrightarrow> reachable_keys cr sl key ks' issued revoked"
| present: "reachable_keys cr sl key ks issued revoked \<Longrightarrow>
    ValidateClientKey cr fails now header ks = (x, ks') \<Longrightarrow> reachable_keys cr sl key ks' issued revoked"
| revoke: "reachable_keys cr sl key ks issued revoked \<Longrightarrow>
    RevokeClientKey fails now ident ks = (None, ks') \<Longrightarrow> reachable_keys cr sl key ks' issued (ident # revoked)"
| revoke_fails: "reachable_keys cr sl key ks issued revoked \<Longrightarrow>
    RevokeClientKey fails now ident ks = (Some e, ks') \<Longrightarrow> reachable_keys cr sl key ks' issued revoked"

definition row_ok :: "crypto \<Rightarrow> sealer \<Rightarrow> string \<Rightarrow> (string \<times> string) list \<Rightarrow> string list \<Rightarrow> string \<Rightarrow> KeyRow \<Rightarrow> bool" where
  "row_ok cr sl key issued revoked i k \<longleftrightarrow>
     (\<exists>raw enc. (i, raw) \<in> set issued \<and> kr_Hash k = sha256 cr raw \<and> kr_Encrypted k = Some enc \<and> decrypt sl enc key = Inr raw) \<and>
     (kr_DisabledAt k \<noteq> None \<longleftrightarrow> i \<in> set revoked)"

definition keys_ok :: "crypto \<Rightarrow> sealer \<Rightarrow> string \<Rightarrow> key_table \<Rightarrow> (string \<times> string) list \<Rightarrow> string list \<Rightarrow> bool" where
  "keys_ok cr sl key ks issued revoked \<longleftrightarrow>
     gm_ok ks \<and> gm_ok issued \<and> fst ` set issued = fst ` set ks \<and> set revoked \<subseteq> fst ` set ks \<and>
     (\<forall>i k. map_of ks i = Some k \<longrightarrow> row_ok cr sl key issued revoked i k) \<and>
     (\<forall>i k j l. map_of ks i = Some k \<longrightarrow> map_of ks j = Some l \<longrightarrow> kr_Hash k = kr_Hash l \<longrightarrow> i = j) \<and>
     (\<forall>i raw. (i, raw) \<in> set issued \<longrightarrow> raw \<noteq> [])"

lemma keys_okI:
  assumes "gm_ok ks" and "gm_ok issued" and "fst ` set issued = fst ` set ks" and "set revoked \<subseteq> fst ` set ks"
    and "\<And>i k. map_of ks i = Some k \<Longrightarrow> row_ok cr sl key issued revoked i k"
    and "\<And>i k j l. map_of ks i = Some k \<Longrightarrow> map_of ks j = Some l \<Longrightarrow> kr_Hash k = kr_Hash l \<Longrightarrow> i = j"
    and "\<And>i raw. (i, raw) \<in> set issued \<Longrightarrow> raw \<noteq> []"
  shows "keys_ok cr sl key ks issued revoked"
  using assms unfolding keys_ok_def by blast

lemma keys_okD:
  assumes "keys_ok cr sl key ks issued revoked"
  shows "gm_ok ks" "gm_ok issued" "fst ` set issued = fst ` set ks" "set revoked \<subseteq> fst ` set ks"
    "\<And>i k. map_of ks i = Some k \<Longrightarrow> row_ok cr sl key issued revoked i k"
    "\<And>i k j l. map_of ks i = Some k \<Longrightarrow> map_of ks j = Some l \<Longrightarrow> kr_Hash k = kr_Hash l \<Longrightarrow> i = j"
    "\<And>i raw. (i, raw) \<in> set issued \<Longrightarrow> raw \<noteq> []"
  using assms unfolding keys_ok_def by blast+

text \<open>A row overwritten with one of the same hash leaves the hashes unique.\<close>

lemma rehash:
  assumes "map_of ks i = Some k" and "kr_Hash k' = kr_Hash k"
    and uniq: "\<And>i k j l. map_of ks i = Some k \<Longrightarrow> map_of ks j = Some l \<Longrightarrow> kr_Hash k = kr_Hash l \<Longrightarrow> i = j"
    and "map_of (gm_set i k' ks) j = Some u" and "map_of (gm_set i k' ks) l = Some v" and "kr_Hash u = kr_Hash v"
  shows "j = l"
proof -
  have old: "\<exists>w0. map_of ks m = Some w0 \<and> kr_Hash w0 = kr_Hash w" if "map_of (gm_set i k' ks) m = Some w" for m w
    using that assms(1,2) by (auto split: if_splits)
  obtain u0 v0 where "map_of ks j = Some u0" "kr_Hash u0 = kr_Hash u" "map_of ks l = Some v0" "kr_Hash v0 = kr_Hash v"
    using old [OF assms(4)] old [OF assms(5)] by blast
  then show ?thesis using uniq [of j u0 l v0] assms(6) by simp
qed

lemma keys_of_overwrite: "map_of ks i = Some k \<Longrightarrow> fst ` set (gm_set i k' ks) = fst ` set ks"
  by (force simp: gm_keys_set dest: map_of_SomeD)

lemma with_hash_Some: "with_hash h ks = Some (i, k) \<Longrightarrow> gm_ok ks \<Longrightarrow> map_of ks i = Some k \<and> kr_Hash k = h"
  unfolding with_hash_def find_Some_iff using map_of_is_SomeI nth_mem by fastforce

lemma with_hash_None: "with_hash h ks = None \<Longrightarrow> map_of ks j = Some l \<Longrightarrow> kr_Hash l \<noteq> h"
  by (force simp: with_hash_def find_None_iff dest: map_of_SomeD)

lemma keys_ok_touch:
  assumes ok: "keys_ok cr sl key ks issued revoked" and k: "map_of ks i = Some k"
    and same: "kr_Hash k' = kr_Hash k" "kr_Encrypted k' = kr_Encrypted k" "kr_DisabledAt k' = kr_DisabledAt k"
  shows "keys_ok cr sl key (gm_set i k' ks) issued revoked"
proof (rule keys_okI)
  show "fst ` set issued = fst ` set (gm_set i k' ks)" "set revoked \<subseteq> fst ` set (gm_set i k' ks)"
    using keys_okD(3,4) [OF ok] keys_of_overwrite [OF k] by simp_all
  show "row_ok cr sl key issued revoked j u" if "map_of (gm_set i k' ks) j = Some u" for j u
    using that keys_okD(5) [OF ok k] keys_okD(5) [OF ok, of j u] same by (cases "j = i") (auto simp: row_ok_def)
  show "j = l" if "map_of (gm_set i k' ks) j = Some u" "map_of (gm_set i k' ks) l = Some v" "kr_Hash u = kr_Hash v" for j u l v
    using rehash [OF k same(1) keys_okD(6) [OF ok] that] .
qed (use keys_okD(1,2,7) [OF ok] in auto)

lemma keys_ok_create:
  assumes "keys_ok cr sl key ks issued revoked" and "sealer_laws sl" and "length nonce = NonceSize"
    and "CreateClientKey cr sl key fails random (Some nonce) ident now name ks = (Inr raw, ks')"
  shows "keys_ok cr sl key ks' ((ident, raw) # issued) revoked"
proof -
  from assms(4) obtain enc where c: "encrypt sl (Some nonce) raw key = Inr enc" "map_of ks ident = None"
    "with_hash (sha256 cr raw) ks = None" "raw \<noteq> []"
    "ks' = gm_set ident \<lparr>kr_Hash = sha256 cr raw, kr_Encrypted = Some enc, kr_Name = name,
                   kr_CreatedAt = now, kr_LastUsed = None, kr_DisabledAt = None\<rparr> ks"
    by (cases "with_hash (sha256 cr raw) ks")
      (auto simp: CreateClientKey_def Let_def gm_has_def clientKeyPrefix_def split: option.splits sum.splits if_splits)
  let ?k = "\<lparr>kr_Hash = sha256 cr raw, kr_Encrypted = Some enc, kr_Name = name,
                   kr_CreatedAt = now, kr_LastUsed = None, kr_DisabledAt = None\<rparr>"
  note ok = keys_okD [OF assms(1)]
  have new: "ident \<notin> fst ` set ks" using c(2) by (simp add: map_of_eq_None_iff)
  have hash: "kr_Hash l \<noteq> sha256 cr raw" if "map_of ks j = Some l" for j l using with_hash_None [OF c(3) that] .
  have dec: "decrypt sl enc key = Inr raw" by (rule decrypt_encrypt [OF assms(2) c(1) assms(3)])
  show ?thesis
  proof (rule keys_okI)
    show "row_ok cr sl key ((ident, raw) # issued) revoked i k" if "map_of ks' i = Some k" for i k
    proof (cases "i = ident")
      case True
      then have "k = ?k" using that by (simp add: c(5))
      then show ?thesis using True dec new ok(4) by (auto simp: row_ok_def)
    next
      case False
      then have "row_ok cr sl key issued revoked i k" using that ok(5) by (simp add: c(5))
      then show ?thesis by (auto simp: row_ok_def)
    qed
    show "i = j" if "map_of ks' i = Some k" "map_of ks' j = Some l" "kr_Hash k = kr_Hash l" for i k j l
    proof -
      have "kr_Hash w = sha256 cr raw \<longleftrightarrow> m = ident" if "map_of ks' m = Some w" for m w
        using that hash [of m w] by (auto simp: c(5) split: if_splits)
      from this [OF that(1)] this [OF that(2)] that(3) have "i = ident \<longleftrightarrow> j = ident" by simp
      then show ?thesis using that ok(6) [of i k j l] by (cases "i = ident") (simp_all add: c(5))
    qed
    show "raw' \<noteq> []" if "(i, raw') \<in> set ((ident, raw) # issued)" for i raw'
      using that ok(7) [of i raw'] c(4) by auto
  qed (use ok(1-4) new in \<open>auto simp: c(5) gm_keys_set\<close>)
qed

lemma ValidateClientKey_table:
  assumes "ValidateClientKey cr fails now header ks = (x, ks')"
  obtains "ks' = ks" | i k where "with_hash (sha256 cr (TrimSpace (TrimPrefix header ''Bearer ''))) ks = Some (i, k)"
    "ks' = gm_set i (k\<lparr>kr_LastUsed := Some now\<rparr>) ks"
proof (cases "TrimSpace (TrimPrefix header ''Bearer '') = [] \<or> fails \<or>
    with_hash (sha256 cr (TrimSpace (TrimPrefix header ''Bearer ''))) ks = None")
  case True
  with assms that(1) show thesis by (auto simp: ValidateClientKey_def Let_def split: if_splits)
next
  case False
  then obtain i k where h: "with_hash (sha256 cr (TrimSpace (TrimPrefix header ''Bearer ''))) ks = Some (i, k)" by auto
  show thesis
  proof (cases "kr_DisabledAt k = None")
    case True
    with assms False h that(2) show thesis by (simp add: ValidateClientKey_def Let_def)
  next
    case disabled: False
    with assms False h have "ks' = ks" by (auto simp: ValidateClientKey_def Let_def)
    then show thesis by (rule that(1))
  qed
qed

lemma keys_ok_present:
  assumes "keys_ok cr sl key ks issued revoked" and "ValidateClientKey cr fails now header ks = (x, ks')"
  shows "keys_ok cr sl key ks' issued revoked"
  using assms(2)
proof (cases rule: ValidateClientKey_table)
  case (2 i k)
  have "map_of ks i = Some k" using with_hash_Some [OF 2(1)] keys_okD(1) [OF assms(1)] by simp
  then show ?thesis using keys_ok_touch [OF assms(1)] 2(2) by simp
qed (simp add: assms(1))

lemma keys_ok_revoke:
  assumes ok: "keys_ok cr sl key ks issued revoked" and "RevokeClientKey fails now ident ks = (None, ks')"
  shows "keys_ok cr sl key ks' issued (ident # revoked)"
proof -
  from assms(2) obtain k where k: "map_of ks ident = Some k" "ks' = gm_set ident (k\<lparr>kr_DisabledAt := Some now\<rparr>) ks"
    by (cases "map_of ks ident") (simp_all add: RevokeClientKey_def split: if_splits)
  have mem: "ident \<in> fst ` set ks" using map_of_SomeD [OF k(1)] by force
  show ?thesis
  proof (rule keys_okI)
    show "fst ` set issued = fst ` set ks'" "set (ident # revoked) \<subseteq> fst ` set ks'"
      using keys_okD(3,4) [OF ok] mem unfolding k(2) keys_of_overwrite [OF k(1)] by simp_all
    show "row_ok cr sl key issued (ident # revoked) j u" if "map_of ks' j = Some u" for j u
      using that keys_okD(5) [OF ok k(1)] keys_okD(5) [OF ok, of j u] by (cases "j = ident") (auto simp: k(2) row_ok_def)
    show "j = l" if "map_of ks' j = Some u" "map_of ks' l = Some v" "kr_Hash u = kr_Hash v" for j u l v
    proof -
      have "kr_Hash (k\<lparr>kr_DisabledAt := Some now\<rparr>) = kr_Hash k" by simp
      from rehash [OF k(1) this keys_okD(6) [OF ok] that [unfolded k(2)]] show ?thesis .
    qed
  qed (use keys_okD(1,2,7) [OF ok] in \<open>auto simp: k(2)\<close>)
qed

lemma CreateClientKey_refused:
  assumes "CreateClientKey cr sl key fails random nonce ident now name ks = (Inl e, ks')"
  shows "ks' = ks"
proof (cases random)
  case (Some r)
  with assms show ?thesis
    by (cases "encrypt sl nonce (clientKeyPrefix @ r) key")
      (simp_all add: CreateClientKey_def Let_def split: if_splits)
qed (use assms in \<open>simp add: CreateClientKey_def\<close>)

lemma RevokeClientKey_refused: "RevokeClientKey fails now ident ks = (Some e, ks') \<Longrightarrow> ks' = ks"
  by (cases "map_of ks ident") (simp_all add: RevokeClientKey_def split: if_splits)

lemma reachable_keys_ok: "reachable_keys cr sl key ks issued revoked \<Longrightarrow> sealer_laws sl \<Longrightarrow> keys_ok cr sl key ks issued revoked"
proof (induction rule: reachable_keys.induct)
  case empty
  show ?case by (rule keys_okI) simp_all
next
  case (create ks issued revoked fails random nonce ident now name raw ks')
  from keys_ok_create [OF create.IH [OF create.prems] create.prems create.hyps(3,2)] show ?case .
next
  case (refuse ks issued revoked fails random nonce ident now name e ks')
  from refuse.IH [OF refuse.prems] CreateClientKey_refused [OF refuse.hyps(2)] show ?case by simp
next
  case (present ks issued revoked fails now header x ks')
  from keys_ok_present [OF present.IH [OF present.prems] present.hyps(2)] show ?case .
next
  case (revoke ks issued revoked fails now ident ks')
  from keys_ok_revoke [OF revoke.IH [OF revoke.prems] revoke.hyps(2)] show ?case .
next
  case (revoke_fails ks issued revoked fails now ident e ks')
  from revoke_fails.IH [OF revoke_fails.prems] RevokeClientKey_refused [OF revoke_fails.hyps(2)] show ?case by simp
qed

text \<open>
  C17. A client key is a credential and nothing more: in every state minting, presenting and revoking can reach, a
  presented key passes exactly when it was handed out and not revoked, under the id it was minted with; a revoked one is
  told so, anything else is an invalid key; and every key that was handed out can still be shown, revoked or not. (The hash
  must not map the presented text and another key that was handed out to one value.)
\<close>

theorem client_key_lifecycle:
  assumes "reachable_keys cr sl key ks issued revoked" and "sealer_laws sl"
    and "TrimSpace (TrimPrefix header ''Bearer '') = provided"
    and "\<forall>(i, raw) \<in> set issued. sha256 cr raw = sha256 cr provided \<longrightarrow> raw = provided"
  shows "(\<forall>i. (i, provided) \<in> set issued \<longrightarrow>
      (if i \<in> set revoked then fst (ValidateClientKey cr False now header ks) = Inl ErrKeyDisabled
       else \<exists>k. fst (ValidateClientKey cr False now header ks) = Inr k \<and> ck_ID k = i)) \<and>
    (provided \<notin> snd ` set issued \<longrightarrow> fst (ValidateClientKey cr False now header ks) = Inl ErrInvalidKey) \<and>
    (\<forall>i raw. (i, raw) \<in> set issued \<longrightarrow> RevealClientKey sl key False i ks = Inr raw)"
proof -
  have ok: "keys_ok cr sl key ks issued revoked" by (rule reachable_keys_ok [OF assms(1,2)])
  have gm: "gm_ok ks" "gm_ok issued" using ok by (auto simp: keys_ok_def)
  note okD = keys_okD [OF ok]
  have row: "\<exists>k enc. map_of ks i = Some k \<and> kr_Hash k = sha256 cr raw \<and> kr_Encrypted k = Some enc \<and> decrypt sl enc key = Inr raw \<and>
      (kr_DisabledAt k \<noteq> None \<longleftrightarrow> i \<in> set revoked)" if "(i, raw) \<in> set issued" for i raw
  proof -
    have "i \<in> fst ` set ks" using okD(3) that by force
    then obtain k where k: "map_of ks i = Some k" by (metis map_of_eq_None_iff not_Some_eq)
    then have "row_ok cr sl key issued revoked i k" by (rule okD(5))
    then obtain raw' enc where r: "(i, raw') \<in> set issued" "kr_Hash k = sha256 cr raw'" "kr_Encrypted k = Some enc"
      "decrypt sl enc key = Inr raw'" "kr_DisabledAt k \<noteq> None \<longleftrightarrow> i \<in> set revoked"
      by (auto simp: row_ok_def)
    have "raw' = raw" using r(1) that gm(2) by (metis eq_key_imp_eq_value)
    with k r show ?thesis by blast
  qed
  have found: "with_hash (sha256 cr provided) ks = Some (i, k)" if "(i, provided) \<in> set issued" "map_of ks i = Some k"
    "kr_Hash k = sha256 cr provided" for i k
  proof (cases "with_hash (sha256 cr provided) ks")
    case None
    then show ?thesis using with_hash_None that by blast
  next
    case (Some jl)
    obtain j l where jl: "jl = (j, l)" by (cases jl)
    then have "map_of ks j = Some l" "kr_Hash l = sha256 cr provided" using with_hash_Some Some gm(1) by blast+
    then have "j = i" using okD(6) [of j l i k] that by simp
    then show ?thesis using Some jl that(2) \<open>map_of ks j = Some l\<close> by simp
  qed
  have valid: "if i \<in> set revoked then fst (ValidateClientKey cr False now header ks) = Inl ErrKeyDisabled
      else \<exists>k. fst (ValidateClientKey cr False now header ks) = Inr k \<and> ck_ID k = i" if "(i, provided) \<in> set issued" for i
  proof -
    note iss = that
    have "provided \<noteq> []" using okD(7) iss by blast
    obtain k where "map_of ks i = Some k" "kr_Hash k = sha256 cr provided" "kr_DisabledAt k \<noteq> None \<longleftrightarrow> i \<in> set revoked"
      using row [OF iss] by blast
    moreover from this have "with_hash (sha256 cr provided) ks = Some (i, k)" using found iss by blast
    ultimately show ?thesis using \<open>provided \<noteq> []\<close> assms(3) by (simp add: ValidateClientKey_def Let_def)
  qed
  have unknown: "with_hash (sha256 cr provided) ks = None" if "provided \<notin> snd ` set issued"
  proof (cases "with_hash (sha256 cr provided) ks")
    case (Some il)
    obtain i k where il: "il = (i, k)" by (cases il)
    then have "map_of ks i = Some k" "kr_Hash k = sha256 cr provided" using with_hash_Some Some gm(1) by blast+
    then obtain raw where "(i, raw) \<in> set issued" "sha256 cr raw = sha256 cr provided"
      using okD(5) [of i k] by (auto simp: row_ok_def)
    with assms(4) that show ?thesis by force
  qed
  then have "provided \<notin> snd ` set issued \<Longrightarrow> fst (ValidateClientKey cr False now header ks) = Inl ErrInvalidKey"
    using assms(3) by (auto simp: ValidateClientKey_def Let_def)
  moreover have "RevealClientKey sl key False i ks = Inr raw" if "(i, raw) \<in> set issued" for i raw
    using row [OF that] by (auto simp: RevealClientKey_def)
  ultimately show ?thesis using valid by blast
qed

lemma client_key_lifecycle_witness:
  "\<exists>ks. reachable_keys \<lparr>sha256 = id, bcrypt = (\<lambda>_ _. None), bcrypt_ok = (\<lambda>_ _. False)\<rparr> toy_sealer toy_key ks
      [(''i'', ''cr_x'')] [''i''] \<and>
    fst (ValidateClientKey \<lparr>sha256 = id, bcrypt = (\<lambda>_ _. None), bcrypt_ok = (\<lambda>_ _. False)\<rparr> False 9 ''Bearer cr_x'' ks) = Inl ErrKeyDisabled \<and>
    RevealClientKey toy_sealer toy_key False ''i'' ks = Inr ''cr_x''"
proof -
  let ?cr = "\<lparr>sha256 = id, bcrypt = (\<lambda>_ _. None), bcrypt_ok = (\<lambda>_ _. False)\<rparr>"
  let ?row = "\<lparr>kr_Hash = ''cr_x'', kr_Encrypted = Some (toy_nonce @ toy_key @ ''cr_x''), kr_Name = [],
     kr_CreatedAt = 1, kr_LastUsed = None, kr_DisabledAt = None\<rparr>"
  have trim: "TrimSpace ''cr_x'' = ''cr_x''" "TrimSpace (TrimPrefix ''Bearer cr_x'' ''Bearer '') = ''cr_x''" by code_simp+
  have new: "CreateClientKey ?cr toy_sealer toy_key False (Some ''x'') (Some toy_nonce) ''i'' 1 [] [] = (Inr ''cr_x'', [(''i'', ?row)])"
    by (simp add: CreateClientKey_def clientKeyPrefix_def toy_encrypt with_hash_def gm_has_def Let_def)
  have gone: "RevokeClientKey False 2 ''i'' [(''i'', ?row)] = (None, [(''i'', ?row\<lparr>kr_DisabledAt := Some 2\<rparr>)])"
    by (simp add: RevokeClientKey_def)
  have "reachable_keys ?cr toy_sealer toy_key [(''i'', ?row)] [(''i'', ''cr_x'')] []"
    by (rule reachable_keys.create [OF reachable_keys.empty new]) (simp_all add: trim toy_nonce_def NonceSize_def)
  from reachable_keys.revoke [OF this gone]
  have r: "reachable_keys ?cr toy_sealer toy_key [(''i'', ?row\<lparr>kr_DisabledAt := Some 2\<rparr>)] [(''i'', ''cr_x'')] [''i'']" .
  show ?thesis
    using r client_key_lifecycle [OF r toy_sealer_laws trim(2)] by (intro exI [of _ "[(''i'', ?row\<lparr>kr_DisabledAt := Some 2\<rparr>)]"]) simp
qed

end
