(* ===== verification/Chat_Handler.thy ===== *)
theory Chat_Handler
  imports Dialects Account_Safety Keys_Facts
begin

text \<open>
  The chat surface of \<open>internal/api/handler.go\<close>: reading a completion request and answering it whole or as an event
  stream. \<open>render\<close> is \<open>json.Marshal\<close> as text; what the gateway handed over while streaming is an
  argument.
\<close>

section \<open>Requests\<close>

definition maxRequestBytes :: nat where "maxRequestBytes = 32 * 1024 * 1024"

datatype http_reply =
    ErrorReply int string string
  | JsonReply int json
  | EventStream string

definition writeError_body :: "string \<Rightarrow> string \<Rightarrow> json" where
  "writeError_body message kind = JObj [(''error'', JObj [(''message'', JStr message), (''type'', JStr kind)])]"

text \<open>\<open>None\<close>: the body could not be read. More than \<open>maxRequestBytes\<close> is cut off.\<close>

definition read_chat_request :: "golib \<Rightarrow> string \<Rightarrow> string option \<Rightarrow> http_reply + ChatRequest" where
  "read_chat_request lib default_model sent_body =
     (case sent_body of
        None \<Rightarrow> Inl (ErrorReply 400 ''failed to read request body'' ''invalid_request_error'')
      | Some bytes \<Rightarrow>
          (let raw = take maxRequestBytes bytes in
           case unmarshal lib (decode_ChatRequest lib) raw of
             Inl why \<Rightarrow> Inl (ErrorReply 400 (''invalid JSON body: '' @ why) ''invalid_request_error'')
           | Inr req \<Rightarrow>
               if Messages req = [] then Inl (ErrorReply 400 ''messages must not be empty'' ''invalid_request_error'')
               else Inr (req\<lparr>Raw := parse_json lib raw,
                   ReqModel := (if ReqModel req = [] then default_model else ReqModel req)\<rparr>)))"

definition reply_of :: "reply \<Rightarrow> http_reply" where
  "reply_of no =
     (case no of
        Refused code msg \<Rightarrow> ErrorReply code msg (if code = 500 then ''internal_error'' else ''invalid_request_error'')
      | _ \<Rightarrow> ErrorReply 500 [] [])"

section \<open>Streaming\<close>

definition data_frame :: "string \<Rightarrow> string" where
  "data_frame payload = ''data: '' @ payload @ [nl, nl]"

text \<open>
  \<open>gone n\<close> is the error of writing the \<open>n\<close>-th chunk; the gateway stops at the first. The header is committed by the
  first attempt to write.
\<close>

fun frames_written :: "(json \<Rightarrow> string) \<Rightarrow> (nat \<Rightarrow> string option) \<Rightarrow> nat \<Rightarrow> ChatResponse list \<Rightarrow> string" where
  "frames_written render gone n [] = []"
| "frames_written render gone n (chunk # outs) =
     (if gone n \<noteq> None then []
      else data_frame (render (encode_ChatResponse chunk)) @ frames_written render gone (Suc n) outs)"

definition streamCompletions ::
  "(json \<Rightarrow> string) \<Rightarrow> (nat \<Rightarrow> string option) \<Rightarrow> ChatResponse list \<Rightarrow> string option \<Rightarrow> http_reply" where
  "streamCompletions render gone outs err =
     (let written = frames_written render gone 0 outs in
      case err of
        Some e \<Rightarrow>
          if outs = [] then ErrorReply 502 e ''upstream_error''
          else EventStream (written @ data_frame (render (writeError_body e ''upstream_error'')))
      | None \<Rightarrow> EventStream (written @ data_frame done_payload))"

text \<open>What the gateway made of the request: the answer or error of \<open>Complete\<close>, or the chunks and error of \<open>Stream\<close>.\<close>

record gateway_answer =
  ga_whole :: "string + ChatResponse"
  ga_chunks :: "ChatResponse list"
  ga_error :: "string option"

definition handleChatCompletions ::
  "golib \<Rightarrow> (json \<Rightarrow> string) \<Rightarrow> string \<Rightarrow> crypto \<Rightarrow> bool \<Rightarrow> time \<Rightarrow> string \<Rightarrow> rq \<Rightarrow> string option \<Rightarrow>
    (ChatRequest \<Rightarrow> ClientKey \<Rightarrow> gateway_answer) \<Rightarrow> (nat \<Rightarrow> string option) \<Rightarrow> key_table \<Rightarrow> http_reply \<times> key_table" where
  "handleChatCompletions lib render default_model cy fails now http_method r sent_body gateway gone ks =
     (if http_method \<noteq> ''POST'' then (ErrorReply 405 ''method not allowed'' ''invalid_request_error'', ks)
      else case authorize cy fails now r ks of
          (Inl no, ks') \<Rightarrow> (reply_of no, ks')
        | (Inr key, ks') \<Rightarrow>
            (case read_chat_request lib default_model sent_body of
               Inl no \<Rightarrow> (no, ks')
             | Inr req \<Rightarrow>
                 (let ans = gateway req key in
                  if Stream req then (streamCompletions render gone (ga_chunks ans) (ga_error ans), ks')
                  else case ga_whole ans of
                      Inl e \<Rightarrow> (ErrorReply 502 e ''upstream_error'', ks')
                    | Inr resp \<Rightarrow> (JsonReply 200 (encode_ChatResponse resp), ks'))))"

section \<open>A stream read back by a gateway\<close>

text \<open>What \<open>json.Marshal\<close> promises of a text: it is one line, it is not blank at its ends, and parses to the value.\<close>

definition one_line :: "golib \<Rightarrow> (json \<Rightarrow> string) \<Rightarrow> json \<Rightarrow> bool" where
  "one_line lib render j \<longleftrightarrow>
     nl \<notin> set (render j) \<and> cr \<notin> set (render j) \<and> TrimSpace (render j) = render j \<and> render j \<noteq> [] \<and> render j \<noteq> done_payload \<and>
     length (render j) + 6 < maxLine \<and> parse_json lib (render j) = Some j"

lemma scan_line:
  assumes "nl \<notin> set l" and "length l < cap"
  shows "scan_lines cap (l @ nl # rest) = (let (ls, long) = scan_lines cap rest in (drop_cr l # ls, long))"
proof -
  have "takeWhile (\<lambda>c. c \<noteq> nl) (l @ nl # rest) = l" "dropWhile (\<lambda>c. c \<noteq> nl) (l @ nl # rest) = nl # rest"
    using assms(1) by (auto simp: takeWhile_append dropWhile_append)
  then show ?thesis using assms(2) by (subst scan_lines.simps) (simp add: Let_def)
qed

lemma drop_cr_clean: "cr \<notin> set s \<Longrightarrow> drop_cr s = s"
  using last_in_set by (fastforce simp: drop_cr_def)

lemma scan_frame:
  assumes "nl \<notin> set payload" and "cr \<notin> set payload" and "length payload + 6 < maxLine"
  shows "scan_lines maxLine (data_frame payload @ rest) =
    (let (ls, long) = scan_lines maxLine rest in ((''data: '' @ payload) # [] # ls, long))"
proof -
  have d: "nl \<notin> set (''data: '' @ payload)" "cr \<notin> set (''data: '' @ payload)"
    using assms(1,2) by (auto simp: nl_def cr_def)
  have "scan_lines maxLine ((''data: '' @ payload) @ nl # ([] @ nl # rest)) =
      (let (ls, long) = scan_lines maxLine rest in ((''data: '' @ payload) # [] # ls, long))"
    using d assms(3) scan_line [of "[]" maxLine rest] drop_cr_clean [OF d(2)]
    by (subst scan_line) (auto simp: drop_cr_def maxLine_def split: prod.split)
  then show ?thesis by (simp add: data_frame_def)
qed

lemma TrimRight_clean: "s \<noteq> [] \<Longrightarrow> last s \<notin> set cs \<Longrightarrow> TrimRight s cs = s"
  by (cases s rule: rev_cases) (auto simp: TrimRight_def trim_right_def)

lemma TrimSpace_blank: "TrimSpace (CHR '' '' # s) = TrimSpace s"
  by (simp add: TrimSpace_def trim_left_def is_space_def)

lemma payload_line:
  assumes "cr \<notin> set payload" and "TrimSpace payload = payload" and "payload \<noteq> []"
  shows "sse_payloads ((''data: '' @ payload) # [] # ls) = (if payload = done_payload then [] else [payload]) @ sse_payloads ls"
proof -
  have "last (''data: '' @ payload) \<notin> set [cr]" using assms(1,3) last_in_set [OF assms(3)] by (auto simp del: last_in_set)
  then have "TrimRight (''data: '' @ payload) [cr] = ''data: '' @ payload" by (intro TrimRight_clean) simp_all
  moreover have "TrimRight [] [cr] = []" by (simp add: TrimRight_def trim_right_def)
  ultimately show ?thesis using assms(2,3) TrimSpace_blank [of payload] by (simp add: Let_def TrimPrefix_def)
qed

lemma framed:
  assumes "nl \<notin> set payload" and "cr \<notin> set payload" and "length payload + 6 < maxLine"
    and "TrimSpace payload = payload" and "payload \<noteq> []"
    and "scan_lines maxLine rest = (ls, long)"
  shows "\<exists>ls'. scan_lines maxLine (data_frame payload @ rest) = (ls', long) \<and>
    sse_payloads ls' = (if payload = done_payload then [] else [payload]) @ sse_payloads ls"
  using scan_frame [OF assms(1-3), of rest] payload_line [OF assms(2,4,5), of ls] assms(6) by simp

lemma frames_read:
  assumes "\<forall>c \<in> set outs. one_line lib render (encode_ChatResponse c)" and "scan_lines maxLine rest = (ls, long)"
  shows "\<exists>ls'. scan_lines maxLine (frames_written render willing n outs @ rest) = (ls', long) \<and>
    sse_payloads ls' = map (\<lambda>c. render (encode_ChatResponse c)) outs @ sse_payloads ls"
  using assms(1)
proof (induction outs arbitrary: n)
  case (Cons c cs)
  then obtain ls' where *: "scan_lines maxLine (frames_written render willing (Suc n) cs @ rest) = (ls', long)"
      "sse_payloads ls' = map (\<lambda>c. render (encode_ChatResponse c)) cs @ sse_payloads ls" by fastforce
  have w: "one_line lib render (encode_ChatResponse c)" using Cons.prems by simp
  show ?case
    using framed [of "render (encode_ChatResponse c)", OF _ _ _ _ _ *(1)] w *(2)
    by (auto simp: one_line_def willing_def [of n])
qed (use assms(2) in simp)

lemma done_line: "scan_lines maxLine (data_frame done_payload) = ([''data: [DONE]'', []], False)"
proof -
  have c: "nl \<notin> set done_payload" "cr \<notin> set done_payload" "length done_payload + 6 < maxLine"
    by (simp_all add: done_payload_def nl_def cr_def maxLine_def)
  show ?thesis using scan_frame [OF c, of "[]"] by (simp add: scan_lines.simps [of _ "[]"] done_payload_def)
qed

text \<open>What the handler says on each path, once it has a key and a request.\<close>

lemma handled:
  assumes "fst (handleChatCompletions lib render dm cy fails now m r sent_body (\<lambda>req key. ans) gone ks) = reply"
  shows "reply = EventStream bytes \<Longrightarrow> streamCompletions render gone (ga_chunks ans) (ga_error ans) = EventStream bytes"
    and "reply = JsonReply code j \<Longrightarrow> code = 200 \<and> (\<exists>resp. ga_whole ans = Inr resp \<and> j = encode_ChatResponse resp)"
  using assms unfolding handleChatCompletions_def read_chat_request_def reply_of_def
  by (auto simp: streamCompletions_def Let_def split: if_splits prod.splits sum.splits option.splits reply.splits)

definition sendable :: "golib \<Rightarrow> (json \<Rightarrow> string) \<Rightarrow> ChatResponse \<Rightarrow> bool" where
  "sendable lib render c \<longleftrightarrow> one_line lib render (encode_ChatResponse c) \<and> ChatResponse_ok c \<and> Choices c \<noteq> []"

definition last_usage :: "ChatResponse list \<Rightarrow> Usage" where
  "last_usage outs = fold (\<lambda>c u. case RespUsage c of None \<Rightarrow> u | Some v \<Rightarrow> v) outs no_usage"

lemma stream_read:
  assumes "\<forall>c \<in> set outs. sendable lib render c" and "scan_lines maxLine rest = (ls, False)" 
  shows "OpenAI_DecodeStream lib (frames_written render willing 0 outs @ rest) None willing =
    (let (u, tail_outs, err) = sse_run (OpenAI_step lib) willing None (length outs) (sse_payloads ls) (last_usage outs)
     in (u, outs @ tail_outs, err))"
proof -
  obtain ls' where *: "scan_lines maxLine (frames_written render willing 0 outs @ rest) = (ls', False)"
      "sse_payloads ls' = map (\<lambda>c. render (encode_ChatResponse c)) outs @ sse_payloads ls"
    using frames_read [of outs lib render rest ls False 0] assms by (auto simp: sendable_def)
  have "sse_run (OpenAI_step lib) willing None n (map (\<lambda>c. render (encode_ChatResponse c)) outs @ ds) u =
      (let (u', tail_outs, err) = sse_run (OpenAI_step lib) willing None (n + length outs) ds
          (fold (\<lambda>c u. case RespUsage c of None \<Rightarrow> u | Some v \<Rightarrow> v) outs u)
       in (u', outs @ tail_outs, err))" for n ds u
    using assms(1)
  proof (induction outs arbitrary: n u)
    case (Cons c cs)
    have "OpenAI_step lib u (render (encode_ChatResponse c)) = (case RespUsage c of None \<Rightarrow> u | Some v \<Rightarrow> v, [c], None)"
      using Cons.prems by (simp add: OpenAI_step_def unmarshal_def sendable_def one_line_def decode_ChatResponse_encode Let_def)
    with Cons show ?case by (simp add: Let_def split: prod.splits)
  qed simp
  then show ?thesis using * by (simp add: OpenAI_DecodeStream_def scanSSE_def last_usage_def)
qed

text \<open>
  C23. What the gateway answers a completion request with, an OpenAI-compatible client reads back: reading the event
  stream with this program's own decoder gives every chunk the gateway handed over, in order, with the last usage it
  reported, and reading the whole answer gives the same response, so gateways can be chained. (\<open>json.Marshal\<close> must
  write one line that parses back, and every chunk must have a choice, which those of every provider have.)
\<close>

theorem chat_surface_roundtrip:
  assumes "fst (handleChatCompletions lib render dm cy fails now m r sent_body (\<lambda>req key. ans) willing ks) = reply"
    and "ga_error ans = None" and "\<forall>c \<in> set (ga_chunks ans). sendable lib render c"
    and "\<forall>resp. ga_whole ans = Inr resp \<longrightarrow> sendable lib render resp"
  shows "(reply = EventStream bytes \<longrightarrow>
      OpenAI_DecodeStream lib bytes None willing = (last_usage (ga_chunks ans), ga_chunks ans, None)) \<and>
    (reply = JsonReply code j \<longrightarrow> code = 200 \<and> (\<exists>resp. ga_whole ans = Inr resp \<and> OpenAI_DecodeResponse lib (render j) model = Inr resp))"
proof (intro conjI impI)
  assume "reply = EventStream bytes"
  then have b: "bytes = frames_written render willing 0 (ga_chunks ans) @ data_frame done_payload"
    using handled(1) [OF assms(1)] assms(2) by (simp add: streamCompletions_def Let_def)
  have "sse_payloads [''data: [DONE]'', []] = []"
    using payload_line [of done_payload "[]"] by (simp add: done_payload_def cr_def TrimSpace_def trim_left_def trim_right_def is_space_def)
  then show "OpenAI_DecodeStream lib bytes None willing = (last_usage (ga_chunks ans), ga_chunks ans, None)"
    unfolding b using stream_read [OF assms(3) done_line] by simp
next
  assume "reply = JsonReply code j"
  with handled(2) [OF assms(1)] obtain resp where "code = 200" "ga_whole ans = Inr resp" "j = encode_ChatResponse resp" by blast
  with assms(4) show "code = 200" 
    "\<exists>resp. ga_whole ans = Inr resp \<and> OpenAI_DecodeResponse lib (render j) model = Inr resp"
    by (auto simp: OpenAI_DecodeResponse_def sendable_def one_line_def unmarshal_def decode_ChatResponse_encode)
qed

definition hop_lib :: golib where
  "hop_lib = \<lparr>parse_json = (\<lambda>s. Some (if s = ''ok'' then encode_ChatResponse sample_response else
       JObj [(''messages'', JArr [JObj [(''role'', JStr ''user'')]]), (''stream'', JBool True)])),
     json_text = (\<lambda>_. []), unmarshal_why = (\<lambda>_. []), parse_float = (\<lambda>_. None), float_literal = (\<lambda>_. []), url_error = (\<lambda>_. None)\<rparr>"

definition hop_answer :: gateway_answer where
  "hop_answer = \<lparr>ga_whole = Inr sample_response, ga_chunks = [sample_response], ga_error = None\<rparr>"

definition one_key :: key_table where
  "one_key = [(''k1'', \<lparr>kr_Hash = ''#cr_s'', kr_Encrypted = None, kr_Name = ''ed'', kr_CreatedAt = 0, kr_LastUsed = None, kr_DisabledAt = None\<rparr>)]"

lemma hop_sendable: "sendable hop_lib (\<lambda>_. ''ok'') sample_response"
proof -
  have "TrimSpace ''ok'' = ''ok''" by code_simp
  then show ?thesis
    by (simp add: sendable_def one_line_def hop_lib_def nl_def cr_def done_payload_def maxLine_def sample_response_def
        ChatResponse_ok_def Choice_ok_def ToolCall_ok_def in_int64_def)
qed

lemma hop_reply:
  "fst (handleChatCompletions hop_lib (\<lambda>_. ''ok'') ''auto'' toy_crypto False 7 ''POST'' (no_request\<lparr>Authorization := ''Bearer cr_s''\<rparr>)
     (Some ''q'') (\<lambda>req key. hop_answer) willing one_key) = EventStream (data_frame ''ok'' @ data_frame done_payload)"
proof -
  have k: "TrimSpace (TrimPrefix ''Bearer cr_s'' ''Bearer '') = ''cr_s''" by code_simp
  have d: "\<exists>req. decode_ChatRequest hop_lib (JObj [(''messages'', JArr [JObj [(''role'', JStr ''user'')]]), (''stream'', JBool True)]) = Inr req \<and>
      Messages req \<noteq> [] \<and> Stream req"
    by (simp add: decode_ChatRequest_def decode_Message_def UnmarshalContent.simps fields_get_def raw_field_def json_simps)
  have "read_chat_request hop_lib ''auto'' (Some ''q'') = Inr req \<Longrightarrow> Stream req" for req
    using d by (auto simp: read_chat_request_def unmarshal_def maxRequestBytes_def hop_lib_def split: if_splits)
  moreover have "\<exists>req. read_chat_request hop_lib ''auto'' (Some ''q'') = Inr req"
    using d by (auto simp: read_chat_request_def unmarshal_def maxRequestBytes_def hop_lib_def)
  ultimately show ?thesis using k
    by (auto simp: handleChatCompletions_def authorize_def ValidateClientKey_def with_hash_def one_key_def toy_crypto_def no_request_def
        hop_answer_def streamCompletions_def willing_def)
qed

lemma chat_surface_roundtrip_witness:
  "OpenAI_DecodeStream hop_lib (data_frame ''ok'' @ data_frame done_payload) None willing =
     (last_usage [sample_response], [sample_response], None)"
  using chat_surface_roundtrip [OF hop_reply, of "data_frame ''ok'' @ data_frame done_payload"] hop_sendable
  by (simp add: hop_answer_def)

section \<open>No key, no request\<close>

text \<open>
  Without a key that passes, the answer is 401 (500 when the database fails), or 405 for the wrong method, and does not
  depend on what the gateway would have said.
\<close>

lemma chat_needs_a_key:
  assumes "ValidateClientKey cy fails now (Authorization r) ks = (Inl e, ks')"
  shows "\<exists>code msg kind. handleChatCompletions lib render dm cy fails now m r sent_body gateway gone ks = (ErrorReply code msg kind, ks') \<and>
    code = (if m \<noteq> ''POST'' then 405 else if e = ErrKeyDisabled \<or> e = ErrInvalidKey then 401 else 500)"
proof -
  have "ks' = ks" using assms by (auto simp: ValidateClientKey_def Let_def split: if_splits option.splits prod.splits)
  with assms show ?thesis by (auto simp: handleChatCompletions_def authorize_def reply_of_def)
qed

text \<open>
  The decoder takes an error frame, which is how this gateway reports a failure once the stream has started, for a chunk
  without choices: a stream cut off by the upstream's error is read as a complete answer.
\<close>

lemma interrupted_stream_reads_as_complete:
  assumes "\<forall>c \<in> set outs. sendable lib render c" and "outs \<noteq> []"
    and "one_line lib render (writeError_body e ''upstream_error'')"
    and "streamCompletions render willing outs (Some e) = EventStream bytes"
  shows "OpenAI_DecodeStream lib bytes None willing = (last_usage outs, outs, None)"
proof -
  let ?p = "render (writeError_body e ''upstream_error'')"
  have w: "nl \<notin> set ?p" "cr \<notin> set ?p" "length ?p + 6 < maxLine" "TrimSpace ?p = ?p" "?p \<noteq> []" "?p \<noteq> done_payload"
    "parse_json lib ?p = Some (writeError_body e ''upstream_error'')"
    using assms(3) by (simp_all add: one_line_def)
  have "scan_lines maxLine [] = ([], False)" by (simp add: scan_lines.simps)
  from framed [OF w(1-5) this] w(6) obtain ls where ls: "scan_lines maxLine (data_frame ?p) = (ls, False)" "sse_payloads ls = [?p]"
    by auto
  have "OpenAI_step lib u ?p = (u, [], None)" for u
    using w(7) by (simp add: OpenAI_step_def unmarshal_def writeError_body_def decode_ChatResponse_def fields_get_def raw_field_def json_simps)
  moreover have "bytes = frames_written render willing 0 outs @ data_frame ?p"
    using assms(2,4) by (simp add: streamCompletions_def Let_def split: if_splits)
  ultimately show ?thesis using stream_read [OF assms(1) ls(1)] ls(2) by simp
qed

end
