(* ===== verification/Discovery.thy ===== *)
theory Discovery
  imports Probing Keys Dialects
begin

text \<open>
  What the providers serve: asking one for its models and reading the prices it publishes
  (\<open>internal/provider/discovery.go\<close>), the table the lists are kept in (\<open>internal/db/models.go\<close>), and the refreshes that
  bring the catalogue and the table up to date (\<open>internal/gateway/discovery.go\<close>). The connection is a parameter: an
  answer is a status and the bytes of its body, or the first JSON value \<open>json.Decoder\<close> finds in it. \<open>ORDER BY\<close> on texts is
  taken by bytes, as the C collation does. Prices written as infinities or NaN are outside, like in \<open>Float64\<close>.
\<close>

section \<open>Published prices\<close>

definition quote :: char where "quote = CHR 0x22"

text \<open>The text of a value as it stands in the document.\<close>

definition literal :: "golib \<Rightarrow> json \<Rightarrow> string" where
  "literal lib j =
     (case j of
        JNull \<Rightarrow> ''null'' | JBool b \<Rightarrow> if b then ''true'' else ''false'' | JNum l \<Rightarrow> l | _ \<Rightarrow> json_text lib j)"

record flexNumber =
  fn_Value :: float64
  fn_Set :: bool

definition unset :: flexNumber where "unset = \<lparr>fn_Value = 0, fn_Set = False\<rparr>"

definition Trim :: "string \<Rightarrow> string \<Rightarrow> string" where
  "Trim s cutset = trim_right (\<lambda>c. c \<in> set cutset) (trim_left (\<lambda>c. c \<in> set cutset) s)"

definition UnmarshalFlex :: "golib \<Rightarrow> json option \<Rightarrow> flexNumber" where
  "UnmarshalFlex lib field =
     (case field of
        None \<Rightarrow> unset
      | Some j \<Rightarrow>
          (let txt = Trim (TrimSpace (literal lib j)) [quote] in
           if txt = [] \<or> txt = ''null'' then unset
           else case parse_float lib txt of None \<Rightarrow> unset | Some v \<Rightarrow> \<lparr>fn_Value = v, fn_Set = True\<rparr>))"

record pricing =
  Prompt :: flexNumber
  Completion :: flexNumber
  Input :: flexNumber
  Output :: flexNumber
  PriceUnit :: string
  Currency :: string

definition decode_pricing :: "golib \<Rightarrow> json \<Rightarrow> json_error + pricing" where
  "decode_pricing lib j =
     and_then (as_fields j) (\<lambda>fs.
     and_then (as_string (fields_get fs ''unit'')) (\<lambda>u.
     and_then (as_string (fields_get fs ''currency'')) (\<lambda>cur.
     Inr \<lparr>Prompt = UnmarshalFlex lib (raw_field fs ''prompt''), Completion = UnmarshalFlex lib (raw_field fs ''completion''),
          Input = UnmarshalFlex lib (raw_field fs ''input''), Output = UnmarshalFlex lib (raw_field fs ''output''),
          PriceUnit = u, Currency = cur\<rparr>)))"

definition per_million_unit :: "pricing \<Rightarrow> bool" where
  "per_million_unit p \<longleftrightarrow>
     (let u = ToLower (TrimSpace (PriceUnit p)) in Contains u ''1m'' \<or> Contains u ''million'')"

definition perMillion :: "pricing option \<Rightarrow> (float64 \<times> float64) option" where
  "perMillion po =
     (case po of
        None \<Rightarrow> None
      | Some p \<Rightarrow>
          if Currency p \<noteq> [] \<and> \<not> EqualFold (Currency p) ''USD'' then None
          else if fn_Set (Input p) \<and> fn_Set (Output p) then
            (if per_million_unit p then Some (fn_Value (Input p), fn_Value (Output p))
             else if ToLower (TrimSpace (PriceUnit p)) = [] then None
             else Some (fmul (fn_Value (Input p)) 1000000, fmul (fn_Value (Output p)) 1000000))
          else if fn_Set (Prompt p) \<and> fn_Set (Completion p) then
            (if per_million_unit p then Some (fn_Value (Prompt p), fn_Value (Completion p))
             else Some (fmul (fn_Value (Prompt p)) 1000000, fmul (fn_Value (Completion p)) 1000000))
          else None)"

section \<open>The envelope\<close>

record dataModel =
  me_ID :: string
  me_Name :: string
  me_Pricing :: "pricing option"
  me_ContextLength :: int
  me_MaxOutput :: int

record googleModel =
  gl_Name :: string
  gl_Methods :: "string list"

record modelsEnvelope =
  env_Data :: "dataModel list"
  env_Models :: "googleModel list"

definition decode_dataModel :: "golib \<Rightarrow> json \<Rightarrow> json_error + dataModel" where
  "decode_dataModel lib j =
     and_then (as_fields j) (\<lambda>fs.
     and_then (as_string (fields_get fs ''id'')) (\<lambda>ident.
     and_then (as_string (fields_get fs ''name'')) (\<lambda>name.
     and_then (as_ptr (decode_pricing lib) (fields_get fs ''pricing'')) (\<lambda>price.
     and_then (as_int (fields_get fs ''context_length'')) (\<lambda>ctx.
     and_then (as_int (fields_get fs ''max_output_tokens'')) (\<lambda>mx.
     Inr \<lparr>me_ID = ident, me_Name = name, me_Pricing = price, me_ContextLength = ctx, me_MaxOutput = mx\<rparr>))))))"

definition decode_googleModel :: "json \<Rightarrow> json_error + googleModel" where
  "decode_googleModel j =
     and_then (as_fields j) (\<lambda>fs.
     and_then (as_string (fields_get fs ''name'')) (\<lambda>name.
     and_then (as_list as_string (fields_get fs ''supportedGenerationMethods'')) (\<lambda>ms.
     Inr \<lparr>gl_Name = name, gl_Methods = ms\<rparr>)))"

definition decode_envelope :: "golib \<Rightarrow> json \<Rightarrow> json_error + modelsEnvelope" where
  "decode_envelope lib j =
     and_then (as_fields j) (\<lambda>fs.
     and_then (as_list (decode_dataModel lib) (fields_get fs ''data'')) (\<lambda>ds.
     and_then (as_list decode_googleModel (fields_get fs ''models'')) (\<lambda>ms.
     Inr \<lparr>env_Data = ds, env_Models = ms\<rparr>)))"

definition supportsChat :: "string list \<Rightarrow> bool" where
  "supportsChat methods \<longleftrightarrow>
     methods = [] \<or> (\<exists>m \<in> set methods. EqualFold m ''generateContent'' \<or> EqualFold m ''streamGenerateContent'')"

section \<open>Asking a provider\<close>

definition truncate_text :: "string \<Rightarrow> nat \<Rightarrow> string" where
  "truncate_text s n = (if length s \<le> n then s else take n s @ ''...'')"

definition credentialMarkers :: "string list" where
  "credentialMarkers = [''api key'', ''api_key'', ''apikey'', ''unauthor'', ''authenticat'', ''credential'', ''token'']"

definition mentionsCredentials :: "string \<Rightarrow> bool" where
  "mentionsCredentials body \<longleftrightarrow> contains_any (ToLower body) credentialMarkers"

text \<open>\<open>ErrRejected\<close> in the chain of an error, or any other error; with its text.\<close>

datatype list_error = Rejected string | Unlisted string

definition rejected_text :: string where "rejected_text = ''the provider rejected this key''"

definition classify :: "string \<Rightarrow> int \<Rightarrow> string \<Rightarrow> list_error" where
  "classify name code body =
     (let txt = TrimSpace body in
      if code = 401 \<or> code = 403 then Rejected (rejected_text @ '' ('' @ name @ '' said '' @ Itoa code @ '')'')
      else if code = 400 \<and> mentionsCredentials txt then
        Rejected (rejected_text @ '' ('' @ name @ '' said '' @ Itoa code @ '': '' @ truncate_text txt 200 @ '')'')
      else Unlisted (HTTPError name code body))"

text \<open>No answer; a status other than 200 with its body; or 200, with what the decoder read.\<close>

datatype list_answer =
    NoAnswer string
  | Answer int string
  | Listing "string + json"

definition authHeaders :: "Spec \<Rightarrow> string \<Rightarrow> (string \<times> string) list" where
  "authHeaders spec apiKey =
     (if SpecKind spec = KindAnthropic then [(''x-api-key'', apiKey), (''anthropic-version'', anthropicVersion)]
      else if SpecKind spec = KindGoogle then [(''x-goog-api-key'', apiKey)]
      else [(''Authorization'', ''Bearer '' @ apiKey)])"

definition list_request :: "golib \<Rightarrow> Spec \<Rightarrow> string \<Rightarrow> string + (string \<times> (string \<times> string) list)" where
  "list_request lib spec apiKey =
     (let url = TrimRight (BaseURL spec) ''/'' @ ''/models'' in
      case url_error lib url of Some e \<Rightarrow> Inl e | None \<Rightarrow> Inr (url, authHeaders spec apiKey))"

definition model_of_data :: "string \<Rightarrow> dataModel \<Rightarrow> DiscoveredModel" where
  "model_of_data name m =
     (case perMillion (me_Pricing m) of
        Some (inp, outp) \<Rightarrow>
          if 0 \<le> inp \<and> 0 \<le> outp
          then \<lparr>dm_Provider = name, dm_Model = me_ID m, dm_InputCostPer1M = inp, dm_OutputCostPer1M = outp,
                dm_PriceKnown = True, dm_ContextLength = me_ContextLength m\<rparr>
          else \<lparr>dm_Provider = name, dm_Model = me_ID m, dm_InputCostPer1M = 0, dm_OutputCostPer1M = 0,
                dm_PriceKnown = False, dm_ContextLength = me_ContextLength m\<rparr>
      | None \<Rightarrow> \<lparr>dm_Provider = name, dm_Model = me_ID m, dm_InputCostPer1M = 0, dm_OutputCostPer1M = 0,
                dm_PriceKnown = False, dm_ContextLength = me_ContextLength m\<rparr>)"

definition unpriced :: "string \<Rightarrow> string \<Rightarrow> DiscoveredModel" where
  "unpriced name ident = \<lparr>dm_Provider = name, dm_Model = ident, dm_InputCostPer1M = 0, dm_OutputCostPer1M = 0,
     dm_PriceKnown = False, dm_ContextLength = 0\<rparr>"

definition google_id :: "googleModel \<Rightarrow> string" where
  "google_id m = TrimPrefix (gl_Name m) ''models/''"

definition listed_models :: "string \<Rightarrow> modelsEnvelope \<Rightarrow> DiscoveredModel list" where
  "listed_models name env =
     map (model_of_data name) (filter (\<lambda>m. TrimSpace (me_ID m) \<noteq> []) (env_Data env)) @
     map (unpriced name \<circ> google_id) (filter (\<lambda>m. google_id m \<noteq> [] \<and> supportsChat (gl_Methods m)) (env_Models env))"

definition ListModels :: "golib \<Rightarrow> Spec \<Rightarrow> string \<Rightarrow> list_answer \<Rightarrow> list_error + DiscoveredModel list" where
  "ListModels lib spec apiKey ans =
     (if apiKey = [] then Inl (Unlisted ''no API key configured'')
      else case list_request lib spec apiKey of
          Inl e \<Rightarrow> Inl (Unlisted e)
        | Inr _ \<Rightarrow>
            (case ans of
               NoAnswer e \<Rightarrow> Inl (Unlisted e)
             | Answer code body \<Rightarrow> Inl (classify (Name spec) code (take 512 body))
             | Listing (Inl e) \<Rightarrow> Inl (Unlisted (''could not read '' @ Name spec @ '' model list: '' @ e))
             | Listing (Inr j) \<Rightarrow>
                 (case decode_envelope lib j of
                    Inl _ \<Rightarrow> Inl (Unlisted (''could not read '' @ Name spec @ '' model list: '' @ unmarshal_why lib (json_text lib j)))
                  | Inr env \<Rightarrow> Inr (listed_models (Name spec) env))))"

section \<open>The table of lists\<close>

record DiscoveredRow =
  dr_In :: float64
  dr_Out :: float64
  dr_Known :: bool
  dr_Context :: int
  dr_FirstSeen :: time
  dr_LastSeen :: time

type_synonym discovered_table = "(string \<times> string, DiscoveredRow) gomap"

definition existingModels :: "string \<Rightarrow> discovered_table \<Rightarrow> string list" where
  "existingModels p t = map (snd \<circ> fst) (filter (\<lambda>(pm, row). fst pm = p) t)"

definition modelNames :: "DiscoveredModel list \<Rightarrow> string list" where
  "modelNames models = map dm_Model models"

record ModelChange =
  mc_Provider :: string
  Added :: "string list"
  Removed :: "string list"

definition upsert_row :: "time \<Rightarrow> string \<Rightarrow> DiscoveredModel \<Rightarrow> discovered_table \<Rightarrow> discovered_table" where
  "upsert_row now p m t =
     gm_set (p, dm_Model m)
       \<lparr>dr_In = dm_InputCostPer1M m, dr_Out = dm_OutputCostPer1M m, dr_Known = dm_PriceKnown m, dr_Context = dm_ContextLength m,
        dr_FirstSeen = (case map_of t (p, dm_Model m) of None \<Rightarrow> now | Some old \<Rightarrow> dr_FirstSeen old), dr_LastSeen = now\<rparr> t"

definition withdrawn :: "string \<Rightarrow> DiscoveredModel list \<Rightarrow> discovered_table \<Rightarrow> discovered_table" where
  "withdrawn p models t = filter (\<lambda>(pm, row). fst pm \<noteq> p \<or> snd pm \<in> set (modelNames models)) t"

text \<open>One transaction: \<open>fails\<close> when any of its statements does, and then nothing is written.\<close>

definition ReplaceDiscoveredModels ::
  "bool \<Rightarrow> time \<Rightarrow> string \<Rightarrow> DiscoveredModel list \<Rightarrow> discovered_table \<Rightarrow> ModelChange option \<times> discovered_table" where
  "ReplaceDiscoveredModels fails now p models t =
     (if fails then (None, t)
      else (Some \<lparr>mc_Provider = p,
          Added = sort (filter (\<lambda>m. m \<notin> set (existingModels p t)) (modelNames models)),
          Removed = sort (filter (\<lambda>m. m \<notin> set (modelNames models)) (existingModels p t))\<rparr>,
        fold (upsert_row now p) models (withdrawn p models t)))"

definition stored_model :: "(string \<times> string) \<times> DiscoveredRow \<Rightarrow> DiscoveredModel" where
  "stored_model x = (case x of (pm, row) \<Rightarrow>
     \<lparr>dm_Provider = fst pm, dm_Model = snd pm, dm_InputCostPer1M = dr_In row, dm_OutputCostPer1M = dr_Out row,
      dm_PriceKnown = dr_Known row, dm_ContextLength = dr_Context row\<rparr>)"

fun group_models :: "DiscoveredModel list \<Rightarrow> (string, DiscoveredModel list) gomap \<Rightarrow> (string, DiscoveredModel list) gomap" where
  "group_models [] acc = acc"
| "group_models (m # ms) acc = group_models ms (gm_set (dm_Provider m) (gm_at [] acc (dm_Provider m) @ [m]) acc)"

definition DiscoveredModels :: "bool \<Rightarrow> discovered_table \<Rightarrow> (string, DiscoveredModel list) gomap option" where
  "DiscoveredModels fails t = (if fails then None else Some (group_models (map stored_model (sort_key fst t)) []))"

definition ForgetDiscoveredModels :: "bool \<Rightarrow> string \<Rightarrow> discovered_table \<Rightarrow> bool \<times> discovered_table" where
  "ForgetDiscoveredModels fails p t = (if fails then (False, t) else (True, filter (\<lambda>(pm, row). fst pm \<noteq> p) t))"

record NewModel =
  nm_Provider :: string
  nm_Model :: string
  nm_Free :: bool
  nm_FirstSeen :: time

definition row_free :: "DiscoveredRow \<Rightarrow> bool" where
  "row_free row \<longleftrightarrow> dr_Known row \<and> dr_In row = 0 \<and> dr_Out row = 0"

definition RecentlyAddedModels :: "bool \<Rightarrow> time \<Rightarrow> duration \<Rightarrow> int \<Rightarrow> bool \<Rightarrow> discovered_table \<Rightarrow> NewModel list option" where
  "RecentlyAddedModels fails now since limit freeOnly t =
     (if fails then None
      else Some (take (nat (if limit \<le> 0 \<or> limit > 200 then 50 else limit))
        (map (\<lambda>(pm, row). \<lparr>nm_Provider = fst pm, nm_Model = snd pm, nm_Free = row_free row, nm_FirstSeen = dr_FirstSeen row\<rparr>)
          (sort_key (\<lambda>(pm, row). - dr_FirstSeen row)
            (filter (\<lambda>(pm, row). dr_FirstSeen row > now - intervalArg since \<and> (freeOnly \<longrightarrow> row_free row)) t)))))"

section \<open>Refreshing\<close>

record Known =
  kn_catalog :: Catalog
  kn_table :: discovered_table
  kn_probes :: probes

definition LoadDiscoveredModels :: "bool \<Rightarrow> discovered_table \<Rightarrow> Catalog \<Rightarrow> Catalog" where
  "LoadDiscoveredModels fails t c =
     (case DiscoveredModels fails t of
        None \<Rightarrow> c
      | Some byProvider \<Rightarrow> fold (\<lambda>(name, models). SetDiscovered name models) byProvider c)"

text \<open>What one refresh meets: the provider's answer, and the save's error and clock.\<close>

record refresh_io =
  ri_answer :: list_answer
  ri_save_fails :: bool
  ri_now :: time

definition AdoptModels :: "bool \<Rightarrow> time \<Rightarrow> string \<Rightarrow> DiscoveredModel list \<Rightarrow> Known \<Rightarrow> Known" where
  "AdoptModels fails now name models k =
     (if models = [] then k
      else k\<lparr>kn_catalog := SetDiscovered name models (kn_catalog k),
             kn_table := snd (ReplaceDiscoveredModels fails now name models (kn_table k))\<rparr>)"

definition refreshOne :: "golib \<Rightarrow> refresh_io \<Rightarrow> Spec \<Rightarrow> string \<Rightarrow> Known \<Rightarrow> Known" where
  "refreshOne lib io spec apiKey k =
     (case ListModels lib spec apiKey (ri_answer io) of
        Inl _ \<Rightarrow> k
      | Inr models \<Rightarrow>
          if models = [] then k
          else k\<lparr>kn_catalog := SetDiscovered (Name spec) models (kn_catalog k),
                 kn_table := snd (ReplaceDiscoveredModels (ri_save_fails io) (ri_now io) (Name spec) models (kn_table k))\<rparr>)"

definition refresh_targets :: "Spec list \<Rightarrow> keys \<Rightarrow> (Spec \<times> string) list" where
  "refresh_targets sps keys = map (\<lambda>s. (s, gm_at [] keys (Name s))) (filter (\<lambda>s. gm_at [] keys (Name s) \<noteq> []) sps)"

text \<open>The goroutines end in the order of the schedule, which holds every target once; each refresh is taken at its end.\<close>

definition RefreshModels :: "golib \<Rightarrow> KeyError + keys \<Rightarrow> ((Spec \<times> string) \<times> refresh_io) list \<Rightarrow> Known \<Rightarrow> Known" where
  "RefreshModels lib keys schedule k =
     (case keys of
        Inl _ \<Rightarrow> k
      | Inr _ \<Rightarrow> fold (\<lambda>((spec, apiKey), io). refreshOne lib io spec apiKey) schedule k)"

definition Spec_named :: "Spec list \<Rightarrow> string \<Rightarrow> Spec option" where
  "Spec_named sps name = find (\<lambda>s. Name s = name) sps"

definition RefreshProvider ::
  "golib \<Rightarrow> refresh_io \<Rightarrow> bool \<Rightarrow> bool \<Rightarrow> Spec list \<Rightarrow> KeyError + keys \<Rightarrow> string \<Rightarrow> Known \<Rightarrow> Known" where
  "RefreshProvider lib io forget_fails probes_fails sps keys name k =
     (case Spec_named sps name of
        None \<Rightarrow> k
      | Some spec \<Rightarrow>
          (case keys of
             Inl _ \<Rightarrow> k
           | Inr ks \<Rightarrow>
               if gm_at [] ks name = [] then
                 k\<lparr>kn_catalog := ForgetDiscovered name (kn_catalog k),
                   kn_table := snd (ForgetDiscoveredModels forget_fails name (kn_table k)),
                   kn_probes := (if probes_fails then kn_probes k else ForgetProbes name (kn_probes k))\<rparr>
               else refreshOne lib io spec (gm_at [] ks name) k))"

definition VerifyProviderKey :: "golib \<Rightarrow> Spec list \<Rightarrow> string \<Rightarrow> string \<Rightarrow> list_answer \<Rightarrow> list_error + DiscoveredModel list" where
  "VerifyProviderKey lib sps name apiKey ans =
     (case Spec_named sps name of
        None \<Rightarrow> Inl (Unlisted (''unknown provider '' @ name))
      | Some spec \<Rightarrow> ListModels lib spec apiKey ans)"

end
