(* ===== verification/Discovery_Facts.thy ===== *)
theory Discovery_Facts
  imports Discovery
begin

text \<open>
  What discovery promises: which listed models count as free, and that the table brings back the catalogue's lists
  after a restart.
\<close>

section \<open>Free means published as free\<close>

lemma fmul_million_zero: "is_float64 v \<Longrightarrow> 0 \<le> v \<Longrightarrow> fmul v 1000000 = 0 \<longleftrightarrow> v = 0"
proof
  assume f: "is_float64 v" and n: "0 \<le> v" and z: "fmul v 1000000 = 0"
  have "v \<le> v * 1000000" using n by simp
  then have "v \<le> fl (v * 1000000)" by (rule fl_ge_float [OF f])
  with z n show "v = 0" by (simp add: fmul_def)
qed (simp add: fmul_def)

lemma fmul_million_neg: "is_float64 v \<Longrightarrow> v < 0 \<Longrightarrow> fmul v 1000000 < 0"
proof -
  assume f: "is_float64 v" and n: "v < 0"
  have "v * 1000000 \<le> v" using n by simp
  then have "fl (v * 1000000) \<le> v" by (rule fl_le_iff_float [OF f])
  with n show ?thesis by (simp add: fmul_def)
qed

lemma fmul_million_free: "is_float64 v \<Longrightarrow> fmul v 1000000 = 0 \<longleftrightarrow> v = 0"
  using fmul_million_zero [of v] fmul_million_neg [of v] by (cases "0 \<le> v") force+

text \<open>What a provider must publish for a model to be free: both prices, zero, in dollars, and where they are
  called input and output also the unit.\<close>

definition published_free :: "pricing \<Rightarrow> bool" where
  "published_free p \<longleftrightarrow>
     (Currency p = [] \<or> EqualFold (Currency p) ''USD'') \<and>
     (if fn_Set (Input p) \<and> fn_Set (Output p)
      then fn_Value (Input p) = 0 \<and> fn_Value (Output p) = 0 \<and> TrimSpace (PriceUnit p) \<noteq> []
      else fn_Set (Prompt p) \<and> fn_Set (Completion p) \<and> fn_Value (Prompt p) = 0 \<and> fn_Value (Completion p) = 0)"

definition float_priced :: "pricing \<Rightarrow> bool" where
  "float_priced p \<longleftrightarrow> is_float64 (fn_Value (Input p)) \<and> is_float64 (fn_Value (Output p)) \<and>
     is_float64 (fn_Value (Prompt p)) \<and> is_float64 (fn_Value (Completion p))"

lemma ToLower_Nil_iff: "ToLower s = [] \<longleftrightarrow> s = []"
  by (simp add: ToLower_def)

lemma per_million_unit_nonblank: "per_million_unit p \<Longrightarrow> TrimSpace (PriceUnit p) \<noteq> []"
  by (auto simp: per_million_unit_def Let_def ToLower_def)

lemma perMillion_free:
  assumes "float_priced p"
  shows "perMillion (Some p) = Some (0, 0) \<longleftrightarrow> published_free p"
  using assms per_million_unit_nonblank [of p]
  by (auto simp: perMillion_def published_free_def float_priced_def fmul_million_free ToLower_Nil_iff)

lemma UnmarshalFlex_float:
  assumes "\<forall>s v. parse_float lib s = Some v \<longrightarrow> is_float64 v"
  shows "is_float64 (fn_Value (UnmarshalFlex lib f))"
  using assms by (auto simp: UnmarshalFlex_def unset_def Let_def split: option.splits)

lemma decode_pricing_float:
  assumes "\<forall>s v. parse_float lib s = Some v \<longrightarrow> is_float64 v" and "decode_pricing lib j = Inr p"
  shows "float_priced p"
  using assms(2) UnmarshalFlex_float [OF assms(1)]
  by (auto simp: decode_pricing_def and_then_Inr float_priced_def)

lemma as_ptr_Some: "as_ptr f j = Inr (Some x) \<Longrightarrow> f j = Inr x"
  by (cases j) (auto simp: and_then_Inr)

lemma each_mem: "each f xs = Inr ys \<Longrightarrow> y \<in> set ys \<Longrightarrow> \<exists>x \<in> set xs. f x = Inr y"
  by (induction xs arbitrary: ys) (auto simp: and_then_Inr)

lemma as_list_mem: "as_list f j = Inr ys \<Longrightarrow> y \<in> set ys \<Longrightarrow> \<exists>x. f x = Inr y"
  using each_mem by (cases j) fastforce+

lemma envelope_float:
  assumes "\<forall>s v. parse_float lib s = Some v \<longrightarrow> is_float64 v" and "decode_envelope lib j = Inr env"
    and "e \<in> set (env_Data env)" and "me_Pricing e = Some p"
  shows "float_priced p"
proof -
  from assms(2,3) obtain x where "decode_dataModel lib x = Inr e"
    by (auto simp: decode_envelope_def and_then_Inr dest: as_list_mem)
  then obtain y where "as_ptr (decode_pricing lib) y = Inr (me_Pricing e)"
    by (auto simp: decode_dataModel_def and_then_Inr)
  with assms(4) have "decode_pricing lib y = Inr p" by (auto dest: as_ptr_Some)
  then show ?thesis by (rule decode_pricing_float [OF assms(1)])
qed

lemma free_unpriced [simp]: "\<not> Free (convert_discovered (unpriced name i))"
  by (simp add: Free_def convert_discovered_def unpriced_def)

lemma free_model_of_data:
  "Free (convert_discovered (model_of_data name e)) \<longleftrightarrow> perMillion (me_Pricing e) = Some (0, 0)"
  by (auto simp: Free_def convert_discovered_def model_of_data_def split: option.splits prod.splits if_splits)

lemma model_of_data_fields [simp]: "dm_Model (model_of_data name e) = me_ID e" "dm_Provider (model_of_data name e) = name"
  by (auto simp: model_of_data_def split: option.splits prod.splits)

text \<open>
  C21. A model counts as free exactly when its provider publishes it as free: both prices are there, are zero and in
  dollars (and carry a unit where they are called input and output). A model without a price, in another currency or
  with half a price is never free, and neither is any model of a list that carries no prices, as Gemini's. (Parsed
  numbers must be binary64 values, as \<open>ParseFloat\<close> returns: then scaling a price up cannot make it zero.)
\<close>

theorem free_is_published_free:
  assumes "ListModels lib spec apiKey (Listing (Inr j)) = Inr models" and "decode_envelope lib j = Inr env"
    and "\<forall>s v. parse_float lib s = Some v \<longrightarrow> is_float64 v"
  shows "(\<exists>m \<in> set models. dm_Model m = ident \<and> Free (convert_discovered m)) \<longleftrightarrow>
    (\<exists>e \<in> set (env_Data env). me_ID e = ident \<and> TrimSpace ident \<noteq> [] \<and> (\<exists>p. me_Pricing e = Some p \<and> published_free p))"
proof -
  have models: "models = listed_models (Name spec) env"
    using assms(1,2) by (auto simp: ListModels_def split: if_splits sum.splits)
  have price: "perMillion (me_Pricing e) = Some (0, 0) \<longleftrightarrow> (\<exists>p. me_Pricing e = Some p \<and> published_free p)"
    if "e \<in> set (env_Data env)" for e
  proof (cases "me_Pricing e")
    case None
    then show ?thesis by (simp add: perMillion_def)
  next
    case (Some p)
    with perMillion_free [OF envelope_float [OF assms(3,2) that Some]] show ?thesis by simp
  qed
  show ?thesis unfolding models listed_models_def set_append bex_Un set_map bex_simps(7) o_apply
    using price by (auto simp: free_model_of_data)
qed

definition price_lib :: golib where
  "price_lib = (table_lib [])\<lparr>json_text := (\<lambda>j. case j of JStr s \<Rightarrow> quote # s @ [quote] | _ \<Rightarrow> ''{}''),
     parse_float := (\<lambda>s. if s = ''0'' then Some 0 else if s = ''0.5'' then Some (1 / 2) else None)\<rparr>"

definition price_list :: json where
  "price_list = JObj [(''data'', JArr
     [JObj [(''id'', JStr ''gift''), (''pricing'', JObj [(''prompt'', JStr ''0''), (''completion'', JStr ''0'')])],
      JObj [(''id'', JStr ''half''), (''pricing'', JObj [(''prompt'', JStr ''0'')])],
      JObj [(''id'', JStr ''paid''), (''pricing'', JObj [(''input'', JNum ''0.5''), (''output'', JNum ''0''), (''unit'', JStr ''per_1m_tokens'')])]])]"

definition open_spec :: Spec where
  "open_spec = empty_spec\<lparr>Name := ''open'', BaseURL := ''https://o''\<rparr>"

definition gift :: pricing where
  "gift = \<lparr>Prompt = \<lparr>fn_Value = 0, fn_Set = True\<rparr>, Completion = \<lparr>fn_Value = 0, fn_Set = True\<rparr>, Input = unset, Output = unset,
     PriceUnit = [], Currency = []\<rparr>"

lemma price_list_read:
  "\<exists>env. decode_envelope price_lib price_list = Inr env \<and> map me_ID (env_Data env) = [''gift'', ''half'', ''paid''] \<and>
     me_Pricing (env_Data env ! 0) = Some gift"
proof -
  have t: "Trim (TrimSpace [quote, CHR ''0'', quote]) [quote] = ''0''" by code_simp
  show ?thesis
    by (simp add: decode_envelope_def price_list_def decode_dataModel_def decode_pricing_def fields_get_def raw_field_def json_simps
      UnmarshalFlex_def price_lib_def literal_def t gift_def unset_def Let_def)
qed

lemma price_lib_floats: "\<forall>s v. parse_float price_lib s = Some v \<longrightarrow> is_float64 v"
proof (intro allI impI)
  fix s v assume "parse_float price_lib s = Some v"
  then have "v = 0 \<or> v = 1 / 2" by (auto simp: price_lib_def split: if_splits)
  then show "is_float64 v" using is_float64_dyadic [of 1 1] by (elim disjE) (simp_all only: is_float64_numeral, simp)
qed

lemma price_lib_url [simp]: "url_error price_lib u = None"
  by (simp add: price_lib_def table_lib_def)

lemma price_listing:
  assumes "decode_envelope price_lib price_list = Inr env"
  shows "ListModels price_lib open_spec ''k'' (Listing (Inr price_list)) = Inr (listed_models ''open'' env)"
proof -
  have n: "Name open_spec = ''open''" "url_error price_lib (TrimRight (BaseURL open_spec) ''/'' @ ''/models'') = None"
    by (simp_all add: open_spec_def)
  show ?thesis unfolding ListModels_def list_request_def Let_def n using assms by simp
qed

lemma free_is_published_free_witness:
  "\<exists>models. ListModels price_lib open_spec ''k'' (Listing (Inr price_list)) = Inr models \<and>
     (\<exists>m \<in> set models. dm_Model m = ''gift'' \<and> Free (convert_discovered m))"
proof -
  obtain env where env: "decode_envelope price_lib price_list = Inr env" "map me_ID (env_Data env) = [''gift'', ''half'', ''paid'']"
      "me_Pricing (env_Data env ! 0) = Some gift"
    using price_list_read by (elim exE conjE)
  note l = price_listing [OF env(1)]
  obtain e es where d: "env_Data env = e # es" "me_ID e = ''gift''" using env(2) by (cases "env_Data env") auto
  have "TrimSpace ''gift'' \<noteq> []" by code_simp
  moreover have "published_free gift" by (simp add: published_free_def gift_def unset_def)
  ultimately have "\<exists>m \<in> set (listed_models ''open'' env). dm_Model m = ''gift'' \<and> Free (convert_discovered m)"
    using d env(3) by (intro iffD2 [OF free_is_published_free [OF l env(1) price_lib_floats]] bexI [of _ e]) simp_all
  with l show ?thesis by (intro exI [of _ "listed_models ''open'' env"] conjI)
qed

section \<open>The table\<close>

definition latest :: "string \<Rightarrow> DiscoveredModel list \<Rightarrow> DiscoveredModel option" where
  "latest m models = find (\<lambda>x. dm_Model x = m) (rev models)"

lemma latest_snoc: "latest m (models @ [x]) = (if dm_Model x = m then Some x else latest m models)"
  by (simp add: latest_def)

lemma latest_None: "latest m models = None \<longleftrightarrow> m \<notin> set (modelNames models)"
  by (auto simp: latest_def find_None_iff modelNames_def)

lemma latest_mem: "latest m models = Some x \<Longrightarrow> x \<in> set models \<and> dm_Model x = m"
  using find_Some_iff [of "\<lambda>x. dm_Model x = m" "rev models" x] nth_mem [of _ "rev models"] by (auto simp: latest_def)

text \<open>Every row of a saved list holds the last entry of its model, with the first sighting kept.\<close>

lemma saved_row:
  "map_of (fold (upsert_row now p) models t) (q, m) =
     (if q = p then (case latest m models of
          None \<Rightarrow> map_of t (p, m)
        | Some x \<Rightarrow> Some \<lparr>dr_In = dm_InputCostPer1M x, dr_Out = dm_OutputCostPer1M x, dr_Known = dm_PriceKnown x,
            dr_Context = dm_ContextLength x,
            dr_FirstSeen = (case map_of t (p, m) of None \<Rightarrow> now | Some old \<Rightarrow> dr_FirstSeen old), dr_LastSeen = now\<rparr>)
      else map_of t (q, m))"
proof (induction models rule: rev_induct)
  case Nil
  show ?case by (simp add: latest_def)
next
  case (snoc x models)
  then show ?case by (auto simp: upsert_row_def latest_snoc split: option.splits)
qed

lemma gm_ok_upserts: "gm_ok t \<Longrightarrow> gm_ok (fold (upsert_row now p) models t)"
  by (induction models arbitrary: t) (simp_all add: upsert_row_def)

lemma map_of_filter_key: "map_of (filter (\<lambda>(k, v). P k) t) k = (if P k then map_of t k else None)"
  by (induction t) auto

lemma gm_ok_filtered: "gm_ok t \<Longrightarrow> gm_ok (filter P t)"
  by (induction t) auto

lemma withdrawn_row: "map_of (withdrawn p models t) (q, m) =
    (if q = p \<and> m \<notin> set (modelNames models) then None else map_of t (q, m))"
  unfolding withdrawn_def using map_of_filter_key [of "\<lambda>pm. fst pm \<noteq> p \<or> snd pm \<in> set (modelNames models)" t "(q, m)"] by auto

text \<open>After a save the provider's rows are the last entries of its models, and no other provider's rows change.\<close>

lemma replaced_rows:
  assumes "\<forall>x \<in> set models. dm_Provider x = p"
  shows "map_option (\<lambda>row. stored_model ((q, m), row)) (map_of (snd (ReplaceDiscoveredModels False now p models t)) (q, m)) =
    (if q = p then latest m models else map_option (\<lambda>row. stored_model ((q, m), row)) (map_of t (q, m)))"
proof (cases "q = p")
  case True
  have "dm_Provider x = p \<and> dm_Model x = m" if "latest m models = Some x" for x
    using latest_mem [OF that] assms by blast
  with True show ?thesis using latest_None [of m models]
    by (cases "latest m models") (auto simp: ReplaceDiscoveredModels_def saved_row withdrawn_row stored_model_def)
next
  case False
  then show ?thesis by (simp add: ReplaceDiscoveredModels_def saved_row withdrawn_row)
qed

lemma first_seen_survives:
  assumes "map_of t (p, m) = Some old" and "m \<in> set (modelNames models)"
  shows "\<exists>row. map_of (snd (ReplaceDiscoveredModels False now p models t)) (p, m) = Some row \<and> dr_FirstSeen row = dr_FirstSeen old"
  using assms latest_None [of m models] by (auto simp: ReplaceDiscoveredModels_def saved_row withdrawn_row split: option.splits)

lemma gm_ok_replaced: "gm_ok t \<Longrightarrow> gm_ok (snd (ReplaceDiscoveredModels fails now p models t))"
  by (simp add: ReplaceDiscoveredModels_def gm_ok_upserts withdrawn_def gm_ok_filtered)

section \<open>Restarting\<close>

text \<open>A provider's list as the table keeps it: the last entry of each model, by model name.\<close>

fun last_entries :: "ModelProfile list \<Rightarrow> ModelProfile list" where
  "last_entries [] = []"
| "last_entries (p # ps) = (if Model p \<in> Model ` set ps then last_entries ps else p # last_entries ps)"

definition as_cached :: "ModelProfile list \<Rightarrow> ModelProfile list" where
  "as_cached ps = sort_key Model (last_entries ps)"

lemma last_entries_models: "Model ` set (last_entries ps) = Model ` set ps"
  by (induction ps) auto

lemma last_entries_distinct: "distinct (map Model (last_entries ps))"
proof (induction ps)
  case (Cons p ps)
  then show ?case using last_entries_models [of ps] by auto
qed simp

lemma Model_converted: "Model (convert_discovered x) = dm_Model x"
  by (simp add: convert_discovered_def)

lemma find_append: "find P (xs @ ys) = (case find P xs of None \<Rightarrow> find P ys | Some x \<Rightarrow> Some x)"
  by (induction xs) simp_all

lemma last_entries_converted:
  "set (last_entries (map convert_discovered models)) = convert_discovered ` {x. \<exists>m. latest m models = Some x}"
proof (induction models)
  case Nil
  show ?case by (simp add: latest_def)
next
  case (Cons y ys)
  have l: "latest m (y # ys) = (case latest m ys of None \<Rightarrow> if dm_Model y = m then Some y else None | Some x \<Rightarrow> Some x)" for m
    by (auto simp: latest_def find_append split: option.splits)
  have mem: "Model (convert_discovered y) \<in> Model ` set (map convert_discovered ys) \<longleftrightarrow> latest (dm_Model y) ys \<noteq> None"
    by (simp add: latest_None modelNames_def image_image Model_converted)
  show ?case
  proof (cases "latest (dm_Model y) ys = None")
    case True
    have "{x. \<exists>m. latest m (y # ys) = Some x} = insert y {x. \<exists>m. latest m ys = Some x}" (is "?L = ?R")
    proof (intro equalityI subsetI)
      fix x assume "x \<in> ?L"
      then obtain m where "latest m (y # ys) = Some x" by blast
      then show "x \<in> ?R" unfolding l by (cases "latest m ys") (auto split: if_splits)
    next
      fix x assume "x \<in> ?R"
      then consider "x = y" | m where "latest m ys = Some x" by blast
      then show "x \<in> ?L"
      proof cases
        case 1
        with True have "latest (dm_Model y) (y # ys) = Some x" unfolding l by simp
        then show ?thesis by blast
      next
        case (2 m)
        then have "latest m (y # ys) = Some x" unfolding l by simp
        then show ?thesis by blast
      qed
    qed
    with Cons mem True show ?thesis by simp
  next
    case False
    then have "latest m (y # ys) = latest m ys" for m
      unfolding l by (auto split: option.splits)
    with Cons mem False show ?thesis by auto
  qed
qed

lemma sorted_by_model_unique:
  assumes "sorted (map Model xs)" "distinct (map Model xs)" "sorted (map Model ys)" "distinct (map Model ys)" "set xs = set ys"
  shows "xs = ys"
proof -
  have m: "map Model xs = map Model ys" using assms by (intro sorted_distinct_set_unique) simp_all
  moreover have "inj_on Model (set xs \<union> set ys)" using assms(2,5) by (simp add: distinct_map)
  ultimately show ?thesis by (rule map_inj_on)
qed

lemma group_models_lookup:
  "map_of (group_models ms acc) p =
     (if filter (\<lambda>m. dm_Provider m = p) ms = [] then map_of acc p
      else Some (gm_at [] acc p @ filter (\<lambda>m. dm_Provider m = p) ms))"
  by (induction ms acc rule: group_models.induct) (auto simp: gm_at_def)

lemma gm_ok_group: "gm_ok acc \<Longrightarrow> gm_ok (group_models ms acc)"
  by (induction ms acc rule: group_models.induct) simp_all

lemma discovered_SetDiscovered [simp]:
  "map_of (discovered (SetDiscovered name models c)) p = (if p = name then Some (map convert_discovered models) else map_of (discovered c) p)"
  by (simp add: SetDiscovered_def)

lemma load_lookup:
  assumes "gm_ok byProvider"
  shows "map_of (discovered (fold (\<lambda>(name, models). SetDiscovered name models) byProvider c)) p =
    (case map_of byProvider p of None \<Rightarrow> map_of (discovered c) p | Some models \<Rightarrow> Some (map convert_discovered models))"
  using assms
proof (induction byProvider arbitrary: c)
  case (Cons nm rest)
  obtain n ms where [simp]: "nm = (n, ms)" by force
  have "map_of rest p = None" if "p = n" using Cons.prems that by (auto simp: map_of_eq_None_iff)
  with Cons show ?case by (auto split: option.splits)
qed simp

text \<open>The catalogue and the table agree on a provider.\<close>

definition agrees_at :: "string \<Rightarrow> ModelProfile list option \<Rightarrow> (string \<Rightarrow> DiscoveredRow option) \<Rightarrow> bool" where
  "agrees_at p held rows \<longleftrightarrow>
     (case held of
        None \<Rightarrow> \<forall>m. rows m = None
      | Some ps \<Rightarrow> \<exists>models. models \<noteq> [] \<and> ps = map convert_discovered models \<and>
          (\<forall>m. map_option (\<lambda>row. stored_model ((p, m), row)) (rows m) = latest m models))"

text \<open>The catalogue and the table agree but on the providers in the set.\<close>

definition lists_agree :: "Known \<Rightarrow> string set \<Rightarrow> bool" where
  "lists_agree k unsaved \<longleftrightarrow> gm_ok (kn_table k) \<and>
     (\<forall>p. p \<notin> unsaved \<longrightarrow> agrees_at p (map_of (discovered (kn_catalog k)) p) (\<lambda>m. map_of (kn_table k) (p, m)))"

lemma lists_agree_probes [simp]: "lists_agree (k\<lparr>kn_probes := pr\<rparr>) unsaved \<longleftrightarrow> lists_agree k unsaved"
  by (simp add: lists_agree_def)

lemma other_rows: "q \<noteq> p \<Longrightarrow> map_of (snd (ReplaceDiscoveredModels fails now p models t)) (q, m) = map_of t (q, m)"
  by (simp add: ReplaceDiscoveredModels_def saved_row withdrawn_row)

text \<open>Which lists the table does not have: a failed save leaves the provider's behind, the next that succeeds catches up.\<close>

definition after_save :: "bool \<Rightarrow> string \<Rightarrow> string set \<Rightarrow> string set" where
  "after_save fails p unsaved = (if fails then insert p unsaved else unsaved - {p})"

definition unsaved_adopt :: "bool \<Rightarrow> string \<Rightarrow> DiscoveredModel list \<Rightarrow> string set \<Rightarrow> string set" where
  "unsaved_adopt fails p models unsaved = (if models = [] then unsaved else after_save fails p unsaved)"

definition unsaved_refresh :: "golib \<Rightarrow> refresh_io \<Rightarrow> Spec \<Rightarrow> string \<Rightarrow> string set \<Rightarrow> string set" where
  "unsaved_refresh lib io spec apiKey unsaved =
     (case ListModels lib spec apiKey (ri_answer io) of
        Inl _ \<Rightarrow> unsaved
      | Inr models \<Rightarrow> unsaved_adopt (ri_save_fails io) (Name spec) models unsaved)"

definition unsaved_provider ::
  "golib \<Rightarrow> refresh_io \<Rightarrow> bool \<Rightarrow> Spec list \<Rightarrow> KeyError + keys \<Rightarrow> string \<Rightarrow> string set \<Rightarrow> string set" where
  "unsaved_provider lib io forget_fails sps keys name unsaved =
     (case Spec_named sps name of
        None \<Rightarrow> unsaved
      | Some spec \<Rightarrow>
          (case keys of
             Inl _ \<Rightarrow> unsaved
           | Inr ks \<Rightarrow>
               if gm_at [] ks name = [] then after_save forget_fails name unsaved
               else unsaved_refresh lib io spec (gm_at [] ks name) unsaved))"

lemma agree_adopt:
  assumes "lists_agree k unsaved" and "\<forall>x \<in> set models. dm_Provider x = p"
  shows "lists_agree (AdoptModels fails now p models k) (unsaved_adopt fails p models unsaved)"
proof (cases "models = []")
  case False
  have "agrees_at p (Some (map convert_discovered models))
      (\<lambda>m. map_of (snd (ReplaceDiscoveredModels False now p models (kn_table k))) (p, m))"
    unfolding agrees_at_def using False replaced_rows [OF assms(2), of p] by auto
  with False assms(1) show ?thesis
    by (simp add: AdoptModels_def lists_agree_def unsaved_adopt_def after_save_def gm_ok_replaced other_rows)
qed (use assms(1) in \<open>simp add: AdoptModels_def unsaved_adopt_def\<close>)

lemma refreshOne_adopts:
  "refreshOne lib io spec apiKey k =
     (case ListModels lib spec apiKey (ri_answer io) of
        Inl _ \<Rightarrow> k
      | Inr models \<Rightarrow> AdoptModels (ri_save_fails io) (ri_now io) (Name spec) models k)"
  by (simp add: refreshOne_def AdoptModels_def split: sum.splits)

lemma listed_provider: "ListModels lib spec apiKey ans = Inr models \<Longrightarrow> \<forall>x \<in> set models. dm_Provider x = Name spec"
  by (auto simp: ListModels_def listed_models_def unpriced_def split: if_splits sum.splits list_answer.splits)

lemma agree_refresh:
  assumes "lists_agree k unsaved"
  shows "lists_agree (refreshOne lib io spec apiKey k) (unsaved_refresh lib io spec apiKey unsaved)"
  using assms agree_adopt [OF assms listed_provider] by (auto simp: refreshOne_adopts unsaved_refresh_def split: sum.splits)

lemma forgotten_rows: "map_of (filter (\<lambda>(pm, row). fst pm \<noteq> p) t) (q, m) = (if q = p then None else map_of t (q, m))"
  using map_of_filter_key [of "\<lambda>pm. fst pm \<noteq> p" t "(q, m)"] by auto

lemma agree_forget:
  assumes "lists_agree k unsaved"
  shows "lists_agree (k\<lparr>kn_catalog := ForgetDiscovered p (kn_catalog k),
      kn_table := snd (ForgetDiscoveredModels fails p (kn_table k)), kn_probes := pr\<rparr>) (after_save fails p unsaved)"
proof -
  have "agrees_at p None (\<lambda>m. None)" by (simp add: agrees_at_def)
  with assms show ?thesis
    by (simp add: lists_agree_def ForgetDiscovered_def ForgetDiscoveredModels_def gm_ok_filtered forgotten_rows after_save_def)
qed

text \<open>
  A process and its lists. It starts from whatever table an earlier one left, with the lists in it when they can be
  read and without any when not; then everything that writes lists: a refresh of all the providers or of one, after its
  key was stored or removed, and the list that came back when a key was verified. Any save may fail. The set
  holds the providers whose list in the catalogue is not the one in the table.
\<close>

inductive reachable_lists :: "golib \<Rightarrow> Spec list \<Rightarrow> Known \<Rightarrow> string set \<Rightarrow> bool" for lib sps where
  start: "gm_ok t \<Longrightarrow> discovered c0 = [] \<Longrightarrow>
    reachable_lists lib sps \<lparr>kn_catalog = LoadDiscoveredModels fails t c0, kn_table = t, kn_probes = pr\<rparr>
      (if fails then fst ` fst ` set t else {})"
| refresh_all: "reachable_lists lib sps k unsaved \<Longrightarrow>
    reachable_lists lib sps (RefreshModels lib (Inr ks) schedule k)
      (fold (\<lambda>((spec, apiKey), io). unsaved_refresh lib io spec apiKey) schedule unsaved)"
| refresh_nothing: "reachable_lists lib sps k unsaved \<Longrightarrow> reachable_lists lib sps (RefreshModels lib (Inl e) schedule k) unsaved"
| refresh_provider: "reachable_lists lib sps k unsaved \<Longrightarrow>
    reachable_lists lib sps (RefreshProvider lib io forget_fails probes_fails sps keys name k)
      (unsaved_provider lib io forget_fails sps keys name unsaved)"
| adopt: "reachable_lists lib sps k unsaved \<Longrightarrow> VerifyProviderKey lib sps name apiKey ans = Inr models \<Longrightarrow>
    reachable_lists lib sps (AdoptModels fails now name models k) (unsaved_adopt fails name models unsaved)"

lemma agree_forget_lists:
  "lists_agree k unsaved \<Longrightarrow> lists_agree (k\<lparr>kn_catalog := ForgetDiscovered p (kn_catalog k),
      kn_table := snd (ForgetDiscoveredModels fails p (kn_table k))\<rparr>) (after_save fails p unsaved)"
  using agree_forget [where pr = "kn_probes k"] by simp

lemma Spec_named_Name: "Spec_named sps name = Some spec \<Longrightarrow> Name spec = name"
  by (auto simp: Spec_named_def find_Some_iff)

lemma agree_schedule:
  assumes "lists_agree k unsaved"
  shows "lists_agree (fold (\<lambda>((spec, apiKey), io). refreshOne lib io spec apiKey) schedule k)
    (fold (\<lambda>((spec, apiKey), io). unsaved_refresh lib io spec apiKey) schedule unsaved)"
  using assms
proof (induction schedule arbitrary: k unsaved)
  case (Cons x xs)
  obtain sp key io where [simp]: "x = ((sp, key), io)" by (metis surj_pair)
  from agree_refresh [OF Cons.prems] Cons.IH show ?case by simp
qed simp

lemma stored_of_provider:
  "filter (\<lambda>m. dm_Provider m = p) (map stored_model (sort_key fst t)) = map stored_model (sort_key fst (filter (\<lambda>x. fst (fst x) = p) t))"
  by (simp add: filter_map o_def stored_model_def split_beta filter_sort)

definition rows_of :: "string \<Rightarrow> discovered_table \<Rightarrow> ((string \<times> string) \<times> DiscoveredRow) list" where
  "rows_of p t = sort_key fst (filter (\<lambda>x. fst (fst x) = p) t)"

lemma rows_of_mem: "gm_ok t \<Longrightarrow> ((q, m), r) \<in> set (rows_of p t) \<longleftrightarrow> q = p \<and> map_of t (p, m) = Some r"
  by (auto simp: rows_of_def map_of_eq_Some_iff)

lemma rows_of_provider: "x \<in> set (rows_of p t) \<Longrightarrow> fst x = (p, snd (fst x))"
  by (auto simp: rows_of_def prod_eq_iff)

lemma distinct_rows_of: "gm_ok t \<Longrightarrow> distinct (map (\<lambda>x. snd (fst x)) (rows_of p t))"
proof -
  assume "gm_ok t"
  then have "distinct (map fst (rows_of p t))"
    using gm_ok_filtered [of t "\<lambda>x. fst (fst x) = p"] by (simp add: rows_of_def distinct_map)
  then have "distinct (map (Pair p) (map (\<lambda>x. snd (fst x)) (rows_of p t)))"
    using rows_of_provider [of _ p t] by (metis (no_types, lifting) list.map_comp comp_apply map_cong)
  then show ?thesis by (simp only: distinct_map)
qed

lemma sorted_rows_of: "sorted (map (\<lambda>x. snd (fst x)) (rows_of p t))"
proof -
  have "sorted (map fst (rows_of p t))" by (simp add: rows_of_def)
  then have "sorted_wrt (\<lambda>x y. fst x \<le> fst y) (rows_of p t)" by (simp add: sorted_wrt_map)
  then have "sorted_wrt (\<lambda>x y. snd (fst x) \<le> snd (fst y)) (rows_of p t)"
    by (rule sorted_wrt_mono_rel [rotated]) (metis rows_of_provider less_eq_prod_def fst_conv snd_conv order_less_irrefl)
  then show ?thesis by (simp add: sorted_wrt_map)
qed

lemma rows_of_latest:
  assumes "gm_ok t" and "\<And>m. map_option (\<lambda>row. stored_model ((p, m), row)) (map_of t (p, m)) = latest m models"
  shows "stored_model ` set (rows_of p t) = {x. \<exists>m. latest m models = Some x}"
proof (intro equalityI subsetI)
  fix x assume "x \<in> stored_model ` set (rows_of p t)"
  then obtain q m r where "((q, m), r) \<in> set (rows_of p t)" "x = stored_model ((q, m), r)" by auto
  then have "latest m models = Some x" using rows_of_mem [OF assms(1)] assms(2) [of m] by simp
  then show "x \<in> {x. \<exists>m. latest m models = Some x}" by blast
next
  fix x assume "x \<in> {x. \<exists>m. latest m models = Some x}"
  then obtain m where "latest m models = Some x" by blast
  then obtain r where "map_of t (p, m) = Some r" "x = stored_model ((p, m), r)" using assms(2) [of m] by auto
  then show "x \<in> stored_model ` set (rows_of p t)" using rows_of_mem [OF assms(1), of p m r p] by blast
qed

text \<open>The rows of a provider the two agree on are its list as the table keeps it.\<close>

lemma rows_cached:
  assumes "gm_ok t" and "agrees_at p (Some ps) (\<lambda>m. map_of t (p, m))"
  shows "rows_of p t \<noteq> [] \<and> map (convert_discovered \<circ> stored_model) (rows_of p t) = as_cached ps"
proof -
  from assms(2) obtain models where ms: "models \<noteq> []" "ps = map convert_discovered models"
      "\<And>m. map_option (\<lambda>row. stored_model ((p, m), row)) (map_of t (p, m)) = latest m models"
    by (auto simp: agrees_at_def)
  let ?xs = "map (convert_discovered \<circ> stored_model) (rows_of p t)"
  have names: "map Model ?xs = map (\<lambda>x. snd (fst x)) (rows_of p t)"
    by (simp add: Model_converted stored_model_def split_beta)
  have "set ?xs = convert_discovered ` stored_model ` set (rows_of p t)" by (simp only: set_map image_comp)
  also have "\<dots> = set (last_entries ps)"
    unfolding rows_of_latest [OF assms(1) ms(3)] ms(2) last_entries_converted by (rule refl)
  finally have set: "set ?xs = set (last_entries ps)" .
  have "?xs = sort_key Model (last_entries ps)"
  proof (rule sorted_by_model_unique)
    show "sorted (map Model ?xs)" unfolding names by (rule sorted_rows_of)
    show "distinct (map Model ?xs)" unfolding names by (rule distinct_rows_of [OF assms(1)])
    show "sorted (map Model (sort_key Model (last_entries ps)))" by simp
    show "distinct (map Model (sort_key Model (last_entries ps)))"
      using last_entries_distinct [of ps] by (simp add: distinct_map)
    show "set ?xs = set (sort_key Model (last_entries ps))" using set by simp
  qed
  moreover have "last_entries ps \<noteq> []" using ms(1,2) last_entries_models [of ps] by auto
  ultimately have "?xs \<noteq> []" using set by (metis set_empty)
  with \<open>?xs = sort_key Model (last_entries ps)\<close> show ?thesis by (auto simp: as_cached_def)
qed

lemma loaded_list:
  assumes "discovered c0 = []"
  shows "map_of (discovered (LoadDiscoveredModels fails t c0)) p =
    (if fails \<or> rows_of p t = [] then None else Some (map (convert_discovered \<circ> stored_model) (rows_of p t)))"
  unfolding LoadDiscoveredModels_def DiscoveredModels_def rows_of_def
  using assms by (simp add: load_lookup gm_ok_group group_models_lookup stored_of_provider)

lemma latest_distinct:
  assumes "distinct (map dm_Model models)" and "x \<in> set models"
  shows "latest (dm_Model x) models = Some x"
proof (cases "latest (dm_Model x) models")
  case None
  with assms(2) show ?thesis by (simp add: latest_None modelNames_def)
next
  case (Some y)
  with latest_mem [OF Some] assms show ?thesis by (auto simp: distinct_map dest: inj_onD)
qed

lemma rows_of_none: "gm_ok t \<Longrightarrow> (\<And>m. map_of t (p, m) = None) \<Longrightarrow> rows_of p t = []"
  using rows_of_mem [of t _ _ _ p] by (metis list.set_intros(1) neq_Nil_conv option.simps(3) surj_pair)

text \<open>What was loaded agrees with what it was loaded from.\<close>

lemma agree_loaded:
  assumes "gm_ok t" and "discovered c0 = []"
  shows "agrees_at p (map_of (discovered (LoadDiscoveredModels False t c0)) p) (\<lambda>m. map_of t (p, m))"
proof (cases "rows_of p t = []")
  case True
  have "map_of t (p, m) = None" for m using True rows_of_mem [OF assms(1), of p m _ p] by (cases "map_of t (p, m)") auto
  with True show ?thesis by (simp add: loaded_list [OF assms(2)] agrees_at_def)
next
  case False
  let ?ms = "map stored_model (rows_of p t)"
  have names: "map dm_Model ?ms = map (\<lambda>x. snd (fst x)) (rows_of p t)" by (simp add: stored_model_def split_beta)
  have "map_option (\<lambda>row. stored_model ((p, m), row)) (map_of t (p, m)) = latest m ?ms" for m
  proof (cases "map_of t (p, m)")
    case None
    then have "m \<notin> set (modelNames ?ms)"
      using rows_of_mem [OF assms(1), of _ _ _ p] by (auto simp: modelNames_def stored_model_def)
    with None show ?thesis using latest_None [of m ?ms] by simp
  next
    case (Some row)
    then have "stored_model ((p, m), row) \<in> set ?ms" using rows_of_mem [OF assms(1), of p m row p] by auto
    moreover have "distinct (map dm_Model ?ms)" unfolding names by (rule distinct_rows_of [OF assms(1)])
    ultimately have "latest (dm_Model (stored_model ((p, m), row))) ?ms = Some (stored_model ((p, m), row))"
      using latest_distinct by blast
    with Some show ?thesis by (simp add: stored_model_def)
  qed
  with False show ?thesis
    unfolding loaded_list [OF assms(2)] agrees_at_def by (auto intro!: exI [of _ ?ms])
qed

lemma reachable_lists_agree: "reachable_lists lib sps k unsaved \<Longrightarrow> lists_agree k unsaved"
proof (induction rule: reachable_lists.induct)
  case (start t c0 fails pr)
  have "map_of t (p, m) = None" if "p \<notin> fst ` fst ` set t" for p m
    using that by (force simp: map_of_eq_None_iff image_iff)
  with start show ?case
    by (auto simp: lists_agree_def agree_loaded) (auto simp: agrees_at_def loaded_list)
next
  case (refresh_all k unsaved ks schedule)
  then show ?case by (simp add: RefreshModels_def agree_schedule)
next
  case (refresh_nothing k unsaved e schedule)
  then show ?case by (simp add: RefreshModels_def)
next
  case (refresh_provider k unsaved io forget_fails probes_fails keys name)
  then show ?case
    by (auto simp: RefreshProvider_def unsaved_provider_def agree_refresh dest: Spec_named_Name
        intro: agree_forget agree_forget_lists split: option.splits sum.splits)
next
  case (adopt k unsaved name apiKey ans models fails now)
  from adopt.hyps(2) obtain spec where "Spec_named sps name = Some spec" "ListModels lib spec apiKey ans = Inr models"
    by (auto simp: VerifyProviderKey_def split: option.splits)
  then have "\<forall>x \<in> set models. dm_Provider x = name" using listed_provider Spec_named_Name by blast
  with adopt.IH show ?case by (rule agree_adopt)
qed

text \<open>
  C22. A restart loses nothing that was saved. Whatever the table held when the process started, and whichever saves
  failed since, loading the table into a fresh catalogue gives every provider whose last save went through (or that the
  start read from the table) the list the running catalogue has, one entry per model name (the last one listed), by model
  name; a provider without a list, because it never answered or its key was removed, has none after the
  restart either. A list whose save failed is only logged as such, and what the restart brings back for it is what the
  table held before (\<open>unsaved_list_is_lost\<close>).
\<close>

theorem restart_restores_lists:
  assumes "reachable_lists lib sps k unsaved" and "p \<notin> unsaved" and "discovered fresh_catalog = []"
  shows "map_of (discovered (LoadDiscoveredModels False (kn_table k) fresh_catalog)) p =
    map_option as_cached (map_of (discovered (kn_catalog k)) p)"
proof -
  have agree: "gm_ok (kn_table k)" "agrees_at p (map_of (discovered (kn_catalog k)) p) (\<lambda>m. map_of (kn_table k) (p, m))"
    using reachable_lists_agree [OF assms(1)] assms(2) by (simp_all add: lists_agree_def)
  show ?thesis
  proof (cases "map_of (discovered (kn_catalog k)) p")
    case None
    with agree(2) have "map_of (kn_table k) (p, m) = None" for m by (simp add: agrees_at_def)
    with None rows_of_none [OF agree(1)] show ?thesis by (simp add: loaded_list [OF assms(3)])
  next
    case (Some ps)
    with agree(2) rows_cached [OF agree(1), of p ps] show ?thesis by (simp add: loaded_list [OF assms(3)])
  qed
qed

definition nothing_known :: Known where
  "nothing_known = \<lparr>kn_catalog = NewCatalog, kn_table = [], kn_probes = []\<rparr>"

lemma open_spec_named: "Spec_named [open_spec] ''open'' = Some open_spec"
  by (simp add: Spec_named_def open_spec_def)

lemma restart_restores_lists_witness:
  "\<exists>models. VerifyProviderKey price_lib [open_spec] ''open'' ''k'' (Listing (Inr price_list)) = Inr models \<and>
     map_of (discovered (LoadDiscoveredModels False (kn_table (AdoptModels False 1 ''open'' models nothing_known)) NewCatalog)) ''open'' =
       Some (as_cached (map convert_discovered models))"
proof -
  obtain env where env: "decode_envelope price_lib price_list = Inr env" "map me_ID (env_Data env) = [''gift'', ''half'', ''paid'']"
    using price_list_read by (elim exE conjE)
  define models where "models = listed_models ''open'' env"
  have m: "ListModels price_lib open_spec ''k'' (Listing (Inr price_list)) = Inr models"
    unfolding models_def by (rule price_listing [OF env(1)])
  have v: "VerifyProviderKey price_lib [open_spec] ''open'' ''k'' (Listing (Inr price_list)) = Inr models"
    by (simp only: VerifyProviderKey_def open_spec_named option.case m)
  have "reachable_lists price_lib [open_spec] nothing_known {}"
    using reachable_lists.start [of "[]" NewCatalog price_lib "[open_spec]" False "[]"]
    by (simp add: nothing_known_def NewCatalog_def LoadDiscoveredModels_def DiscoveredModels_def)
  from reachable_lists.adopt [OF this v, of False 1]
  have r: "reachable_lists price_lib [open_spec] (AdoptModels False 1 ''open'' models nothing_known) {}"
    by (simp add: unsaved_adopt_def after_save_def split: if_splits)
  obtain e es where d: "env_Data env = e # es" "me_ID e = ''gift''" using env(2) by (cases "env_Data env") auto
  have "TrimSpace ''gift'' \<noteq> []" by code_simp
  then have "models \<noteq> []" by (simp add: models_def listed_models_def d)
  then have "map_of (discovered (kn_catalog (AdoptModels False 1 ''open'' models nothing_known))) ''open'' = Some (map convert_discovered models)"
    by (simp add: AdoptModels_def)
  with restart_restores_lists [OF r, of "''open''" NewCatalog] v show ?thesis
    by (simp add: NewCatalog_def)
qed

section \<open>Edges\<close>

text \<open>A list whose save failed serves requests until the restart, which knows nothing of it.\<close>

lemma unsaved_list_is_lost:
  "models \<noteq> [] \<Longrightarrow> map_of (discovered (kn_catalog (AdoptModels True now p models nothing_known))) p = Some (map convert_discovered models) \<and>
    map_of (discovered (LoadDiscoveredModels False (kn_table (AdoptModels True now p models nothing_known)) NewCatalog)) p = None"
  by (simp add: AdoptModels_def nothing_known_def ReplaceDiscoveredModels_def LoadDiscoveredModels_def DiscoveredModels_def
      NewCatalog_def)

text \<open>A price per thousand tokens is scaled as if it were per token: a thousand times too high.\<close>

lemma per_thousand_is_taken_per_token:
  "perMillion (Some \<lparr>Prompt = unset, Completion = unset, Input = \<lparr>fn_Value = 1 / 2, fn_Set = True\<rparr>,
     Output = \<lparr>fn_Value = 1 / 2, fn_Set = True\<rparr>, PriceUnit = ''per_1k_tokens'', Currency = ''USD''\<rparr>) = Some (500000, 500000)"
proof -
  have f: "fmul (1 / 2) 1000000 = 500000" using is_float64_of_int [of 500000] by (simp add: fmul_def fl_exact)
  have u: "ToLower (TrimSpace ''per_1k_tokens'') = ''per_1k_tokens''" "Contains ''per_1k_tokens'' ''1m'' = False"
    "Contains ''per_1k_tokens'' ''million'' = False" "EqualFold ''USD'' ''USD'' = True"
    by code_simp+
  show ?thesis by (simp add: perMillion_def per_million_unit_def Let_def u f)
qed

text \<open>A model listed twice in one answer is reported as added twice.\<close>

lemma listed_twice_added_twice:
  "map_option Added (fst (ReplaceDiscoveredModels False 1 ''p'' [unpriced ''p'' ''m'', unpriced ''p'' ''m''] [])) = Some [''m'', ''m'']"
  by (simp add: ReplaceDiscoveredModels_def modelNames_def existingModels_def unpriced_def)

text \<open>A refresh that fails, or that lists nothing, changes nothing.\<close>

lemma failed_refresh_keeps:
  assumes "case ListModels lib spec apiKey (ri_answer io) of Inl _ \<Rightarrow> True | Inr models \<Rightarrow> models = []"
  shows "refreshOne lib io spec apiKey k = k"
  using assms by (auto simp: refreshOne_def split: sum.splits)

end
