(* ===== verification/Operator_Settings.thy ===== *)
theory Operator_Settings
  imports Discovery
begin

text \<open>
  What an operator sets: the marks on models (\<open>internal/db/tags.go\<close>, \<open>internal/api/tags.go\<close>), the blacklist
  (\<open>internal/db/blacklist.go\<close>, \<open>internal/api/blacklist.go\<close>), the upstream keys (\<open>internal/api/providers.go\<close>) and the
  free-only switch (\<open>internal/db/settings.go\<close> and its handlers in \<open>dashboard.go\<close>), each with the reload that carries it
  from the table into the running catalogue. Every handler is guarded by \<open>adminAuthorized\<close>.
\<close>

section \<open>The tables\<close>

record ModelTag =
  mt_Provider :: string
  mt_Model :: string
  mt_Task :: string

text \<open>Tasks are trimmed; blank ones and repetitions are dropped.\<close>

fun kept_tasks :: "string list \<Rightarrow> string list \<Rightarrow> string list" where
  "kept_tasks seen [] = []"
| "kept_tasks seen (t # ts) =
     (let task = TrimSpace t in
      if task = [] \<or> task \<in> set seen then kept_tasks seen ts else task # kept_tasks (task # seen) ts)"

definition of_model :: "string \<Rightarrow> string \<Rightarrow> ModelTag \<Rightarrow> bool" where
  "of_model p m t \<longleftrightarrow> mt_Provider t = p \<and> mt_Model t = m"

definition SetModelTags :: "bool \<Rightarrow> string \<Rightarrow> string \<Rightarrow> string list \<Rightarrow> ModelTag list \<Rightarrow> bool \<times> ModelTag list" where
  "SetModelTags fails p m tasks rows =
     (if TrimSpace p = [] \<or> TrimSpace m = [] \<or> fails then (False, rows)
      else (True, filter (\<lambda>t. \<not> of_model p m t) rows @
        map (\<lambda>task. \<lparr>mt_Provider = p, mt_Model = m, mt_Task = task\<rparr>) (kept_tasks [] tasks)))"

definition tag_order :: "ModelTag \<Rightarrow> string \<times> string \<times> string" where
  "tag_order t = (mt_Provider t, mt_Model t, mt_Task t)"

definition add_tag :: "ModelTag \<Rightarrow> (string, string list) gomap \<Rightarrow> (string, string list) gomap" where
  "add_tag t out = (let key = TagKey (mt_Provider t) (mt_Model t) in gm_set key (gm_at [] out key @ [mt_Task t]) out)"

definition ListModelTags :: "bool \<Rightarrow> ModelTag list \<Rightarrow> (string, string list) gomap option" where
  "ListModelTags fails rows = (if fails then None else Some (fold add_tag (sort_key tag_order rows) []))"

definition TaggedModelsFor :: "bool \<Rightarrow> string \<Rightarrow> ModelTag list \<Rightarrow> ModelTag list option" where
  "TaggedModelsFor fails task rows =
     (if fails then None
      else Some (sort_key (\<lambda>t. (mt_Provider t, mt_Model t)) (filter (\<lambda>t. mt_Task t = task) rows)))"

definition SortedTasks :: "string list \<Rightarrow> string list" where
  "SortedTasks tasks = sort tasks"

type_synonym black_table = "(string \<times> string, time) gomap"

record BlacklistedModel =
  bm_Provider :: string
  bm_Model :: string
  bm_CreatedAt :: time

definition ListBlacklistedModels :: "bool \<Rightarrow> black_table \<Rightarrow> BlacklistedModel list option" where
  "ListBlacklistedModels fails bs =
     (if fails then None
      else Some (map (\<lambda>(pm, t). \<lparr>bm_Provider = fst pm, bm_Model = snd pm, bm_CreatedAt = t\<rparr>)
        (sort_key (\<lambda>(pm, t). - t) bs)))"

definition BlacklistModel :: "bool \<Rightarrow> time \<Rightarrow> string \<Rightarrow> string \<Rightarrow> black_table \<Rightarrow> bool \<times> black_table" where
  "BlacklistModel fails now p m bs =
     (if TrimSpace p = [] \<or> TrimSpace m = [] \<or> fails then (False, bs)
      else (True, if gm_has bs (p, m) then bs else gm_set (p, m) now bs))"

definition UnblacklistModel :: "bool \<Rightarrow> string \<Rightarrow> string \<Rightarrow> black_table \<Rightarrow> bool \<times> black_table" where
  "UnblacklistModel fails p m bs = (if fails then (False, bs) else (True, gm_del (p, m) bs))"

text \<open>The \<open>config\<close> table: the bytes stored under a key. \<open>None\<close> is \<open>ErrNoSetting\<close> or a database error.\<close>

type_synonym settings = "(string, string) gomap"

definition settingFreeOnly :: string where "settingFreeOnly = ''free_only''"

definition GetBoolSetting :: "golib \<Rightarrow> bool \<Rightarrow> string \<Rightarrow> settings \<Rightarrow> bool option" where
  "GetBoolSetting lib fails key st =
     (if fails then None
      else case map_of st key of
          None \<Rightarrow> None
        | Some raw \<Rightarrow> (case unmarshal lib as_bool raw of Inl _ \<Rightarrow> None | Inr v \<Rightarrow> Some v))"

definition SetBoolSetting :: "bool \<Rightarrow> string \<Rightarrow> bool \<Rightarrow> settings \<Rightarrow> bool \<times> settings" where
  "SetBoolSetting fails key v st =
     (if fails then (False, st) else (True, gm_set key (if v then ''true'' else ''false'') st))"

definition FreeOnlySetting :: "golib \<Rightarrow> bool \<Rightarrow> settings \<Rightarrow> bool option" where
  "FreeOnlySetting lib fails st = GetBoolSetting lib fails settingFreeOnly st"

definition SetFreeOnlySetting :: "bool \<Rightarrow> bool \<Rightarrow> settings \<Rightarrow> bool \<times> settings" where
  "SetFreeOnlySetting fails v st = SetBoolSetting fails settingFreeOnly v st"

section \<open>Into the catalogue\<close>

definition LoadModelTags :: "bool \<Rightarrow> ModelTag list \<Rightarrow> Catalog \<Rightarrow> bool \<times> Catalog" where
  "LoadModelTags fails rows c =
     (case ListModelTags fails rows of None \<Rightarrow> (False, c) | Some found \<Rightarrow> (True, SetTags found c))"

definition LoadBlacklist :: "bool \<Rightarrow> black_table \<Rightarrow> Catalog \<Rightarrow> bool \<times> Catalog" where
  "LoadBlacklist fails bs c =
     (case ListBlacklistedModels fails bs of
        None \<Rightarrow> (False, c)
      | Some found \<Rightarrow> (True, SetBlacklist (fold (\<lambda>b. gm_set (TagKey (bm_Provider b) (bm_Model b)) True) found []) c))"

section \<open>The console\<close>

record Console =
  co_vault :: Vault
  co_gateway :: Gateway
  co_table :: discovered_table
  co_probes :: probes
  co_health :: Health
  co_tags :: "ModelTag list"
  co_black :: black_table
  co_settings :: settings

definition known_of :: "Console \<Rightarrow> Known" where
  "known_of c = \<lparr>kn_catalog = catalog (co_gateway c), kn_table = co_table c, kn_probes = co_probes c\<rparr>"

definition with_known :: "Known \<Rightarrow> Console \<Rightarrow> Console" where
  "with_known k c = c\<lparr>co_gateway := (co_gateway c)\<lparr>catalog := kn_catalog k\<rparr>, co_table := kn_table k, co_probes := kn_probes k\<rparr>"

definition with_catalog :: "Catalog \<Rightarrow> Console \<Rightarrow> Console" where
  "with_catalog cat c = c\<lparr>co_gateway := (co_gateway c)\<lparr>catalog := cat\<rparr>\<rparr>"

definition KnowsProvider :: "Gateway \<Rightarrow> string \<Rightarrow> bool" where
  "KnowsProvider g name \<longleftrightarrow> gm_has (registry g) name"

definition ProviderNames :: "Gateway \<Rightarrow> string list" where
  "ProviderNames g = sort (map fst (registry g))"

record providerStatus =
  ps_Provider :: string
  ps_Label :: string
  ps_ConsoleURL :: string
  ps_FreeTier :: bool
  ps_Configured :: bool
  ps_Fingerprint :: string
  ps_UpdatedAt :: "time option"
  ps_Models :: nat
  ps_FreeModels :: nat
  ps_Verified :: bool
  ps_Note :: string

datatype console_reply =
    ConsoleRefused reply
  | TagsListed "(string \<times> string \<times> string list) list" "(TaskType, nat) gomap"
  | TagsSet string string "string list" "(TaskType, nat) gomap"
  | BlacklistListed "BlacklistedModel list"
  | BlacklistSet string string bool
  | ProvidersListed "providerStatus list"
  | ProviderSaved providerStatus
  | ProviderRemoved string
  | SettingsAre bool bool nat
  | SettingsSet bool nat

definition admin_guard :: "crypto \<Rightarrow> bool \<Rightarrow> time \<Rightarrow> rq \<Rightarrow> Console \<Rightarrow> reply option \<times> Console" where
  "admin_guard cy fails now r c =
     (let (no, v) = guarded (cfg (co_gateway c)) cy fails now r (co_vault c) in (no, c\<lparr>co_vault := v\<rparr>))"

text \<open>What the database and the clock do to one request, statement by statement.\<close>

record admin_io =
  ai_now :: time
  ai_auth_fails :: bool
  ai_read_fails :: bool
  ai_write_fails :: bool
  ai_reload_fails :: bool
  ai_forget_fails :: bool
  ai_nonce :: "string option"
  ai_verify :: list_answer
  ai_refresh :: refresh_io
  ai_range :: "string list"

definition db_error :: console_reply where
  "db_error = ConsoleRefused (Refused 500 ''database error'')"

section \<open>Marks\<close>

definition taggableTasks :: "TaskType list" where
  "taggableTasks = [TaskCodeGeneration, TaskConversation, TaskAnalysis, TaskCreative]"

definition isTaggableTask :: "string \<Rightarrow> bool" where
  "isTaggableTask task \<longleftrightarrow> (\<exists>t \<in> set taggableTasks. t = task)"

definition split_key :: "string \<times> string list \<Rightarrow> string \<times> string \<times> string list" where
  "split_key entry = (case entry of (key, tasks) \<Rightarrow> (case Cut key CHR ''/'' of (p, m, _) \<Rightarrow> (p, m, SortedTasks tasks)))"

definition adminListModelTags :: "crypto \<Rightarrow> admin_io \<Rightarrow> rq \<Rightarrow> Console \<Rightarrow> console_reply \<times> Console" where
  "adminListModelTags cy io r c =
     (case admin_guard cy (ai_auth_fails io) (ai_now io) r c of
        (Some no, c') \<Rightarrow> (ConsoleRefused no, c')
      | (None, c') \<Rightarrow>
          (case ListModelTags (ai_read_fails io) (co_tags c') of
             None \<Rightarrow> (db_error, c')
           | Some found \<Rightarrow> (TagsListed (map split_key found) (TaggedCount (catalog (co_gateway c'))), c')))"

definition adminSetModelTags ::
  "crypto \<Rightarrow> admin_io \<Rightarrow> rq \<Rightarrow> (string \<times> string \<times> string list) option \<Rightarrow> Console \<Rightarrow> console_reply \<times> Console" where
  "adminSetModelTags cy io r body c =
     (case admin_guard cy (ai_auth_fails io) (ai_now io) r c of
        (Some no, c') \<Rightarrow> (ConsoleRefused no, c')
      | (None, c') \<Rightarrow>
          (case body of
             None \<Rightarrow> (ConsoleRefused (Refused 400 ''invalid JSON body''), c')
           | Some (p0, m0, tasks) \<Rightarrow>
               (let p = TrimSpace p0; m = TrimSpace m0 in
                if p = [] \<or> m = [] then (ConsoleRefused (Refused 400 ''provider and model are required''), c')
                else if \<not> KnowsProvider (co_gateway c') p then (ConsoleRefused (Refused 404 (''unknown provider '' @ p)), c')
                else case find (\<lambda>t. \<not> isTaggableTask t) tasks of
                    Some t \<Rightarrow> (ConsoleRefused (Refused 400 (''unknown task '' @ t)), c')
                  | None \<Rightarrow>
                      (case SetModelTags (ai_write_fails io) p m tasks (co_tags c') of
                         (False, _) \<Rightarrow> (db_error, c')
                       | (True, rows) \<Rightarrow>
                           (let c1 = c'\<lparr>co_tags := rows\<rparr> in
                            case LoadModelTags (ai_reload_fails io) rows (catalog (co_gateway c1)) of
                              (False, _) \<Rightarrow> (db_error, c1)
                            | (True, cat) \<Rightarrow> (TagsSet p m (SortedTasks tasks) (TaggedCount cat), with_catalog cat c1))))))"

section \<open>The blacklist\<close>

definition adminListBlacklist :: "crypto \<Rightarrow> admin_io \<Rightarrow> rq \<Rightarrow> Console \<Rightarrow> console_reply \<times> Console" where
  "adminListBlacklist cy io r c =
     (case admin_guard cy (ai_auth_fails io) (ai_now io) r c of
        (Some no, c') \<Rightarrow> (ConsoleRefused no, c')
      | (None, c') \<Rightarrow>
          (case ListBlacklistedModels (ai_read_fails io) (co_black c') of
             None \<Rightarrow> (db_error, c')
           | Some rows \<Rightarrow> (BlacklistListed rows, c')))"

definition decodeBlacklistRequest :: "(string \<times> string) option \<Rightarrow> reply + string \<times> string" where
  "decodeBlacklistRequest body =
     (case body of
        None \<Rightarrow> Inl (Refused 400 ''invalid JSON body'')
      | Some (p, m) \<Rightarrow>
          if TrimSpace p = [] \<or> TrimSpace m = [] then Inl (Refused 400 ''provider and model are required'')
          else Inr (TrimSpace p, TrimSpace m))"

definition reload_blacklist :: "admin_io \<Rightarrow> string \<Rightarrow> string \<Rightarrow> bool \<Rightarrow> Console \<Rightarrow> console_reply \<times> Console" where
  "reload_blacklist io p m flag c =
     (case LoadBlacklist (ai_reload_fails io) (co_black c) (catalog (co_gateway c)) of
        (False, _) \<Rightarrow> (db_error, c)
      | (True, cat) \<Rightarrow> (BlacklistSet p m flag, with_catalog cat c))"

definition adminBlacklistModel :: "crypto \<Rightarrow> admin_io \<Rightarrow> rq \<Rightarrow> (string \<times> string) option \<Rightarrow> Console \<Rightarrow> console_reply \<times> Console" where
  "adminBlacklistModel cy io r body c =
     (case admin_guard cy (ai_auth_fails io) (ai_now io) r c of
        (Some no, c') \<Rightarrow> (ConsoleRefused no, c')
      | (None, c') \<Rightarrow>
          (case decodeBlacklistRequest body of
             Inl no \<Rightarrow> (ConsoleRefused no, c')
           | Inr (p, m) \<Rightarrow>
               if \<not> KnowsProvider (co_gateway c') p then (ConsoleRefused (Refused 404 (''unknown provider '' @ p)), c')
               else case BlacklistModel (ai_write_fails io) (ai_now io) p m (co_black c') of
                   (False, _) \<Rightarrow> (db_error, c')
                 | (True, bs) \<Rightarrow> reload_blacklist io p m True (c'\<lparr>co_black := bs\<rparr>)))"

definition adminUnblacklistModel :: "crypto \<Rightarrow> admin_io \<Rightarrow> rq \<Rightarrow> (string \<times> string) option \<Rightarrow> Console \<Rightarrow> console_reply \<times> Console" where
  "adminUnblacklistModel cy io r body c =
     (case admin_guard cy (ai_auth_fails io) (ai_now io) r c of
        (Some no, c') \<Rightarrow> (ConsoleRefused no, c')
      | (None, c') \<Rightarrow>
          (case decodeBlacklistRequest body of
             Inl no \<Rightarrow> (ConsoleRefused no, c')
           | Inr (p, m) \<Rightarrow>
               (case UnblacklistModel (ai_write_fails io) p m (co_black c') of
                  (False, _) \<Rightarrow> (db_error, c')
                | (True, bs) \<Rightarrow> reload_blacklist io p m False (c'\<lparr>co_black := bs\<rparr>))))"

section \<open>Upstream keys\<close>

definition unverifiableNote :: string where
  "unverifiableNote = ''this provider serves its model list without authentication, so the key could not be checked; '' @
     ''a bad key will surface on the first completion''"

definition SortSpecs :: "Spec list \<Rightarrow> Spec list" where
  "SortSpecs sps = sort_key (\<lambda>s. ToLower (DisplayName s)) sps"

definition gw_Specs :: "Gateway \<Rightarrow> Spec list" where
  "gw_Specs g = SortSpecs (specs g)"

definition free_at :: "string list \<Rightarrow> Catalog \<Rightarrow> string \<Rightarrow> nat" where
  "free_at ord cat name = length (filter (\<lambda>p. Provider p = name) (FreeModels ord cat))"

definition provider_status :: "string list \<Rightarrow> Catalog \<Rightarrow> (string, ProviderKeyInfo) gomap \<Rightarrow> Spec \<Rightarrow> providerStatus" where
  "provider_status ord cat byName spec =
     (let base = \<lparr>ps_Provider = Name spec, ps_Label = DisplayName spec, ps_ConsoleURL = ConsoleURL spec, ps_FreeTier = FreeTier spec,
          ps_Configured = False, ps_Fingerprint = [], ps_UpdatedAt = None,
          ps_Models = gm_at 0 (DiscoveredCount cat) (Name spec), ps_FreeModels = free_at ord cat (Name spec),
          ps_Verified = False, ps_Note = []\<rparr>
      in case map_of byName (Name spec) of
           None \<Rightarrow> base
         | Some info \<Rightarrow> base\<lparr>ps_Configured := True, ps_Fingerprint := pi_Fingerprint info, ps_UpdatedAt := Some (pi_UpdatedAt info),
             ps_Verified := \<not> PublicModels spec, ps_Note := (if PublicModels spec then unverifiableNote else [])\<rparr>)"

definition adminListProviders :: "crypto \<Rightarrow> sealer \<Rightarrow> admin_io \<Rightarrow> rq \<Rightarrow> Console \<Rightarrow> console_reply \<times> Console" where
  "adminListProviders cy sl io r c =
     (case admin_guard cy (ai_auth_fails io) (ai_now io) r c of
        (Some no, c') \<Rightarrow> (ConsoleRefused no, c')
      | (None, c') \<Rightarrow>
          if ai_read_fails io then (db_error, c')
          else (let found = ListProviderKeys cy sl (EncryptionKey (cfg (co_gateway c'))) (provider_keys (co_vault c'));
                    byName = fold (\<lambda>i. gm_set (pi_Provider i) i) found []
                in (ProvidersListed (map (provider_status (ai_range io) (catalog (co_gateway c')) byName) (gw_Specs (co_gateway c'))), c')))"

text \<open>The error of a failed check: a rejection and an endpoint out of reach are worded differently.\<close>

definition verify_error :: "string \<Rightarrow> list_error \<Rightarrow> reply" where
  "verify_error name e =
     (case e of
        Rejected why \<Rightarrow> Refused 400 (name @ '' rejected this key: '' @ why)
      | Unlisted why \<Rightarrow> Refused 400 (''could not reach '' @ name @ '' to verify this key: '' @ why))"

definition saved_status :: "crypto \<Rightarrow> string list \<Rightarrow> Gateway \<Rightarrow> string \<Rightarrow> string \<Rightarrow> bool \<Rightarrow> providerStatus" where
  "saved_status cy ord g name apiKey skip =
     (let spec = (case Spec_named (specs g) name of None \<Rightarrow> empty_spec | Some s \<Rightarrow> s) in
      \<lparr>ps_Provider = name, ps_Label = DisplayName spec, ps_ConsoleURL = ConsoleURL spec, ps_FreeTier = FreeTier spec,
       ps_Configured = True, ps_Fingerprint = FingerprintKey cy apiKey, ps_UpdatedAt = None,
       ps_Models = gm_at 0 (DiscoveredCount (catalog g)) name, ps_FreeModels = free_at ord (catalog g) name,
       ps_Verified = (\<not> skip \<and> \<not> PublicModels spec),
       ps_Note = (if skip then ''verification was skipped at your request'' else if PublicModels spec then unverifiableNote else [])\<rparr>)"

text \<open>What follows once the key is in the table.\<close>

definition after_store ::
  "golib \<Rightarrow> sealer \<Rightarrow> admin_io \<Rightarrow> string \<Rightarrow> DiscoveredModel list \<Rightarrow> Console \<Rightarrow> Console" where
  "after_store lib sl io name models c =
     (let keys = ProviderKeys sl (EncryptionKey (cfg (co_gateway c))) (ai_read_fails io) (provider_keys (co_vault c));
          k = (if models \<noteq> [] then AdoptModels (ri_save_fails (ai_refresh io)) (ri_now (ai_refresh io)) name models (known_of c)
               else RefreshProvider lib (ai_refresh io) (ai_write_fails io) (ai_forget_fails io) (specs (co_gateway c)) keys name (known_of c))
      in (with_known k c)\<lparr>co_health := ClearBench (co_health c)\<rparr>)"

text \<open>A key that was verified, or whose check was skipped, with the models that came back.\<close>

definition save_key ::
  "golib \<Rightarrow> crypto \<Rightarrow> sealer \<Rightarrow> admin_io \<Rightarrow> string \<Rightarrow> string \<Rightarrow> bool \<Rightarrow> DiscoveredModel list \<Rightarrow> Console \<Rightarrow> console_reply \<times> Console" where
  "save_key lib cy sl io name apiKey skip models c =
     (case StoreProviderKey sl (EncryptionKey (cfg (co_gateway c))) (ai_write_fails io) (ai_nonce io) (ai_now io)
             name apiKey (provider_keys (co_vault c)) of
        (Some e, _) \<Rightarrow> (db_error, c)
      | (None, ps) \<Rightarrow>
          (let c1 = after_store lib sl io name models (c\<lparr>co_vault := (co_vault c)\<lparr>provider_keys := ps\<rparr>\<rparr>) in
           if ai_forget_fails io then (db_error, c1)
           else let c2 = c1\<lparr>co_probes := ForgetProbes name (co_probes c1)\<rparr> in
             (ProviderSaved (saved_status cy (ai_range io) (co_gateway c2) name apiKey skip), c2)))"

definition adminSetProviderKey ::
  "golib \<Rightarrow> crypto \<Rightarrow> sealer \<Rightarrow> admin_io \<Rightarrow> rq \<Rightarrow> string \<Rightarrow> (string \<times> bool) option \<Rightarrow> Console \<Rightarrow> console_reply \<times> Console" where
  "adminSetProviderKey lib cy sl io r name body c =
     (case admin_guard cy (ai_auth_fails io) (ai_now io) r c of
        (Some no, c') \<Rightarrow> (ConsoleRefused no, c')
      | (None, c') \<Rightarrow>
          if \<not> KnowsProvider (co_gateway c') name then (ConsoleRefused (Refused 404 (''unknown provider '' @ name)), c')
          else case body of
              None \<Rightarrow> (ConsoleRefused (Refused 400 ''invalid JSON body''), c')
            | Some (apiKey0, skip) \<Rightarrow>
                (let apiKey = TrimSpace apiKey0 in
                 if apiKey = [] then (ConsoleRefused (Refused 400 ''api_key is required''), c')
                 else case (if skip then Inr [] else VerifyProviderKey lib (specs (co_gateway c')) name apiKey (ai_verify io)) of
                     Inl e \<Rightarrow> (ConsoleRefused (verify_error name e), c')
                   | Inr models \<Rightarrow> save_key lib cy sl io name apiKey skip models c'))"

definition adminDeleteProviderKey ::
  "golib \<Rightarrow> crypto \<Rightarrow> sealer \<Rightarrow> admin_io \<Rightarrow> rq \<Rightarrow> string \<Rightarrow> Console \<Rightarrow> console_reply \<times> Console" where
  "adminDeleteProviderKey lib cy sl io r name c =
     (case admin_guard cy (ai_auth_fails io) (ai_now io) r c of
        (Some no, c') \<Rightarrow> (ConsoleRefused no, c')
      | (None, c') \<Rightarrow>
          (case DeleteProviderKey (ai_write_fails io) name (provider_keys (co_vault c')) of
             (Inl e, _) \<Rightarrow> (db_error, c')
           | (Inr False, _) \<Rightarrow> (ConsoleRefused (Refused 404 (''no key stored for '' @ name)), c')
           | (Inr True, ps) \<Rightarrow>
               (let c1 = c'\<lparr>co_vault := (co_vault c')\<lparr>provider_keys := ps\<rparr>\<rparr>;
                    keys = ProviderKeys sl (EncryptionKey (cfg (co_gateway c1))) (ai_read_fails io) ps
                in (ProviderRemoved name,
                    with_known (RefreshProvider lib (ai_refresh io) (ai_write_fails io) (ai_forget_fails io) (specs (co_gateway c1)) keys name
                      (known_of c1)) c1))))"

section \<open>The free-only switch\<close>

definition dashboardGetSettings :: "crypto \<Rightarrow> admin_io \<Rightarrow> rq \<Rightarrow> Console \<Rightarrow> console_reply \<times> Console" where
  "dashboardGetSettings cy io r c =
     (case admin_guard cy (ai_auth_fails io) (ai_now io) r c of
        (Some no, c') \<Rightarrow> (ConsoleRefused no, c')
      | (None, c') \<Rightarrow>
          (SettingsAre (freeOnlyFlag (co_gateway c')) (FreeOnly (cfg (co_gateway c')))
             (length (FreeModels (ai_range io) (catalog (co_gateway c')))), c'))"

definition dashboardPutSettings :: "crypto \<Rightarrow> admin_io \<Rightarrow> rq \<Rightarrow> bool option option \<Rightarrow> Console \<Rightarrow> console_reply \<times> Console" where
  "dashboardPutSettings cy io r body c =
     (case admin_guard cy (ai_auth_fails io) (ai_now io) r c of
        (Some no, c') \<Rightarrow> (ConsoleRefused no, c')
      | (None, c') \<Rightarrow>
          (case body of
             None \<Rightarrow> (ConsoleRefused (Refused 400 ''invalid JSON body''), c')
           | Some None \<Rightarrow> (ConsoleRefused (Refused 400 ''free_only is required''), c')
           | Some (Some on) \<Rightarrow>
               (let free = length (FreeModels (ai_range io) (catalog (co_gateway c'))) in
                if on \<and> free = 0 then (ConsoleRefused (Refused 400 ''no free models are known''), c')
                else case SetFreeOnlySetting (ai_write_fails io) on (co_settings c') of
                    (False, _) \<Rightarrow> (db_error, c')
                  | (True, st) \<Rightarrow>
                      (SettingsSet on free, c'\<lparr>co_settings := st, co_gateway := SetFreeOnly on (co_gateway c')\<rparr>))))"

end
