(* ===== verification/Operator_Facts.thy ===== *)
theory Operator_Facts
  imports Operator_Settings Keys_Facts Discovery_Facts Account_Safety
begin

text \<open>What the operator's settings promise: they take effect with the reply, and a reload finds the same.\<close>

section \<open>The guard changes nothing an operator sets\<close>

lemma admin_guard_keeps:
  assumes "admin_guard cy fails now r c = (no, c')"
  shows "co_gateway c' = co_gateway c" "co_table c' = co_table c" "co_probes c' = co_probes c" "co_health c' = co_health c"
    "co_tags c' = co_tags c" "co_black c' = co_black c" "co_settings c' = co_settings c"
    "provider_keys (co_vault c') = provider_keys (co_vault c)" "client_keys (co_vault c') = client_keys (co_vault c)"
  using assms by (auto simp: admin_guard_def guarded_def split: prod.splits)

definition no_slash :: "string \<Rightarrow> bool" where
  "no_slash p \<longleftrightarrow> CHR ''/'' \<notin> set p"

lemma TagKey_no_slash: "no_slash p \<Longrightarrow> no_slash q \<Longrightarrow> TagKey p m = TagKey q n \<longleftrightarrow> p = q \<and> m = n"
  unfolding no_slash_def by (rule TagKey_eq)

section \<open>Marks\<close>

lemma fold_add_tag:
  "gm_at [] (fold add_tag ts out) key = gm_at [] out key @ map mt_Task (filter (\<lambda>t. TagKey (mt_Provider t) (mt_Model t) = key) ts)"
  by (induction ts arbitrary: out) (auto simp: add_tag_def Let_def)

lemma gm_ok_add_tag: "gm_ok out \<Longrightarrow> gm_ok (fold add_tag ts out)"
  by (induction ts arbitrary: out) (simp_all add: add_tag_def Let_def)

lemma gm_at_copy: "gm_ok m \<Longrightarrow> gm_at d (copy_map [] m) k = gm_at d m k"
  by (simp add: gm_at_def map_of_copy_map split: option.split)

definition marks_of :: "string \<Rightarrow> string \<Rightarrow> ModelTag list \<Rightarrow> string list" where
  "marks_of p m rows = map mt_Task (filter (of_model p m) rows)"

lemma sorted_marks:
  "map mt_Task (filter (of_model p m) (sort_key tag_order rows)) = sort (marks_of p m rows)"
proof -
  let ?xs = "sort_key tag_order (filter (of_model p m) rows)"
  have "sorted (map tag_order ?xs)" by simp
  then have "sorted_wrt (\<lambda>x y. tag_order x \<le> tag_order y) ?xs" by (simp add: sorted_wrt_map)
  then have "sorted_wrt (\<lambda>x y. mt_Task x \<le> mt_Task y) ?xs"
    by (rule sorted_wrt_mono_rel [rotated]) (auto simp: of_model_def tag_order_def less_eq_prod_def)
  then have "sorted (map mt_Task ?xs)" by (simp add: sorted_wrt_map)
  moreover have "mset (map mt_Task ?xs) = mset (marks_of p m rows)" by (simp add: marks_of_def)
  ultimately have "sort (marks_of p m rows) = map mt_Task ?xs" by (intro properties_for_sort) simp_all
  then show ?thesis by (simp add: filter_sort)
qed

lemma LoadModelTags_marks:
  assumes "LoadModelTags fails rows cat = (True, cat')" and "\<forall>t \<in> set rows. no_slash (mt_Provider t)" and "no_slash p"
  shows "TagsFor cat' p m = sort (marks_of p m rows)"
proof -
  have key: "filter (\<lambda>t. TagKey (mt_Provider t) (mt_Model t) = TagKey p m) (sort_key tag_order rows) = filter (of_model p m) (sort_key tag_order rows)"
    using assms(2,3) by (intro filter_cong) (auto simp: of_model_def TagKey_no_slash)
  from assms(1) have c: "cat' = SetTags (fold add_tag (sort_key tag_order rows) []) cat"
    by (auto simp: LoadModelTags_def ListModelTags_def split: if_splits)
  show ?thesis
    unfolding c TagsFor_def SetTags_def
    by (simp add: gm_at_copy gm_ok_add_tag fold_add_tag key sorted_marks)
qed

lemma kept_tasks_set: "set (kept_tasks seen tasks) = TrimSpace ` set tasks - {[]} - set seen"
  by (induction seen tasks rule: kept_tasks.induct) (auto simp: Let_def)

lemma taggable_trimmed: "isTaggableTask t \<Longrightarrow> TrimSpace t = t \<and> t \<noteq> []"
proof -
  have "\<forall>t \<in> set taggableTasks. TrimSpace t = t \<and> t \<noteq> []" by code_simp
  then show "isTaggableTask t \<Longrightarrow> TrimSpace t = t \<and> t \<noteq> []" by (auto simp: isTaggableTask_def)
qed

text \<open>
  A mark set in the console is what routing reads from the next request on: the model carries exactly the
  tasks of the request, the reply shows those and no others, and every other model carries exactly what the table
  holds for it. (Provider names have no slash, which the registry ensures.)
\<close>

theorem marks_take_effect:
  assumes "adminSetModelTags cy io r (Some (p0, m0, tasks)) c = (TagsSet p m shown counts, c')"
    and "\<forall>t \<in> set (co_tags c). no_slash (mt_Provider t)" and "\<forall>n. KnowsProvider (co_gateway c) n \<longrightarrow> no_slash n"
  shows "set (TagsFor (catalog (co_gateway c')) p m) = set tasks \<and> set shown = set tasks \<and> p = TrimSpace p0 \<and> m = TrimSpace m0 \<and>
    (no_slash q \<longrightarrow> (q, n) \<noteq> (p, m) \<longrightarrow> TagsFor (catalog (co_gateway c')) q n = sort (marks_of q n (co_tags c)))"
proof -
  obtain c1 where g: "admin_guard cy (ai_auth_fails io) (ai_now io) r c = (None, c1)"
    using assms(1) by (cases "admin_guard cy (ai_auth_fails io) (ai_now io) r c") (auto simp: adminSetModelTags_def db_error_def split: option.splits)
  note keeps = admin_guard_keeps [OF g]
  from assms(1) g obtain rows cat where pm: "p = TrimSpace p0" "m = TrimSpace m0" "p \<noteq> []" "m \<noteq> []" "KnowsProvider (co_gateway c) p"
    and tasks: "\<forall>t \<in> set tasks. isTaggableTask t" and st: "SetModelTags (ai_write_fails io) p m tasks (co_tags c) = (True, rows)"
    and ld: "LoadModelTags (ai_reload_fails io) rows (catalog (co_gateway c)) = (True, cat)"
    and res: "shown = SortedTasks tasks" "catalog (co_gateway c') = cat"
    by (auto simp: adminSetModelTags_def db_error_def keeps Let_def with_catalog_def find_None_iff split: if_splits option.splits prod.splits bool.splits)
  have rows: "rows = filter (\<lambda>t. \<not> of_model p m t) (co_tags c) @ map (\<lambda>task. \<lparr>mt_Provider = p, mt_Model = m, mt_Task = task\<rparr>) (kept_tasks [] tasks)"
    using st by (auto simp: SetModelTags_def split: if_splits)
  have slash: "no_slash p" "\<forall>t \<in> set rows. no_slash (mt_Provider t)"
    using assms(2,3) pm(5) by (auto simp: rows)
  have own: "marks_of p m rows = kept_tasks [] tasks"
    by (simp add: marks_of_def rows filter_map o_def of_model_def)
  have other: "marks_of q n rows = marks_of q n (co_tags c)" if "(q, n) \<noteq> (p, m)"
    using that by (auto simp: marks_of_def rows of_model_def intro!: arg_cong [of _ _ "map mt_Task"] filter_cong)
  have "set (kept_tasks [] tasks) = set tasks"
    using tasks taggable_trimmed by (force simp: kept_tasks_set)
  then have "set (TagsFor cat p m) = set tasks"
    using LoadModelTags_marks [OF ld slash(2,1), of m] own by simp
  moreover have "TagsFor cat q n = sort (marks_of q n (co_tags c))" if "no_slash q" "(q, n) \<noteq> (p, m)"
    using LoadModelTags_marks [OF ld slash(2) that(1), of n] other [OF that(2)] by simp
  ultimately show ?thesis using res pm(1,2) by (simp add: SortedTasks_def)
qed

section \<open>The blacklist\<close>

lemma fold_black:
  "gm_at False (fold (\<lambda>b. gm_set (TagKey (bm_Provider b) (bm_Model b)) True) bs out) key \<longleftrightarrow>
     gm_at False out key \<or> (\<exists>b \<in> set bs. TagKey (bm_Provider b) (bm_Model b) = key)"
  by (induction bs arbitrary: out) auto

lemma fold_black_ok: "gm_ok out \<Longrightarrow> gm_ok (fold (\<lambda>b. gm_set (TagKey (bm_Provider b) (bm_Model b)) True) bs out)"
  by (induction bs arbitrary: out) simp_all

lemma gm_at_True: "gm_ok m \<Longrightarrow> gm_at False m k \<longleftrightarrow> (k, True) \<in> set m"
proof -
  assume ok: "gm_ok m"
  have "gm_at False m k \<longleftrightarrow> map_of m k = Some True" by (simp add: gm_at_def split: option.split)
  then show ?thesis unfolding map_of_eq_Some_iff [OF ok] .
qed

lemma gm_at_only_true: "gm_ok m \<Longrightarrow> gm_at False (only_true m) k = gm_at False m k"
  using gm_at_True [of m k] gm_at_True [of "only_true m" k] by (simp add: only_true_def gm_ok_filtered)

lemma LoadBlacklist_lists:
  assumes "LoadBlacklist fails bs cat = (True, cat')" and "\<forall>pm \<in> fst ` set bs. no_slash (fst pm)" and "no_slash p"
  shows "Blacklisted cat' p m \<longleftrightarrow> gm_has bs (p, m)"
proof -
  let ?listed = "map (\<lambda>(pm, t). \<lparr>bm_Provider = fst pm, bm_Model = snd pm, bm_CreatedAt = t\<rparr>) (sort_key (\<lambda>(pm, t). - t) bs)"
  let ?bl = "fold (\<lambda>b. gm_set (TagKey (bm_Provider b) (bm_Model b)) True) ?listed []"
  from assms(1) have c: "cat' = SetBlacklist ?bl cat"
    by (auto simp: LoadBlacklist_def ListBlacklistedModels_def split: if_splits)
  have "gm_ok ?bl" by (simp add: fold_black_ok)
  then have "Blacklisted cat' p m \<longleftrightarrow> (\<exists>b \<in> set ?listed. TagKey (bm_Provider b) (bm_Model b) = TagKey p m)"
    unfolding c Blacklisted_def SetBlacklist_def by (simp add: gm_at_copy gm_at_only_true fold_black)
  also have "\<dots> \<longleftrightarrow> TagKey p m \<in> (\<lambda>pm. TagKey (fst pm) (snd pm)) ` fst ` set bs"
    by (simp only: set_map set_sort bex_simps image_image split_beta) (auto simp: image_iff; metis fst_conv snd_conv)
  also have "\<dots> \<longleftrightarrow> (p, m) \<in> fst ` set bs"
  proof
    assume "TagKey p m \<in> (\<lambda>pm. TagKey (fst pm) (snd pm)) ` fst ` set bs"
    then obtain pm where pm: "pm \<in> fst ` set bs" "TagKey p m = TagKey (fst pm) (snd pm)" by blast
    then have "pm = (p, m)" using TagKey_no_slash [OF assms(3), of "fst pm"] assms(2) by (simp add: prod_eq_iff)
    with pm(1) show "(p, m) \<in> fst ` set bs" by simp
  qed (rule image_eqI [of _ _ "(p, m)"], simp_all)
  finally show ?thesis by (simp add: gm_has_keys)
qed

text \<open>Everything a successful change of the blacklist leaves behind.\<close>

lemma blacklist_changed:
  assumes "adminBlacklistModel cy io r body c = (BlacklistSet p m flag, c') \<or> adminUnblacklistModel cy io r body c = (BlacklistSet p m flag, c')"
  shows "\<exists>fails. LoadBlacklist fails (co_black c') (catalog (co_gateway c)) = (True, catalog (co_gateway c')) \<and>
    (\<forall>q n. gm_has (co_black c') (q, n) \<longleftrightarrow> (if (q, n) = (p, m) then flag else gm_has (co_black c) (q, n))) \<and>
    (flag \<longrightarrow> KnowsProvider (co_gateway c) p)"
proof -
  obtain no c1 where g: "admin_guard cy (ai_auth_fails io) (ai_now io) r c = (no, c1)" by force
  note keeps = admin_guard_keeps [OF g]
  from assms show ?thesis
  proof
    assume "adminBlacklistModel cy io r body c = (BlacklistSet p m flag, c')"
    with g keeps show ?thesis
      by (auto simp: adminBlacklistModel_def reload_blacklist_def BlacklistModel_def with_catalog_def db_error_def decodeBlacklistRequest_def
          split: if_splits option.splits prod.splits bool.splits sum.splits)
  next
    assume "adminUnblacklistModel cy io r body c = (BlacklistSet p m flag, c')"
    with g keeps show ?thesis
      by (auto simp: adminUnblacklistModel_def reload_blacklist_def UnblacklistModel_def with_catalog_def db_error_def decodeBlacklistRequest_def
          split: if_splits option.splits prod.splits bool.splits sum.splits)
  qed
qed

text \<open>
  C18. Blacklisting takes effect with the reply: from the next request on no plan, automatic or for a model named by the
  caller, holds the model at that provider, until it is taken off again, which lets it back; no other model is touched;
  and reloading the table into any catalogue, as a restart does, blacklists exactly the same models. (Provider names
  have no slash, which the registry ensures.)
\<close>

theorem blacklist_takes_effect:
  assumes "adminBlacklistModel cy io r body c = (BlacklistSet p m flag, c') \<or> adminUnblacklistModel cy io r body c = (BlacklistSet p m flag, c')"
    and "\<forall>pm \<in> fst ` set (co_black c). no_slash (fst pm)" and "\<forall>n. KnowsProvider (co_gateway c) n \<longrightarrow> no_slash n" and "no_slash p"
  shows "(flag \<longrightarrow> list_all (\<lambda>a. (cand_provider a, cand_model a) \<noteq> (p, m)) (fst (fst (plan rg now (co_gateway c') req keys h)))) \<and>
    (no_slash q \<longrightarrow> (Blacklisted (catalog (co_gateway c')) q n \<longleftrightarrow> (if (q, n) = (p, m) then flag else gm_has (co_black c) (q, n)))) \<and>
    (no_slash q \<longrightarrow> (Blacklisted (snd (LoadBlacklist False (co_black c') cat)) q n \<longleftrightarrow> Blacklisted (catalog (co_gateway c')) q n))"
proof -
  obtain fails where ld: "LoadBlacklist fails (co_black c') (catalog (co_gateway c)) = (True, catalog (co_gateway c'))"
    and rows: "\<And>q n. gm_has (co_black c') (q, n) \<longleftrightarrow> (if (q, n) = (p, m) then flag else gm_has (co_black c) (q, n))"
    using blacklist_changed [OF assms(1)] by blast
  have slash: "\<forall>pm \<in> fst ` set (co_black c'). no_slash (fst pm)"
  proof
    fix pm assume "pm \<in> fst ` set (co_black c')"
    then have "gm_has (co_black c') (fst pm, snd pm)" by (simp add: gm_has_keys)
    then have "pm = (p, m) \<or> pm \<in> fst ` set (co_black c)" using rows [of "fst pm" "snd pm"] by (auto simp: gm_has_keys split: if_splits)
    then show "no_slash (fst pm)" using assms(2,4) by auto
  qed
  have now: "Blacklisted (catalog (co_gateway c')) q n \<longleftrightarrow> (if (q, n) = (p, m) then flag else gm_has (co_black c) (q, n))"
    if "no_slash q" for q n
    unfolding LoadBlacklist_lists [OF ld slash that] by (rule rows)
  have again: "Blacklisted (snd (LoadBlacklist False (co_black c') cat)) q n \<longleftrightarrow> Blacklisted (catalog (co_gateway c')) q n"
    if "no_slash q" for q n
    using LoadBlacklist_lists [OF _ slash that, of False cat] LoadBlacklist_lists [OF ld slash that]
    by (simp add: LoadBlacklist_def ListBlacklistedModels_def)
  have "list_all (\<lambda>a. \<not> Blacklisted (catalog (co_gateway c')) (cand_provider a) (cand_model a))
      (fst (fst (plan rg now (co_gateway c') req keys h)))"
    by (auto simp: plan_query spec_plan_def excludeBlacklisted_def list_all_iff)
  then have "flag \<longrightarrow> list_all (\<lambda>a. (cand_provider a, cand_model a) \<noteq> (p, m)) (fst (fst (plan rg now (co_gateway c') req keys h)))"
    using now [OF assms(4), of m] by (auto simp: list_all_iff)
  with now again show ?thesis by blast
qed

section \<open>Upstream keys\<close>

lemma stored_is_read:
  assumes "sealer_laws sl" and "StoreProviderKey sl key fails nonce now p apiKey ps = (None, ps')" and "\<forall>n. nonce = Some n \<longrightarrow> length n = NonceSize"
  shows "ProviderKey sl key False p ps' = Inr apiKey"
proof -
  obtain n c where n: "nonce = Some n" "encrypt sl nonce apiKey key = Inr c"
    using assms(2) by (cases nonce) (auto simp: StoreProviderKey_def encrypt_def split: sum.splits if_splits)
  have "decrypt sl c key = Inr apiKey" using decrypt_encrypt [OF assms(1)] n assms(3) by blast
  then show ?thesis using assms(2) n(2) by (auto simp: StoreProviderKey_def ProviderKey_def split: if_splits option.splits)
qed

lemma AdoptModels_discovered:
  "models \<noteq> [] \<Longrightarrow> map_of (discovered (kn_catalog (AdoptModels fails now name models k))) name = Some (map convert_discovered models)"
  by (simp add: AdoptModels_def)

lemma AdoptModels_confirmed [simp]: "confirmed (kn_catalog (AdoptModels fails now name models k)) = confirmed (kn_catalog k)"
  by (simp add: AdoptModels_def SetDiscovered_def)

lemma RefreshProvider_confirmed: "confirmed (kn_catalog (RefreshProvider lib io ff pf sps keys name k)) = confirmed (kn_catalog k)"
  by (simp add: RefreshProvider_def refreshOne_adopts ForgetDiscovered_def split: option.splits sum.splits)

lemma after_store_fields:
  "co_vault (after_store lib sl io name models c) = co_vault c" "co_health (after_store lib sl io name models c) = ClearBench (co_health c)"
  "confirmed (catalog (co_gateway (after_store lib sl io name models c))) = confirmed (catalog (co_gateway c))"
  "models \<noteq> [] \<Longrightarrow> map_of (discovered (catalog (co_gateway (after_store lib sl io name models c)))) name = Some (map convert_discovered models)"
  by (auto simp: after_store_def Let_def with_known_def known_of_def RefreshProvider_confirmed AdoptModels_discovered)

text \<open>The ways a key can be saved.\<close>

lemma save_key_saved:
  assumes "save_key lib cy sl io name apiKey skip models c = (ProviderSaved st, c')"
  shows "\<exists>c1. co_gateway c1 = co_gateway c \<and> co_health c1 = co_health c \<and>
    StoreProviderKey sl (EncryptionKey (cfg (co_gateway c))) (ai_write_fails io) (ai_nonce io) (ai_now io) name apiKey
      (provider_keys (co_vault c)) = (None, provider_keys (co_vault c1)) \<and>
    c' = (let a = after_store lib sl io name models c1 in a\<lparr>co_probes := ForgetProbes name (co_probes a)\<rparr>) \<and>
    st = saved_status cy (ai_range io) (co_gateway c') name apiKey skip"
proof -
  obtain e ps where st: "StoreProviderKey sl (EncryptionKey (cfg (co_gateway c))) (ai_write_fails io) (ai_nonce io) (ai_now io) name apiKey
      (provider_keys (co_vault c)) = (e, ps)" by force
  from assms show ?thesis unfolding save_key_def st
    by (intro exI [of _ "c\<lparr>co_vault := (co_vault c)\<lparr>provider_keys := ps\<rparr>\<rparr>"]) (auto simp: db_error_def Let_def split: if_splits option.splits)
qed

lemma key_saved:
  assumes "adminSetProviderKey lib cy sl io r name (Some (k0, skip)) c = (ProviderSaved st, c')"
  shows "\<exists>c0 models. save_key lib cy sl io name (TrimSpace k0) skip models c0 = (ProviderSaved st, c') \<and>
    (if skip then models = [] else VerifyProviderKey lib (specs (co_gateway c)) name (TrimSpace k0) (ai_verify io) = Inr models) \<and>
    co_gateway c0 = co_gateway c \<and> co_health c0 = co_health c \<and> provider_keys (co_vault c0) = provider_keys (co_vault c)"
proof -
  obtain no c0 where g: "admin_guard cy (ai_auth_fails io) (ai_now io) r c = (no, c0)" by force
  note keeps = admin_guard_keeps [OF g]
  from assms g have "no = None" by (cases no) (simp_all add: adminSetProviderKey_def)
  with assms g keeps show ?thesis
    by (auto simp: adminSetProviderKey_def Let_def split: if_splits sum.splits intro!: exI [of _ c0])
qed

text \<open>
  C19. An upstream key is proven before it is stored, unless the operator skips the check: when the provider does not
  answer with its models, nothing changes at all. Once the reply says the key is saved, it is the one that is read back,
  no model is sidelined any more, no trial result of that provider is left in the table, and the models that came back
  with the check are what the catalogue lists for it; the status claims a verified key only after such a check.
\<close>

theorem provider_key_is_proven_first:
  assumes "adminSetProviderKey lib cy sl io r name (Some (k0, skip)) c = (reply, c')" and "sealer_laws sl"
    and "\<forall>n. ai_nonce io = Some n \<longrightarrow> length n = NonceSize"
  shows "(\<not> skip \<and> VerifyProviderKey lib (specs (co_gateway c)) name (TrimSpace k0) (ai_verify io) = Inl e \<longrightarrow>
      (\<exists>no. reply = ConsoleRefused no) \<and> provider_keys (co_vault c') = provider_keys (co_vault c) \<and> co_gateway c' = co_gateway c \<and>
      co_table c' = co_table c \<and> co_probes c' = co_probes c \<and> co_health c' = co_health c) \<and>
    (\<forall>st. reply = ProviderSaved st \<longrightarrow>
      ProviderKey sl (EncryptionKey (cfg (co_gateway c))) False name (provider_keys (co_vault c')) = Inr (TrimSpace k0) \<and>
      bench (co_health c') = [] \<and> (\<forall>pm \<in> fst ` set (co_probes c'). fst pm \<noteq> name) \<and>
      (ps_Verified st \<longrightarrow> \<not> skip) \<and>
      (\<not> skip \<longrightarrow> (\<exists>models. VerifyProviderKey lib (specs (co_gateway c)) name (TrimSpace k0) (ai_verify io) = Inr models \<and>
        (models \<noteq> [] \<longrightarrow> map_of (discovered (catalog (co_gateway c'))) name = Some (map convert_discovered models)))))"
proof (intro conjI allI impI)
  assume v: "\<not> skip \<and> VerifyProviderKey lib (specs (co_gateway c)) name (TrimSpace k0) (ai_verify io) = Inl e"
  obtain no c0 where g: "admin_guard cy (ai_auth_fails io) (ai_now io) r c = (no, c0)" by force
  note keeps = admin_guard_keeps [OF g]
  have "(\<exists>no. reply = ConsoleRefused no) \<and> c' = c0"
    using assms(1) g v keeps by (cases no) (auto simp: adminSetProviderKey_def Let_def split: if_splits)
  then show "\<exists>no. reply = ConsoleRefused no" "provider_keys (co_vault c') = provider_keys (co_vault c)" "co_gateway c' = co_gateway c"
      "co_table c' = co_table c" "co_probes c' = co_probes c" "co_health c' = co_health c"
    using keeps by simp_all
next
  fix st assume "reply = ProviderSaved st"
  with assms(1) obtain c0 models where sv: "save_key lib cy sl io name (TrimSpace k0) skip models c0 = (ProviderSaved st, c')"
    and v: "if skip then models = [] else VerifyProviderKey lib (specs (co_gateway c)) name (TrimSpace k0) (ai_verify io) = Inr models"
    and k: "co_gateway c0 = co_gateway c" "provider_keys (co_vault c0) = provider_keys (co_vault c)"
    using key_saved by blast
  from save_key_saved [OF sv] obtain c1 where
    st: "StoreProviderKey sl (EncryptionKey (cfg (co_gateway c))) (ai_write_fails io) (ai_nonce io) (ai_now io) name (TrimSpace k0)
      (provider_keys (co_vault c)) = (None, provider_keys (co_vault c1))"
    and c': "c' = (let a = after_store lib sl io name models c1 in a\<lparr>co_probes := ForgetProbes name (co_probes a)\<rparr>)"
    and status: "st = saved_status cy (ai_range io) (co_gateway c') name (TrimSpace k0) skip"
    unfolding k by blast
  show "ProviderKey sl (EncryptionKey (cfg (co_gateway c))) False name (provider_keys (co_vault c')) = Inr (TrimSpace k0)"
    using stored_is_read [OF assms(2) st assms(3)] by (simp add: c' Let_def after_store_fields)
  show "bench (co_health c') = []" by (simp add: c' Let_def after_store_fields ClearBench_def)
  show "\<forall>pm \<in> fst ` set (co_probes c'). fst pm \<noteq> name" by (auto simp: c' Let_def ForgetProbes_def)
  show "\<not> skip" if "ps_Verified st" using that by (simp add: status saved_status_def Let_def)
  show "\<exists>models. VerifyProviderKey lib (specs (co_gateway c)) name (TrimSpace k0) (ai_verify io) = Inr models \<and>
      (models \<noteq> [] \<longrightarrow> map_of (discovered (catalog (co_gateway c'))) name = Some (map convert_discovered models))" if "\<not> skip"
    using v that by (auto simp: c' Let_def after_store_fields)
qed

text \<open>The running catalogue keeps what the old key was confirmed to reach: only the table forgets it, until the next sweep.\<close>

lemma old_confirmations_survive_a_new_key:
  assumes "adminSetProviderKey lib cy sl io r name (Some (k0, skip)) c = (ProviderSaved st, c')"
  shows "Confirmed (catalog (co_gateway c')) name m \<longleftrightarrow> Confirmed (catalog (co_gateway c)) name m"
proof -
  obtain c0 models where sv: "save_key lib cy sl io name (TrimSpace k0) skip models c0 = (ProviderSaved st, c')" "co_gateway c0 = co_gateway c"
    using key_saved [OF assms] by blast
  from save_key_saved [OF sv(1)] sv(2) show ?thesis by (auto simp: Let_def after_store_fields Confirmed_def)
qed

section \<open>The switch\<close>

lemma free_only_is_kept:
  assumes "dashboardPutSettings cy io r body c = (SettingsSet on free, c')"
    and "parse_json lib ''true'' = Some (JBool True)" and "parse_json lib ''false'' = Some (JBool False)"
  shows "freeOnlyFlag (co_gateway c') = on \<and> FreeOnlySetting lib False (co_settings c') = Some on \<and> (on \<longrightarrow> free \<noteq> 0)"
  using assms
  by (auto simp: dashboardPutSettings_def db_error_def SetFreeOnlySetting_def SetBoolSetting_def FreeOnlySetting_def GetBoolSetting_def
      SetFreeOnly_def unmarshal_def Let_def split: option.splits prod.splits if_splits bool.splits)

section \<open>A console to try the statements on\<close>

definition open_gateway :: Gateway where
  "open_gateway = \<lparr>cfg = plain_config\<lparr>AdminToken := ''t'', EncryptionKey := toy_key\<rparr>, registry = [(''open'', newClient open_spec)],
     specs = [open_spec], catalog = NewCatalog, freeOnlyFlag = True\<rparr>"

definition open_console :: Console where
  "open_console = \<lparr>co_vault = \<lparr>accounts = no_accounts, client_keys = [], provider_keys = []\<rparr>, co_gateway = open_gateway,
     co_table = [], co_probes = [], co_health = healthy, co_tags = [], co_black = [], co_settings = []\<rparr>"

definition token_request :: rq where
  "token_request = no_request\<lparr>Authorization := ''Bearer t''\<rparr>"

definition calm :: admin_io where
  "calm = \<lparr>ai_now = 7, ai_auth_fails = False, ai_read_fails = False, ai_write_fails = False, ai_reload_fails = False,
     ai_forget_fails = False, ai_nonce = Some toy_nonce, ai_verify = Listing (Inr price_list),
     ai_refresh = \<lparr>ri_answer = NoAnswer [], ri_save_fails = False, ri_now = 7\<rparr>, ai_range = []\<rparr>"

lemma calm_fields [simp]: "ai_now calm = 7" "\<not> ai_auth_fails calm" "\<not> ai_read_fails calm" "\<not> ai_write_fails calm" "\<not> ai_reload_fails calm"
  "\<not> ai_forget_fails calm" "ai_nonce calm = Some toy_nonce" "ai_verify calm = Listing (Inr price_list)"
  by (simp_all add: calm_def)

lemma open_guard: "admin_guard toy_crypto False 7 token_request open_console = (None, open_console)"
  by (simp add: admin_guard_def guarded_def adminAuthorized_def handler_session_def adminTokenPresented_def token_request_def
      no_request_def open_console_def open_gateway_def Let_def)

lemma open_names: "TrimSpace ''open'' = ''open''" "TrimSpace ''m'' = ''m''" "TrimSpace ''k'' = ''k''" "TrimSpace ''creative'' = ''creative''"
  by code_simp+

lemma open_known: "KnowsProvider (co_gateway open_console) n \<longleftrightarrow> n = ''open''"
  by (simp add: KnowsProvider_def open_console_def open_gateway_def gm_has_def)

lemma open_slash: "KnowsProvider (co_gateway open_console) n \<longrightarrow> no_slash n" "no_slash ''open''"
  by (simp_all add: open_known no_slash_def)

lemma marks_take_effect_witness:
  "\<exists>counts c'. adminSetModelTags toy_crypto calm token_request (Some (''open'', ''m'', [''creative''])) open_console =
      (TagsSet ''open'' ''m'' [''creative''] counts, c') \<and> set (TagsFor (catalog (co_gateway c')) ''open'' ''m'') = {''creative''}"
proof -
  have t: "isTaggableTask ''creative''" by (simp add: isTaggableTask_def taggableTasks_def TaskCreative_def)
  have k: "KnowsProvider (co_gateway open_console) ''open''" by (simp add: open_known)
  have "\<exists>counts c'. adminSetModelTags toy_crypto calm token_request (Some (''open'', ''m'', [''creative''])) open_console =
      (TagsSet ''open'' ''m'' [''creative''] counts, c')"
    by (simp add: adminSetModelTags_def open_guard open_names k t SetModelTags_def LoadModelTags_def ListModelTags_def SortedTasks_def Let_def)
  then obtain counts c' where s: "adminSetModelTags toy_crypto calm token_request (Some (''open'', ''m'', [''creative''])) open_console =
      (TagsSet ''open'' ''m'' [''creative''] counts, c')" by (elim exE)
  have "co_tags open_console = []" by (simp add: open_console_def)
  then show ?thesis using s marks_take_effect [OF s] open_slash(1) by simp
qed

lemma blacklist_takes_effect_witness:
  "\<exists>c'. adminBlacklistModel toy_crypto calm token_request (Some (''open'', ''m'')) open_console = (BlacklistSet ''open'' ''m'' True, c') \<and>
     Blacklisted (catalog (co_gateway c')) ''open'' ''m''"
proof -
  have k: "KnowsProvider (co_gateway open_console) ''open''" by (simp add: open_known)
  have "\<exists>c'. adminBlacklistModel toy_crypto calm token_request (Some (''open'', ''m'')) open_console = (BlacklistSet ''open'' ''m'' True, c')"
    by (simp add: adminBlacklistModel_def open_guard open_names k decodeBlacklistRequest_def BlacklistModel_def reload_blacklist_def
      LoadBlacklist_def ListBlacklistedModels_def)
  then obtain c' where s: "adminBlacklistModel toy_crypto calm token_request (Some (''open'', ''m'')) open_console = (BlacklistSet ''open'' ''m'' True, c')"
    by (elim exE)
  have "co_black open_console = []" by (simp add: open_console_def)
  then show ?thesis using s blacklist_takes_effect [OF disjI1 [OF s], where q = "''open''" and n = "''m''"] open_slash by simp
qed

lemma provider_key_is_proven_first_witness:
  "\<exists>st c'. adminSetProviderKey price_lib toy_crypto toy_sealer calm token_request ''open'' (Some (''k'', False)) open_console = (ProviderSaved st, c') \<and>
     ProviderKey toy_sealer toy_key False ''open'' (provider_keys (co_vault c')) = Inr ''k''"
proof -
  have k: "KnowsProvider (co_gateway open_console) ''open''" by (simp add: open_known)
  obtain env where env: "decode_envelope price_lib price_list = Inr env" using price_list_read by (elim exE conjE)
  have v: "VerifyProviderKey price_lib (specs (co_gateway open_console)) ''open'' ''k'' (ai_verify calm) = Inr (listed_models ''open'' env)"
    by (simp add: VerifyProviderKey_def open_console_def open_gateway_def open_spec_named price_listing [OF env])
  have key: "EncryptionKey (cfg (co_gateway open_console)) = toy_key" by (simp add: open_console_def open_gateway_def)
  obtain e ps where st: "StoreProviderKey toy_sealer toy_key (ai_write_fails calm) (ai_nonce calm) (ai_now calm) ''open'' ''k''
      (provider_keys (co_vault open_console)) = (e, ps)" by force
  have e: "e = None" using st by (simp add: StoreProviderKey_def toy_encrypt split: option.splits)
  have "\<exists>st c'. adminSetProviderKey price_lib toy_crypto toy_sealer calm token_request ''open'' (Some (''k'', False)) open_console = (ProviderSaved st, c')"
    using v st by (simp add: adminSetProviderKey_def open_guard k open_names save_key_def key e Let_def)
  then obtain status c' where s: "adminSetProviderKey price_lib toy_crypto toy_sealer calm token_request ''open'' (Some (''k'', False)) open_console =
      (ProviderSaved status, c')" by (elim exE)
  have n: "\<forall>n. ai_nonce calm = Some n \<longrightarrow> length n = NonceSize" by (simp add: toy_nonce_def NonceSize_def)
  show ?thesis using s provider_key_is_proven_first [OF s toy_sealer_laws n] by (simp add: key open_names)
qed

end
