(* ===== verification/IoT.thy ===== *)
theory IoT
  imports Chat_Handler Discovery
begin

text \<open>
  Devices: the MQTT bridge (\<open>internal/iot/bridge.go\<close>), the store of readings (\<open>internal/iot/store.go\<close>) and the two HTTP
  endpoints of \<open>internal/api/handler.go\<close>. The broker, the edge box, the gateway behind the bridge and the parsing of
  timestamps are parameters. A time is counted from the Unix epoch.
\<close>

section \<open>Readings\<close>

definition zero_time :: time where "zero_time = - 62135596800 * Second"

record TelemetryEvent =
  te_DeviceID :: string
  te_Timestamp :: time
  te_Type :: string
  te_Data :: json

fun as_time :: "(string \<Rightarrow> time option) \<Rightarrow> json \<Rightarrow> json_error + time" where
  "as_time ptime JNull = Inr zero_time"
| "as_time ptime (JStr s) = (case ptime s of None \<Rightarrow> Inl TypeMismatch | Some t \<Rightarrow> Inr t)"
| "as_time ptime _ = Inl TypeMismatch"

fun as_any_map :: "json \<Rightarrow> json_error + json" where
  "as_any_map JNull = Inr JNull"
| "as_any_map (JObj fs) = Inr (JObj fs)"
| "as_any_map _ = Inl TypeMismatch"

definition decode_TelemetryEvent :: "(string \<Rightarrow> time option) \<Rightarrow> json \<Rightarrow> json_error + TelemetryEvent" where
  "decode_TelemetryEvent ptime j =
     and_then (as_fields j) (\<lambda>fs.
     and_then (as_string (fields_get fs ''device_id'')) (\<lambda>dev.
     and_then (as_time ptime (fields_get fs ''timestamp'')) (\<lambda>ts.
     and_then (as_string (fields_get fs ''type'')) (\<lambda>ty.
     and_then (as_any_map (fields_get fs ''data'')) (\<lambda>d.
     Inr \<lparr>te_DeviceID = dev, te_Timestamp = ts, te_Type = ty, te_Data = d\<rparr>)))))"

text \<open>The tables: when each device was last seen, and the readings in the order they came.\<close>

record IoTStore =
  devices :: "(string, time) gomap"
  telemetry :: "TelemetryEvent list"

definition SaveTelemetry :: "bool \<Rightarrow> time \<Rightarrow> TelemetryEvent \<Rightarrow> IoTStore \<Rightarrow> string option \<times> IoTStore" where
  "SaveTelemetry fails now e st =
     (if te_DeviceID e = [] then (Some ''telemetry is missing device_id'', st)
      else if fails then (Some ''database error'', st)
      else (let e1 = e\<lparr>te_Timestamp := (if te_Timestamp e = zero_time then now else te_Timestamp e),
                       te_Type := (if te_Type e = [] then ''reading'' else te_Type e)\<rparr>
            in (None, \<lparr>devices = gm_set (te_DeviceID e) now (devices st), telemetry = telemetry st @ [e1]\<rparr>)))"

definition TouchDevice :: "bool \<Rightarrow> time \<Rightarrow> string \<Rightarrow> IoTStore \<Rightarrow> IoTStore" where
  "TouchDevice fails now dev st = (if dev = [] \<or> fails then st else st\<lparr>devices := gm_set dev now (devices st)\<rparr>)"

definition telemetry_limit :: "int \<Rightarrow> int" where
  "telemetry_limit limit = (if limit \<le> 0 \<or> limit > 500 then 100 else limit)"

definition RecentTelemetry :: "bool \<Rightarrow> string \<Rightarrow> int \<Rightarrow> IoTStore \<Rightarrow> TelemetryEvent list option" where
  "RecentTelemetry fails dev limit st =
     (if fails then None
      else Some (take (nat (telemetry_limit limit))
        (sort_key (\<lambda>e. - te_Timestamp e) (filter (\<lambda>e. te_DeviceID e = dev) (telemetry st)))))"

section \<open>Topics\<close>

definition defaultTopicPrefix :: string where "defaultTopicPrefix = ''coderouter/v1''"

definition slash :: char where "slash = CHR ''/''"

record bridge_config =
  bc_Broker :: string
  bc_ClientID :: string
  bc_TopicPrefix :: string
  bc_EdgeEndpoint :: string
  bc_APIKey :: "ClientKey option"

text \<open>The handlers of other topics, the store and the router are there or not; \<open>connected\<close> is the state of the MQTT client.\<close>

record Bridge =
  br_cfg :: bridge_config
  br_store :: bool
  br_router :: "(ChatRequest \<Rightarrow> ClientKey option \<Rightarrow> string + ChatResponse) option"
  br_connected :: bool
  br_handlers :: "(string, string \<Rightarrow> string option) gomap"

definition NewBridge ::
  "bridge_config \<Rightarrow> (ChatRequest \<Rightarrow> ClientKey option \<Rightarrow> string + ChatResponse) option \<Rightarrow> bool \<Rightarrow> Bridge" where
  "NewBridge cfg0 router store =
     \<lparr>br_cfg = cfg0\<lparr>bc_TopicPrefix := Trim (if bc_TopicPrefix cfg0 = [] then defaultTopicPrefix else bc_TopicPrefix cfg0) [slash],
        bc_ClientID := (if bc_ClientID cfg0 = [] then ''coderouter'' else bc_ClientID cfg0)\<rparr>,
      br_store = store, br_router = router, br_connected = False, br_handlers = []\<rparr>"

definition bridge_Enabled :: "Bridge \<Rightarrow> bool" where "bridge_Enabled b \<longleftrightarrow> bc_Broker (br_cfg b) \<noteq> []"

definition telemetryTopic :: "Bridge \<Rightarrow> string" where
  "telemetryTopic b = bc_TopicPrefix (br_cfg b) @ ''/devices/+/telemetry''"

definition inferenceTopic :: "Bridge \<Rightarrow> string" where
  "inferenceTopic b = bc_TopicPrefix (br_cfg b) @ ''/devices/+/inference/request''"

definition responseTopic :: "Bridge \<Rightarrow> string \<Rightarrow> string" where
  "responseTopic b dev = bc_TopicPrefix (br_cfg b) @ ''/devices/'' @ dev @ ''/inference/response''"

definition RegisterHandler :: "string \<Rightarrow> (string \<Rightarrow> string option) \<Rightarrow> Bridge \<Rightarrow> Bridge" where
  "RegisterHandler topic handler b = b\<lparr>br_handlers := gm_set topic handler (br_handlers b)\<rparr>"

definition parseTopic :: "string \<Rightarrow> string \<Rightarrow> string \<times> string" where
  "parseTopic prefix topic =
     (let parts = Split (TrimPrefix (Trim topic [slash]) (prefix @ [slash])) slash in
      if length parts < 3 \<or> parts ! 0 \<noteq> ''devices'' then ([], [])
      else if parts ! 2 = ''telemetry'' then (parts ! 1, ''telemetry'')
      else if parts ! 2 = ''inference'' \<and> length parts > 3 \<and> parts ! 3 = ''request'' then (parts ! 1, ''inference'')
      else (parts ! 1, []))"

section \<open>Inference\<close>

record InferenceRequest =
  ir_DeviceID :: string
  ir_Prompt :: string
  ir_Model :: string
  ir_MaxTokens :: int

record InferenceResponse =
  is_DeviceID :: string
  is_Model :: string
  is_Source :: string
  is_Text :: string
  is_Error :: string

definition decode_InferenceRequest :: "json \<Rightarrow> json_error + InferenceRequest" where
  "decode_InferenceRequest j =
     and_then (as_fields j) (\<lambda>fs.
     and_then (as_string (fields_get fs ''device_id'')) (\<lambda>dev.
     and_then (as_string (fields_get fs ''prompt'')) (\<lambda>pr.
     and_then (as_string (fields_get fs ''model'')) (\<lambda>m.
     and_then (as_int (fields_get fs ''max_tokens'')) (\<lambda>mx.
     Inr \<lparr>ir_DeviceID = dev, ir_Prompt = pr, ir_Model = m, ir_MaxTokens = mx\<rparr>)))))"

definition encode_InferenceResponse :: "InferenceResponse \<Rightarrow> json" where
  "encode_InferenceResponse r = json_obj
     [(''device_id'', Some (JStr (is_DeviceID r))), (''model'', omit_string (is_Model r)), (''source'', omit_string (is_Source r)),
      (''text'', omit_string (is_Text r)), (''error'', omit_string (is_Error r))]"

definition firstText :: "ChatResponse \<Rightarrow> string" where
  "firstText resp =
     (case Choices resp of
        [] \<Rightarrow> []
      | c # _ \<Rightarrow> (case ch_Message c of None \<Rightarrow> [] | Some m \<Rightarrow> MsgContent m))"

definition iot_truncate :: "string \<Rightarrow> string" where
  "iot_truncate s0 = (let s = TrimSpace s0 in if length s > 300 then take 300 s @ ''...'' else s)"

text \<open>What the edge box does with a posted body: no answer, or a status and bytes.\<close>

datatype edge_answer = NoEdge string | EdgeAnswer int string

definition ForwardToHTTP :: "golib \<Rightarrow> (string \<Rightarrow> json \<Rightarrow> edge_answer) \<Rightarrow> string \<Rightarrow> json \<Rightarrow> string + string" where
  "ForwardToHTTP lib post endpoint payload =
     (case url_error lib endpoint of
        Some e \<Rightarrow> Inl e
      | None \<Rightarrow>
          (case post endpoint payload of
             NoEdge e \<Rightarrow> Inl e
           | EdgeAnswer code bytes \<Rightarrow>
               (let data = take (8 * 1024 * 1024) bytes in
                if code \<noteq> 200 then Inl (endpoint @ '' returned '' @ Itoa code @ '': '' @ iot_truncate data) else Inr data)))"

definition EdgeInference :: "golib \<Rightarrow> (string \<Rightarrow> json \<Rightarrow> edge_answer) \<Rightarrow> Bridge \<Rightarrow> ChatRequest \<Rightarrow> string + ChatResponse" where
  "EdgeInference lib post b chat =
     (if bc_EdgeEndpoint (br_cfg b) = [] then Inl ''no edge endpoint configured''
      else and_then (ForwardToHTTP lib post (TrimRight (bc_EdgeEndpoint (br_cfg b)) [slash] @ ''/chat/completions'') (encode_ChatRequest lib chat))
        (\<lambda>body. case unmarshal lib decode_ChatResponse body of
            Inl e \<Rightarrow> Inl (''edge returned malformed response: '' @ e)
          | Inr resp \<Rightarrow> if Choices resp = [] then Inl ''edge returned no choices'' else Inr resp))"

definition device_chat :: "InferenceRequest \<Rightarrow> ChatRequest" where
  "device_chat req =
     \<lparr>ReqModel = ir_Model req,
      Messages = [\<lparr>Role = ''user'', MsgContent = ir_Prompt req, ToolCalls = [], ToolCallID = []\<rparr>],
      MaxTokens = ir_MaxTokens req, Temperature = None, TopP = None, Stop = [], Stream = False, Tools = [],
      ToolChoice = None, Raw = None\<rparr>"

definition inference_answer :: "InferenceRequest \<Rightarrow> string \<Rightarrow> ChatResponse \<Rightarrow> InferenceResponse" where
  "inference_answer req source resp =
     \<lparr>is_DeviceID = ir_DeviceID req, is_Model = RespModel resp, is_Source = source, is_Text = firstText resp, is_Error = []\<rparr>"

text \<open>
  What one call meets: the clock and the database, the edge box and the broker. The time an edge box takes before it fails
  is not counted against the deadline of the router's call.
\<close>

record iot_io =
  ii_now :: time
  ii_db_fails :: bool
  ii_post :: "string \<Rightarrow> json \<Rightarrow> edge_answer"
  ii_publish :: "string option"

definition InferAs ::
  "golib \<Rightarrow> iot_io \<Rightarrow> Bridge \<Rightarrow> InferenceRequest \<Rightarrow> ClientKey option \<Rightarrow> IoTStore \<Rightarrow> (string + InferenceResponse) \<times> IoTStore" where
  "InferAs lib io b req key0 st =
     (let key = (case key0 of None \<Rightarrow> bc_APIKey (br_cfg b) | Some k \<Rightarrow> Some k) in
      if TrimSpace (ir_Prompt req) = [] then (Inl ''prompt must not be empty'', st)
      else
        (let st1 = (if br_store b then TouchDevice (ii_db_fails io) (ii_now io) (ir_DeviceID req) st else st);
             chat = device_chat req;
             cloud = (case br_router b of
                 None \<Rightarrow> Inl ''no router configured for cloud inference''
               | Some router \<Rightarrow> and_then (router chat key) (\<lambda>resp. Inr (inference_answer req ''cloud'' resp)))
         in if bc_EdgeEndpoint (br_cfg b) \<noteq> [] then
              (case EdgeInference lib (ii_post io) b chat of
                 Inr resp \<Rightarrow> (Inr (inference_answer req ''edge'' resp), st1)
               | Inl _ \<Rightarrow> (cloud, st1))
            else (cloud, st1)))"

definition Infer ::
  "golib \<Rightarrow> iot_io \<Rightarrow> Bridge \<Rightarrow> InferenceRequest \<Rightarrow> IoTStore \<Rightarrow> (string + InferenceResponse) \<times> IoTStore" where
  "Infer lib io b req st = InferAs lib io b req (bc_APIKey (br_cfg b)) st"

definition IngestTelemetry :: "iot_io \<Rightarrow> Bridge \<Rightarrow> TelemetryEvent \<Rightarrow> IoTStore \<Rightarrow> string option \<times> IoTStore" where
  "IngestTelemetry io b e st =
     (if \<not> br_store b then (Some ''telemetry store is not configured'', st) else SaveTelemetry (ii_db_fails io) (ii_now io) e st)"

section \<open>Messages\<close>

record MQTTMessage =
  mq_Topic :: string
  mq_Payload :: string

text \<open>What a message does: an error, what is published where, and the tables.\<close>

record handled_message =
  hm_error :: "string option"
  hm_published :: "(string \<times> json) list"
  hm_store :: IoTStore

definition publishResponse :: "iot_io \<Rightarrow> Bridge \<Rightarrow> InferenceResponse \<Rightarrow> string option \<times> (string \<times> json) list" where
  "publishResponse io b resp =
     (if \<not> br_connected b then (Some ''cannot publish inference response: mqtt not connected'', [])
      else (ii_publish io, [(responseTopic b (is_DeviceID resp), encode_InferenceResponse resp)]))"

definition HandleMQTTMessage ::
  "golib \<Rightarrow> (string \<Rightarrow> time option) \<Rightarrow> iot_io \<Rightarrow> Bridge \<Rightarrow> MQTTMessage \<Rightarrow> IoTStore \<Rightarrow> handled_message" where
  "HandleMQTTMessage lib ptime io b msg st =
     (case parseTopic (bc_TopicPrefix (br_cfg b)) (mq_Topic msg) of (dev, kind) \<Rightarrow>
        if kind = ''telemetry'' then
          (case unmarshal lib (decode_TelemetryEvent ptime) (mq_Payload msg) of
             Inl e \<Rightarrow> \<lparr>hm_error = Some (''invalid telemetry payload: '' @ e), hm_published = [], hm_store = st\<rparr>
           | Inr event \<Rightarrow>
               (case IngestTelemetry io b (if dev \<noteq> [] then event\<lparr>te_DeviceID := dev\<rparr> else event) st of
                  (err, st') \<Rightarrow> \<lparr>hm_error = err, hm_published = [], hm_store = st'\<rparr>))
        else if kind = ''inference'' then
          (case unmarshal lib decode_InferenceRequest (mq_Payload msg) of
             Inl e \<Rightarrow> \<lparr>hm_error = Some (''invalid inference payload: '' @ e), hm_published = [], hm_store = st\<rparr>
           | Inr req0 \<Rightarrow>
               (let req = (if dev \<noteq> [] then req0\<lparr>ir_DeviceID := dev\<rparr> else req0) in
                case Infer lib io b req st of
                  (res, st') \<Rightarrow>
                    (let resp = (case res of Inr a \<Rightarrow> a
                       | Inl e \<Rightarrow> \<lparr>is_DeviceID = ir_DeviceID req, is_Model = [], is_Source = [], is_Text = [], is_Error = e\<rparr>);
                         (err, pub) = publishResponse io b resp
                     in \<lparr>hm_error = err, hm_published = pub, hm_store = st'\<rparr>)))
        else
          (case map_of (br_handlers b) (mq_Topic msg) of
             None \<Rightarrow> \<lparr>hm_error = Some (''no handler for topic: '' @ mq_Topic msg), hm_published = [], hm_store = st\<rparr>
           | Some handler \<Rightarrow> \<lparr>hm_error = handler (mq_Payload msg), hm_published = [], hm_store = st\<rparr>))"

section \<open>The HTTP endpoints\<close>

datatype iot_reply =
    IoTRefused http_reply
  | Accepted
  | Readings string "TelemetryEvent list"
  | Answered InferenceResponse

text \<open>
  A POST carries what \<open>json.Decoder\<close> read of the first MiB, a GET its query. A limit that is no number is 0, and so is
  one out of range, which the store replaces as well.
\<close>

definition handleTelemetry ::
  "(string \<Rightarrow> time option) \<Rightarrow> crypto \<Rightarrow> bool \<Rightarrow> iot_io \<Rightarrow> Bridge \<Rightarrow> rq \<Rightarrow> string \<Rightarrow> string + json \<Rightarrow> string \<Rightarrow> string \<Rightarrow>
    key_table \<Rightarrow> IoTStore \<Rightarrow> iot_reply \<times> key_table \<times> IoTStore" where
  "handleTelemetry ptime cy fails io b r http_method body query_device query_limit ks st =
     (case authorize cy fails (ii_now io) r ks of
        (Inl no, ks') \<Rightarrow> (IoTRefused (reply_of no), ks', st)
      | (Inr key, ks') \<Rightarrow>
          if http_method = ''POST'' then
            (case and_then body (\<lambda>j. case decode_TelemetryEvent ptime j of Inl e \<Rightarrow> Inl ''type mismatch'' | Inr ev \<Rightarrow> Inr ev) of
               Inl e \<Rightarrow> (IoTRefused (ErrorReply 400 (''invalid telemetry payload: '' @ e) ''invalid_request_error''), ks', st)
             | Inr event \<Rightarrow>
                 if te_DeviceID event = []
                 then (IoTRefused (ErrorReply 400 ''device_id is required'' ''invalid_request_error''), ks', st)
                 else (case IngestTelemetry io b event st of
                     (Some e, st') \<Rightarrow> (IoTRefused (ErrorReply 500 e ''internal_error''), ks', st')
                   | (None, st') \<Rightarrow> (Accepted, ks', st')))
          else if http_method = ''GET'' then
            (if query_device = [] then (IoTRefused (ErrorReply 400 ''device_id is required'' ''invalid_request_error''), ks', st)
             else if \<not> br_store b
             then (IoTRefused (ErrorReply 500 ''telemetry store is not configured'' ''internal_error''), ks', st)
             else (case RecentTelemetry (ii_db_fails io) query_device (case Atoi query_limit of None \<Rightarrow> 0 | Some n \<Rightarrow> n) st of
                 None \<Rightarrow> (IoTRefused (ErrorReply 500 ''database error'' ''internal_error''), ks', st)
               | Some events \<Rightarrow> (Readings query_device events, ks', st)))
          else (IoTRefused (ErrorReply 405 ''method not allowed'' ''invalid_request_error''), ks', st))"

definition handleIoTInference ::
  "golib \<Rightarrow> crypto \<Rightarrow> bool \<Rightarrow> iot_io \<Rightarrow> Bridge \<Rightarrow> rq \<Rightarrow> string \<Rightarrow> string + json \<Rightarrow>
    key_table \<Rightarrow> IoTStore \<Rightarrow> iot_reply \<times> key_table \<times> IoTStore" where
  "handleIoTInference lib cy fails io b r http_method body ks st =
     (if http_method \<noteq> ''POST'' then (IoTRefused (ErrorReply 405 ''method not allowed'' ''invalid_request_error''), ks, st)
      else case authorize cy fails (ii_now io) r ks of
          (Inl no, ks') \<Rightarrow> (IoTRefused (reply_of no), ks', st)
        | (Inr key, ks') \<Rightarrow>
            (case and_then body (\<lambda>j. case decode_InferenceRequest j of Inl e \<Rightarrow> Inl ''type mismatch'' | Inr q \<Rightarrow> Inr q) of
               Inl e \<Rightarrow> (IoTRefused (ErrorReply 400 (''invalid inference payload: '' @ e) ''invalid_request_error''), ks', st)
             | Inr req \<Rightarrow>
                 (case InferAs lib io b req (Some key) st of
                    (Inl e, st') \<Rightarrow> (IoTRefused (ErrorReply 502 e ''upstream_error''), ks', st')
                  | (Inr resp, st') \<Rightarrow> (Answered resp, ks', st'))))"

end
