(* ===== verification/IoT_Facts.thy ===== *)
theory IoT_Facts
  imports IoT
begin

text \<open>
  What the bridge promises: a device speaks only for itself, its topics are read back, and the edge box is best effort.
\<close>

section \<open>Topics\<close>

lemma Split_no_sep: "c \<notin> set s \<Longrightarrow> Split s c = [s]"
  by (induction s) auto

lemma Split_nonempty [simp]: "Split s c \<noteq> []"
  by (induction s) (auto split: list.splits)

lemma Split_append: "c \<notin> set s \<Longrightarrow> Split (s @ c # rest) c = s # Split rest c"
  by (induction s) (auto split: list.splits)

text \<open>A prefix as \<open>NewBridge\<close> leaves it: no slash at its ends.\<close>

definition trimmed_prefix :: "string \<Rightarrow> bool" where
  "trimmed_prefix p \<longleftrightarrow> p = [] \<or> (hd p \<noteq> slash \<and> last p \<noteq> slash)"

lemma trim_right_last: "s \<noteq> [] \<Longrightarrow> \<not> P (last s) \<Longrightarrow> trim_right P s = s"
  by (cases s rule: rev_cases) (auto simp: trim_right_def)

lemma trim_right_end: "trim_right P s = [] \<or> \<not> P (last (trim_right P s))"
proof (cases "dropWhile P (rev s)")
  case (Cons x xs)
  then have "\<not> P x" using hd_dropWhile [of P "rev s"] by simp
  with Cons show ?thesis by (simp add: trim_right_def)
qed (simp add: trim_right_def)

lemma trimmed_Trim: "trimmed_prefix (Trim s [slash])"
proof -
  let ?P = "\<lambda>c. c \<in> set [slash]"
  obtain zs where zs: "trim_left ?P s = Trim s [slash] @ zs"
    unfolding Trim_def using trim_right_prefix by blast
  have "hd (Trim s [slash]) \<noteq> slash" if "Trim s [slash] \<noteq> []"
  proof -
    have "trim_left ?P s \<noteq> []" "hd (trim_left ?P s) = hd (Trim s [slash])" using zs that by (auto simp: hd_append)
    then show ?thesis using hd_dropWhile [of ?P s] by (simp add: trim_left_def)
  qed
  then show ?thesis
    using trim_right_end [of ?P "trim_left ?P s"] by (auto simp: trimmed_prefix_def Trim_def)
qed

lemma Trim_topic:
  assumes "trimmed_prefix p" and "rest \<noteq> []" and "last rest \<noteq> slash" and "hd rest \<noteq> slash"
  shows "TrimPrefix (Trim (p @ slash # rest) [slash]) (p @ [slash]) = rest"
proof -
  have r: "trim_right (\<lambda>c. c \<in> set [slash]) (q @ rest) = q @ rest" for q
    using assms(2,3) by (intro trim_right_last) auto
  show ?thesis
  proof (cases "p = []")
    case True
    have "trim_left (\<lambda>c. c \<in> set [slash]) (slash # rest) = rest"
      using assms(2,4) by (cases rest) (simp_all add: trim_left_def)
    moreover have "\<not> HasPrefix rest [slash]" using assms(2,4) by (cases rest) simp_all
    ultimately show ?thesis using True r [of "[]"] by (simp add: Trim_def TrimPrefix_def)
  next
    case False
    then have "trim_left (\<lambda>c. c \<in> set [slash]) (p @ slash # rest) = p @ slash # rest"
      using assms(1) by (cases p) (auto simp: trim_left_def trimmed_prefix_def)
    then show ?thesis using r [of "p @ [slash]"] by (simp add: Trim_def TrimPrefix_def HasPrefix_iff)
  qed
qed

lemma parse_device_topic:
  assumes "trimmed_prefix p" and "slash \<notin> set dev" and "slash \<notin> set kind" and "kind \<noteq> []"
  shows "parseTopic p (p @ ''/devices/'' @ dev @ slash # kind) =
    (dev, if kind = ''telemetry'' then ''telemetry'' else [])"
proof -
  let ?rest = "''devices'' @ slash # dev @ slash # kind"
  have d: "slash \<notin> set ''devices''" by (simp add: slash_def)
  have l: "last kind \<noteq> slash" using assms(3) last_in_set [OF assms(4)] by metis
  have "TrimPrefix (Trim (p @ slash # ?rest) [slash]) (p @ [slash]) = ?rest"
    using assms l by (intro Trim_topic) (auto simp: slash_def)
  moreover have "Split ?rest slash = [''devices'', dev, kind]"
    by (simp only: Split_append [OF d] Split_append [OF assms(2)] Split_no_sep [OF assms(3)])
  ultimately show ?thesis by (simp add: parseTopic_def slash_def Let_def)
qed

lemma parse_inference_topic:
  assumes "trimmed_prefix p" and "slash \<notin> set dev"
  shows "parseTopic p (p @ ''/devices/'' @ dev @ ''/inference/request'') = (dev, ''inference'')"
proof -
  let ?rest = "''devices'' @ slash # dev @ slash # ''inference'' @ slash # ''request''"
  have d: "slash \<notin> set ''devices''" and i: "slash \<notin> set ''inference''" and q: "slash \<notin> set ''request''"
    by (simp_all add: slash_def)
  have "TrimPrefix (Trim (p @ slash # ?rest) [slash]) (p @ [slash]) = ?rest"
    using assms by (intro Trim_topic) (auto simp: slash_def)
  moreover have "Split ?rest slash = [''devices'', dev, ''inference'', ''request'']"
    by (simp only: Split_append [OF d] Split_append [OF assms(2)] Split_append [OF i] Split_no_sep [OF q])
  ultimately show ?thesis by (simp add: parseTopic_def slash_def Let_def)
qed

section \<open>Devices speak for themselves\<close>

lemma IngestTelemetry_rows:
  "IngestTelemetry io b e st = (err, st') \<Longrightarrow>
     \<exists>added. telemetry st' = telemetry st @ added \<and> (\<forall>x \<in> set added. te_DeviceID x = te_DeviceID e) \<and>
       (\<forall>q. q \<noteq> te_DeviceID e \<longrightarrow> map_of (devices st') q = map_of (devices st) q)"
  by (auto simp: IngestTelemetry_def SaveTelemetry_def Let_def split: if_splits)

lemma InferAs_device:
  "InferAs lib io b req key st = (res, st') \<Longrightarrow>
     telemetry st' = telemetry st \<and> (\<forall>a. res = Inr a \<longrightarrow> is_DeviceID a = ir_DeviceID req) \<and>
       (\<forall>q. q \<noteq> ir_DeviceID req \<longrightarrow> map_of (devices st') q = map_of (devices st) q)"
  by (auto simp: InferAs_def TouchDevice_def inference_answer_def and_then_Inr Let_def split: if_splits option.splits sum.splits)

text \<open>
  C24. The topic decides who a device is: whatever a message on a device's telemetry or inference topic says, the readings
  it adds are that device's, only that device is marked as seen, and an answer goes to no topic but that device's own,
  under its id; errors included. (The id is one non-empty level of the topic.)
\<close>

theorem device_speaks_for_itself:
  assumes "trimmed_prefix (bc_TopicPrefix (br_cfg b))" and "slash \<notin> set dev" and "dev \<noteq> []"
    and "mq_Topic msg \<in> {bc_TopicPrefix (br_cfg b) @ ''/devices/'' @ dev @ ''/telemetry'',
      bc_TopicPrefix (br_cfg b) @ ''/devices/'' @ dev @ ''/inference/request''}"
  shows "\<exists>added. telemetry (hm_store (HandleMQTTMessage lib ptime io b msg st)) = telemetry st @ added \<and>
      (\<forall>x \<in> set added. te_DeviceID x = dev) \<and>
      (\<forall>q. q \<noteq> dev \<longrightarrow> map_of (devices (hm_store (HandleMQTTMessage lib ptime io b msg st))) q = map_of (devices st) q) \<and>
      (\<forall>(topic, j) \<in> set (hm_published (HandleMQTTMessage lib ptime io b msg st)).
        topic = responseTopic b dev \<and> (\<exists>a. j = encode_InferenceResponse a \<and> is_DeviceID a = dev))"
proof -
  have t: "parseTopic (bc_TopicPrefix (br_cfg b)) (bc_TopicPrefix (br_cfg b) @ ''/devices/'' @ dev @ ''/telemetry'') = (dev, ''telemetry'')"
    using parse_device_topic [OF assms(1,2), of "''telemetry''"] by (simp add: slash_def)
  have i: "parseTopic (bc_TopicPrefix (br_cfg b)) (bc_TopicPrefix (br_cfg b) @ ''/devices/'' @ dev @ ''/inference/request'') = (dev, ''inference'')"
    by (rule parse_inference_topic [OF assms(1,2)])
  from assms(4) consider (tele) "parseTopic (bc_TopicPrefix (br_cfg b)) (mq_Topic msg) = (dev, ''telemetry'')"
    | (infer) "parseTopic (bc_TopicPrefix (br_cfg b)) (mq_Topic msg) = (dev, ''inference'')"
    using t i by auto
  then show ?thesis
  proof cases
    case tele
    show ?thesis
    proof (cases "unmarshal lib (decode_TelemetryEvent ptime) (mq_Payload msg)")
      case (Inl e)
      then show ?thesis by (simp add: HandleMQTTMessage_def tele)
    next
      case (Inr event)
      obtain err st' where r: "IngestTelemetry io b (event\<lparr>te_DeviceID := dev\<rparr>) st = (err, st')" by force
      from IngestTelemetry_rows [OF r] Inr r assms(3) show ?thesis by (simp add: HandleMQTTMessage_def tele)
    qed
  next
    case infer
    show ?thesis
    proof (cases "unmarshal lib decode_InferenceRequest (mq_Payload msg)")
      case (Inl e)
      then show ?thesis by (simp add: HandleMQTTMessage_def infer)
    next
      case (Inr req0)
      let ?req = "req0\<lparr>ir_DeviceID := dev\<rparr>"
      obtain res st' where r: "Infer lib io b ?req st = (res, st')" by force
      define resp where "resp = (case res of Inr a \<Rightarrow> a
         | Inl e \<Rightarrow> \<lparr>is_DeviceID = ir_DeviceID ?req, is_Model = [], is_Source = [], is_Text = [], is_Error = e\<rparr>)"
      have d: "is_DeviceID resp = dev"
        using InferAs_device [OF r [unfolded Infer_def]] by (auto simp: resp_def split: sum.splits)
      have h: "HandleMQTTMessage lib ptime io b msg st =
          (let (err, pub) = publishResponse io b resp in \<lparr>hm_error = err, hm_published = pub, hm_store = st'\<rparr>)"
        using Inr r assms(3) by (simp add: HandleMQTTMessage_def infer resp_def Let_def)
      show ?thesis
        using InferAs_device [OF r [unfolded Infer_def]] d unfolding h publishResponse_def by (auto simp: Let_def)
    qed
  qed
qed

text \<open>
  An empty level of the topic is no identity: the subscription's \<open>+\<close> matches it, and then the payload is believed.
\<close>

lemma empty_level_is_believed:
  assumes "trimmed_prefix (bc_TopicPrefix (br_cfg b))" and "mq_Topic msg = bc_TopicPrefix (br_cfg b) @ ''/devices//telemetry''"
    and "unmarshal lib (decode_TelemetryEvent ptime) (mq_Payload msg) = Inr event"
  shows "hm_store (HandleMQTTMessage lib ptime io b msg st) = snd (IngestTelemetry io b event st)"
proof -
  have "parseTopic (bc_TopicPrefix (br_cfg b)) (mq_Topic msg) = ([], ''telemetry'')"
    using parse_device_topic [OF assms(1), of "[]" "''telemetry''"] assms(2) by (simp add: slash_def)
  then show ?thesis using assms(3) by (simp add: HandleMQTTMessage_def split: prod.splits)
qed

section \<open>The edge is best effort\<close>

text \<open>
  C25. Adding an edge box never makes a request fail that the cloud would serve: where the box answers, its answer is
  given and neither the router nor the key plays any part; where it does not, for whatever reason, the outcome is that of
  a bridge without an edge. The request goes to the cloud under the caller's key, or the bridge's own.
\<close>

theorem edge_is_best_effort:
  assumes "b' = b\<lparr>br_cfg := (br_cfg b)\<lparr>bc_EdgeEndpoint := []\<rparr>\<rparr>" and "TrimSpace (ir_Prompt req) \<noteq> []"
  shows "(case EdgeInference lib (ii_post io) b (device_chat req) of
      Inr resp \<Rightarrow> fst (InferAs lib io b req key st) = Inr (inference_answer req ''edge'' resp) \<and>
        fst (InferAs lib io (b\<lparr>br_router := router\<rparr>) req key' st) = fst (InferAs lib io b req key st)
    | Inl e \<Rightarrow> InferAs lib io b req key st = InferAs lib io b' req key st) \<and>
    fst (InferAs lib io b' req key st) =
      (case br_router b of
         None \<Rightarrow> Inl ''no router configured for cloud inference''
       | Some rt \<Rightarrow> (case rt (device_chat req) (if key = None then bc_APIKey (br_cfg b) else key) of
           Inl e \<Rightarrow> Inl e | Inr resp \<Rightarrow> Inr (inference_answer req ''cloud'' resp)))"
proof -
  have e: "EdgeInference lib post (b\<lparr>br_router := router\<rparr>) chat = EdgeInference lib post b chat" for post chat
    by (simp add: EdgeInference_def)
  have n: "bc_EdgeEndpoint (br_cfg b) = [] \<Longrightarrow> b' = b" using assms(1) by simp
  have edge: "bc_EdgeEndpoint (br_cfg b) \<noteq> []" if "EdgeInference lib (ii_post io) b (device_chat req) = Inr resp" for resp
    using that by (auto simp: EdgeInference_def)
  show ?thesis
    using assms n edge by (auto simp: InferAs_def e Let_def and_then_def split: sum.splits option.splits)
qed

text \<open>A device reads back at most what it asked for, its own readings only.\<close>

lemma RecentTelemetry_bounds:
  assumes "RecentTelemetry fails dev limit st = Some es"
  shows "length es \<le> 500 \<and> (1 \<le> limit \<longrightarrow> limit \<le> 500 \<longrightarrow> int (length es) \<le> limit) \<and> (\<forall>e \<in> set es. te_DeviceID e = dev)"
  using assms by (auto simp: RecentTelemetry_def telemetry_limit_def split: if_splits dest!: in_set_takeD)

section \<open>A bridge to try the statements on\<close>

definition hub :: Bridge where
  "hub = (NewBridge \<lparr>bc_Broker = ''mq'', bc_ClientID = [], bc_TopicPrefix = ''hub'', bc_EdgeEndpoint = ''http://edge'', bc_APIKey = None\<rparr>
     (Some (\<lambda>chat key. Inr sample_response)) True)\<lparr>br_connected := True\<rparr>"

definition edge_down :: iot_io where
  "edge_down = \<lparr>ii_now = 7, ii_db_fails = False, ii_post = (\<lambda>u j. NoEdge ''refused''), ii_publish = None\<rparr>"

definition nothing_stored :: IoTStore where "nothing_stored = \<lparr>devices = [], telemetry = []\<rparr>"

definition claims_to_be_b :: json where
  "claims_to_be_b = JObj [(''device_id'', JStr ''b''), (''type'', JStr ''temp'')]"

lemma hub_prefix: "trimmed_prefix (bc_TopicPrefix (br_cfg hub))"
  by (simp add: hub_def NewBridge_def trimmed_Trim)

lemma device_speaks_for_itself_witness:
  "list_all (\<lambda>x. te_DeviceID x = ''a'') (telemetry (hm_store (HandleMQTTMessage (table_lib [(''p'', claims_to_be_b)]) (\<lambda>s. None) edge_down hub
     \<lparr>mq_Topic = bc_TopicPrefix (br_cfg hub) @ ''/devices/'' @ ''a'' @ ''/telemetry'', mq_Payload = ''p''\<rparr> nothing_stored)))"
  using device_speaks_for_itself [OF hub_prefix, of "''a''"
      "\<lparr>mq_Topic = bc_TopicPrefix (br_cfg hub) @ ''/devices/'' @ ''a'' @ ''/telemetry'', mq_Payload = ''p''\<rparr>"
      "table_lib [(''p'', claims_to_be_b)]" "\<lambda>s. None" edge_down nothing_stored]
  by (auto simp: list_all_iff slash_def nothing_stored_def)

text \<open>The reading is stored, under the topic's device.\<close>

lemma reading_stored:
  "map te_DeviceID (telemetry (hm_store (HandleMQTTMessage (table_lib [(''p'', claims_to_be_b)]) (\<lambda>s. None) edge_down hub
     \<lparr>mq_Topic = bc_TopicPrefix (br_cfg hub) @ ''/devices/a/telemetry'', mq_Payload = ''p''\<rparr> nothing_stored))) = [''a'']"
proof -
  have t: "parseTopic (bc_TopicPrefix (br_cfg hub)) (bc_TopicPrefix (br_cfg hub) @ ''/devices/a/telemetry'') = (''a'', ''telemetry'')"
    using parse_device_topic [OF hub_prefix, of "''a''" "''telemetry''"] by (simp add: slash_def)
  have s: "br_store hub" by (simp add: hub_def NewBridge_def)
  show ?thesis
    by (simp add: HandleMQTTMessage_def t s unmarshal_def decode_TelemetryEvent_def claims_to_be_b_def fields_get_def raw_field_def json_simps
        IngestTelemetry_def SaveTelemetry_def edge_down_def nothing_stored_def Let_def)
qed

definition ask :: InferenceRequest where
  "ask = \<lparr>ir_DeviceID = ''a'', ir_Prompt = ''hi'', ir_Model = [], ir_MaxTokens = 0\<rparr>"

lemma edge_is_best_effort_witness:
  "fst (InferAs (table_lib []) edge_down hub ask None nothing_stored) = Inr (inference_answer ask ''cloud'' sample_response)"
proof -
  have p: "TrimSpace (ir_Prompt ask) \<noteq> []" unfolding ask_def by code_simp
  have e: "EdgeInference (table_lib []) (ii_post edge_down) hub (device_chat ask) = Inl ''refused''"
    by (simp add: EdgeInference_def ForwardToHTTP_def edge_down_def hub_def NewBridge_def)
  have r: "br_router hub = Some (\<lambda>chat key. Inr sample_response)" by (simp add: hub_def NewBridge_def)
  show ?thesis
    using edge_is_best_effort [OF refl p, where lib = "table_lib []" and io = edge_down and b = hub and key = None and st = nothing_stored] e r
    by simp
qed

end
