(* ===== verification/Analytics.thy ===== *)
theory Analytics
  imports Attempts Keys Probing
begin

text \<open>
  What is read out of the usage log (\<open>internal/db/analytics.go\<close>): summaries, pages of recent calls, the breakdown by model,
  and the observations routing learns from (\<open>RefreshObservations\<close> in \<open>gateway.go\<close>). A log is the rows of \<open>usage_logs\<close> with
  their \<open>created_at\<close>, in the order they were written. Averages and sums are exact and rounded once, to \<open>float64\<close>;
  latencies are not negative. Where the SQL leaves the order of equals open, the order of the log is taken.
\<close>

type_synonym usage_log = "(time \<times> UsageRow) list"

definition succeeded :: "UsageRow \<Rightarrow> bool" where
  "succeeded r \<longleftrightarrow> status r = ''success''"

definition recent_rows :: "time \<Rightarrow> duration \<Rightarrow> usage_log \<Rightarrow> UsageRow list" where
  "recent_rows now since ul = map snd (filter (\<lambda>(t, r). t > now - intervalArg since) ul)"

definition average :: "int list \<Rightarrow> float64" where
  "average xs = (if xs = [] then 0 else fl (of_int (sum_list xs) / of_int (int (length xs))))"

definition total_cost :: "UsageRow list \<Rightarrow> float64" where
  "total_cost rows = fl (sum_list (map (\<lambda>r. case cost_usd r of None \<Rightarrow> 0 | Some c \<Rightarrow> c) rows))"

record Summary =
  su_Requests :: int
  su_CacheHits :: int
  su_Errors :: int
  su_AvgLatencyMs :: float64
  su_TokensIn :: int
  su_TokensOut :: int
  su_CostUSD :: float64
  su_CacheHitRate :: float64

definition Summarize :: "bool \<Rightarrow> time \<Rightarrow> duration \<Rightarrow> usage_log \<Rightarrow> Summary option" where
  "Summarize fails now since ul =
     (if fails then None
      else (let rows = recent_rows now since ul; n = int (length rows); hits = int (length (filter cache_hit rows)) in
        Some \<lparr>su_Requests = n, su_CacheHits = hits, su_Errors = int (length (filter (\<lambda>r. \<not> succeeded r) rows)),
          su_AvgLatencyMs = average (map latency_ms (filter (\<lambda>r. \<not> cache_hit r \<and> succeeded r) rows)),
          su_TokensIn = sum_list (map tokens_in rows), su_TokensOut = sum_list (map tokens_out rows),
          su_CostUSD = total_cost rows,
          su_CacheHitRate = (if n > 0 then fdiv (of_int64 hits) (of_int64 n) else 0)\<rparr>))"

record UsageEntry =
  ue_CreatedAt :: time
  ue_KeyName :: string
  ue_Model :: string
  ue_Provider :: string
  ue_Task :: string
  ue_TokensIn :: int
  ue_TokensOut :: int
  ue_LatencyMs :: int
  ue_CostUSD :: float64
  ue_Status :: string
  ue_CacheHit :: bool
  ue_Failure :: string

definition key_name :: "key_table \<Rightarrow> string option \<Rightarrow> string" where
  "key_name ks ident = (case ident of None \<Rightarrow> [] | Some i \<Rightarrow> (case map_of ks i of None \<Rightarrow> [] | Some k \<Rightarrow> kr_Name k))"

definition usage_entry :: "key_table \<Rightarrow> time \<times> UsageRow \<Rightarrow> UsageEntry" where
  "usage_entry ks x = (case x of (t, r) \<Rightarrow>
     \<lparr>ue_CreatedAt = t, ue_KeyName = key_name ks (api_key_id r), ue_Model = row_model r, ue_Provider = row_provider r,
      ue_Task = row_task r, ue_TokensIn = tokens_in r, ue_TokensOut = tokens_out r, ue_LatencyMs = latency_ms r,
      ue_CostUSD = (case cost_usd r of None \<Rightarrow> 0 | Some c \<Rightarrow> c), ue_Status = status r, ue_CacheHit = cache_hit r,
      ue_Failure = (case row_failure r of None \<Rightarrow> [] | Some f \<Rightarrow> f)\<rparr>)"

definition newest_first :: "usage_log \<Rightarrow> usage_log" where
  "newest_first ul = sort_key (\<lambda>(t, r). - t) ul"

definition RecentUsage :: "bool \<Rightarrow> key_table \<Rightarrow> int \<Rightarrow> int \<Rightarrow> usage_log \<Rightarrow> UsageEntry list option" where
  "RecentUsage fails ks limit offset ul =
     (if fails then None
      else (let lim = (if limit \<le> 0 \<or> limit > 501 then 50 else limit); off = (if offset < 0 then 0 else offset) in
        Some (map (usage_entry ks) (take (nat lim) (drop (nat off) (newest_first ul))))))"

record ModelBreakdown =
  mb_Model :: string
  mb_Provider :: string
  mb_Requests :: int
  mb_Tokens :: int
  mb_CostUSD :: float64
  mb_LatencyMs :: float64

definition breakdown_row :: "UsageRow list \<Rightarrow> string \<times> string \<Rightarrow> ModelBreakdown" where
  "breakdown_row rows mp =
     (let own = filter (\<lambda>r. (row_model r, row_provider r) = mp) rows in
      \<lparr>mb_Model = fst mp, mb_Provider = snd mp, mb_Requests = int (length own),
       mb_Tokens = sum_list (map (\<lambda>r. tokens_in r + tokens_out r) own), mb_CostUSD = total_cost own,
       mb_LatencyMs = average (map latency_ms (filter succeeded own))\<rparr>)"

definition ModelUsage :: "bool \<Rightarrow> time \<Rightarrow> duration \<Rightarrow> usage_log \<Rightarrow> ModelBreakdown list option" where
  "ModelUsage fails now since ul =
     (if fails then None
      else (let rows = recent_rows now since ul in
        Some (sort_key (\<lambda>b. - mb_Requests b) (map (breakdown_row rows) (remdups (map (\<lambda>r. (row_model r, row_provider r)) rows))))))"

section \<open>Observations\<close>

record ModelObservation =
  ob_Provider :: string
  ob_Model :: string
  ob_Attempts :: int
  ob_Successes :: int
  ob_MedianLatencyMs :: int

text \<open>\<open>percentile_cont(0.5)\<close>, cut to whole milliseconds.\<close>

definition median :: "int list \<Rightarrow> int" where
  "median xs =
     (let s = sort xs; n = length s in
      if n = 0 then 0 else if odd n then s ! (n div 2) else (s ! (n div 2 - 1) + s ! (n div 2)) div 2)"

definition observation_of :: "UsageRow list \<Rightarrow> string \<times> string \<Rightarrow> ModelObservation" where
  "observation_of rows pm =
     (let own = filter (\<lambda>r. (row_provider r, row_model r) = pm) rows in
      \<lparr>ob_Provider = fst pm, ob_Model = snd pm, ob_Attempts = int (length own),
       ob_Successes = int (length (filter succeeded own)), ob_MedianLatencyMs = median (map latency_ms (filter succeeded own))\<rparr>)"

definition ObserveModels :: "bool \<Rightarrow> time \<Rightarrow> duration \<Rightarrow> usage_log \<Rightarrow> ModelObservation list option" where
  "ObserveModels fails now since ul =
     (if fails then None
      else (let rows = filter (\<lambda>r. \<not> cache_hit r) (recent_rows now since ul) in
        Some (map (observation_of rows) (remdups (map (\<lambda>r. (row_provider r, row_model r)) rows)))))"

definition reliability_of :: "ModelObservation \<Rightarrow> Reliability" where
  "reliability_of o1 = \<lparr>Attempts = ob_Attempts o1, Successes = ob_Successes o1, MedianLatencyMs = ob_MedianLatencyMs o1\<rparr>"

definition RefreshObservations :: "bool \<Rightarrow> time \<Rightarrow> Gateway \<Rightarrow> usage_log \<Rightarrow> bool \<times> Catalog" where
  "RefreshObservations fails now g ul =
     (case ObserveModels fails now (ObservationWindow (cfg g)) ul of
        None \<Rightarrow> (False, catalog g)
      | Some observed \<Rightarrow>
          (True, ObserveReliability
            (fold (\<lambda>x. gm_set (ObservationKey (ob_Provider x) (ob_Model x)) (reliability_of x)) observed []) (catalog g)))"

section \<open>What the observations count\<close>

definition rows_at :: "string \<Rightarrow> string \<Rightarrow> UsageRow list \<Rightarrow> UsageRow list" where
  "rows_at p m rows = filter (\<lambda>r. row_provider r = p \<and> row_model r = m \<and> \<not> cache_hit r) rows"

lemma fold_set_lookup:
  assumes "\<forall>x \<in> set xs. key x = k \<longrightarrow> x = y"
  shows "map_of (fold (\<lambda>x. gm_set (key x) (val x)) xs m) k = (if y \<in> set xs \<and> key y = k then Some (val y) else map_of m k)"
  using assms
proof (induction xs arbitrary: m)
  case (Cons x xs)
  then have tail: "map_of (fold (\<lambda>x. gm_set (key x) (val x)) xs (gm_set (key x) (val x) m)) k =
      (if y \<in> set xs \<and> key y = k then Some (val y) else map_of (gm_set (key x) (val x) m) k)"
    by (intro Cons.IH) simp
  show ?case
  proof (cases "key x = k")
    case True
    with Cons.prems have "x = y" by simp
    with tail True show ?thesis by simp
  next
    case False
    then have "y \<in> set (x # xs) \<and> key y = k \<longleftrightarrow> y \<in> set xs \<and> key y = k" by auto
    with tail False show ?thesis by (simp only: fold_simps o_apply gm_get_set if_False if_not_P eq_commute)
  qed
qed simp

lemma observation_key:
  assumes "CHR ''/'' \<notin> set p" and "CHR ''/'' \<notin> set q"
  shows "ObservationKey p m = ObservationKey q n \<longleftrightarrow> p = q \<and> m = n"
  using TagKey_eq [OF assms] by (simp add: ObservationKey_def TagKey_def)

lemma measured_lookup:
  assumes "\<forall>r \<in> set rows. CHR ''/'' \<notin> set (row_provider r)" and "CHR ''/'' \<notin> set p"
  shows "map_of (fold (\<lambda>x. gm_set (ObservationKey (ob_Provider x) (ob_Model x)) (reliability_of x))
      (map (observation_of rows) (remdups (map (\<lambda>r. (row_provider r, row_model r)) rows))) []) (ObservationKey p m) =
    (if (p, m) \<in> (\<lambda>r. (row_provider r, row_model r)) ` set rows then Some (reliability_of (observation_of rows (p, m))) else None)"
proof -
  let ?pms = "remdups (map (\<lambda>r. (row_provider r, row_model r)) rows)"
  have key: "\<forall>pm \<in> set ?pms. ObservationKey (fst pm) (snd pm) = ObservationKey p m \<longrightarrow> pm = (p, m)"
    using assms by (auto simp: observation_key)
  have "fold (\<lambda>x. gm_set (ObservationKey (ob_Provider x) (ob_Model x)) (reliability_of x)) (map (observation_of rows) ?pms) [] =
      fold (\<lambda>pm. gm_set (ObservationKey (fst pm) (snd pm)) (reliability_of (observation_of rows pm))) ?pms []"
    by (simp add: fold_map o_def observation_of_def Let_def)
  then show ?thesis
    using fold_set_lookup [of ?pms "\<lambda>pm. ObservationKey (fst pm) (snd pm)" "ObservationKey p m" "(p, m)"
        "\<lambda>pm. reliability_of (observation_of rows pm)" "[]"] key by simp
qed

text \<open>
  Routing learns exactly from the window: after a refresh the reliability of a model is the number of its calls to
  that provider in the window, of those that succeeded, and the median latency of the successes, replays from the cache
  left out; only where the window holds no call does the old figure stay. A rate is never above one. (Provider names have
  no slash, which the registry ensures.)
\<close>

theorem observations_count_the_window:
  assumes "RefreshObservations False now g ul = (True, cat)" and "\<forall>(t, r) \<in> set ul. CHR ''/'' \<notin> set (row_provider r)"
    and "p \<in> set (profiles (catalog g))" and "CHR ''/'' \<notin> set (Provider p)"
  shows "\<exists>q \<in> set (profiles cat). Provider q = Provider p \<and> Model q = Model p \<and>
    (let calls = rows_at (Provider p) (Model p) (recent_rows now (ObservationWindow (cfg g)) ul) in
      if calls = [] then q = p
      else Measured q = \<lparr>Attempts = int (length calls), Successes = int (length (filter succeeded calls)),
          MedianLatencyMs = median (map latency_ms (filter succeeded calls))\<rparr> \<and> Successes (Measured q) \<le> Attempts (Measured q))"
proof -
  let ?rows = "filter (\<lambda>r. \<not> cache_hit r) (recent_rows now (ObservationWindow (cfg g)) ul)"
  let ?calls = "rows_at (Provider p) (Model p) (recent_rows now (ObservationWindow (cfg g)) ul)"
  let ?m = "fold (\<lambda>x. gm_set (ObservationKey (ob_Provider x) (ob_Model x)) (reliability_of x))
      (map (observation_of ?rows) (remdups (map (\<lambda>r. (row_provider r, row_model r)) ?rows))) []"
  have cat: "cat = ObserveReliability ?m (catalog g)"
    using assms(1) by (simp add: RefreshObservations_def ObserveModels_def Let_def)
  have slash: "\<forall>r \<in> set ?rows. CHR ''/'' \<notin> set (row_provider r)" using assms(2) by (auto simp: recent_rows_def)
  have own: "filter (\<lambda>r. (row_provider r, row_model r) = (Provider p, Model p)) ?rows = ?calls"
    by (auto simp: rows_at_def intro: filter_cong)
  have some: "(Provider p, Model p) \<in> (\<lambda>r. (row_provider r, row_model r)) ` set ?rows \<longleftrightarrow> ?calls \<noteq> []"
    by (force simp: rows_at_def filter_empty_conv)
  have look: "map_of ?m (ObservationKey (Provider p) (Model p)) =
      (if ?calls \<noteq> [] then Some (reliability_of (observation_of ?rows (Provider p, Model p))) else None)"
    unfolding measured_lookup [OF slash assms(4)] some by (rule refl)
  have rel: "reliability_of (observation_of ?rows (Provider p, Model p)) = \<lparr>Attempts = int (length ?calls),
      Successes = int (length (filter succeeded ?calls)), MedianLatencyMs = median (map latency_ms (filter succeeded ?calls))\<rparr>"
    unfolding observation_of_def own by (simp add: reliability_of_def Let_def)
  let ?q = "apply_reliability ?m p"
  have "?q \<in> set (profiles cat)" using assms(3) by (simp add: cat ObserveReliability_def)
  moreover have "Provider ?q = Provider p \<and> Model ?q = Model p"
    by (simp add: apply_reliability_def Let_def split: option.split)
  moreover have "if ?calls = [] then ?q = p else Measured ?q = \<lparr>Attempts = int (length ?calls),
      Successes = int (length (filter succeeded ?calls)), MedianLatencyMs = median (map latency_ms (filter succeeded ?calls))\<rparr>"
    unfolding apply_reliability_def look rel by (simp add: Let_def)
  ultimately show ?thesis by (intro bexI [of _ ?q]) (auto simp: Let_def split: if_splits)
qed

definition one_call :: UsageRow where
  "one_call = \<lparr>api_key_id = None, row_model = ''m'', tokens_in = 1, tokens_out = 2, latency_ms = 30, cost_usd = None,
     row_provider = ''p'', status = ''success'', row_task = [], cache_hit = False, row_failure = None\<rparr>"

definition curated_m :: ModelProfile where
  "curated_m = \<lparr>Model = ''m'', Provider = ''p'', LatencyMs = 100, InputCostPer1M = 1, OutputCostPer1M = 1, Tasks = [], Observed = 0,
     PriceKnown = True, Measured = no_reliability\<rparr>"

definition watching :: Gateway where
  "watching = \<lparr>cfg = (Load bare_host two_providers)\<lparr>ObservationWindow := Hour\<rparr>, registry = [], specs = [],
     catalog = NewCatalog\<lparr>profiles := [curated_m]\<rparr>, freeOnlyFlag = False\<rparr>"

lemma observations_count_the_window_witness:
  "\<exists>cat. RefreshObservations False 7 watching [(5, one_call)] = (True, cat) \<and> (\<exists>q \<in> set (profiles cat). Attempts (Measured q) = 1)"
proof -
  obtain ok cat where r: "RefreshObservations False 7 watching [(5, one_call)] = (ok, cat)" by force
  have ok: "ok = True" using r by (simp add: RefreshObservations_def ObserveModels_def Let_def)
  have "intervalArg Hour = Hour" by (simp add: intervalArg_def Hour_def Minute_def Second_def)
  then have w: "rows_at ''p'' ''m'' (recent_rows 7 (ObservationWindow (cfg watching)) [(5, one_call)]) = [one_call]"
    by (simp add: rows_at_def recent_rows_def watching_def one_call_def Hour_def Minute_def Second_def)
  have p: "curated_m \<in> set (profiles (catalog watching))" by (simp add: watching_def)
  have slash: "\<forall>(t, r) \<in> set [(5, one_call)]. CHR ''/'' \<notin> set (row_provider r)" by (simp add: one_call_def)
  have "Provider curated_m = ''p''" "Model curated_m = ''m''" by (simp_all add: curated_m_def)
  then obtain q where q: "q \<in> set (profiles cat)" "Attempts (Measured q) = 1"
    using observations_count_the_window [OF r [unfolded ok] slash p] w by (auto simp: Let_def)
  with r ok show ?thesis by blast
qed

text \<open>A model whose calls have all left the window keeps the figures of its last window for as long as the process runs.\<close>

lemma old_observations_stay:
  assumes "RefreshObservations False now g [] = (True, cat)"
  shows "map Measured (profiles cat) = map Measured (profiles (catalog g))"
  using assms by (auto simp: RefreshObservations_def ObserveModels_def ObserveReliability_def recent_rows_def apply_reliability_def)

section \<open>Pages\<close>

lemma RecentUsage_page:
  assumes "0 < limit" and "limit \<le> 501" and "0 \<le> offset"
  shows "RecentUsage False ks limit offset ul = Some (take (nat limit) (drop (nat offset) (map (usage_entry ks) (newest_first ul))))"
  using assms by (simp add: RecentUsage_def Let_def take_map drop_map)

end
