(* ===== verification/Dashboard.thy ===== *)
theory Dashboard
  imports Analytics Operator_Settings Chat_Handler
begin

text \<open>
  The operator's views (\<open>internal/api/dashboard.go\<close>, \<open>ListProbes\<close> of \<open>internal/db/probes.go\<close>): what each computes from the
  tables, the catalogue and the running gateway. Parsing a duration is a parameter; the handler of the page is in \<open>Routes\<close>.
\<close>

section \<open>Windows and pages\<close>

definition maxWindow :: duration where "maxWindow = 30 * 24 * Hour"

definition window_of :: "(string \<Rightarrow> duration option) \<Rightarrow> string \<Rightarrow> duration" where
  "window_of pdur raw =
     (if raw = [] then 24 * Hour
      else case pdur raw of
          None \<Rightarrow> 24 * Hour
        | Some d \<Rightarrow> if d \<le> 0 then 24 * Hour else if d > maxWindow then maxWindow else d)"

text \<open>The query of a request, and the reading of a number in it: no number is 0.\<close>

definition number_of :: "string \<Rightarrow> int" where
  "number_of s = (case Atoi s of None \<Rightarrow> 0 | Some n \<Rightarrow> n)"

datatype 'a view = ViewRefused reply | View 'a

definition db_trouble :: "'a view" where "db_trouble = ViewRefused (reply.Refused 500 ''database error'')"

definition entering :: "crypto \<Rightarrow> admin_io \<Rightarrow> rq \<Rightarrow> Console \<Rightarrow> (Console \<Rightarrow> 'a view \<times> Console) \<Rightarrow> 'a view \<times> Console" where
  "entering cy io r c body =
     (case admin_guard cy (ai_auth_fails io) (ai_now io) r c of
        (Some no, c') \<Rightarrow> (ViewRefused no, c')
      | (None, c') \<Rightarrow> body c')"

definition viewing :: "crypto \<Rightarrow> admin_io \<Rightarrow> rq \<Rightarrow> Console \<Rightarrow> (Console \<Rightarrow> 'a view) \<Rightarrow> 'a view \<times> Console" where
  "viewing cy io r c body = entering cy io r c (\<lambda>c'. (body c', c'))"

definition ConfiguredKeys :: "sealer \<Rightarrow> bool \<Rightarrow> Console \<Rightarrow> KeyError + keys" where
  "ConfiguredKeys sl fails c = ProviderKeys sl (EncryptionKey (cfg (co_gateway c))) fails (provider_keys (co_vault c))"

definition ConfiguredProviders :: "sealer \<Rightarrow> bool \<Rightarrow> Console \<Rightarrow> KeyError + (string, bool) gomap" where
  "ConfiguredProviders sl fails c =
     (case ConfiguredKeys sl fails c of
        Inl e \<Rightarrow> Inl e
      | Inr ks \<Rightarrow> Inr (map (\<lambda>(name, cl). (name, gm_at [] ks name \<noteq> [])) (registry (co_gateway c))))"

definition page_limit :: "string \<Rightarrow> int" where
  "page_limit raw = (let n = number_of raw in if n \<le> 0 \<or> n > 500 then 50 else n)"

definition dashboardUsage ::
  "crypto \<Rightarrow> admin_io \<Rightarrow> rq \<Rightarrow> string \<Rightarrow> string \<Rightarrow> usage_log \<Rightarrow> Console \<Rightarrow> (UsageEntry list \<times> bool) view \<times> Console" where
  "dashboardUsage cy io r q_limit q_offset ul c =
     viewing cy io r c (\<lambda>c'.
       let limit = page_limit q_limit in
       case RecentUsage (ai_read_fails io) (client_keys (co_vault c')) (limit + 1) (number_of q_offset) ul of
         None \<Rightarrow> db_trouble
       | Some es \<Rightarrow> View (if int (length es) > limit then (take (nat limit) es, True) else (es, False)))"

definition dashboardStats ::
  "crypto \<Rightarrow> sealer \<Rightarrow> admin_io \<Rightarrow> rq \<Rightarrow> (string \<Rightarrow> duration option) \<Rightarrow> string \<Rightarrow> usage_log \<Rightarrow> Stats \<Rightarrow> Console \<Rightarrow>
    (Summary \<times> Stats \<times> (string, bool) gomap option) view \<times> Console" where
  "dashboardStats cy sl io r pdur q_window ul cache_stats c =
     viewing cy io r c (\<lambda>c'.
       case Summarize (ai_read_fails io) (ai_now io) (window_of pdur q_window) ul of
         None \<Rightarrow> db_trouble
       | Some s \<Rightarrow>
           View (s, cache_stats, (case ConfiguredProviders sl (ai_reload_fails io) c' of Inl _ \<Rightarrow> None | Inr ps \<Rightarrow> Some ps)))"

definition dashboardKeys :: "crypto \<Rightarrow> admin_io \<Rightarrow> rq \<Rightarrow> Console \<Rightarrow> ClientKey list view \<times> Console" where
  "dashboardKeys cy io r c =
     viewing cy io r c (\<lambda>c'. if ai_read_fails io then db_trouble else View (ListClientKeys (client_keys (co_vault c'))))"

definition dashboardNewModels ::
  "crypto \<Rightarrow> admin_io \<Rightarrow> rq \<Rightarrow> (string \<Rightarrow> duration option) \<Rightarrow> string \<Rightarrow> Console \<Rightarrow> NewModel list view \<times> Console" where
  "dashboardNewModels cy io r pdur q_window c =
     viewing cy io r c (\<lambda>c'.
       case RecentlyAddedModels (ai_read_fails io) (ai_now io) (window_of pdur q_window) 100 True (co_table c') of
         None \<Rightarrow> db_trouble | Some ms \<Rightarrow> View ms)"

section \<open>Free models\<close>

definition freeModelKeys :: "string list \<Rightarrow> Catalog \<Rightarrow> string set" where
  "freeModelKeys ord cat = set (map (\<lambda>p. ObservationKey (Provider p) (Model p)) (FreeModels ord cat))"

definition freeModelNames :: "string list \<Rightarrow> Catalog \<Rightarrow> string set" where
  "freeModelNames ord cat = set (map Model (FreeModels ord cat))"

record model_row =
  mr_Model :: string
  mr_Provider :: string
  mr_EstimatedMs :: int
  mr_ObservedMs :: int
  mr_In :: float64
  mr_Out :: float64

fun once_each :: "string list \<Rightarrow> ModelProfile list \<Rightarrow> model_row list" where
  "once_each seen [] = []"
| "once_each seen (p # ps) =
     (let key = ObservationKey (Provider p) (Model p) in
      if key \<in> set seen then once_each seen ps
      else \<lparr>mr_Model = Model p, mr_Provider = Provider p, mr_EstimatedMs = LatencyMs p, mr_ObservedMs = Observed p,
             mr_In = InputCostPer1M p, mr_Out = OutputCostPer1M p\<rparr> # once_each (key # seen) ps)"

definition dashboardModels ::
  "crypto \<Rightarrow> admin_io \<Rightarrow> rq \<Rightarrow> (string \<Rightarrow> duration option) \<Rightarrow> string \<Rightarrow> usage_log \<Rightarrow> Console \<Rightarrow>
    (ModelBreakdown list \<times> model_row list) view \<times> Console" where
  "dashboardModels cy io r pdur q_window ul c =
     viewing cy io r c (\<lambda>c'.
       case ModelUsage (ai_read_fails io) (ai_now io) (window_of pdur q_window) ul of
         None \<Rightarrow> db_trouble
       | Some breakdown \<Rightarrow>
           (let cat = catalog (co_gateway c'); ord = ai_range io in
            View (filter (\<lambda>m. ObservationKey (mb_Provider m) (mb_Model m) \<in> freeModelKeys ord cat \<or> mb_Model m \<in> freeModelNames ord cat)
                breakdown,
              once_each [] (FreeModels ord cat))))"

section \<open>A share for every provider\<close>

text \<open>
  One round over the providers in the order of their first model: each still holding models gives one. It stops as soon as
  the limit is reached, and says whether any model moved.
\<close>

fun share_round ::
  "nat \<Rightarrow> string list \<Rightarrow> (string, ModelProfile list) gomap \<Rightarrow> ModelProfile list \<Rightarrow> ModelProfile list \<times> (string, ModelProfile list) gomap \<times> bool" where
  "share_round limit [] byProvider out = (out, byProvider, False)"
| "share_round limit (name # names) byProvider out =
     (case gm_at [] byProvider name of
        [] \<Rightarrow> share_round limit names byProvider out
      | p # ps \<Rightarrow>
          (let out1 = out @ [p]; by1 = gm_set name ps byProvider in
           if length out1 = limit then (out1, by1, True)
           else case share_round limit names by1 out1 of (out2, by2, moved) \<Rightarrow> (out2, by2, True)))"

lemma share_round_grows:
  "share_round limit names byProvider out = (out', by', moved) \<Longrightarrow>
     length out \<le> length out' \<and> (moved \<longrightarrow> length out < length out')"
proof (induction limit names byProvider out arbitrary: out' by' moved rule: share_round.induct)
  case (2 limit name names byProvider out)
  show ?case
  proof (cases "gm_at [] byProvider name")
    case Nil
    with 2 show ?thesis by simp
  next
    case (Cons p ps)
    obtain o2 b2 m2 where r: "share_round limit names (gm_set name ps byProvider) (out @ [p]) = (o2, b2, m2)" by (metis prod_cases3)
    show ?thesis
    proof (cases "length (out @ [p]) = limit")
      case True
      with 2(3) Cons show ?thesis by auto
    next
      case False
      from 2(2) [OF Cons refl refl _ r] False have "Suc (length out) \<le> length o2" by simp
      with 2(3) Cons False r show ?thesis by auto
    qed
  qed
qed simp

function share_rounds ::
  "nat \<Rightarrow> string list \<Rightarrow> (string, ModelProfile list) gomap \<Rightarrow> ModelProfile list \<Rightarrow> ModelProfile list" where
  "share_rounds limit order byProvider out =
     (if length out < limit then
        (case share_round limit order byProvider out of
           (out', by', moved) \<Rightarrow> if moved then share_rounds limit order by' out' else out')
      else out)"
  by pat_completeness auto

lemma share_round_decreases:
  assumes "length out < limit" "(out', by', True) = share_round limit order byProvider out"
  shows "limit - length out' < limit - length out"
  using share_round_grows [OF assms(2) [symmetric]] assms(1) by (simp add: diff_less_mono2)

termination share_rounds
  by (relation "measure (\<lambda>(limit, order, byProvider, out). limit - length out)") (auto dest: share_round_decreases)

declare share_rounds.simps [simp del]

definition group_step :: "ModelProfile \<Rightarrow> (string, ModelProfile list) gomap \<Rightarrow> (string, ModelProfile list) gomap" where
  "group_step p out = gm_set (Provider p) (gm_at [] out (Provider p) @ [p]) out"

fun first_seen_providers :: "string list \<Rightarrow> ModelProfile list \<Rightarrow> string list" where
  "first_seen_providers seen [] = []"
| "first_seen_providers seen (p # ps) =
     (if Provider p \<in> set seen then first_seen_providers seen ps else Provider p # first_seen_providers (Provider p # seen) ps)"

definition shareAcrossProviders :: "ModelProfile list \<Rightarrow> nat \<Rightarrow> ModelProfile list" where
  "shareAcrossProviders pool limit = share_rounds limit (first_seen_providers [] pool) (fold group_step pool []) []"

section \<open>The catalogue\<close>

definition probe_less :: "(string \<times> string) \<times> ProbeRow \<Rightarrow> (string \<times> string) \<times> ProbeRow \<Rightarrow> bool" where
  "probe_less a b \<longleftrightarrow>
     (if pb_OK (snd a) \<noteq> pb_OK (snd b) then pb_OK (snd a) else pb_LatencyMs (snd a) < pb_LatencyMs (snd b))"

record ListedProbe = ProbeResult +
  lp_CheckedAt :: time

definition ListProbes :: "bool \<Rightarrow> probes \<Rightarrow> ListedProbe list option" where
  "ListProbes fails t =
     (if fails then None
      else Some (map (\<lambda>((p, m), row).
          \<lparr>pr_Provider = p, pr_Model = m, pr_OK = pb_OK row, pr_LatencyMs = pb_LatencyMs row,
           pr_Failure = (case pb_Failure row of None \<Rightarrow> [] | Some f \<Rightarrow> f), lp_CheckedAt = pb_CheckedAt row\<rparr>)
        (slice_stable probe_less t)))"

definition catalogue_limit :: nat where "catalogue_limit = 400"

record catalogue_entry =
  ct_Model :: string
  ct_Provider :: string
  ct_Free :: bool
  ct_Tasks :: "TaskType list"
  ct_Blacklisted :: bool
  ct_Prices :: "(float64 \<times> float64) option"
  ct_Probe :: "(bool \<times> string option) option"

definition catalogue_row :: "Catalog \<Rightarrow> (string, ListedProbe) gomap \<Rightarrow> ModelProfile \<Rightarrow> catalogue_entry" where
  "catalogue_row cat probed p =
     \<lparr>ct_Model = Model p, ct_Provider = Provider p, ct_Free = Free p, ct_Tasks = TagsFor cat (Provider p) (Model p),
      ct_Blacklisted = Blacklisted cat (Provider p) (Model p),
      ct_Prices = (if PriceKnown p then Some (InputCostPer1M p, OutputCostPer1M p) else None),
      ct_Probe = map_option (\<lambda>pr. (pr_OK pr, if pr_Failure pr \<noteq> [] then Some (pr_Failure pr) else None))
        (map_of probed (TagKey (Provider p) (Model p)))\<rparr>"

record catalogue_view =
  cv_Data :: "catalogue_entry list"
  cv_Total :: nat
  cv_Truncated :: bool
  cv_FreeOnly :: bool
  cv_Tagged :: "(TaskType, nat) gomap"

definition dashboardCatalogue :: "crypto \<Rightarrow> admin_io \<Rightarrow> rq \<Rightarrow> string \<Rightarrow> Console \<Rightarrow> catalogue_view view \<times> Console" where
  "dashboardCatalogue cy io r want c =
     viewing cy io r c (\<lambda>c'.
       let cat = catalog (co_gateway c');
           pool0 = FreeModels (ai_range io) cat;
           pool1 = (if want \<noteq> [] then filter (\<lambda>p. Provider p = want) pool0 else pool0);
           truncated = (length pool1 > catalogue_limit);
           pool2 = (if truncated then shareAcrossProviders pool1 catalogue_limit else pool1)
       in case ListProbes (ai_read_fails io) (co_probes c') of
            None \<Rightarrow> db_trouble
          | Some ps \<Rightarrow>
              View \<lparr>cv_Data = map (catalogue_row cat (fold (\<lambda>x. gm_set (TagKey (pr_Provider x) (pr_Model x)) x) ps [])) pool2,
                cv_Total = length pool1, cv_Truncated = truncated, cv_FreeOnly = freeOnlyFlag (co_gateway c'),
                cv_Tagged = TaggedCount cat\<rparr>)"

definition dashboardProbes :: "crypto \<Rightarrow> admin_io \<Rightarrow> rq \<Rightarrow> Console \<Rightarrow> (ListedProbe list \<times> nat \<times> nat) view \<times> Console" where
  "dashboardProbes cy io r c =
     viewing cy io r c (\<lambda>c'.
       case ListProbes (ai_read_fails io) (co_probes c') of
         None \<Rightarrow> db_trouble
       | Some ps \<Rightarrow> View (ps, length (filter pr_OK ps), length ps))"

section \<open>Scores\<close>

definition suitabilityLabel :: "Suitability \<Rightarrow> string" where
  "suitabilityLabel s =
     (case s of SuitabilityStrong \<Rightarrow> ''strong'' | SuitabilityPoor \<Rightarrow> ''poor'' | SuitabilityGeneral \<Rightarrow> ''general''
      | SuitabilityUnknown \<Rightarrow> ''unknown'')"

record modelScore =
  ms_Provider :: string
  ms_Model :: string
  ms_Attempts :: int
  ms_Successes :: int
  ms_SuccessRate :: float64
  ms_MedianMs :: int
  ms_Confidence :: float64
  ms_SuitsTask :: string
  ms_Score :: "float64 option"
  ms_BlendedCost :: "float64 option"

definition model_score :: "(string, ModelProfile) gomap \<Rightarrow> TaskType \<Rightarrow> Objective \<Rightarrow> ModelObservation \<Rightarrow> modelScore" where
  "model_score byKey task obj x =
     (let rel = reliability_of x;
          entry = \<lparr>ms_Provider = ob_Provider x, ms_Model = ob_Model x, ms_Attempts = ob_Attempts x, ms_Successes = ob_Successes x,
            ms_SuccessRate = SuccessRate rel, ms_MedianMs = ob_MedianLatencyMs x, ms_Confidence = Confidence rel,
            ms_SuitsTask = ''unknown'', ms_Score = None, ms_BlendedCost = None\<rparr>
      in case map_of byKey (ObservationKey (ob_Provider x) (ob_Model x)) of
           None \<Rightarrow> entry
         | Some p \<Rightarrow> entry\<lparr>ms_Score := Some (ScoreWithEvidence (p\<lparr>Measured := rel\<rparr>) task obj),
             ms_SuitsTask := suitabilityLabel (SuitabilityFor p task),
             ms_BlendedCost := (if PriceKnown p then Some (BlendedCostPer1M p) else None)\<rparr>)"

definition better_score :: "modelScore \<Rightarrow> modelScore \<Rightarrow> bool" where
  "better_score a b \<longleftrightarrow>
     (case (ms_Score a, ms_Score b) of
        (Some x, Some y) \<Rightarrow> x < y
      | (Some x, None) \<Rightarrow> True
      | (None, Some y) \<Rightarrow> False
      | (None, None) \<Rightarrow> ms_Model a < ms_Model b)"

definition dashboardScores ::
  "crypto \<Rightarrow> admin_io \<Rightarrow> rq \<Rightarrow> TaskType \<Rightarrow> usage_log \<Rightarrow> Console \<Rightarrow> (modelScore list \<times> TaskType) view \<times> Console" where
  "dashboardScores cy io r q_task ul c =
     viewing cy io r c (\<lambda>c'.
       let g = co_gateway c'; cat = catalog g; ord = ai_range io in
       case ObserveModels (ai_read_fails io) (ai_now io) (ObservationWindow (cfg g)) ul of
         None \<Rightarrow> db_trouble
       | Some observed \<Rightarrow>
           (let task = (if q_task = [] then TaskConversation else q_task);
                byKey = fold (\<lambda>p. gm_set (ObservationKey (Provider p) (Model p)) p) (FreeModels ord cat) []
            in View (slice_stable better_score
                  (map (model_score byKey task (RoutingObjective (cfg g)))
                    (filter (\<lambda>x. ObservationKey (ob_Provider x) (ob_Model x) \<in> freeModelKeys ord cat) observed)), task)))"

section \<open>What would run\<close>

fun once :: "string list \<Rightarrow> string list \<Rightarrow> string list" where
  "once seen [] = []"
| "once seen (name # names) = (if name = [] \<or> name \<in> set seen then once seen names else name # once (name # seen) names)"

definition routableChoices :: "string list \<Rightarrow> Catalog \<Rightarrow> string \<Rightarrow> string list" where
  "routableChoices ord cat defaultModel =
     once [] ((if defaultModel \<in> freeModelNames ord cat then [defaultModel] else []) @ Sentinels)"

definition plan_for ::
  "sealer \<Rightarrow> admin_io \<Rightarrow> ranges \<Rightarrow> string \<Rightarrow> Console \<Rightarrow> (PlannedStep list \<times> TaskType \<times> Unroutable option) option \<times> Console" where
  "plan_for sl io rs m c =
     (let stored_keys = (case ConfiguredKeys sl (ai_reload_fails io) c of Inl _ \<Rightarrow> None | Inr ks \<Rightarrow> Some ks);
          (ans, h) = Plan rs (ai_now io) (co_gateway c) m stored_keys (co_health c)
      in (ans, c\<lparr>co_health := h\<rparr>))"

definition dashboardRoute ::
  "crypto \<Rightarrow> sealer \<Rightarrow> admin_io \<Rightarrow> rq \<Rightarrow> ranges \<Rightarrow> string \<Rightarrow> Console \<Rightarrow>
    (string \<times> PlannedStep list \<times> TaskType \<times> Unroutable option) view \<times> Console" where
  "dashboardRoute cy sl io r rs q_model c =
     entering cy io r c (\<lambda>c'.
       let m = (if q_model = [] then ''auto'' else q_model) in
       case plan_for sl io rs m c' of
         (None, c2) \<Rightarrow> (ViewRefused (reply.Refused 500 ''provider keys unreadable''), c2)
       | (Some (steps, task, why), c2) \<Rightarrow> (View (m, steps, task, why), c2))"

record active_view =
  av_Live :: LiveStatus
  av_Choices :: "string list"
  av_FreeOnly :: bool
  av_Model :: string
  av_Next :: "(PlannedStep list \<times> TaskType \<times> Unroutable option) option"

definition dashboardActive ::
  "crypto \<Rightarrow> sealer \<Rightarrow> admin_io \<Rightarrow> rq \<Rightarrow> ranges \<Rightarrow> string \<Rightarrow> int list \<Rightarrow> liveState \<Rightarrow> Console \<Rightarrow> active_view view \<times> Console" where
  "dashboardActive cy sl io r rs q_model ord ls c =
     entering cy io r c (\<lambda>c'.
       let g = co_gateway c'; m = (if q_model = [] then DefaultModel (cfg g) else q_model);
           (next_chain, c2) = plan_for sl io rs m c'
       in (View \<lparr>av_Live = snapshot (ai_now io) ord ls, av_Choices = routableChoices (ai_range io) (catalog g) (DefaultModel (cfg g)),
             av_FreeOnly = freeOnlyFlag g, av_Model = m, av_Next = next_chain\<rparr>, c2))"

section \<open>Refreshing and probing on demand\<close>

definition dashboardDiscover ::
  "crypto \<Rightarrow> sealer \<Rightarrow> golib \<Rightarrow> admin_io \<Rightarrow> rq \<Rightarrow> ((Spec \<times> string) \<times> refresh_io) list \<Rightarrow> Console \<Rightarrow>
    (nat \<times> nat \<times> (string, nat) gomap) view \<times> Console" where
  "dashboardDiscover cy sl lib io r schedule c =
     entering cy io r c (\<lambda>c'.
       case ConfiguredKeys sl (ai_reload_fails io) c' of
         Inl _ \<Rightarrow> (ViewRefused (reply.Refused 502 ''provider keys unreadable''), c')
       | Inr ks \<Rightarrow>
           (let c2 = with_known (RefreshModels lib (Inr ks) schedule (known_of c')) c';
                cat = catalog (co_gateway c2); counts = DiscoveredCount cat
            in (View (sum_list (map snd counts), length (FreeModels (ai_range io) cat), counts), c2)))"

definition dashboardProbe ::
  "crypto \<Rightarrow> sealer \<Rightarrow> admin_io \<Rightarrow> rq \<Rightarrow> string list \<Rightarrow> (candidate \<times> probe_io) list \<Rightarrow> load_io \<Rightarrow> Console \<Rightarrow>
    ProbeSummary view \<times> Console" where
  "dashboardProbe cy sl io r r' steps lio c =
     entering cy io r c (\<lambda>c'.
       let stored_keys = (case ConfiguredKeys sl (ai_reload_fails io) c' of Inl _ \<Rightarrow> None | Inr ks \<Rightarrow> Some ks) in
       case ProbeModels (co_gateway c') stored_keys (ai_range io) r' steps lio (co_health c') (co_probes c') of
         (None, s, cat) \<Rightarrow> (ViewRefused (reply.Refused 502 ''provider keys unreadable''), c')
       | (Some sm, s, cat) \<Rightarrow>
           (View sm, (with_catalog cat c')\<lparr>co_health := sw_health s, co_probes := sw_probes s\<rparr>))"

end
