(* ===== verification/Dashboard_Facts.thy ===== *)
theory Dashboard_Facts
  imports Dashboard Operator_Facts
begin

text \<open>
  What the operator's views promise: a capped list keeps a share of every provider, pages continue where the last one
  ended, and what a view offers or marks is what routing does.
\<close>

section \<open>Sharing a cap\<close>

abbreviation at_provider :: "ModelProfile list \<Rightarrow> string \<Rightarrow> ModelProfile list" where
  "at_provider ps n \<equiv> filter (\<lambda>p. Provider p = n) ps"

definition taken :: "ModelProfile list \<Rightarrow> (string, ModelProfile list) gomap \<Rightarrow> ModelProfile list \<Rightarrow> (string \<Rightarrow> nat) \<Rightarrow> bool" where
  "taken pool byProvider out c \<longleftrightarrow>
     (\<forall>n. gm_at [] byProvider n = drop (c n) (at_provider pool n) \<and> at_provider out n = take (c n) (at_provider pool n) \<and>
          c n \<le> length (at_provider pool n))"

lemma takenD:
  assumes "taken pool byProvider out c"
  shows "gm_at [] byProvider n = drop (c n) (at_provider pool n)" "at_provider out n = take (c n) (at_provider pool n)"
    "c n \<le> length (at_provider pool n)"
  using assms by (simp_all add: taken_def)

lemma gm_at_group_step: "gm_at [] (group_step p by1) n = (if Provider p = n then gm_at [] by1 n @ [p] else gm_at [] by1 n)"
  by (auto simp: group_step_def)

lemma gm_at_groups: "gm_at [] (fold group_step pool by1) n = gm_at [] by1 n @ at_provider pool n"
  by (induction pool arbitrary: by1) (auto simp: gm_at_group_step)

lemma taken_start: "taken pool (fold group_step pool []) [] (\<lambda>n. 0)"
  by (simp add: taken_def gm_at_groups)

lemma first_seen_providers_set: "set (first_seen_providers seen ps) = Provider ` set ps - set seen"
  by (induction seen ps rule: first_seen_providers.induct) auto

lemma first_seen_providers_distinct: "distinct (first_seen_providers seen ps)"
  by (induction seen ps rule: first_seen_providers.induct) (auto simp: first_seen_providers_set)

lemma taken_next:
  assumes "taken pool byProvider out c" and "gm_at [] byProvider name = p # ps"
  shows "taken pool (gm_set name ps byProvider) (out @ [p]) (c(name := Suc (c name)))" and "c name < length (at_provider pool name)"
proof -
  note t = takenD [OF assms(1)]
  from t(1) [of name] assms(2) have d: "drop (c name) (at_provider pool name) = p # ps" by simp
  then show lt: "c name < length (at_provider pool name)" by (metis drop_all list.distinct(1) not_le)
  from d lt have p: "at_provider pool name ! c name = p" by (metis Cons_nth_drop_Suc list.inject)
  with lt have "p \<in> set (at_provider pool name)" by (metis nth_mem)
  then have prov: "Provider p = name" by simp
  from d lt have ps: "drop (Suc (c name)) (at_provider pool name) = ps" by (metis Cons_nth_drop_Suc list.inject)
  from p lt have "take (Suc (c name)) (at_provider pool name) = take (c name) (at_provider pool name) @ [p]"
    by (metis take_Suc_conv_app_nth)
  with t prov ps lt show "taken pool (gm_set name ps byProvider) (out @ [p]) (c(name := Suc (c name)))"
    unfolding taken_def by (auto simp: Suc_leI)
qed

lemma share_round_taken:
  assumes "taken pool byProvider out c" and "length out < limit" and "distinct names"
    and "share_round limit names byProvider out = (out', by', moved)"
  shows "\<exists>c'. taken pool by' out' c' \<and> (\<forall>n. c n \<le> c' n \<and> c' n \<le> (if n \<in> set names then Suc (c n) else c n)) \<and>
           (length out' = limit \<and> moved \<or>
            length out' < limit \<and> (moved \<longleftrightarrow> (\<exists>n\<in>set names. c n < length (at_provider pool n))) \<and>
            (\<forall>n. c' n = (if n \<in> set names \<and> c n < length (at_provider pool n) then Suc (c n) else c n)))"
  using assms
proof (induction names arbitrary: byProvider out c out' by' moved)
  case Nil
  then show ?case by auto
next
  case (Cons name names)
  show ?case
  proof (cases "gm_at [] byProvider name")
    case Nil
    with takenD [OF Cons.prems(1), of name] have full: "\<not> c name < length (at_provider pool name)" by simp
    from Nil Cons.prems(4) have "share_round limit names byProvider out = (out', by', moved)" by simp
    from Cons.IH [OF Cons.prems(1,2) _ this] Cons.prems(3) obtain c' where c': "taken pool by' out' c'"
        "\<forall>n. c n \<le> c' n \<and> c' n \<le> (if n \<in> set names then Suc (c n) else c n)"
        "length out' = limit \<and> moved \<or>
         length out' < limit \<and> (moved \<longleftrightarrow> (\<exists>n\<in>set names. c n < length (at_provider pool n))) \<and>
         (\<forall>n. c' n = (if n \<in> set names \<and> c n < length (at_provider pool n) then Suc (c n) else c n))" by auto
    from c'(2) have "\<forall>n. c n \<le> c' n \<and> c' n \<le> (if n \<in> set (name # names) then Suc (c n) else c n)"
      by (auto split: if_splits intro: le_SucI)
    moreover have "length out' = limit \<and> moved \<or>
         length out' < limit \<and> (moved \<longleftrightarrow> (\<exists>n\<in>set (name # names). c n < length (at_provider pool n))) \<and>
         (\<forall>n. c' n = (if n \<in> set (name # names) \<and> c n < length (at_provider pool n) then Suc (c n) else c n))"
      using c'(3) full by auto
    ultimately show ?thesis using c'(1) by blast
  next
    case (Cons p ps)
    note nx = taken_next [OF Cons.prems(1) Cons]
    let ?c1 = "c(name := Suc (c name))"
    show ?thesis
    proof (cases "length (out @ [p]) = limit")
      case True
      with Cons.prems(4) Cons have "out' = out @ [p]" "by' = gm_set name ps byProvider" "moved" by (simp_all add: Let_def)
      with nx True show ?thesis by (intro exI [of _ ?c1]) (auto simp: fun_upd_def)
    next
      case False
      obtain m2 where r: "share_round limit names (gm_set name ps byProvider) (out @ [p]) = (out', by', m2)" and m: "moved"
        using Cons.prems(4) Cons False by (auto simp: Let_def split: prod.splits)
      from False Cons.prems(2) have "length (out @ [p]) < limit" by simp
      from Cons.IH [OF nx(1) this _ r] Cons.prems(3) obtain c' where c': "taken pool by' out' c'"
          "\<forall>n. ?c1 n \<le> c' n \<and> c' n \<le> (if n \<in> set names then Suc (?c1 n) else ?c1 n)"
          "length out' = limit \<and> m2 \<or> length out' < limit \<and> (m2 \<longleftrightarrow> (\<exists>n\<in>set names. ?c1 n < length (at_provider pool n))) \<and>
            (\<forall>n. c' n = (if n \<in> set names \<and> ?c1 n < length (at_provider pool n) then Suc (?c1 n) else ?c1 n))" by auto
      from c'(2) Cons.prems(3) have b: "\<forall>n. c n \<le> c' n \<and> c' n \<le> (if n \<in> set (name # names) then Suc (c n) else c n)"
        by (auto split: if_splits intro: Suc_leD)
      from c'(3) m nx(2) Cons.prems(3) have "length out' = limit \<and> moved \<or>
            length out' < limit \<and> (moved \<longleftrightarrow> (\<exists>n\<in>set (name # names). c n < length (at_provider pool n))) \<and>
            (\<forall>n. c' n = (if n \<in> set (name # names) \<and> c n < length (at_provider pool n) then Suc (c n) else c n))"
        by auto
      with c'(1) b show ?thesis by blast
    qed
  qed
qed

lemma taken_length:
  assumes "taken pool byProvider out c"
  shows "mset out \<subseteq># mset pool" and "\<forall>n. c n = length (at_provider pool n) \<Longrightarrow> length out = length pool"
proof -
  have cnt: "count (mset xs) x = count (mset (at_provider xs (Provider x))) x" for xs :: "ModelProfile list" and x
    by (induction xs) auto
  show "mset out \<subseteq># mset pool"
  proof (rule mset_subset_eqI)
    fix x :: ModelProfile
    have "mset (at_provider out (Provider x)) \<subseteq># mset (at_provider pool (Provider x))"
      unfolding takenD(2) [OF assms, of "Provider x"]
      by (metis append_take_drop_id mset_append mset_subset_eq_add_left)
    then show "count (mset out) x \<le> count (mset pool) x"
      unfolding cnt [of out] cnt [of pool] by (rule mset_subset_eq_count)
  qed
  assume full: "\<forall>n. c n = length (at_provider pool n)"
  have "mset out = mset pool"
  proof (rule multiset_eqI)
    fix x :: ModelProfile
    show "count (mset out) x = count (mset pool) x"
      unfolding cnt [of out] cnt [of pool] takenD(2) [OF assms, of "Provider x"] using full by simp
  qed
  then show "length out = length pool" by (rule mset_eq_length)
qed

lemma share_rounds_taken:
  assumes "taken pool byProvider out c" and "length out \<le> limit" and "distinct order" and "Provider ` set pool \<subseteq> set order"
    and "\<forall>n. c n = min k (length (at_provider pool n))"
  shows "\<exists>c' k'. (\<exists>by'. taken pool by' (share_rounds limit order byProvider out) c') \<and>
           (\<forall>n. min k' (length (at_provider pool n)) \<le> c' n \<and> c' n \<le> Suc k') \<and>
           (length (share_rounds limit order byProvider out) = limit \<or>
            length (share_rounds limit order byProvider out) < limit \<and> (\<forall>n. c' n = length (at_provider pool n)))"
  using assms
proof (induction limit order byProvider out arbitrary: c k rule: share_rounds.induct)
  case (1 limit order byProvider out)
  show ?case
  proof (cases "length out < limit")
    case False
    with 1(3) have "share_rounds limit order byProvider out = out" "length out = limit" by (simp_all add: share_rounds.simps)
    with 1(2,6) show ?thesis by (intro exI [of _ c] exI [of _ k]) auto
  next
    case True
    obtain out' by' moved where r: "share_round limit order byProvider out = (out', by', moved)" by (metis prod_cases3)
    from share_round_taken [OF 1(2) True 1(4) r] obtain c' where c': "taken pool by' out' c'"
        "\<forall>n. c n \<le> c' n \<and> c' n \<le> (if n \<in> set order then Suc (c n) else c n)"
        "length out' = limit \<and> moved \<or>
         length out' < limit \<and> (moved \<longleftrightarrow> (\<exists>n\<in>set order. c n < length (at_provider pool n))) \<and>
         (\<forall>n. c' n = (if n \<in> set order \<and> c n < length (at_provider pool n) then Suc (c n) else c n))" by blast
    have out_of: "at_provider pool n = []" if "n \<notin> set order" for n
      using that 1(5) by (auto simp: filter_empty_conv)
    have rounds: "share_rounds limit order byProvider out = (if moved then share_rounds limit order by' out' else out')"
      using True r by (simp add: share_rounds.simps [of limit order byProvider out])
    have between: "min k (length (at_provider pool n)) \<le> c' n \<and> c' n \<le> Suc k" for n
      using c'(2) 1(6) by (metis (full_types) Suc_le_mono le_SucI le_trans min.cobounded1)
    show ?thesis
    proof (cases "length out' = limit")
      case full: True
      with c'(3) rounds have "share_rounds limit order byProvider out = out'" by (auto simp: share_rounds.simps)
      with c'(1) between full show ?thesis by (intro exI [of _ c'] exI [of _ k]) auto
    next
      case False
      with c'(3) have lt: "length out' < limit" and mv: "moved \<longleftrightarrow> (\<exists>n\<in>set order. c n < length (at_provider pool n))"
        and cn: "\<forall>n. c' n = (if n \<in> set order \<and> c n < length (at_provider pool n) then Suc (c n) else c n)" by auto
      show ?thesis
      proof (cases moved)
        case mt: True
        have "\<forall>n. c' n = min (Suc k) (length (at_provider pool n))"
        proof
          fix n show "c' n = min (Suc k) (length (at_provider pool n))"
            using cn 1(6) out_of [of n] by (cases "n \<in> set order") auto
        qed
        from 1(1) [OF True r [symmetric] refl mt c'(1) _ 1(4,5) this] lt rounds mt show ?thesis by simp
      next
        case mf: False
        have "\<forall>n. c' n = length (at_provider pool n)"
        proof
          fix n show "c' n = length (at_provider pool n)"
            using cn mv mf 1(6) out_of [of n] takenD(3) [OF 1(2), of n] by (cases "n \<in> set order") auto
        qed
        moreover from rounds mf have "share_rounds limit order byProvider out = out'" by simp
        ultimately show ?thesis using c'(1) between lt by (intro exI [of _ c'] exI [of _ k]) (metis (no_types, lifting))
      qed
    qed
  qed
qed

text \<open>
  C26. A capped list is as long as the cap allows, takes the first models of every provider in their order, and gives no
  provider two more than another that still has models left.
\<close>

theorem share_is_fair:
  "length (shareAcrossProviders pool limit) = min limit (length pool) \<and>
   mset (shareAcrossProviders pool limit) \<subseteq># mset pool \<and>
   (\<forall>n m. \<exists>c. at_provider (shareAcrossProviders pool limit) n = take c (at_provider pool n) \<and>
      (length (at_provider (shareAcrossProviders pool limit) m) \<le> Suc c \<or> c = length (at_provider pool n)))"
proof -
  let ?order = "first_seen_providers [] pool" and ?out = "shareAcrossProviders pool limit"
  have "\<exists>c' k'. (\<exists>by'. taken pool by' ?out c') \<and>
      (\<forall>n. min k' (length (at_provider pool n)) \<le> c' n \<and> c' n \<le> Suc k') \<and>
      (length ?out = limit \<or> length ?out < limit \<and> (\<forall>n. c' n = length (at_provider pool n)))"
    unfolding shareAcrossProviders_def
    by (rule share_rounds_taken [OF taken_start, where k = 0])
      (simp_all add: first_seen_providers_distinct first_seen_providers_set)
  then obtain c k by' where t: "taken pool by' ?out c"
      and b: "\<And>n. min k (length (at_provider pool n)) \<le> c n \<and> c n \<le> Suc k"
      and l: "length ?out = limit \<or> length ?out < limit \<and> (\<forall>n. c n = length (at_provider pool n))"
    by blast
  note sub = taken_length(1) [OF t]
  from size_mset_mono [OF sub] have "length ?out \<le> length pool" by simp
  with l taken_length(2) [OF t] have len: "length ?out = min limit (length pool)" by (auto simp: min_def)
  have fair: "at_provider ?out n = take (c n) (at_provider pool n) \<and>
      (length (at_provider ?out m) \<le> Suc (c n) \<or> c n = length (at_provider pool n))" for n m
  proof -
    have m: "length (at_provider ?out m) = c m" using takenD(2,3) [OF t, of m] by simp
    show ?thesis using takenD(2,3) [OF t, of n] b [of n] b [of m] m by (auto simp: min_def split: if_splits)
  qed
  with sub len show ?thesis by blast
qed

section \<open>The dry run\<close>

lemma planned_steps_cands:
  "map (\<lambda>s. cand (PlannedStep.ps_Provider s) (ps_Model s)) (fst (planned_steps now cs h)) = cs"
  by (induction now cs h rule: planned_steps.induct) (auto split: prod.splits)

lemma planned_steps_query:
  "swept now h (snd (planned_steps now cs h)) \<and>
   map Benched (fst (planned_steps now cs h)) = map (is_benched now h) cs \<and>
   map Cooldown (fst (planned_steps now cs h)) = map (\<lambda>c. \<not> allow now (cand_provider c) h) cs"
proof (induction cs arbitrary: h)
  case (Cons c cs)
  obtain b h1 where b: "benched now c h = (b, h1)" by fastforce
  with benched_spec [where now = now and c = c and h = h] have sw: "swept now h h1" and B: "b = is_benched now h c" by simp_all
  from sw have "is_benched now h1 = is_benched now h" by (simp add: swept_is_benched)
  with Cons.IH [of h1] b B sw show ?case by (auto simp: Let_def split_beta intro: swept_trans)
qed simp

lemma refusing_at_swept: "swept now h (snd (refusing_at now g c ps h))"
proof (induction ps arbitrary: h)
  case (Cons p ps)
  obtain a h1 where a: "available now g c h = (a, h1)" by fastforce
  with available_query [of now g c h] have "swept now h h1" by simp
  with Cons.IH [of h] Cons.IH [of h1] a show ?case by (auto intro: swept_trans)
qed simp

lemma any_refusing_swept: "swept now h (snd (any_refusing r now g cs h))"
proof (induction cs arbitrary: h)
  case (Cons c cs)
  let ?ps = "Resolve (resolving r (cand_model c)) (catalog g) (cand_model c)"
  obtain b h1 where b: "refusing_at now g c ?ps h = (b, h1)" by fastforce
  with refusing_at_swept [of now h g c ?ps] have "swept now h h1" by simp
  with Cons.IH [of h1] b show ?case by (auto intro: swept_trans)
qed simp

lemma unroutable_swept: "swept now h (snd (unroutable r now g req keys again h))"
  using any_refusing_swept
  by (auto simp: unroutable_def namedButUnavailable_def Let_def split_beta split: option.splits)

lemma plan_depends:
  assumes "ReqModel req' = ReqModel req"
    and "in_task (intentFor (ReqModel req)) \<noteq> [] \<or> DetectTask (lastUserPrompt req') = DetectTask (lastUserPrompt req) \<or>
      \<not> gw_freeOnly g (ReqModel req) \<and> \<not> smartRouting g (ReqModel req)"
  shows "fst (fst (plan r now g req' keys h)) = fst (fst (plan r now g req keys h))"
  using assms by (auto simp: plan_def planCandidates_def Let_def split: prod.splits)

text \<open>
  C27. The chain the console shows for a model is the chain a request for it would be tried on, unless the task is read off the
  prompt and the request's differs from that of a greeting; each step says whether its model is benched and its
  provider in cooldown. Showing it sends nothing and changes nothing but what a question does: it forgets entries of the
  bench that have expired, so no later question is answered differently, and touches no breaker.
\<close>

theorem dry_run_is_the_plan:
  assumes "admin_guard cy (ai_auth_fails io) (ai_now io) r c = (None, c')" and "ConfiguredKeys sl (ai_reload_fails io) c' = Inr ks"
    and "m \<noteq> []" and "ReqModel req = m"
    and "in_task (intentFor m) \<noteq> [] \<or> DetectTask (lastUserPrompt req) = DetectTask ''hello'' \<or>
      \<not> gw_freeOnly (co_gateway c') m \<and> \<not> smartRouting (co_gateway c') m"
  shows "\<exists>steps task why h. dashboardRoute cy sl io r rs m c = (View (m, steps, task, why), c'\<lparr>co_health := h\<rparr>) \<and>
      map (\<lambda>s. cand (PlannedStep.ps_Provider s) (ps_Model s)) steps =
        fst (fst (plan rs (ai_now io) (co_gateway c') req ks (co_health c'))) \<and>
      map Benched steps = map (is_benched (ai_now io) (co_health c')) (map (\<lambda>s. cand (PlannedStep.ps_Provider s) (ps_Model s)) steps) \<and>
      map Cooldown steps = map (\<lambda>s. \<not> allow (ai_now io) (PlannedStep.ps_Provider s) (co_health c')) steps \<and>
      (steps = [] \<longleftrightarrow> why \<noteq> None) \<and>
      swept (ai_now io) (co_health c') h \<and> breakers h = breakers (co_health c')"
proof -
  let ?g = "co_gateway c'" and ?hello = "model_request m [text_message ''user'' ''hello'']"
  obtain cs task h1 where p: "plan rs (ai_now io) ?g ?hello ks (co_health c') = ((cs, task), h1)" by (metis prod_cases3 prod.collapse)
  obtain steps h2 where st: "planned_steps (ai_now io) cs h1 = (steps, h2)" by force
  obtain why h3 where u: "unroutable rs (ai_now io) ?g ?hello ks (Some ks) h2 = (why, h3)" by force
  have prompt: "lastUserPrompt ?hello = ''hello''" by (simp add: lastUserPrompt_def text_message_def)
  let ?now = "ai_now io" and ?old = "co_health c'" and ?new = "if steps = [] then h3 else h2"
  have "ReqModel ?hello = ReqModel req" using assms(4) by simp
  moreover have "in_task (intentFor (ReqModel req)) \<noteq> [] \<or>
      DetectTask (lastUserPrompt ?hello) = DetectTask (lastUserPrompt req) \<or>
      \<not> gw_freeOnly ?g (ReqModel req) \<and> \<not> smartRouting ?g (ReqModel req)"
    using assms(5) unfolding assms(4) prompt by metis
  ultimately have same_plan: "cs = fst (fst (plan rs ?now ?g req ks ?old))"
    using plan_depends [of ?hello req ?g rs ?now ks ?old] p by simp
  have cands: "map (\<lambda>s. cand (PlannedStep.ps_Provider s) (ps_Model s)) steps = cs"
    using planned_steps_cands [of ?now cs h1] st by simp
  have h1: "swept ?now ?old h1" using plan_query(2) [of ?now ?old rs ?g ?hello ks] p by simp
  have q: "swept ?now h1 h2" "map Benched steps = map (is_benched ?now h1) cs"
    "map Cooldown steps = map (\<lambda>c. \<not> allow ?now (cand_provider c) h1) cs"
    using planned_steps_query [of ?now h1 cs] st by simp_all
  have "is_benched ?now h1 = is_benched ?now ?old" using h1 by (simp add: swept_is_benched)
  with q(2) have benched: "map Benched steps = map (is_benched ?now ?old) cs" by simp
  have cool: "map Cooldown steps = map (\<lambda>s. \<not> allow ?now (PlannedStep.ps_Provider s) ?old) steps"
    using q(3) unfolding cands [symmetric] by (simp add: swept_allow [OF h1] o_def)
  have "swept ?now h2 h3" using unroutable_swept [of ?now h2 rs ?g ?hello ks "Some ks"] u by simp
  then have "swept ?now ?old h2" "swept ?now ?old h3" using h1 q(1) swept_trans by blast+
  then have sw: "swept ?now ?old ?new" by simp
  then have br: "breakers ?new = breakers ?old" by (simp only: swept_def)
  have page: "dashboardRoute cy sl io r rs m c =
      (View (m, steps, task, if steps = [] then Some why else None), c'\<lparr>co_health := ?new\<rparr>)"
    using assms(1-3) p st u by (simp add: dashboardRoute_def entering_def plan_for_def Plan_def Let_def)
  show ?thesis
    by (intro exI [of _ steps] exI [of _ task] exI [of _ "if steps = [] then Some why else None"] exI [of _ ?new] conjI
        page cands cool sw br) (simp_all add: cands same_plan [symmetric] benched)
qed

lemma dry_run_is_the_plan_witness:
  "\<exists>steps task why h. dashboardRoute toy_crypto toy_sealer calm token_request small_ranges ''auto:code'' open_console =
     (View (''auto:code'', steps, task, why), open_console\<lparr>co_health := h\<rparr>)"
proof -
  have k: "ConfiguredKeys toy_sealer (ai_reload_fails calm) open_console = Inr []"
    by (simp add: ConfiguredKeys_def ProviderKeys_def open_console_def)
  have t: "in_task (intentFor ''auto:code'') \<noteq> []" by code_simp
  have grd: "admin_guard toy_crypto (ai_auth_fails calm) (ai_now calm) token_request open_console = (None, open_console)"
    using open_guard by simp
  show ?thesis
    using dry_run_is_the_plan [OF grd k, where m = "''auto:code''" and req = "model_request ''auto:code'' []" and rs = small_ranges] t
    by (simp only: model_request_fields list.distinct simp_thms) blast
qed

section \<open>Pages of the usage log\<close>

text \<open>A page holds what the log has there, newest first, and says another follows exactly when the log goes on.\<close>

lemma dashboardUsage_page:
  assumes "admin_guard cy (ai_auth_fails io) (ai_now io) r c = (None, c')" and "\<not> ai_read_fails io"
    and "page_limit q_limit = int n_rows" and "number_of q_offset = int n_off"
  shows "fst (dashboardUsage cy io r q_limit q_offset ul c) =
    View (map (usage_entry (client_keys (co_vault c'))) (take n_rows (drop n_off (newest_first ul))), n_off + n_rows < length ul)"
proof -
  have "0 < n_rows \<and> n_rows \<le> 500" using assms(3) by (simp add: page_limit_def Let_def split: if_splits)
  moreover have "length (newest_first ul) = length ul" by (simp add: newest_first_def)
  ultimately show ?thesis
    using assms by (auto simp: dashboardUsage_def viewing_def entering_def RecentUsage_def Let_def take_map min_def nat_add_distrib)
qed

section \<open>Scores and choices\<close>

lemma free_keys_indexed:
  "key \<in> key_of ` set ps \<Longrightarrow> \<exists>p \<in> set ps. map_of (fold (\<lambda>p. gm_set (key_of p) p) ps m) key = Some p \<and> key_of p = key"
  by (induction ps arbitrary: m rule: rev_induct) auto

text \<open>Every model listed with a score has one: the branch for a model without a profile is never taken.\<close>

lemma every_score_is_known:
  assumes "fst (dashboardScores cy io r task ul c) = View (rows, t)" and "row \<in> set rows"
  shows "ms_Score row \<noteq> None \<and> ms_SuitsTask row \<in> {''strong'', ''general'', ''poor'', ''unknown''}"
proof -
  obtain cat ord observed obj x where "row = model_score (fold (\<lambda>p. gm_set (ObservationKey (Provider p) (Model p)) p) (FreeModels ord cat) []) t obj x"
      and "ObservationKey (ob_Provider x) (ob_Model x) \<in> freeModelKeys ord cat"
    using assms by (auto simp: dashboardScores_def viewing_def entering_def Let_def db_trouble_def split: prod.splits option.splits)
  with free_keys_indexed [of "ObservationKey (ob_Provider x) (ob_Model x)" "\<lambda>p. ObservationKey (Provider p) (Model p)" "FreeModels ord cat" "[]"]
  show ?thesis by (auto simp: model_score_def freeModelKeys_def Let_def suitabilityLabel_def split: Suitability.splits)
qed

lemma once_spec: "distinct (once seen names) \<and> set (once seen names) = set names - insert [] (set seen)"
  by (induction seen names rule: once.induct) auto

text \<open>The picker offers every alias once, and the default model only when some provider serves it free.\<close>

lemma routableChoices_spec:
  "distinct (routableChoices ord cat d) \<and>
   set (routableChoices ord cat d) = set Sentinels \<union> ({d} \<inter> freeModelNames ord cat - {[]})"
proof -
  have "[] \<notin> set Sentinels" by (simp add: Sentinels_def sentinel_defs)
  then show ?thesis using once_spec [of "[]"] by (auto simp: routableChoices_def)
qed

end
