(* ===== verification/Playground.thy ===== *)
theory Playground
  imports Dashboard
begin

text \<open>
  The playground and the chat card of the operator's page (\<open>internal/api/playground.go\<close>): from the body of the request to
  the chat request the gateway is given, and from its answer to what the page shows. What the gateway answers is an
  argument: \<open>Complete\<close> of the theory \<open>Attempts\<close>, its error as text.
\<close>

definition playgroundMaxTokens :: int where "playgroundMaxTokens = 2048"

definition chatMaxTokens :: int where "chatMaxTokens = 2048"

definition chatMaxTurns :: nat where "chatMaxTurns = 20"

record chatMessage =
  cm_Role :: string
  cm_Content :: string

record chat_form =
  cf_Model :: string
  cf_Messages :: "chatMessage list"
  cf_Temperature :: "float64 option"
  cf_MaxTokens :: int

record playground_form =
  pf_Model :: string
  pf_System :: string
  pf_Prompt :: string
  pf_Temperature :: "float64 option"
  pf_MaxTokens :: int

section \<open>Requests\<close>

definition capped :: "int \<Rightarrow> int \<Rightarrow> int" where
  "capped limit n = (if n \<le> 0 \<or> n > limit then limit else n)"

fun chat_turns :: "chatMessage list \<Rightarrow> Message list option" where
  "chat_turns [] = Some []"
| "chat_turns (m # ms) =
     (let role = TrimSpace (ToLower (cm_Role m)); content = TrimSpace (cm_Content m) in
      if role \<noteq> ''user'' \<and> role \<noteq> ''assistant'' \<and> role \<noteq> ''system'' then None
      else case chat_turns ms of
          None \<Rightarrow> None
        | Some rest \<Rightarrow> Some (if content \<noteq> [] then text_message role content # rest else rest))"

definition chat_request :: "chat_form \<Rightarrow> reply + ChatRequest" where
  "chat_request f =
     (case chat_turns (cf_Messages f) of
        None \<Rightarrow> Inl (reply.Refused 400 ''message role must be user, assistant or system'')
      | Some ms \<Rightarrow>
          if ms = [] then Inl (reply.Refused 400 ''messages must contain at least one non-empty message'')
          else Inr ((model_request (TrimSpace (cf_Model f)) (if length ms > chatMaxTurns then drop (length ms - chatMaxTurns) ms else ms))
            \<lparr>MaxTokens := capped chatMaxTokens (cf_MaxTokens f), Temperature := cf_Temperature f\<rparr>))"

definition playground_request :: "playground_form \<Rightarrow> reply + ChatRequest" where
  "playground_request f =
     (let prompt = TrimSpace (pf_Prompt f); system = TrimSpace (pf_System f) in
      if prompt = [] then Inl (reply.Refused 400 ''prompt is required'')
      else Inr ((model_request (TrimSpace (pf_Model f))
          ((if system \<noteq> [] then [text_message ''system'' system] else []) @ [text_message ''user'' prompt]))
        \<lparr>MaxTokens := capped playgroundMaxTokens (pf_MaxTokens f), Temperature := pf_Temperature f\<rparr>))"

section \<open>What the page shows\<close>

record chatResult =
  cr_Requested :: string
  cr_Answered :: string
  cr_Provider :: string
  cr_Content :: string
  cr_LatencyMs :: int
  cr_TokensIn :: int
  cr_TokensOut :: int
  cr_CacheHit :: bool
  cr_FreeModel :: bool
  cr_PriceKnown :: bool

record playgroundResult = chatResult +
  pg_CostUSD :: "float64 option"

definition answered_by :: "string list \<Rightarrow> Catalog \<Rightarrow> string \<Rightarrow> duration \<Rightarrow> ChatResponse \<Rightarrow> chatResult" where
  "answered_by ord cat requested took resp =
     (let found = Lookup ord cat (RespModel resp) in
      \<lparr>cr_Requested = requested, cr_Answered = RespModel resp,
       cr_Provider = (case found of None \<Rightarrow> [] | Some p \<Rightarrow> Provider p),
       cr_Content = completionText (Some resp), cr_LatencyMs = Milliseconds took,
       cr_TokensIn = (case RespUsage resp of None \<Rightarrow> 0 | Some u \<Rightarrow> PromptTokens u),
       cr_TokensOut = (case RespUsage resp of None \<Rightarrow> 0 | Some u \<Rightarrow> CompletionTokens u),
       cr_CacheHit = HasPrefix (resp_ID resp) ''chatcmpl-cache-'',
       cr_FreeModel = (case found of None \<Rightarrow> False | Some p \<Rightarrow> Free p),
       cr_PriceKnown = (case found of None \<Rightarrow> False | Some p \<Rightarrow> PriceKnown p)\<rparr>)"

definition chat ::
  "crypto \<Rightarrow> admin_io \<Rightarrow> rq \<Rightarrow> chat_form option \<Rightarrow> (ChatRequest \<Rightarrow> string + ChatResponse) \<Rightarrow> duration \<Rightarrow> Console \<Rightarrow>
    chatResult view \<times> Console" where
  "chat cy io r body gateway took c =
     viewing cy io r c (\<lambda>c'.
       case body of
         None \<Rightarrow> ViewRefused (reply.Refused 400 ''invalid JSON body'')
       | Some f \<Rightarrow>
           (case chat_request f of
              Inl no \<Rightarrow> ViewRefused no
            | Inr req \<Rightarrow>
                (case gateway req of
                   Inl e \<Rightarrow> ViewRefused (reply.Refused 502 e)
                 | Inr resp \<Rightarrow> View (answered_by (ai_range io) (catalog (co_gateway c')) (ReqModel req) took resp))))"

definition playground ::
  "crypto \<Rightarrow> admin_io \<Rightarrow> rq \<Rightarrow> playground_form option \<Rightarrow> (ChatRequest \<Rightarrow> string + ChatResponse) \<Rightarrow> duration \<Rightarrow> Console \<Rightarrow>
    playgroundResult view \<times> Console" where
  "playground cy io r body gateway took c =
     viewing cy io r c (\<lambda>c'.
       case body of
         None \<Rightarrow> ViewRefused (reply.Refused 400 ''invalid JSON body'')
       | Some f \<Rightarrow>
           (case playground_request f of
              Inl no \<Rightarrow> ViewRefused no
            | Inr req \<Rightarrow>
                (case gateway req of
                   Inl e \<Rightarrow> ViewRefused (reply.Refused 502 e)
                 | Inr resp \<Rightarrow>
                     (let cat = catalog (co_gateway c'); res = answered_by (ai_range io) cat (ReqModel req) took resp in
                      View (chatResult.extend res (playgroundResult.fields
                        (case Lookup (ai_range io) cat (RespModel resp) of
                           Some p \<Rightarrow> if PriceKnown p then Some (CostUSD p (cr_TokensIn res) (cr_TokensOut res)) else None
                         | None \<Rightarrow> None)))))))"

section \<open>What a turn carries\<close>

lemma chat_turns_text: "chat_turns ms = Some out \<Longrightarrow> m \<in> set out \<Longrightarrow> MsgContent m \<noteq> []"
  by (induction ms arbitrary: out) (auto simp: Let_def text_message_def split: if_splits option.splits)

text \<open>
  A turn of the chat carries the last twenty messages at most, at least one, none of them empty, and asks for at most
  2048 tokens.
\<close>

lemma chat_request_bounds:
  assumes "chat_request f = Inr req"
  shows "Messages req \<noteq> [] \<and> length (Messages req) \<le> 20 \<and> (\<forall>m \<in> set (Messages req). MsgContent m \<noteq> []) \<and>
    0 < MaxTokens req \<and> MaxTokens req \<le> 2048 \<and> \<not> Stream req \<and> Raw req = None"
proof -
  from assms obtain ms where "chat_turns (cf_Messages f) = Some ms" "ms \<noteq> []" and
      req: "req = (model_request (TrimSpace (cf_Model f)) (if length ms > chatMaxTurns then drop (length ms - chatMaxTurns) ms else ms))
        \<lparr>MaxTokens := capped chatMaxTokens (cf_MaxTokens f), Temperature := cf_Temperature f\<rparr>"
    by (auto simp: chat_request_def split: option.splits if_splits)
  then show ?thesis using chat_turns_text [of "cf_Messages f" ms]
    by (auto simp: req chatMaxTurns_def chatMaxTokens_def capped_def model_request_def dest: in_set_dropD)
qed

text \<open>A long chat loses its oldest message first, and that is the system prompt.\<close>

lemma chat_forgets_its_system_prompt:
  "map_sum id (\<lambda>req. map Role (Messages req))
     (chat_request \<lparr>cf_Model = [], cf_Messages = \<lparr>cm_Role = ''system'', cm_Content = ''s''\<rparr> #
        replicate 20 \<lparr>cm_Role = ''user'', cm_Content = ''u''\<rparr>, cf_Temperature = None, cf_MaxTokens = 0\<rparr>) =
   Inr (replicate 20 ''user'')"
  by code_simp

text \<open>
  The provider shown is the one the catalogue finds for the model that answered, whatever provider answered: two answers
  for one model are shown under one provider.
\<close>

lemma provider_shown_is_looked_up:
  "RespModel a = RespModel b \<Longrightarrow>
     cr_Provider (answered_by ord cat q l a) = cr_Provider (answered_by ord cat q' l' b)"
  by (simp add: answered_by_def Let_def)

text \<open>A reply out of the cache is marked as one.\<close>

lemma cached_reply_is_marked: "cr_CacheHit (answered_by ord cat q l (cachedResponse now m content))"
  by (simp add: answered_by_def Let_def cachedResponse_def)

end
