(* ===== verification/Model_List.thy ===== *)
theory Model_List
  imports Dashboard Operator_Facts
begin

text \<open>
  The model list and the health check of the HTTP surface (\<open>internal/api/handler.go\<close>): which models are advertised to a
  client, with which prices, and which routing names.
\<close>

section \<open>The list\<close>

definition freeRouterModel :: string where "freeRouterModel = ''auto:free''"

record modelEntry =
  me_ID :: string
  me_OwnedBy :: string
  me_Prices :: "(float64 \<times> float64) option"
  me_Free :: "bool option"

definition entry_of :: "ModelProfile \<Rightarrow> modelEntry" where
  "entry_of p =
     \<lparr>me_ID = Model p, me_OwnedBy = Provider p,
      me_Prices = (if PriceKnown p then Some (InputCostPer1M p, OutputCostPer1M p) else None),
      me_Free = (if PriceKnown p then Some (Free p) else None)\<rparr>"

fun first_of_each :: "(string, bool) gomap \<Rightarrow> string list \<Rightarrow> ModelProfile list \<Rightarrow> ModelProfile list" where
  "first_of_each configured seen [] = []"
| "first_of_each configured seen (p # ps) =
     (if \<not> gm_at False configured (Provider p) \<or> Model p \<in> set seen then first_of_each configured seen ps
      else p # first_of_each configured (Model p # seen) ps)"

definition by_id :: "modelEntry \<Rightarrow> modelEntry \<Rightarrow> bool" where
  "by_id a b \<longleftrightarrow> me_ID a < me_ID b"

definition sentinel_entries :: "bool \<Rightarrow> modelEntry list" where
  "sentinel_entries hasFree =
     map (\<lambda>name. \<lparr>me_ID = name, me_OwnedBy = ''coderouter'', me_Prices = None,
           me_Free = (if name = freeRouterModel then Some True else None)\<rparr>)
       (filter (\<lambda>name. name = freeRouterModel \<longrightarrow> hasFree) Sentinels)"

definition advertised :: "Config \<Rightarrow> Catalog \<Rightarrow> string list \<Rightarrow> bool \<Rightarrow> (string, bool) gomap \<Rightarrow> modelEntry list" where
  "advertised config cat ord only_free configured =
     (let pool = (if only_free then FreeModels ord cat else Discovered ord cat @ profiles cat);
          data = slice_stable by_id (map entry_of (first_of_each configured [] pool))
      in if RoutingMode config \<noteq> ''off'' \<and> data \<noteq> [] then sentinel_entries (FreeModels ord cat \<noteq> []) @ data else data)"

datatype models_reply = ModelsRefused reply | ModelsListed "modelEntry list"

definition handleModels ::
  "crypto \<Rightarrow> sealer \<Rightarrow> admin_io \<Rightarrow> rq \<Rightarrow> string \<Rightarrow> Console \<Rightarrow> models_reply \<times> Console" where
  "handleModels cy sl io r q_free c =
     (case authorize cy (ai_auth_fails io) (ai_now io) r (client_keys (co_vault c)) of
        (Inl no, ks) \<Rightarrow> (ModelsRefused no, c\<lparr>co_vault := (co_vault c)\<lparr>client_keys := ks\<rparr>\<rparr>)
      | (Inr key, ks) \<Rightarrow>
          (let c' = c\<lparr>co_vault := (co_vault c)\<lparr>client_keys := ks\<rparr>\<rparr>; g = co_gateway c' in
           case ConfiguredProviders sl (ai_reload_fails io) c' of
             Inl _ \<Rightarrow> (ModelsRefused (reply.Refused 500 ''failed to load providers''), c')
           | Inr configured \<Rightarrow>
               (ModelsListed (advertised (cfg g) (catalog g) (ai_range io) (q_free = ''true'' \<or> freeOnlyFlag g) configured), c')))"

section \<open>Health\<close>

record health_reply =
  hl_Code :: int
  hl_Status :: string
  hl_Providers :: "(string, bool) gomap option"
  hl_MQTT :: bool
  hl_Cache :: bool

definition handleHealth :: "sealer \<Rightarrow> bool \<Rightarrow> bool \<Rightarrow> bool \<Rightarrow> Stats \<Rightarrow> Console \<Rightarrow> health_reply" where
  "handleHealth sl ping_fails keys_fail mqtt_up stats c =
     \<lparr>hl_Code = (if ping_fails then 503 else 200), hl_Status = (if ping_fails then ''degraded'' else ''ok''),
      hl_Providers = (case ConfiguredProviders sl keys_fail c of Inl _ \<Rightarrow> None | Inr ps \<Rightarrow> Some ps),
      hl_MQTT = mqtt_up, hl_Cache = st_Enabled stats\<rparr>"

section \<open>What is advertised\<close>

interpretation by_name: stable_order by_id me_ID
  by unfold_locales (simp add: by_id_def)

lemma first_of_each_set:
  "set (first_of_each configured seen ps) \<subseteq> {p \<in> set ps. gm_at False configured (Provider p) \<and> Model p \<notin> set seen}"
  by (induction configured seen ps rule: first_of_each.induct) auto

lemma first_of_each_models:
  "Model ` set (first_of_each configured seen ps) = Model ` {p \<in> set ps. gm_at False configured (Provider p)} - set seen"
proof (induction configured seen ps rule: first_of_each.induct)
  case (2 configured seen p ps)
  have split: "{q \<in> set (p # ps). gm_at False configured (Provider q)} =
      (if gm_at False configured (Provider p) then {p} else {}) \<union> {q \<in> set ps. gm_at False configured (Provider q)}" by auto
  show ?case unfolding split using 2 by auto
qed simp

lemma first_of_each_distinct: "distinct (map Model (first_of_each configured seen ps))"
proof (induction configured seen ps rule: first_of_each.induct)
  case (2 configured seen p ps)
  then show ?case using first_of_each_models [of configured "Model p # seen" ps] by (auto simp: image_iff)
qed simp

lemma entry_of_ID [simp]: "me_ID (entry_of p) = Model p" "me_ID \<circ> entry_of = Model"
  by (auto simp: entry_of_def)

definition data_of :: "(string, bool) gomap \<Rightarrow> ModelProfile list \<Rightarrow> modelEntry list" where
  "data_of configured pool = slice_stable by_id (map entry_of (first_of_each configured [] pool))"

lemma data_of_sorted: "sorted (map me_ID (data_of configured pool))"
  unfolding data_of_def by (rule by_name.sorted_slice_stable)

lemma data_of_distinct: "distinct (map me_ID (data_of configured pool))"
proof -
  have "mset (map me_ID (data_of configured pool)) = mset (map me_ID (map entry_of (first_of_each configured [] pool)))"
    unfolding data_of_def mset_map mset_slice_stable ..
  then show ?thesis using first_of_each_distinct [of configured "[]" pool] mset_eq_imp_distinct_iff by fastforce
qed

lemma data_of_set: "set (data_of configured pool) = entry_of ` set (first_of_each configured [] pool)"
  by (simp add: data_of_def)

lemma data_of_members: "set (data_of configured pool) \<subseteq> entry_of ` {p \<in> set pool. gm_at False configured (Provider p)}"
  unfolding data_of_set using first_of_each_set [of configured "[]" pool] by (intro image_mono) auto

lemma data_of_names: "me_ID ` set (data_of configured pool) = Model ` {p \<in> set pool. gm_at False configured (Provider p)}"
  unfolding data_of_set image_comp entry_of_ID(2) first_of_each_models by simp

lemma free_entries: "\<forall>p \<in> set pool. Free p \<Longrightarrow> me_Free ` set (data_of configured pool) \<subseteq> {Some True}"
  using data_of_members [of configured pool] by (auto simp: entry_of_def Free_def subset_iff)

text \<open>
  C28. The models listed are those of the pool at a provider with a key, each name once and in order, with the prices of the
  placement shown; in free-only mode every one of them is free there. The routing names come first, and only when they
  can be used: a free alias needs a free model.
\<close>

theorem advertised_is_usable:
  assumes "handleModels cy sl io r q_free c = (ModelsListed es, c')"
    and "only_free = (q_free = ''true'' \<or> freeOnlyFlag (co_gateway c'))" and "free_ms = FreeModels (ai_range io) (catalog (co_gateway c'))"
    and "pool = (if only_free then free_ms else Discovered (ai_range io) (catalog (co_gateway c')) @ profiles (catalog (co_gateway c')))"
  shows "\<exists>configured head data. ConfiguredProviders sl (ai_reload_fails io) c' = Inr configured \<and> es = head @ data \<and>
      sorted (map me_ID data) \<and> distinct (map me_ID data) \<and>
      set data \<subseteq> entry_of ` {p \<in> set pool. gm_at False configured (Provider p)} \<and>
      me_ID ` set data = Model ` {p \<in> set pool. gm_at False configured (Provider p)} \<and>
      (only_free \<longrightarrow> me_Free ` set data \<subseteq> {Some True}) \<and>
      me_ID ` set head \<subseteq> set Sentinels \<and> (''auto:free'' \<in> me_ID ` set head \<longrightarrow> free_ms \<noteq> []) \<and> (head \<noteq> [] \<longrightarrow> data \<noteq> [])"
proof -
  let ?g = "co_gateway c'"
  from assms(1) obtain configured where conf: "ConfiguredProviders sl (ai_reload_fails io) c' = Inr configured"
      and es: "es = advertised (cfg ?g) (catalog ?g) (ai_range io) only_free configured"
    unfolding assms(2) by (auto simp: handleModels_def Let_def split: prod.splits sum.splits)
  let ?data = "data_of configured pool"
  let ?head = "if RoutingMode (cfg ?g) \<noteq> ''off'' \<and> ?data \<noteq> [] then sentinel_entries (free_ms \<noteq> []) else []"
  have split: "es = ?head @ ?data"
    by (simp add: es advertised_def data_of_def assms(3,4) Let_def)
  have free: "only_free \<longrightarrow> me_Free ` set ?data \<subseteq> {Some True}"
    by (intro impI free_entries) (auto simp add: assms(3,4) FreeModels_def sortByProviderThenModel_def)
  have head: "me_ID ` set ?head \<subseteq> set Sentinels" "''auto:free'' \<in> me_ID ` set ?head \<longrightarrow> free_ms \<noteq> []" "?head \<noteq> [] \<longrightarrow> ?data \<noteq> []"
    by (auto simp: sentinel_entries_def freeRouterModel_def)
  show ?thesis
    by (rule exI [of _ configured], rule exI [of _ ?head], rule exI [of _ ?data], intro conjI)
      (fact conf split data_of_sorted data_of_distinct data_of_members data_of_names free head)+
qed

section \<open>A list\<close>

definition free_m :: DiscoveredModel where
  "free_m = \<lparr>dm_Provider = ''open'', dm_Model = ''m'', dm_InputCostPer1M = 0, dm_OutputCostPer1M = 0, dm_PriceKnown = True, dm_ContextLength = 0\<rparr>"

definition stocked_console :: Console where
  "stocked_console = open_console\<lparr>co_vault := \<lparr>accounts = no_accounts, client_keys = one_key,
       provider_keys = [(''open'', \<lparr>pk_Encrypted = toy_nonce @ toy_key @ ''k'', pk_CreatedAt = 0, pk_UpdatedAt = 0\<rparr>)]\<rparr>,
     co_gateway := open_gateway\<lparr>cfg := (cfg open_gateway)\<lparr>RoutingMode := ''auto''\<rparr>, catalog := NewCatalog\<lparr>profiles := [], discovered := [(''open'', [convert_discovered free_m])]\<rparr>\<rparr>\<rparr>"

definition ranging :: admin_io where "ranging = calm\<lparr>ai_range := [''open'']\<rparr>"

lemma stocked_list:
  "\<exists>c'. handleModels toy_crypto toy_sealer ranging (no_request\<lparr>Authorization := ''Bearer cr_s''\<rparr>) [] stocked_console =
     (ModelsListed (sentinel_entries True @ [entry_of (convert_discovered free_m)]), c') \<and> freeOnlyFlag (co_gateway c')"
proof -
  have k: "TrimSpace (TrimPrefix ''Bearer cr_s'' ''Bearer '') = ''cr_s''" by code_simp
  have d: "decrypt toy_sealer (toy_nonce @ toy_key @ ''k'') toy_key = Inr ''k''"
    by (simp add: decrypt_def toy_sealer_def toy_nonce_def toy_key_def NonceSize_def HasPrefix_iff)
  have pool: "FreeModels [''open''] (NewCatalog\<lparr>profiles := [], discovered := [(''open'', [convert_discovered free_m])]\<rparr>) = [convert_discovered free_m]"
    by (simp add: FreeModels_def sortByProviderThenModel_def discovered_in_def range_vals_def slice_stable_def insert_back_def Free_def convert_discovered_def free_m_def)
  show ?thesis
    using k d pool
    by (simp add: handleModels_def authorize_def ValidateClientKey_def with_hash_def one_key_def toy_crypto_def no_request_def stocked_console_def
        ConfiguredProviders_def ConfiguredKeys_def ProviderKeys_def open_row_def open_gateway_def open_console_def ranging_def
        advertised_def slice_stable_def insert_back_def plain_config_def Let_def convert_discovered_def free_m_def gm_at_def)
qed

lemma advertised_is_usable_witness:
  "\<exists>head data. sentinel_entries True @ [entry_of (convert_discovered free_m)] = head @ data \<and> me_Free ` set data \<subseteq> {Some True}"
proof -
  obtain c' where c': "handleModels toy_crypto toy_sealer ranging (no_request\<lparr>Authorization := ''Bearer cr_s''\<rparr>) [] stocked_console =
     (ModelsListed (sentinel_entries True @ [entry_of (convert_discovered free_m)]), c')" "freeOnlyFlag (co_gateway c')"
    using stocked_list by blast
  then have t: "True = ([] = ''true'' \<or> freeOnlyFlag (co_gateway c'))" by simp
  from advertised_is_usable [OF c'(1) t refl refl] show ?thesis by auto
qed

end
