(* ===== verification/Startup.thy ===== *)
theory Startup
  imports Operator_Settings IoT
begin

text \<open>
  Starting the process (\<open>cmd/server/main.go\<close>): the keys and the account seeded from the environment, the gateway built and
  filled from the tables, the stored switch, the bridge, and the resolver the cache asks for its embedding key. Connecting
  is in \<open>Connect\<close>, the schema in \<open>Migrations\<close>, and the loops, the requests and the shutdown in \<open>Process\<close>.
\<close>

section \<open>What a process finds\<close>

record Tables =
  tb_vault :: Vault
  tb_models :: discovered_table
  tb_probes :: probes
  tb_tags :: "ModelTag list"
  tb_black :: black_table
  tb_settings :: settings

definition tables_of :: "Console \<Rightarrow> Tables" where
  "tables_of c =
     \<lparr>tb_vault = co_vault c, tb_models = co_table c, tb_probes = co_probes c, tb_tags = co_tags c, tb_black = co_black c,
      tb_settings = co_settings c\<rparr>"

text \<open>What the database, the clock and the random source do while the process starts; \<open>bt_order\<close> is the order of the map range,
  and \<open>bt_router\<close> the gateway's \<open>Complete\<close> as the bridge calls it.\<close>

record boot_io =
  bt_now :: time
  bt_order :: "string list"
  bt_store_fails :: "string \<Rightarrow> bool"
  bt_nonce :: "string \<Rightarrow> string option"
  bt_count_fails :: bool
  bt_random :: "string option"
  bt_key_nonce :: "string option"
  bt_key_id :: string
  bt_key_fails :: bool
  bt_users_fail :: bool
  bt_salt :: string
  bt_user_id :: string
  bt_user_fails :: bool
  bt_models_fail :: bool
  bt_tags_fail :: bool
  bt_black_fails :: bool
  bt_confirmed :: load_io
  bt_setting_fails :: bool
  bt_iot_fails :: bool
  bt_iot_at :: time
  bt_broker_answers :: bool
  bt_router :: "ChatRequest \<Rightarrow> ClientKey option \<Rightarrow> string + ChatResponse"

section \<open>Seeding\<close>

fun seed_keys :: "sealer \<Rightarrow> boot_io \<Rightarrow> string \<Rightarrow> (string \<times> string) list \<Rightarrow> provider_table \<Rightarrow> KeyError option \<times> provider_table" where
  "seed_keys sl io ekey [] ps = (None, ps)"
| "seed_keys sl io ekey ((name, k) # rest) ps =
     (if k = [] then seed_keys sl io ekey rest ps
      else case StoreProviderKey sl ekey (bt_store_fails io name) (bt_nonce io name) (bt_now io) name k ps of
          (Some e, ps') \<Rightarrow> (Some e, ps')
        | (None, ps') \<Rightarrow> seed_keys sl io ekey rest ps')"

definition from_environment :: "boot_io \<Rightarrow> Config \<Rightarrow> (string \<times> string) list" where
  "from_environment io config =
     map (\<lambda>name. (name, gm_at [] (BootstrapProviderKeys config) name)) (filter (gm_has (BootstrapProviderKeys config)) (bt_order io))"

definition bootstrap :: "crypto \<Rightarrow> sealer \<Rightarrow> boot_io \<Rightarrow> Config \<Rightarrow> Vault \<Rightarrow> KeyError option \<times> Vault" where
  "bootstrap cy sl io config v =
     (case seed_keys sl io (EncryptionKey config) (from_environment io config) (provider_keys v) of
        (Some e, ps) \<Rightarrow> (Some e, v\<lparr>provider_keys := ps\<rparr>)
      | (None, ps) \<Rightarrow>
          (let v1 = v\<lparr>provider_keys := ps\<rparr> in
           if bt_count_fails io then (Some KeysUnavailable, v1)
           else if CountClientKeys (client_keys v1) = 0 then
             (case CreateClientKey cy sl (EncryptionKey config) (bt_key_fails io) (bt_random io) (bt_key_nonce io) (bt_key_id io)
                 (bt_now io) ''bootstrap'' (client_keys v1) of
                (Inl e, ks) \<Rightarrow> (Some e, v1\<lparr>client_keys := ks\<rparr>)
              | (Inr rawKey, ks) \<Rightarrow> (None, v1\<lparr>client_keys := ks\<rparr>))
           else (None, v1)))"

definition bootstrapAdminUser :: "crypto \<Rightarrow> boot_io \<Rightarrow> Config \<Rightarrow> Accounts \<Rightarrow> AuthError option \<times> Accounts" where
  "bootstrapAdminUser cy io config a =
     (if bt_users_fail io then (Some DatabaseFailed, a)
      else if CountUsers a > 0 then (None, a)
      else if BootstrapAdminEmail config = [] \<or> BootstrapAdminPassword config = [] then (None, a)
      else case CreateUser cy (bt_user_fails io) (bt_salt io) (bt_user_id io) (bt_now io) (BootstrapAdminEmail config)
             (BootstrapAdminPassword config) a of
          (Inl e, a') \<Rightarrow> (Some e, a')
        | (Inr user, a') \<Rightarrow> (None, a'))"

section \<open>The gateway\<close>

text \<open>\<open>gateway.New\<close>: the bench, the breakers and the live state start empty.\<close>

definition NewGateway :: "Config \<Rightarrow> Catalog option \<Rightarrow> SpecError + Gateway" where
  "NewGateway config cat =
     (let sps = ResolvedProviders config in
      case NewRegistry sps of
        Inl e \<Rightarrow> Inl e
      | Inr reg \<Rightarrow> Inr \<lparr>cfg = config, registry = reg, specs = sps, catalog = (case cat of None \<Rightarrow> NewCatalog | Some c \<Rightarrow> c),
          freeOnlyFlag = FreeOnly config\<rparr>)"

definition filled :: "boot_io \<Rightarrow> Gateway \<Rightarrow> Tables \<Rightarrow> Catalog" where
  "filled io g tb =
     (let c1 = LoadDiscoveredModels (bt_models_fail io) (tb_models tb) (catalog g);
          c2 = snd (LoadModelTags (bt_tags_fail io) (tb_tags tb) c1);
          c3 = snd (LoadBlacklist (bt_black_fails io) (tb_black tb) c2)
      in snd (LoadConfirmedModels (bt_confirmed io) g (tb_probes tb) c3))"

definition switch_of :: "golib \<Rightarrow> boot_io \<Rightarrow> Tables \<Rightarrow> Gateway \<Rightarrow> Gateway" where
  "switch_of lib io tb g =
     (case FreeOnlySetting lib (bt_setting_fails io) (tb_settings tb) of None \<Rightarrow> g | Some on \<Rightarrow> SetFreeOnly on g)"

section \<open>The bridge\<close>

definition resolveIoTKey :: "crypto \<Rightarrow> bool \<Rightarrow> time \<Rightarrow> string \<Rightarrow> key_table \<Rightarrow> ClientKey option \<times> key_table" where
  "resolveIoTKey cy fails now raw ks =
     (if raw = [] then (None, ks)
      else case ValidateClientKey cy fails now raw ks of (Inl e, ks') \<Rightarrow> (None, ks') | (Inr key, ks') \<Rightarrow> (Some key, ks'))"

definition startBridge ::
  "crypto \<Rightarrow> bool \<Rightarrow> time \<Rightarrow> bool \<Rightarrow> Config \<Rightarrow> (ChatRequest \<Rightarrow> ClientKey option \<Rightarrow> string + ChatResponse) \<Rightarrow> key_table \<Rightarrow> Bridge \<times> key_table" where
  "startBridge cy fails now connects config router ks =
     (let (key, ks') = resolveIoTKey cy fails now (IoTAPIKey (IoT config)) ks;
          b = NewBridge \<lparr>bc_Broker = Broker (IoT config), bc_ClientID = ClientID (IoT config), bc_TopicPrefix = TopicPrefix (IoT config),
            bc_EdgeEndpoint = EdgeEndpoint (IoT config), bc_APIKey = key\<rparr> (Some router) True
      in (if bridge_Enabled b \<and> connects then b\<lparr>br_connected := True\<rparr> else b, ks'))"

section \<open>The start\<close>

definition startup ::
  "crypto \<Rightarrow> sealer \<Rightarrow> golib \<Rightarrow> (string \<Rightarrow> (bool \<times> ModelProfile list) option) \<Rightarrow> boot_io \<Rightarrow> Config \<Rightarrow> Tables \<Rightarrow>
    (Console \<times> Bridge) option" where
  "startup cy sl lib decode io config tb =
     (if Validate decode config \<noteq> None then None
      else case bootstrap cy sl io config (tb_vault tb) of
          (Some e, v1) \<Rightarrow> None
        | (None, v1) \<Rightarrow>
            (let a = snd (bootstrapAdminUser cy io config (accounts v1)) in
             case ConfigCatalog decode config of
               Inl e \<Rightarrow> None
             | Inr cat \<Rightarrow>
                 (case NewGateway config (Some cat) of
                    Inl e \<Rightarrow> None
                  | Inr g \<Rightarrow>
                      (let g1 = switch_of lib io tb (g\<lparr>catalog := filled io g tb\<rparr>);
                           (bridge, ks) = startBridge cy (bt_iot_fails io) (bt_iot_at io) (bt_broker_answers io) config (bt_router io)
                             (client_keys v1)
                       in Some (\<lparr>co_vault = v1\<lparr>accounts := a\<lparr>throttle := newLoginThrottle\<rparr>, client_keys := ks\<rparr>,
                              co_gateway = g1, co_table = tb_models tb, co_probes = tb_probes tb, co_health = healthy,
                              co_tags = tb_tags tb, co_black = tb_black tb, co_settings = tb_settings tb\<rparr>, bridge)))))"

section \<open>The embedding key\<close>

definition providerKeyTTL :: duration where "providerKeyTTL = 30 * Second"

record providerKeyResolver =
  rs_key :: string
  rs_name :: string
  rs_loaded :: time

text \<open>\<open>reading\<close> is what the database answers when it is asked, and \<open>later\<close> the clock after it.\<close>

definition resolver_get ::
  "time \<Rightarrow> KeyError + string \<Rightarrow> time \<Rightarrow> string \<Rightarrow> providerKeyResolver \<Rightarrow> (KeyError + string) \<times> providerKeyResolver" where
  "resolver_get now reading later name r =
     (if rs_name r = name \<and> now - rs_loaded r < providerKeyTTL then (Inr (rs_key r), r)
      else case reading of
          Inl e \<Rightarrow> if e = ErrNoProviderKey then (Inr [], \<lparr>rs_key = [], rs_name = name, rs_loaded = later\<rparr>) else (Inl e, r)
        | Inr k \<Rightarrow> (Inr k, \<lparr>rs_key = k, rs_name = name, rs_loaded = later\<rparr>))"

text \<open>The semantic cache asks for the key of \<open>openai\<close>; it is built only when it is switched on.\<close>

definition embedding_key ::
  "sealer \<Rightarrow> Config \<Rightarrow> bool \<Rightarrow> time \<Rightarrow> time \<Rightarrow> provider_table \<Rightarrow> providerKeyResolver \<Rightarrow> (KeyError + string) \<times> providerKeyResolver" where
  "embedding_key sl config fails now later ps r =
     resolver_get now (ProviderKey sl (EncryptionKey config) fails ''openai'' ps) later ''openai'' r"

definition buildCache :: "Config \<Rightarrow> bool \<Rightarrow> CacheEntry list \<Rightarrow> SemanticCache option" where
  "buildCache config table_exists rows =
     (if \<not> CacheEnabled (CacheCfg config) then None
      else Some (NewCache True table_exists rows (Threshold (CacheCfg config)) (TTL (CacheCfg config))))"

end
