(* ===== verification/Startup_Facts.thy ===== *)
theory Startup_Facts
  imports Startup Operator_Facts
begin

text \<open>
  What survives a restart, what the environment does to what an operator set, and how old the embedding key may be.
\<close>

section \<open>Seeding leaves the operator's accounts and keys\<close>

lemma seed_keys_others:
  "seed_keys sl io ekey nks ps = (e, ps') \<Longrightarrow> (\<And>k. (name, k) \<in> set nks \<Longrightarrow> k = []) \<Longrightarrow> map_of ps' name = map_of ps name"
proof (induction nks arbitrary: ps)
  case (Cons nk nks)
  obtain n k where nk: "nk = (n, k)" by force
  show ?case
  proof (cases "k = []")
    case True
    with Cons show ?thesis by (simp add: nk)
  next
    case False
    with Cons.prems(2) have other: "n \<noteq> name" by (auto simp: nk)
    obtain e1 ps1 where st: "StoreProviderKey sl ekey (bt_store_fails io n) (bt_nonce io n) (bt_now io) n k ps = (e1, ps1)" by force
    then have same: "map_of ps1 name = map_of ps name"
      using other by (auto simp: StoreProviderKey_def split: sum.splits if_splits)
    show ?thesis
    proof (cases e1)
      case None
      with Cons.prems(1) False st have "seed_keys sl io ekey nks ps1 = (e, ps')" by (simp add: nk)
      from Cons.IH [OF this] Cons.prems(2) same show ?thesis by simp
    next
      case (Some x)
      with Cons.prems(1) False st same show ?thesis by (simp add: nk)
    qed
  qed
qed simp

lemma seed_keys_wins:
  assumes "seed_keys sl io ekey nks ps = (None, ps')" and "distinct (map fst nks)" and "(name, k) \<in> set nks" and "k \<noteq> []"
    and "sealer_laws sl" and "\<And>n nonce. bt_nonce io n = Some nonce \<Longrightarrow> length nonce = NonceSize"
  shows "ProviderKey sl ekey False name ps' = Inr k"
  using assms(1-3)
proof (induction nks arbitrary: ps)
  case (Cons nk nks)
  obtain n v where nk: "nk = (n, v)" by force
  show ?case
  proof (cases "v = []")
    case True
    with Cons assms(4) show ?thesis by (auto simp: nk)
  next
    case False
    from Cons.prems(1) False obtain ps1 where st: "StoreProviderKey sl ekey (bt_store_fails io n) (bt_nonce io n) (bt_now io) n v ps = (None, ps1)"
        and rest: "seed_keys sl io ekey nks ps1 = (None, ps')"
      by (auto simp: nk split: prod.splits option.splits)
    show ?thesis
    proof (cases "n = name")
      case True
      with Cons.prems(2,3) have v: "v = k" and fresh: "\<And>k'. (name, k') \<notin> set nks" by (force simp: nk)+
      have "map_of ps' name = map_of ps1 name" using seed_keys_others [OF rest] fresh by blast
      moreover have "ProviderKey sl ekey False name ps1 = Inr k"
        using stored_is_read [OF assms(5) st] assms(6) True v by blast
      ultimately show ?thesis by (simp add: ProviderKey_def)
    next
      case False
      with Cons.IH [OF rest] Cons.prems(2,3) show ?thesis by (simp add: nk)
    qed
  qed
qed simp

lemma bootstrap_client_keys:
  "bootstrap cy sl io config v = (e, v') \<Longrightarrow> client_keys v \<noteq> [] \<Longrightarrow> client_keys v' = client_keys v"
  by (auto simp: bootstrap_def CountClientKeys_def Let_def split: prod.splits option.splits if_splits)

lemma bootstrap_accounts: "bootstrap cy sl io config v = (e, v') \<Longrightarrow> accounts v' = accounts v"
  by (auto simp: bootstrap_def Let_def split: prod.splits option.splits if_splits sum.splits)

lemma bootstrap_provider_keys:
  "bootstrap cy sl io config v = (None, v') \<Longrightarrow>
     seed_keys sl io (EncryptionKey config) (from_environment io config) (provider_keys v) = (None, provider_keys v')"
  by (auto simp: bootstrap_def Let_def split: prod.splits option.splits if_splits sum.splits)

lemma bootstrapAdminUser_keeps: "users a \<noteq> [] \<Longrightarrow> snd (bootstrapAdminUser cy io config a) = a"
  by (simp add: bootstrapAdminUser_def CountUsers_def)

section \<open>Filling the catalogue\<close>

lemma LoadConfirmedModels_fields:
  "tags (snd (LoadConfirmedModels lio g t c)) = tags c" "blacklist (snd (LoadConfirmedModels lio g t c)) = blacklist c"
  by (auto simp: LoadConfirmedModels_def MarkProbed_def SetConfirmed_def)

lemma LoadBlacklist_fields: "tags (snd (LoadBlacklist fails bs c)) = tags c"
  by (auto simp: LoadBlacklist_def SetBlacklist_def split: option.splits)

lemma startup_parts:
  assumes "startup cy sl lib decode io config tb = Some (c, bridge)"
  obtains v1 cat g ks where "bootstrap cy sl io config (tb_vault tb) = (None, v1)" and "ConfigCatalog decode config = Inr cat"
    and "NewGateway config (Some cat) = Inr g"
    and "startBridge cy (bt_iot_fails io) (bt_iot_at io) (bt_broker_answers io) config (bt_router io) (client_keys v1) = (bridge, ks)"
    and "c = \<lparr>co_vault = v1\<lparr>accounts := (snd (bootstrapAdminUser cy io config (accounts v1)))\<lparr>throttle := newLoginThrottle\<rparr>,
          client_keys := ks\<rparr>,
        co_gateway = switch_of lib io tb (g\<lparr>catalog := filled io g tb\<rparr>),
        co_table = tb_models tb, co_probes = tb_probes tb, co_health = healthy, co_tags = tb_tags tb,
        co_black = tb_black tb, co_settings = tb_settings tb\<rparr>"
  using assms by (auto simp: startup_def Let_def split: if_splits prod.splits option.splits sum.splits)

text \<open>The bridge is the only part of the start that touches client keys that exist: it notes when its own was used.\<close>

lemma startBridge_keys:
  assumes "startBridge cy fails now answers config router ks = (bridge, ks')"
  shows "case bc_APIKey (br_cfg bridge) of
      None \<Rightarrow> ks' = ks
    | Some key \<Rightarrow>
        (\<exists>k. (ck_ID key, k) \<in> set ks \<and> kr_DisabledAt k = None \<and>
          kr_Hash k = sha256 cy (TrimSpace (TrimPrefix (IoTAPIKey (IoT config)) ''Bearer '')) \<and>
          ks' = gm_set (ck_ID key) (k\<lparr>kr_LastUsed := Some now\<rparr>) ks)"
proof -
  obtain found where found: "resolveIoTKey cy fails now (IoTAPIKey (IoT config)) ks = (found, ks')"
    and key: "bc_APIKey (br_cfg bridge) = found"
    using assms by (auto simp: startBridge_def NewBridge_def Let_def split: prod.splits if_splits)
  show ?thesis
  proof (cases found)
    case None
    with found have "ks' = ks"
      by (auto simp: resolveIoTKey_def ValidateClientKey_def Let_def split: if_splits prod.splits sum.splits option.splits)
    with None show ?thesis by (simp add: key)
  next
    case (Some ck)
    with found have "ValidateClientKey cy fails now (IoTAPIKey (IoT config)) ks = (Inr ck, ks')"
      by (auto simp: resolveIoTKey_def split: if_splits prod.splits sum.splits)
    then obtain k where "with_hash (sha256 cy (TrimSpace (TrimPrefix (IoTAPIKey (IoT config)) ''Bearer ''))) ks = Some (ck_ID ck, k)"
      and k: "kr_DisabledAt k = None" "ks' = gm_set (ck_ID ck) (k\<lparr>kr_LastUsed := Some now\<rparr>) ks"
      by (auto simp: ValidateClientKey_def Let_def split: if_splits option.splits)
    then have "(ck_ID ck, k) \<in> set ks" "kr_Hash k = sha256 cy (TrimSpace (TrimPrefix (IoTAPIKey (IoT config)) ''Bearer ''))"
      unfolding with_hash_def find_Some_iff using nth_mem by fastforce+
    with k Some show ?thesis by (auto simp: key)
  qed
qed

lemma switch_of_fields [simp]: "catalog (switch_of lib io tb g) = catalog g" "cfg (switch_of lib io tb g) = cfg g"
  by (simp_all add: switch_of_def SetFreeOnly_def split: option.split)

lemma NewGateway_fields:
  "NewGateway config (Some cat) = Inr g \<Longrightarrow> cfg g = config \<and> catalog g = cat \<and> freeOnlyFlag g = FreeOnly config"
  by (auto simp: NewGateway_def Let_def split: sum.splits)

text \<open>A catalogue as configured has no marks; whatever cannot be read is not in force.\<close>

definition unmarked :: "Catalog \<Rightarrow> bool" where
  "unmarked c \<longleftrightarrow> tags c = [] \<and> blacklist c = [] \<and> confirmed c = []"

lemma load_models_unmarked: "load_models c models = Inr c' \<Longrightarrow> unmarked c \<Longrightarrow> unmarked c'"
  by (induction c models rule: load_models.induct)
    (auto simp: unmarked_def upsert_def split: option.splits if_splits)

lemma configured_unmarked: "ConfigCatalog decode config = Inr cat \<Longrightarrow> unmarked cat"
proof -
  assume cf: "ConfigCatalog decode config = Inr cat"
  have new: "unmarked NewCatalog" "unmarked (NewCatalog\<lparr>profiles := []\<rparr>)" by (simp_all add: unmarked_def NewCatalog_def)
  show ?thesis
  proof (cases "ModelCatalog config = []")
    case True
    with cf new show ?thesis by (simp add: ConfigCatalog_def split: option.splits)
  next
    case False
    with cf obtain replace models where "LoadCatalog (Some (replace, models)) = Inr cat"
      by (cases "decode (ModelCatalog config)") (auto simp: ConfigCatalog_def LoadCatalog_def [of None] split: option.splits sum.splits)
    then have "load_models (if replace then NewCatalog\<lparr>profiles := []\<rparr> else NewCatalog) models = Inr cat"
      by (auto simp: LoadCatalog_def Let_def split: sum.splits if_split_asm)
    then show ?thesis by (rule load_models_unmarked) (simp add: new)
  qed
qed

lemma unmarked_SetDiscovered: "unmarked c \<Longrightarrow> unmarked (SetDiscovered name models c)"
  by (simp add: unmarked_def SetDiscovered_def)

lemma unmarked_loaded: "unmarked c \<Longrightarrow> unmarked (LoadDiscoveredModels fails t c)"
proof -
  have "unmarked (fold (\<lambda>(name, models). SetDiscovered name models) xs c)" if "unmarked c" for xs and c
    using that by (induction xs arbitrary: c) (auto simp: unmarked_SetDiscovered)
  then show "unmarked c \<Longrightarrow> unmarked (LoadDiscoveredModels fails t c)"
    by (simp add: LoadDiscoveredModels_def split: option.split)
qed

lemma Loads_keep_confirmed:
  "confirmed (snd (LoadModelTags fails rows c)) = confirmed c" "confirmed (snd (LoadBlacklist fails bs c)) = confirmed c"
  "blacklist (snd (LoadModelTags fails rows c)) = blacklist c"
  by (auto simp: LoadModelTags_def LoadBlacklist_def SetTags_def SetBlacklist_def split: option.splits)

lemma filled_tables:
  assumes "unmarked (catalog g)"
    and "\<forall>t \<in> set (tb_tags tb). no_slash (mt_Provider t)" and "\<forall>pm \<in> fst ` set (tb_black tb). no_slash (fst pm)" and "no_slash p"
  shows "TagsFor (filled io g tb) p m = (if bt_tags_fail io then [] else sort (marks_of p m (tb_tags tb)))"
    and "Blacklisted (filled io g tb) p m \<longleftrightarrow> \<not> bt_black_fails io \<and> gm_has (tb_black tb) (p, m)"
    and "Confirmed (filled io g tb) p m \<longleftrightarrow> conf_ok (bt_confirmed io) \<and> tried_ok (bt_confirmed io) \<and>
      (\<exists>(pm, row) \<in> set (tb_probes tb). pb_OK row \<and> fresh (conf_at (bt_confirmed io)) (ProbeFreshness (cfg g)) row \<and> row_key pm = TagKey p m)"
proof -
  let ?c1 = "LoadDiscoveredModels (bt_models_fail io) (tb_models tb) (catalog g)"
  let ?c2 = "snd (LoadModelTags (bt_tags_fail io) (tb_tags tb) ?c1)" and ?bl = "LoadBlacklist (bt_black_fails io) (tb_black tb)"
  have f: "filled io g tb = snd (LoadConfirmedModels (bt_confirmed io) g (tb_probes tb) (snd (?bl ?c2)))"
    by (simp add: filled_def Let_def)
  have c1: "tags ?c1 = []" "blacklist ?c1 = []" "confirmed ?c1 = []"
    using unmarked_loaded [OF assms(1)] by (simp_all add: unmarked_def)
  show "TagsFor (filled io g tb) p m = (if bt_tags_fail io then [] else sort (marks_of p m (tb_tags tb)))"
  proof (cases "bt_tags_fail io")
    case True
    then have "?c2 = ?c1" by (simp add: LoadModelTags_def ListModelTags_def)
    with c1 True show ?thesis by (simp add: f TagsFor_def LoadConfirmedModels_fields LoadBlacklist_fields gm_at_def)
  next
    case False
    then have t: "LoadModelTags (bt_tags_fail io) (tb_tags tb) ?c1 = (True, ?c2)"
      by (simp add: LoadModelTags_def ListModelTags_def)
    with False show ?thesis
      using LoadModelTags_marks [OF t assms(2,4), of m] by (simp add: f TagsFor_def LoadConfirmedModels_fields LoadBlacklist_fields)
  qed
  show "Blacklisted (filled io g tb) p m \<longleftrightarrow> \<not> bt_black_fails io \<and> gm_has (tb_black tb) (p, m)"
  proof (cases "bt_black_fails io")
    case True
    then have "snd (?bl ?c2) = ?c2" by (simp add: LoadBlacklist_def ListBlacklistedModels_def)
    with c1 True show ?thesis by (simp add: f Blacklisted_def LoadConfirmedModels_fields Loads_keep_confirmed gm_at_def)
  next
    case False
    then have b: "?bl ?c2 = (True, snd (?bl ?c2))"
      by (simp add: LoadBlacklist_def ListBlacklistedModels_def)
    with False show ?thesis
      using LoadBlacklist_lists [OF b assms(3,4), of m] by (simp add: f Blacklisted_def LoadConfirmedModels_fields)
  qed
  show "Confirmed (filled io g tb) p m \<longleftrightarrow> conf_ok (bt_confirmed io) \<and> tried_ok (bt_confirmed io) \<and>
      (\<exists>(pm, row) \<in> set (tb_probes tb). pb_OK row \<and> fresh (conf_at (bt_confirmed io)) (ProbeFreshness (cfg g)) row \<and> row_key pm = TagKey p m)"
  proof (cases "conf_ok (bt_confirmed io) \<and> tried_ok (bt_confirmed io)")
    case True
    with Confirmed_loaded [of "bt_confirmed io" g "tb_probes tb" "snd (?bl ?c2)" p m] show ?thesis by (simp add: f)
  next
    case False
    then have "filled io g tb = snd (?bl ?c2)" by (auto simp: f LoadConfirmedModels_def)
    with c1 False show ?thesis by (auto simp: Confirmed_def Loads_keep_confirmed gm_at_def)
  qed
qed

section \<open>A restart\<close>

text \<open>
  C29. A process that starts routes as the tables it can read say: the stored switch wins over the environment, every
  mark and every blacklisted model is back, a model is confirmed exactly by a fresh successful trial; a table that cannot be
  read is only logged, and then the environment's switch stands, nothing is marked, blacklisted or confirmed. Accounts
  that exist are left as they are, sessions included, and so is every upstream key the environment does not name. Client
  keys that exist are left as they are too, but that the bridge, when its own key (\<open>IOT_API_KEY\<close>) is among them and not
  revoked, notes there the time of the start as that key's last use.
\<close>

theorem restart_keeps_settings:
  assumes "startup cy sl lib decode io config tb = Some (c, bridge)"
    and "\<forall>t \<in> set (tb_tags tb). no_slash (mt_Provider t)" and "\<forall>pm \<in> fst ` set (tb_black tb). no_slash (fst pm)" and "no_slash p"
  shows "freeOnlyFlag (co_gateway c) =
      (if bt_setting_fails io then FreeOnly config
       else case FreeOnlySetting lib False (tb_settings tb) of None \<Rightarrow> FreeOnly config | Some on \<Rightarrow> on) \<and>
    TagsFor (catalog (co_gateway c)) p m = (if bt_tags_fail io then [] else sort (marks_of p m (tb_tags tb))) \<and>
    (Blacklisted (catalog (co_gateway c)) p m \<longleftrightarrow> \<not> bt_black_fails io \<and> gm_has (tb_black tb) (p, m)) \<and>
    (Confirmed (catalog (co_gateway c)) p m \<longleftrightarrow> conf_ok (bt_confirmed io) \<and> tried_ok (bt_confirmed io) \<and>
      (\<exists>(pm, row) \<in> set (tb_probes tb). pb_OK row \<and> fresh (conf_at (bt_confirmed io)) (ProbeFreshness config) row \<and> row_key pm = TagKey p m)) \<and>
    (users (accounts (tb_vault tb)) \<noteq> [] \<longrightarrow> users (accounts (co_vault c)) = users (accounts (tb_vault tb)) \<and>
      sessions (accounts (co_vault c)) = sessions (accounts (tb_vault tb))) \<and>
    (client_keys (tb_vault tb) \<noteq> [] \<longrightarrow>
      (case bc_APIKey (br_cfg bridge) of
         None \<Rightarrow> client_keys (co_vault c) = client_keys (tb_vault tb)
       | Some key \<Rightarrow>
           (\<exists>k. (ck_ID key, k) \<in> set (client_keys (tb_vault tb)) \<and> kr_DisabledAt k = None \<and>
             kr_Hash k = sha256 cy (TrimSpace (TrimPrefix (IoTAPIKey (IoT config)) ''Bearer '')) \<and>
             client_keys (co_vault c) = gm_set (ck_ID key) (k\<lparr>kr_LastUsed := Some (bt_iot_at io)\<rparr>) (client_keys (tb_vault tb))))) \<and>
    (gm_at [] (BootstrapProviderKeys config) p = [] \<longrightarrow>
      map_of (provider_keys (co_vault c)) p = map_of (provider_keys (tb_vault tb)) p)"
proof -
  obtain v1 cat g ks where b: "bootstrap cy sl io config (tb_vault tb) = (None, v1)" and cf: "ConfigCatalog decode config = Inr cat"
    and g: "NewGateway config (Some cat) = Inr g"
    and br: "startBridge cy (bt_iot_fails io) (bt_iot_at io) (bt_broker_answers io) config (bt_router io) (client_keys v1) = (bridge, ks)"
    and c: "c = \<lparr>co_vault = v1\<lparr>accounts := (snd (bootstrapAdminUser cy io config (accounts v1)))\<lparr>throttle := newLoginThrottle\<rparr>,
          client_keys := ks\<rparr>,
        co_gateway = switch_of lib io tb (g\<lparr>catalog := filled io g tb\<rparr>),
        co_table = tb_models tb, co_probes = tb_probes tb, co_health = healthy, co_tags = tb_tags tb,
        co_black = tb_black tb, co_settings = tb_settings tb\<rparr>"
    by (rule startup_parts [OF assms(1)])
  have cat: "catalog (co_gateway c) = filled io g tb" by (simp add: c)
  have plain: "unmarked (catalog g)" using NewGateway_fields [OF g] configured_unmarked [OF cf] by simp
  have switch: "freeOnlyFlag (co_gateway c) =
      (if bt_setting_fails io then FreeOnly config
       else case FreeOnlySetting lib False (tb_settings tb) of None \<Rightarrow> FreeOnly config | Some on \<Rightarrow> on)"
    using NewGateway_fields [OF g]
    by (simp add: c switch_of_def SetFreeOnly_def FreeOnlySetting_def GetBoolSetting_def split: option.split)
  have users: "users (accounts (tb_vault tb)) \<noteq> [] \<longrightarrow> users (accounts (co_vault c)) = users (accounts (tb_vault tb)) \<and>
      sessions (accounts (co_vault c)) = sessions (accounts (tb_vault tb))"
    by (simp add: c bootstrap_accounts [OF b] bootstrapAdminUser_keeps)
  have ks: "client_keys (co_vault c) = ks" by (simp add: c)
  have clients: "client_keys (tb_vault tb) \<noteq> [] \<longrightarrow>
      (case bc_APIKey (br_cfg bridge) of
         None \<Rightarrow> client_keys (co_vault c) = client_keys (tb_vault tb)
       | Some key \<Rightarrow>
           (\<exists>k. (ck_ID key, k) \<in> set (client_keys (tb_vault tb)) \<and> kr_DisabledAt k = None \<and>
             kr_Hash k = sha256 cy (TrimSpace (TrimPrefix (IoTAPIKey (IoT config)) ''Bearer '')) \<and>
             client_keys (co_vault c) = gm_set (ck_ID key) (k\<lparr>kr_LastUsed := Some (bt_iot_at io)\<rparr>) (client_keys (tb_vault tb))))"
  proof
    assume "client_keys (tb_vault tb) \<noteq> []"
    then have kept: "client_keys v1 = client_keys (tb_vault tb)" by (rule bootstrap_client_keys [OF b])
    show "case bc_APIKey (br_cfg bridge) of
         None \<Rightarrow> client_keys (co_vault c) = client_keys (tb_vault tb)
       | Some key \<Rightarrow>
           (\<exists>k. (ck_ID key, k) \<in> set (client_keys (tb_vault tb)) \<and> kr_DisabledAt k = None \<and>
             kr_Hash k = sha256 cy (TrimSpace (TrimPrefix (IoTAPIKey (IoT config)) ''Bearer '')) \<and>
             client_keys (co_vault c) = gm_set (ck_ID key) (k\<lparr>kr_LastUsed := Some (bt_iot_at io)\<rparr>) (client_keys (tb_vault tb)))"
      using startBridge_keys [OF br] unfolding ks kept .
  qed
  have upstream: "gm_at [] (BootstrapProviderKeys config) p = [] \<longrightarrow>
      map_of (provider_keys (co_vault c)) p = map_of (provider_keys (tb_vault tb)) p"
    using seed_keys_others [OF bootstrap_provider_keys [OF b], of p] by (auto simp: c from_environment_def)
  show ?thesis
    using switch users clients upstream filled_tables [OF plain assms(2-4), of io m] NewGateway_fields [OF g]
    unfolding cat by (simp only: simp_thms)
qed

text \<open>
  A key given in the environment is stored again at every start: whatever an operator rotated or deleted in the console is
  overwritten.
\<close>

lemma environment_key_wins:
  assumes "startup cy sl lib decode io config tb = Some (c, bridge)" and "sealer_laws sl" and "\<And>n nonce. bt_nonce io n = Some nonce \<Longrightarrow> length nonce = NonceSize"
    and "range_order (bt_order io) (BootstrapProviderKeys config)" and "map_of (BootstrapProviderKeys config) name = Some k" and "k \<noteq> []"
  shows "ProviderKey sl (EncryptionKey config) False name (provider_keys (co_vault c)) = Inr k"
proof -
  obtain v1 where b: "bootstrap cy sl io config (tb_vault tb) = (None, v1)" and v: "provider_keys (co_vault c) = provider_keys v1"
    by (rule startup_parts [OF assms(1)]) simp
  have "name \<in> set (bt_order io)" using assms(4,5) by (force simp: range_order_def dest: map_of_SomeD)
  then have "(name, k) \<in> set (from_environment io config)"
    using assms(5) by (auto simp: from_environment_def gm_at_def gm_has_def)
  moreover have "distinct (map fst (from_environment io config))"
    using assms(4) by (simp add: from_environment_def range_order_def comp_def)
  ultimately show ?thesis unfolding v using seed_keys_wins [OF bootstrap_provider_keys [OF b]] assms(2,3,6) by blast
qed

section \<open>A start\<close>

definition old_tables :: Tables where
  "old_tables = \<lparr>tb_vault = \<lparr>accounts = no_accounts, client_keys = [(''k1'', \<lparr>kr_Hash = ''h'', kr_Encrypted = None, kr_Name = ''ed'',
       kr_CreatedAt = 0, kr_LastUsed = None, kr_DisabledAt = None\<rparr>)], provider_keys = []\<rparr>,
     tb_models = [], tb_probes = [], tb_tags = [], tb_black = [((''groq'', ''m''), 3)], tb_settings = []\<rparr>"

definition quiet_boot :: boot_io where
  "quiet_boot = \<lparr>bt_now = 9, bt_order = [], bt_store_fails = (\<lambda>_. False), bt_nonce = (\<lambda>_. None), bt_count_fails = False, bt_random = None,
     bt_key_nonce = None, bt_key_id = [], bt_key_fails = False, bt_users_fail = True, bt_salt = [], bt_user_id = [], bt_user_fails = False,
     bt_models_fail = False, bt_tags_fail = False, bt_black_fails = False,
     bt_confirmed = \<lparr>conf_at = 9, conf_ok = True, tried_at = 9, tried_ok = True, set_at = 9, mark_at = 9\<rparr>, bt_setting_fails = False,
     bt_iot_fails = False, bt_iot_at = 9, bt_broker_answers = True, bt_router = (\<lambda>_ _. Inl [])\<rparr>"

lemma quiet_start: "\<exists>c bridge. startup toy_crypto toy_sealer lib (\<lambda>_. None) quiet_boot (Load bare_host two_providers) old_tables = Some (c, bridge)"
proof -
  let ?c = "Load bare_host two_providers"
  have v: "Validate (\<lambda>_. None) ?c = None" using two_providers_config by blast
  obtain cat where cat: "ConfigCatalog (\<lambda>_. None) ?c = Inr cat" using Validate_None [OF v] by blast
  obtain reg where reg: "NewRegistry (ResolvedProviders ?c) = Inr reg" using validated_config_starts_witness by blast
  have "bootstrap toy_crypto toy_sealer quiet_boot ?c (tb_vault old_tables) = (None, tb_vault old_tables)"
    by (simp add: bootstrap_def from_environment_def quiet_boot_def old_tables_def CountClientKeys_def)
  with v cat reg show ?thesis by (simp add: startup_def NewGateway_def Let_def split: prod.split)
qed

lemma restart_keeps_settings_witness:
  "\<exists>c bridge. startup toy_crypto toy_sealer price_lib (\<lambda>_. None) quiet_boot (Load bare_host two_providers) old_tables = Some (c, bridge) \<and>
     Blacklisted (catalog (co_gateway c)) ''groq'' ''m'' \<and>
     map fst (client_keys (co_vault c)) = map fst (client_keys (tb_vault old_tables))"
proof -
  obtain c bridge where c: "startup toy_crypto toy_sealer price_lib (\<lambda>_. None) quiet_boot (Load bare_host two_providers) old_tables =
      Some (c, bridge)"
    using quiet_start by blast
  have "no_slash ''groq''" by (simp add: no_slash_def)
  from restart_keeps_settings [OF c _ _ this, of "''m''"] c show ?thesis
    by (auto simp: quiet_boot_def old_tables_def no_slash_def gm_has_def split: option.splits)
qed

section \<open>How old an embedding key may be\<close>

text \<open>The reads a resolver made, each with the clock after it; a resolver starts empty, with no name.\<close>

inductive resolving_key :: "string \<Rightarrow> (time \<times> (KeyError + string)) list \<Rightarrow> providerKeyResolver \<Rightarrow> bool" for name where
  fresh: "resolving_key name [] \<lparr>rs_key = [], rs_name = [], rs_loaded = t\<rparr>"
| asked: "resolving_key name reads r \<Longrightarrow> resolver_get now reading later name r = (ans, r') \<Longrightarrow>
    resolving_key name (if r' = r then reads else (later, reading) # reads) r'"

definition says :: "KeyError + string \<Rightarrow> string \<Rightarrow> bool" where
  "says reading k \<longleftrightarrow> reading = Inr k \<or> reading = Inl ErrNoProviderKey \<and> k = []"

lemma resolver_get_reads:
  "resolver_get now reading later name r = (ans, r') \<Longrightarrow> r' = r \<or> rs_loaded r' = later \<and> says reading (rs_key r')"
  by (auto simp: resolver_get_def says_def split: if_splits sum.splits)

lemma resolving_key_recorded:
  "resolving_key name reads r \<Longrightarrow> rs_name r = name \<Longrightarrow> name \<noteq> [] \<Longrightarrow> \<exists>reading. (rs_loaded r, reading) \<in> set reads \<and> says reading (rs_key r)"
proof (induction rule: resolving_key.induct)
  case (asked reads r now reading later ans r')
  from resolver_get_reads [OF asked.hyps(2)] show ?case
  proof
    assume "r' = r"
    with asked show ?thesis by simp
  next
    assume "rs_loaded r' = later \<and> says reading (rs_key r')"
    with asked show ?thesis by (cases "r' = r") auto
  qed
qed simp

text \<open>The key the cache is given is one the table held, or the absence of one, at a read that ended less than thirty seconds before.\<close>

theorem embedding_key_is_recent:
  assumes "resolving_key ''openai'' reads r" and "embedding_key sl config fails now later ps r = (Inr k, r')" and "now \<le> later"
  shows "\<exists>t reading. (t, reading) \<in> set ((later, ProviderKey sl (EncryptionKey config) fails ''openai'' ps) # reads) \<and> says reading k \<and>
    now - 30 * Second < t"
proof (cases "rs_name r = ''openai'' \<and> now - rs_loaded r < providerKeyTTL")
  case True
  with assms(2) have "k = rs_key r" by (auto simp: embedding_key_def resolver_get_def)
  with resolving_key_recorded [OF assms(1)] True show ?thesis by (fastforce simp: providerKeyTTL_def)
next
  case False
  then have "says (ProviderKey sl (EncryptionKey config) fails ''openai'' ps) k"
    using assms(2) by (auto simp: embedding_key_def resolver_get_def says_def split: sum.splits if_splits)
  moreover have "now - 30 * Second < later" using assms(3) by (simp add: Second_def)
  ultimately show ?thesis by (meson list.set_intros(1))
qed

lemma embedding_key_is_recent_witness:
  "\<exists>t reading. (t, reading) \<in> set ((9, ProviderKey toy_sealer toy_key False ''openai'' []) # []) \<and> says reading [] \<and> 7 - 30 * Second < t"
  using embedding_key_is_recent [OF resolving_key.fresh, of toy_sealer "plain_config\<lparr>EncryptionKey := toy_key\<rparr>" False 7 9 "[]" 0 "[]"
      "\<lparr>rs_key = [], rs_name = ''openai'', rs_loaded = 9\<rparr>"]
  by (simp add: embedding_key_def resolver_get_def ProviderKey_def)

end
