(* ===== verification/Embeddings.thy ===== *)
theory Embeddings
  imports Startup
begin

text \<open>
  The embedding client (\<open>internal/provider/embeddings.go\<close>): the request it sends and the vector it accepts. A 32-bit float is
  kept as the number it was written as; reading it is a parameter.
\<close>

definition EmbeddingDimensions :: nat where "EmbeddingDimensions = 1536"

definition DefaultEmbeddingModel :: string where "DefaultEmbeddingModel = ''text-embedding-3-small''"

datatype embed_error =
    ErrNoKey
  | KeyUnreadable KeyError
  | BadEmbeddingURL string
  | EmbeddingUnreachable string
  | EmbeddingRefused int string
  | EmbeddingMalformed json_error
  | NoVectors
  | WrongWidth string nat

text \<open>What the endpoint does: no answer, a status and what was read of the body, and the decoded body.\<close>

datatype embed_answer = NoEmbeddingAnswer string | EmbeddingAnswer int string "json_error + json"

definition embed_model :: "string \<Rightarrow> string" where
  "embed_model m = (if m = [] then DefaultEmbeddingModel else m)"

definition embed_request :: "golib \<Rightarrow> string \<Rightarrow> string \<Rightarrow> string \<Rightarrow> string \<Rightarrow> string + HttpRequest" where
  "embed_request lib baseURL m apiKey content =
     new_post lib (baseURL @ ''/embeddings'') [json_content, (''Authorization'', ''Bearer '' @ apiKey)]
       (marshal_map [(''model'', JStr (embed_model m)), (''input'', JStr content), (''dimensions'', jint (int EmbeddingDimensions))])"

text \<open>\<open>num\<close> reads one number of a vector.\<close>

definition decode_vectors :: "(json \<Rightarrow> json_error + 'n) \<Rightarrow> json \<Rightarrow> json_error + 'n list list" where
  "decode_vectors num j =
     and_then (as_fields j) (\<lambda>fs.
       as_list (\<lambda>e. and_then (as_fields e) (\<lambda>es. as_list num (fields_get es ''embedding''))) (fields_get fs ''data''))"

definition Embed ::
  "golib \<Rightarrow> (json \<Rightarrow> json_error + 'n) \<Rightarrow> string \<Rightarrow> string \<Rightarrow> KeyError + string \<Rightarrow> (HttpRequest \<Rightarrow> embed_answer) \<Rightarrow> string \<Rightarrow>
    embed_error + 'n list" where
  "Embed lib num baseURL m key post content =
     (case key of
        Inl e \<Rightarrow> Inl (KeyUnreadable e)
      | Inr apiKey \<Rightarrow>
          if apiKey = [] then Inl ErrNoKey
          else case embed_request lib baseURL m apiKey content of
              Inl e \<Rightarrow> Inl (BadEmbeddingURL e)
            | Inr req \<Rightarrow>
                (case post req of
                   NoEmbeddingAnswer e \<Rightarrow> Inl (EmbeddingUnreachable e)
                 | EmbeddingAnswer code raw answer \<Rightarrow>
                     if code \<noteq> 200 then Inl (EmbeddingRefused code (take 4096 raw))
                     else (case and_then answer (decode_vectors num) of
                         Inl e \<Rightarrow> Inl (EmbeddingMalformed e)
                       | Inr [] \<Rightarrow> Inl NoVectors
                       | Inr (vec # vecs) \<Rightarrow>
                           if length vec \<noteq> EmbeddingDimensions then Inl (WrongWidth (embed_model m) (length vec)) else Inr vec)))"

text \<open>A vector that is accepted has the width of the column, came with status 200 and was paid for with a key.\<close>

lemma Embed_width:
  "Embed lib num baseURL m key post content = Inr vec \<Longrightarrow> length vec = 1536 \<and> (\<exists>k. key = Inr k \<and> k \<noteq> [])"
  by (auto simp: Embed_def EmbeddingDimensions_def split: sum.splits if_splits embed_answer.splits list.splits)

text \<open>Without a key nothing is sent.\<close>

lemma Embed_no_key: "Embed lib num baseURL m (Inr []) post content = Inl ErrNoKey"
  by (simp add: Embed_def)

section \<open>What the cache makes of it\<close>

definition embedding_of :: "embed_error + vec \<Rightarrow> Embedding" where
  "embedding_of r =
     (case r of Inl e \<Rightarrow> if e = ErrNoKey then NoEmbeddingKey else EmbedFails | Inr v \<Rightarrow> Embedded v)"

text \<open>A deployment without an embedding key misses quietly: nothing is sent, and no lookup is an error.\<close>

lemma no_key_misses_quietly:
  assumes "embed v = (\<lambda>prompt. embedding_of (Embed lib num baseURL m (Inr []) post prompt))" and "enabled c"
  shows "CacheLookup v now fails model prompt c = (LookupMiss, c\<lparr>misses := misses c + 1\<rparr>)"
  using assms by (simp add: CacheLookup_def embedding_of_def Embed_no_key)

end
