(* ===== verification/Responses_Handler.thy ===== *)
theory Responses_Handler
  imports Responses_Equivalence Responses_Facts Chat_Handler
begin

text \<open>
  The Responses surface from the HTTP request to the bytes of the reply (\<open>handleResponses\<close> of \<open>internal/api/responses.go\<close>),
  over the translation, the stream and the chat surface's parts. \<open>render\<close> is \<open>json.Marshal\<close> as text.
\<close>

section \<open>The handler\<close>

definition read_responses_request :: "golib \<Rightarrow> string \<Rightarrow> string option \<Rightarrow> http_reply + responsesRequest \<times> ChatRequest" where
  "read_responses_request lib default_model sent_body =
     (case sent_body of
        None \<Rightarrow> Inl (ErrorReply 400 ''failed to read request body'' ''invalid_request_error'')
      | Some bytes \<Rightarrow>
          (case unmarshal lib (decode_responsesRequest lib) (take maxRequestBytes bytes) of
             Inl why \<Rightarrow> Inl (ErrorReply 400 (''invalid JSON body: '' @ why) ''invalid_request_error'')
           | Inr rr \<Rightarrow>
               (case chatRequestFrom lib default_model rr of
                  Inl e \<Rightarrow> Inl (ErrorReply 400 e ''invalid_request_error'')
                | Inr req \<Rightarrow> Inr (rr, req))))"

definition stream_bytes :: "(json \<Rightarrow> string) \<Rightarrow> responsesStream \<Rightarrow> string" where
  "stream_bytes render s = concat (map (event_frame render) (sent s))"

definition handleResponses ::
  "golib \<Rightarrow> (json \<Rightarrow> string) \<Rightarrow> mint \<Rightarrow> string \<Rightarrow> crypto \<Rightarrow> bool \<Rightarrow> time \<Rightarrow> string \<Rightarrow> rq \<Rightarrow> string option \<Rightarrow>
    (ChatRequest \<Rightarrow> ClientKey \<Rightarrow> gateway_answer) \<Rightarrow> key_table \<Rightarrow> http_reply \<times> key_table" where
  "handleResponses lib render io default_model cy fails now http_method r sent_body gateway ks =
     (if http_method \<noteq> ''POST'' then (ErrorReply 405 ''method not allowed'' ''invalid_request_error'', ks)
      else case authorize cy fails now r ks of
          (Inl no, ks') \<Rightarrow> (reply_of no, ks')
        | (Inr key, ks') \<Rightarrow>
            (case read_responses_request lib default_model sent_body of
               Inl no \<Rightarrow> (no, ks')
             | Inr (rr, req) \<Rightarrow>
                 (let ans = gateway req key in
                  if rr_Stream rr then
                    (case streamResponses io (ReqModel req) (ga_chunks ans) (ga_error ans) of
                       Inl (code, e) \<Rightarrow> (ErrorReply code e ''upstream_error'', ks')
                     | Inr s \<Rightarrow> (EventStream (stream_bytes render s), ks'))
                  else case ga_whole ans of
                      Inl e \<Rightarrow> (ErrorReply 502 e ''upstream_error'', ks')
                    | Inr resp \<Rightarrow> (JsonReply 200 (encode_responsesBody (responsesFromChat io resp (ReqModel req))), ks'))))"

section \<open>What every reply is\<close>

text \<open>
  Nothing reaches the gateway without a valid key, and a reply of an answered request is the translation of the gateway's
  answer: an error, one JSON body, or the frames of the stream.
\<close>

lemma responses_need_a_key:
  assumes "fst (authorize cy fails now r ks) = Inl no"
  shows "fst (handleResponses lib render io dm cy fails now http_method r sent_body gateway ks) =
    (if http_method \<noteq> ''POST'' then ErrorReply 405 ''method not allowed'' ''invalid_request_error'' else reply_of no)"
  using assms by (auto simp: handleResponses_def split: prod.splits sum.splits)

text \<open>
  One gateway, two surfaces: what the model is asked through the Responses surface is a chat request for the same model,
  never empty, never streaming unless it was asked to be, with a body of its own.
\<close>

lemma responses_ask_a_chat_request:
  assumes "read_responses_request lib dm (Some bytes) = Inr (rr, req)"
  shows "Messages req \<noteq> [] \<and> Stream req = rr_Stream rr \<and> ReqModel req = (if rr_Model rr = [] then dm else rr_Model rr) \<and>
    PreviousResponseID rr = [] \<and> Raw req \<noteq> None"
  using assms
  by (auto simp: read_responses_request_def chatRequestFrom_def and_then_Inr Let_def split: sum.splits if_splits)

end
