(* ===== verification/Migrations.thy ===== *)
theory Migrations
  imports Prelude
begin

text \<open>
  Applying the schema (\<open>internal/db/migrate.go\<close>): which files run, in which order, and what is recorded. What a file does to
  the database is an argument, the run of its SQL, which may fail; each runs in one transaction with its record.
\<close>

section \<open>Migrating\<close>

record 'db Schema =
  sm_db :: 'db
  sm_versions :: "string list"

text \<open>\<open>fails\<close> is an error of the transaction itself: its begin, the record or the commit.\<close>

definition applyOne ::
  "(string \<Rightarrow> 'db \<Rightarrow> 'db option) \<Rightarrow> (string \<Rightarrow> bool) \<Rightarrow> string \<Rightarrow> string \<Rightarrow> 'db Schema \<Rightarrow> bool \<times> 'db Schema" where
  "applyOne exec fails name sql s =
     (case exec sql (sm_db s) of
        None \<Rightarrow> (False, s)
      | Some d \<Rightarrow>
          if fails name \<or> name \<in> set (sm_versions s) then (False, s)
          else (True, s\<lparr>sm_db := d, sm_versions := sm_versions s @ [name]\<rparr>))"

fun apply_pending ::
  "(string \<Rightarrow> 'db \<Rightarrow> 'db option) \<Rightarrow> (string \<Rightarrow> bool) \<Rightarrow> (string, string) gomap \<Rightarrow> string list \<Rightarrow> string list \<Rightarrow> 'db Schema \<Rightarrow>
    string option \<times> 'db Schema" where
  "apply_pending exec fails files applied [] s = (None, s)"
| "apply_pending exec fails files applied (name # names) s =
     (if name \<in> set applied then apply_pending exec fails files applied names s
      else case applyOne exec fails name (gm_at [] files name) s of
          (False, s') \<Rightarrow> (Some name, s')
        | (True, s') \<Rightarrow> apply_pending exec fails files applied names s')"

text \<open>The embedded files; creating the table of versions and reading it may fail.\<close>

definition Migrate ::
  "(string \<Rightarrow> 'db \<Rightarrow> 'db option) \<Rightarrow> (string \<Rightarrow> bool) \<Rightarrow> bool \<Rightarrow> (string, string) gomap \<Rightarrow> 'db Schema \<Rightarrow>
    string option \<times> 'db Schema" where
  "Migrate exec fails versions_fail files s =
     (if versions_fail then (Some [], s)
      else apply_pending exec fails files (sm_versions s) (sort (map fst files)) s)"

section \<open>Once each, in order\<close>

lemma apply_pending_runs:
  assumes "apply_pending exec fails files applied names s = (err, s')" and "distinct names"
    and "set applied \<subseteq> set (sm_versions s)" and "\<forall>n \<in> set names. n \<in> set applied \<or> n \<notin> set (sm_versions s)"
  shows "\<exists>ran rest. filter (\<lambda>n. n \<notin> set applied) names = ran @ rest \<and> sm_versions s' = sm_versions s @ ran \<and>
    (err = None \<longleftrightarrow> rest = []) \<and> fold (\<lambda>n d. Option.bind d (exec (gm_at [] files n))) ran (Some (sm_db s)) = Some (sm_db s')"
  using assms
proof (induction names arbitrary: s)
  case (Cons name names)
  show ?case
  proof (cases "name \<in> set applied")
    case True
    with Cons show ?thesis by simp
  next
    case False
    obtain ok s1 where one: "applyOne exec fails name (gm_at [] files name) s = (ok, s1)" by force
    show ?thesis
    proof (cases ok)
      case no: False
      then have "s1 = s" using one by (auto simp: applyOne_def split: option.splits if_splits)
      moreover have "err = Some name" "s' = s1" using Cons.prems(1) False one no by simp_all
      ultimately show ?thesis using False by - (rule exI [of _ "[]"], simp)
    next
      case yes: True
      then obtain d where d: "exec (gm_at [] files name) (sm_db s) = Some d" "s1 = s\<lparr>sm_db := d, sm_versions := sm_versions s @ [name]\<rparr>"
        using one by (auto simp: applyOne_def split: option.splits if_splits)
      have "apply_pending exec fails files applied names s1 = (err, s')" using Cons.prems(1) False one yes by simp
      then obtain ran rest where "filter (\<lambda>n. n \<notin> set applied) names = ran @ rest" "sm_versions s' = sm_versions s1 @ ran"
          "err = None \<longleftrightarrow> rest = []" "fold (\<lambda>n d. Option.bind d (exec (gm_at [] files n))) ran (Some (sm_db s1)) = Some (sm_db s')"
        using Cons.IH [of s1] Cons.prems(2-4) d by auto
      then show ?thesis using False d by (intro exI [of _ "name # ran"] exI [of _ rest]) simp
    qed
  qed
qed simp

text \<open>
  C30. A migration runs the files that are not recorded yet, in the order of their names and each once, and records exactly those
  that ran; when one fails, those before it stay, it leaves nothing, and a later run goes on with it.
\<close>

theorem migrations_run_once:
  assumes "gm_ok files" and "set (sm_versions s) \<subseteq> fst ` set files" and "distinct (sm_versions s)"
    and "Migrate exec fails False files s = (err, s')"
  shows "\<exists>ran rest. filter (\<lambda>n. n \<notin> set (sm_versions s)) (sort (map fst files)) = ran @ rest \<and>
    sm_versions s' = sm_versions s @ ran \<and> distinct (sm_versions s') \<and>
    fold (\<lambda>n d. Option.bind d (exec (gm_at [] files n))) ran (Some (sm_db s)) = Some (sm_db s') \<and>
    (err = None \<longleftrightarrow> rest = []) \<and>
    (err = None \<longrightarrow> set (sm_versions s') = fst ` set files \<and> Migrate exec fails' False files s' = (None, s'))"
proof -
  let ?names = "sort (map fst files)"
  have d: "distinct ?names" using assms(1) by simp
  from assms(4) have run: "apply_pending exec fails files (sm_versions s) ?names s = (err, s')" by (simp add: Migrate_def)
  obtain ran rest where r: "filter (\<lambda>n. n \<notin> set (sm_versions s)) ?names = ran @ rest" "sm_versions s' = sm_versions s @ ran"
      "err = None \<longleftrightarrow> rest = []" "fold (\<lambda>n d. Option.bind d (exec (gm_at [] files n))) ran (Some (sm_db s)) = Some (sm_db s')"
    using apply_pending_runs [OF run d] by auto
  have "distinct (ran @ rest)" unfolding r(1) [symmetric] using d by simp
  moreover have "set ran \<inter> set (sm_versions s) = {}"
  proof -
    have "set (ran @ rest) = {n \<in> set ?names. n \<notin> set (sm_versions s)}" unfolding r(1) [symmetric] by simp
    then show ?thesis by auto
  qed
  ultimately have dist: "distinct (sm_versions s')" using assms(3) r(2) by auto
  have all: "set (sm_versions s') = fst ` set files" if "err = None"
  proof -
    have "set ran = {n \<in> set ?names. n \<notin> set (sm_versions s)}" using r(1,3) that by (metis append_Nil2 set_filter)
    then show ?thesis using r(2) assms(2) by auto
  qed
  have idle: "apply_pending exec fails' files (sm_versions s') names s' = (None, s')" if "set names \<subseteq> set (sm_versions s')" for names
    using that by (induction names) auto
  have again: "Migrate exec fails' False files s' = (None, s')" if "err = None"
    using idle [of ?names] all [OF that] by (simp add: Migrate_def)
  from r dist all again show ?thesis by blast
qed

lemma migrations_run_once_witness:
  "\<exists>s'. Migrate (\<lambda>sql d. if sql = ''bad'' then None else Some (d @ [sql])) (\<lambda>_. False) False [(''2'', ''b''), (''1'', ''a'')] \<lparr>sm_db = [], sm_versions = []\<rparr>
     = (None, s') \<and> sm_versions s' = [''1'', ''2'']"
proof -
  let ?exec = "\<lambda>sql d. if sql = ''bad'' then None else Some (d @ [sql])" and ?files = "[(''2'', ''b''), (''1'', ''a'')]"
  let ?s = "\<lparr>sm_db = [], sm_versions = []\<rparr>"
  have o: "sort (map fst ?files) = [''1'', ''2'']" by code_simp
  have m: "Migrate ?exec (\<lambda>_. False) False ?files ?s = (None, \<lparr>sm_db = [''a'', ''b''], sm_versions = [''1'', ''2'']\<rparr>)"
    unfolding Migrate_def o by (simp add: applyOne_def gm_at_def)
  have "set (sm_versions \<lparr>sm_db = [''a'', ''b''], sm_versions = [''1'', ''2'']\<rparr>) = fst ` set ?files"
    using migrations_run_once [OF _ _ _ m, of "\<lambda>_. True"] by simp
  with m show ?thesis by simp
qed

end
