(* ===== verification/Connect.thy ===== *)
theory Connect
  imports Throttle
begin

text \<open>
  Waiting for the database (\<open>Connect\<close> of \<open>internal/db/db.go\<close>). The driver and the clock are parameters: what opening the
  pool answers, and for every ping how long it takes, its error, and how much longer than asked the sleep after it lasts.
  The loop has no bound of its own, so it is a partial function; that it returns is a theorem.
\<close>

section \<open>The loop\<close>

definition Millisecond :: duration where "Millisecond = 1000000"

definition connectTimeout :: duration where "connectTimeout = 60 * Second"

record ping_io =
  pg_took :: nat
  pg_error :: "string option"
  pg_overslept :: nat

record pool =
  po_MaxOpen :: nat
  po_MaxIdle :: nat
  po_Lifetime :: duration

definition tuned :: pool where
  "tuned = \<lparr>po_MaxOpen = 10, po_MaxIdle = 5, po_Lifetime = 30 * Minute\<rparr>"

datatype ConnectError = OpenFailed string | DatabaseUnreachable string

text \<open>What has become of the database handle: only a wait that is given up closes it.\<close>

datatype db_handle = Never_opened | Handle_open | Handle_closed

definition next_delay :: "duration \<Rightarrow> duration" where
  "next_delay d = (if d < 5 * Second then d * 2 else d)"

text \<open>The answer, the handle, the number of pings before the last, and the clock when it returns.\<close>

partial_function (option) ping_loop ::
  "(nat \<Rightarrow> ping_io) \<Rightarrow> time \<Rightarrow> nat \<Rightarrow> time \<Rightarrow> duration \<Rightarrow> ((ConnectError + pool) \<times> db_handle \<times> nat \<times> time) option" where
  "ping_loop net deadline n t delay =
     (let now = t + int (pg_took (net n)) in
      case pg_error (net n) of
        None \<Rightarrow> Some (Inr tuned, Handle_open, n, now)
      | Some e \<Rightarrow>
          if After now deadline then Some (Inl (DatabaseUnreachable e), Handle_closed, n, now)
          else ping_loop net deadline (Suc n) (now + delay + int (pg_overslept (net n))) (next_delay delay))"

definition Connect :: "string option \<Rightarrow> (nat \<Rightarrow> ping_io) \<Rightarrow> time \<Rightarrow> ((ConnectError + pool) \<times> db_handle \<times> nat \<times> time) option" where
  "Connect open_error net start =
     (case open_error of
        Some e \<Rightarrow> Some (Inl (OpenFailed e), Never_opened, 0, start)
      | None \<Rightarrow> ping_loop net (start + connectTimeout) 0 start (500 * Millisecond))"

section \<open>It returns\<close>

text \<open>The delay after the \<open>n\<close>-th ping, and what \<open>n\<close> of them add up to.\<close>

fun delay_at :: "nat \<Rightarrow> duration" where
  "delay_at 0 = 500 * Millisecond"
| "delay_at (Suc n) = next_delay (delay_at n)"

fun slept :: "nat \<Rightarrow> duration" where
  "slept 0 = 0"
| "slept (Suc n) = slept n + delay_at n"

lemma delay_bounds: "0 < delay_at n \<and> delay_at n \<le> 8 * Second \<and> (\<exists>k. delay_at n = 2 ^ k * (500 * Millisecond))"
proof (induction n)
  case (Suc n)
  then obtain k where k: "delay_at n = 2 ^ k * (500 * Millisecond)" by blast
  have "delay_at (Suc n) \<le> 8 * Second"
  proof (cases "delay_at n < 5 * Second")
    case True
    with k have "(2::int) ^ k < 2 ^ 4" by (simp add: Second_def Millisecond_def)
    then have "k < 4" using power_less_imp_less_exp [of "2::int" k 4] by linarith
    then have "(2::int) ^ k \<le> 2 ^ 3" by (intro power_increasing) simp_all
    with True k show ?thesis by (simp add: next_delay_def Second_def Millisecond_def)
  qed (use Suc in \<open>simp add: next_delay_def\<close>)
  moreover have "\<exists>k. delay_at (Suc n) = 2 ^ k * (500 * Millisecond)"
    using k by (auto simp: next_delay_def intro: exI [of _ "Suc k"])
  ultimately show ?case using Suc by (simp add: next_delay_def)
qed (auto simp: Second_def Millisecond_def intro: exI [of _ 0])

lemma slept_11: "connectTimeout < slept 11"
  by (simp add: eval_nat_numeral next_delay_def connectTimeout_def Second_def Millisecond_def)

lemma ping_loop_returns:
  assumes "n \<le> 11" and "delay = delay_at n" and "start + slept n \<le> t" and "\<forall>i < n. pg_error (net i) \<noteq> None"
    and "t \<le> start + connectTimeout + 8 * Second + spare"
    and "\<forall>i. int (pg_overslept (net i)) \<le> spare" and "0 \<le> spare"
  shows "\<exists>r h m t'. ping_loop net (start + connectTimeout) n t delay = Some (r, h, m, t') \<and> m \<le> 11 \<and>
    (\<forall>i < m. pg_error (net i) \<noteq> None) \<and>
    (case r of
       Inr p \<Rightarrow> pg_error (net m) = None \<and> p = tuned \<and> h = Handle_open
     | Inl e \<Rightarrow> (\<exists>why. pg_error (net m) = Some why \<and> e = DatabaseUnreachable why) \<and> h = Handle_closed \<and> start + connectTimeout < t') \<and>
    t' \<le> start + connectTimeout + 8 * Second + spare + int (pg_took (net m))"
  using assms
proof (induction "11 - n" arbitrary: n t delay)
  case 0
  let ?now = "t + int (pg_took (net n))"
  from 0 have n: "n = 11" by simp
  with 0(4) slept_11 have late: "After ?now (start + connectTimeout)" by (simp add: After_def)
  show ?case
  proof (cases "pg_error (net n)")
    case None
    with 0 show ?thesis by (subst ping_loop.simps) (simp add: Let_def)
  next
    case (Some e)
    with 0 late show ?thesis by (subst ping_loop.simps) (auto simp: Let_def After_def)
  qed
next
  case (Suc k)
  let ?now = "t + int (pg_took (net n))"
  show ?case
  proof (cases "pg_error (net n)")
    case None
    with Suc show ?thesis by (subst ping_loop.simps) (simp add: Let_def)
  next
    case (Some e)
    show ?thesis
    proof (cases "After ?now (start + connectTimeout)")
      case True
      with Some Suc show ?thesis by (subst ping_loop.simps) (auto simp: Let_def After_def)
    next
      case False
      let ?t = "?now + delay + int (pg_overslept (net n))"
      have "?t \<le> start + connectTimeout + 8 * Second + spare"
        using False delay_bounds [of n] Suc.prems(2) spec [OF Suc.prems(6), of n] by (simp add: After_def)
      moreover have "start + slept (Suc n) \<le> ?t" using Suc.prems by simp
      moreover have "\<forall>i < Suc n. pg_error (net i) \<noteq> None" using Suc.prems(4) Some less_Suc_eq by auto
      ultimately have "\<exists>r h m t'. ping_loop net (start + connectTimeout) (Suc n) ?t (next_delay delay) = Some (r, h, m, t') \<and> m \<le> 11 \<and>
        (\<forall>i < m. pg_error (net i) \<noteq> None) \<and>
        (case r of
           Inr p \<Rightarrow> pg_error (net m) = None \<and> p = tuned \<and> h = Handle_open
         | Inl e \<Rightarrow> (\<exists>why. pg_error (net m) = Some why \<and> e = DatabaseUnreachable why) \<and> h = Handle_closed \<and> start + connectTimeout < t') \<and>
        t' \<le> start + connectTimeout + 8 * Second + spare + int (pg_took (net m))"
        using Suc.hyps Suc.prems by (intro Suc.hyps(1)) simp_all
      with Some False show ?thesis by (subst ping_loop.simps) (simp add: Let_def)
    qed
  qed
qed

text \<open>
  C8. Connecting always ends. Whatever the database and the driver do, at most twelve pings are made; the pool is handed over
  exactly when a ping was answered, after every earlier one had failed; an error names the last failure, is only given
  after the deadline, and leaves the handle closed; and when no sleep lasts longer than asked by more than \<open>spare\<close>, the whole wait is over within
  68 seconds, the last ping and \<open>spare\<close> apart.
\<close>

theorem connecting_ends:
  assumes "\<forall>i. int (pg_overslept (net i)) \<le> spare" and "0 \<le> spare"
  shows "\<exists>r h m t. Connect None net start = Some (r, h, m, t) \<and> m < 12 \<and> (\<forall>i < m. pg_error (net i) \<noteq> None) \<and>
    (case r of
       Inr p \<Rightarrow> pg_error (net m) = None \<and> p = tuned \<and> h = Handle_open
     | Inl e \<Rightarrow> (\<exists>why. pg_error (net m) = Some why \<and> e = DatabaseUnreachable why) \<and> h = Handle_closed \<and> start + 60 * Second < t) \<and>
    t \<le> start + 68 * Second + spare + int (pg_took (net m))"
proof -
  have "0 \<le> connectTimeout + 8 * Second" by (simp add: connectTimeout_def Second_def)
  with assms ping_loop_returns [of 0 "500 * Millisecond" start start net spare]
  obtain r h m t where *: "ping_loop net (start + connectTimeout) 0 start (500 * Millisecond) = Some (r, h, m, t)" "m \<le> 11"
    "\<forall>i < m. pg_error (net i) \<noteq> None"
    "case r of
       Inr p \<Rightarrow> pg_error (net m) = None \<and> p = tuned \<and> h = Handle_open
     | Inl e \<Rightarrow> (\<exists>why. pg_error (net m) = Some why \<and> e = DatabaseUnreachable why) \<and> h = Handle_closed \<and> start + connectTimeout < t"
    "t \<le> start + connectTimeout + 8 * Second + spare + int (pg_took (net m))" by auto
  then show ?thesis by (auto simp: Connect_def connectTimeout_def split: sum.splits)
qed

text \<open>A database that comes up after two pings.\<close>

definition late_database :: "nat \<Rightarrow> ping_io" where
  "late_database n = \<lparr>pg_took = 1, pg_error = (if n < 2 then Some ''refused'' else None), pg_overslept = 0\<rparr>"

lemma late_connect: "Connect None late_database 0 = Some (Inr tuned, Handle_open, 2, 1500000003)"
  by (simp add: Connect_def ping_loop.simps [of late_database] late_database_def After_def connectTimeout_def next_delay_def
      Second_def Millisecond_def Let_def)

lemma connecting_ends_witness:
  "\<exists>r h m t. Connect None late_database 0 = Some (r, h, m, t) \<and> m < 12 \<and> t \<le> 68 * Second + 1"
  using connecting_ends [of late_database 0 0] by (auto simp: late_database_def)

end
