(* ===== verification/Routes.thy ===== *)
theory Routes
  imports Playground Model_List Responses_Handler Startup
begin

text \<open>
  The HTTP surface (\<open>NewHandler\<close> of \<open>internal/api/handler.go\<close> and the \<open>register...Routes\<close> functions beside the handlers):
  the table of patterns, the choice the standard library's \<open>ServeMux\<close> makes in it, the bodies the handlers decode, and
  the request served by the handler its route names. The path of a request is the list of its segments, cleaned and
  unescaped, as the mux compares them; a path that is not clean is answered by a redirect of the library, before any handler.
\<close>

section \<open>Patterns\<close>

datatype seg = Lit string | Wild | Rest

record pattern =
  pa_Method :: string
  pa_Segs :: "seg list"

fun parse_segs :: "string list \<Rightarrow> seg list" where
  "parse_segs [] = []"
| "parse_segs [s] = (if s = [] then [Rest] else if hd s = CHR ''{'' then [Wild] else [Lit s])"
| "parse_segs (s # ss) = (if hd s = CHR ''{'' then Wild else Lit s) # parse_segs ss"

text \<open>A pattern is an optional method, a space, and a path; a path that ends in a slash matches whatever follows.\<close>

definition parse_pattern :: "string \<Rightarrow> pattern" where
  "parse_pattern s =
     (let (m, path) = (case Cut s CHR '' '' of (before, after, found) \<Rightarrow> if found then (before, after) else ([], s)) in
      \<lparr>pa_Method = m, pa_Segs = parse_segs (Split (tl path) CHR ''/'')\<rparr>)"

text \<open>The values of the wildcards; a wildcard takes one segment that is not empty.\<close>

fun seg_match :: "seg list \<Rightarrow> string list \<Rightarrow> string list option" where
  "seg_match [] [] = Some []"
| "seg_match (Rest # ps) (x # xs) = Some []"
| "seg_match (Lit l # ps) (x # xs) = (if l = x then seg_match ps xs else None)"
| "seg_match (Wild # ps) (x # xs) = (if x = [] then None else map_option (Cons x) (seg_match ps xs))"
| "seg_match _ _ = None"

definition method_match :: "string \<Rightarrow> string \<Rightarrow> bool" where
  "method_match m pm \<longleftrightarrow> pm = [] \<or> pm = m \<or> (m = ''HEAD'' \<and> pm = ''GET'')"

definition pattern_match :: "string \<Rightarrow> string list \<Rightarrow> pattern \<Rightarrow> string list option" where
  "pattern_match m path p = (if method_match m (pa_Method p) then seg_match (pa_Segs p) path else None)"

text \<open>A literal segment is tried before a wildcard, and a wildcard before the rest of a path.\<close>

fun seg_rank :: "seg \<Rightarrow> nat" where
  "seg_rank (Lit _) = 0" | "seg_rank Wild = 1" | "seg_rank Rest = 2"

definition method_rank :: "string \<Rightarrow> string \<Rightarrow> nat" where
  "method_rank m pm = (if pm = m then 0 else if pm = [] then 2 else 1)"

definition rank :: "string \<Rightarrow> pattern \<Rightarrow> nat list" where
  "rank m p = method_rank m (pa_Method p) # map seg_rank (pa_Segs p)"

fun better :: "string \<Rightarrow> pattern \<times> 'e \<times> string list \<Rightarrow> (pattern \<times> 'e \<times> string list) option \<Rightarrow> (pattern \<times> 'e \<times> string list) option" where
  "better m x None = Some x"
| "better m x (Some y) = (if rank m (fst y) < rank m (fst x) then Some y else Some x)"

fun mux_find :: "(pattern \<times> 'e) list \<Rightarrow> string \<Rightarrow> string list \<Rightarrow> (pattern \<times> 'e \<times> string list) option" where
  "mux_find [] m path = None"
| "mux_find ((p, e) # rs) m path =
     (case pattern_match m path p of
        None \<Rightarrow> mux_find rs m path
      | Some vals \<Rightarrow> better m (p, e, vals) (mux_find rs m path))"

section \<open>The table\<close>

datatype endpoint =
    EP_login | EP_logout | EP_me | EP_password
  | EP_listKeys | EP_createKey | EP_revealKey | EP_revokeKey
  | EP_listProviders | EP_setProviderKey | EP_deleteProviderKey
  | EP_listModelTags | EP_setModelTags
  | EP_listBlacklist | EP_blacklistModel | EP_unblacklistModel
  | EP_listUsers | EP_createUser | EP_updateUser
  | EP_stats | EP_usage | EP_keys | EP_models | EP_catalogue | EP_discover | EP_probe | EP_probes | EP_route | EP_active
  | EP_newModels | EP_scores | EP_chat | EP_playground | EP_getSettings | EP_putSettings
  | EP_completions | EP_responses | EP_modelList | EP_telemetry | EP_inference | EP_health | EP_page

type_synonym table = "(string \<times> endpoint) list"

definition registerAuthRoutes :: table where
  "registerAuthRoutes =
     [(''POST /api/login'', EP_login), (''POST /api/logout'', EP_logout), (''GET /api/me'', EP_me),
      (''POST /api/password'', EP_password)]"

definition registerProviderRoutes :: table where
  "registerProviderRoutes =
     [(''GET /v1/admin/providers'', EP_listProviders), (''PUT /v1/admin/providers/{name}'', EP_setProviderKey),
      (''DELETE /v1/admin/providers/{name}'', EP_deleteProviderKey)]"

definition registerTagRoutes :: table where
  "registerTagRoutes =
     [(''GET /v1/admin/model-tags'', EP_listModelTags), (''PUT /v1/admin/model-tags'', EP_setModelTags)]"

definition registerBlacklistRoutes :: table where
  "registerBlacklistRoutes =
     [(''GET /v1/admin/model-blacklist'', EP_listBlacklist), (''POST /v1/admin/model-blacklist'', EP_blacklistModel),
      (''DELETE /v1/admin/model-blacklist'', EP_unblacklistModel)]"

definition registerUserRoutes :: table where
  "registerUserRoutes =
     [(''GET /v1/admin/users'', EP_listUsers), (''POST /v1/admin/users'', EP_createUser),
      (''PATCH /v1/admin/users/{id}'', EP_updateUser)]"

definition registerAdminRoutes :: table where
  "registerAdminRoutes =
     [(''GET /v1/admin/keys'', EP_listKeys), (''POST /v1/admin/keys'', EP_createKey),
      (''GET /v1/admin/keys/{id}/reveal'', EP_revealKey), (''DELETE /v1/admin/keys/{id}'', EP_revokeKey)] @
     registerProviderRoutes @ registerTagRoutes @ registerBlacklistRoutes @ registerUserRoutes"

definition registerChatRoutes :: table where
  "registerChatRoutes = [(''POST /api/chat'', EP_chat)]"

definition registerPlaygroundRoutes :: table where
  "registerPlaygroundRoutes = (''POST /api/playground'', EP_playground) # registerChatRoutes"

definition registerDashboardRoutes :: table where
  "registerDashboardRoutes =
     [(''GET /api/stats'', EP_stats), (''GET /api/usage'', EP_usage), (''GET /api/keys'', EP_keys),
      (''GET /api/models'', EP_models), (''GET /api/catalogue'', EP_catalogue), (''POST /api/discover'', EP_discover),
      (''POST /api/probe'', EP_probe), (''GET /api/probes'', EP_probes), (''GET /api/route'', EP_route),
      (''GET /api/active'', EP_active), (''GET /api/new-models'', EP_newModels), (''GET /api/scores'', EP_scores)] @
     registerPlaygroundRoutes @
     [(''GET /api/settings'', EP_getSettings), (''PUT /api/settings'', EP_putSettings)]"

definition NewHandler_routes :: table where
  "NewHandler_routes =
     registerAuthRoutes @ registerAdminRoutes @ registerDashboardRoutes @
     [(''/v1/chat/completions'', EP_completions), (''/v1/responses'', EP_responses), (''/v1/models'', EP_modelList),
      (''/v1/iot/telemetry'', EP_telemetry), (''/v1/iot/inference'', EP_inference), (''/health'', EP_health), (''/'', EP_page)]"

definition mux :: "(pattern \<times> endpoint) list" where
  "mux = map (\<lambda>(s, e). (parse_pattern s, e)) NewHandler_routes"

section \<open>Requests and bodies\<close>

text \<open>
  \<open>hq_Json\<close> is what \<open>json.Decoder\<close> reads of the first MiB of the body, and \<open>hq_Bytes\<close> the whole body as the chat
  surfaces read it; \<open>hq_Query\<close> is \<open>URL.Query().Get\<close>.
\<close>

record http_request =
  hq_Method :: string
  hq_Path :: "string list"
  hq_Query :: "string \<Rightarrow> string"
  hq_From :: rq
  hq_Json :: "string + json"
  hq_Bytes :: "string option"

definition decodeBody :: "(json \<Rightarrow> json_error + 'a) \<Rightarrow> string + json \<Rightarrow> 'a option" where
  "decodeBody dec got =
     (case got of Inl _ \<Rightarrow> None | Inr j \<Rightarrow> (case dec j of Inl _ \<Rightarrow> None | Inr x \<Rightarrow> Some x))"

definition two_strings :: "string \<Rightarrow> string \<Rightarrow> json \<Rightarrow> json_error + string \<times> string" where
  "two_strings a b j =
     and_then (as_fields j) (\<lambda>fs. and_then (as_string (fields_get fs a)) (\<lambda>x. and_then (as_string (fields_get fs b)) (\<lambda>y. Inr (x, y))))"

definition credentials_body :: "json \<Rightarrow> json_error + string \<times> string" where
  "credentials_body = two_strings ''email'' ''password''"

definition change_body :: "json \<Rightarrow> json_error + string \<times> string" where
  "change_body = two_strings ''current_password'' ''new_password''"

definition update_body :: "json \<Rightarrow> json_error + bool option \<times> string option" where
  "update_body j =
     and_then (as_fields j) (\<lambda>fs. and_then (as_ptr as_bool (fields_get fs ''disabled'')) (\<lambda>d.
     and_then (as_ptr as_string (fields_get fs ''password'')) (\<lambda>p. Inr (d, p))))"

definition key_body :: "json \<Rightarrow> json_error + string" where
  "key_body j = and_then (as_fields j) (\<lambda>fs. as_string (fields_get fs ''name''))"

definition provider_key_body :: "json \<Rightarrow> json_error + string \<times> bool" where
  "provider_key_body j =
     and_then (as_fields j) (\<lambda>fs. and_then (as_string (fields_get fs ''api_key'')) (\<lambda>k.
     and_then (as_bool (fields_get fs ''skip_verification'')) (\<lambda>b. Inr (k, b))))"

definition tags_body :: "json \<Rightarrow> json_error + string \<times> string \<times> string list" where
  "tags_body j =
     and_then (as_fields j) (\<lambda>fs. and_then (as_string (fields_get fs ''provider'')) (\<lambda>p.
     and_then (as_string (fields_get fs ''model'')) (\<lambda>m. and_then (as_list as_string (fields_get fs ''tasks'')) (\<lambda>ts.
     Inr (p, m, ts)))))"

definition blacklistRequest :: "json \<Rightarrow> json_error + string \<times> string" where
  "blacklistRequest = two_strings ''provider'' ''model''"

definition settings_body :: "json \<Rightarrow> json_error + bool option" where
  "settings_body j = and_then (as_fields j) (\<lambda>fs. as_ptr as_bool (fields_get fs ''free_only''))"

definition chat_message_body :: "json \<Rightarrow> json_error + chatMessage" where
  "chat_message_body j =
     and_then (two_strings ''role'' ''content'' j) (\<lambda>(r, c). Inr \<lparr>cm_Role = r, cm_Content = c\<rparr>)"

definition chat_body_form :: "golib \<Rightarrow> json \<Rightarrow> json_error + chat_form" where
  "chat_body_form lib j =
     and_then (as_fields j) (\<lambda>fs. and_then (as_string (fields_get fs ''model'')) (\<lambda>m.
     and_then (as_list chat_message_body (fields_get fs ''messages'')) (\<lambda>ms.
     and_then (as_ptr (as_float lib) (fields_get fs ''temperature'')) (\<lambda>t.
     and_then (as_int (fields_get fs ''max_tokens'')) (\<lambda>n.
     Inr \<lparr>cf_Model = m, cf_Messages = ms, cf_Temperature = t, cf_MaxTokens = n\<rparr>)))))"

definition playground_body :: "golib \<Rightarrow> json \<Rightarrow> json_error + playground_form" where
  "playground_body lib j =
     and_then (as_fields j) (\<lambda>fs. and_then (as_string (fields_get fs ''model'')) (\<lambda>m.
     and_then (as_string (fields_get fs ''system'')) (\<lambda>s. and_then (as_string (fields_get fs ''prompt'')) (\<lambda>p.
     and_then (as_ptr (as_float lib) (fields_get fs ''temperature'')) (\<lambda>t.
     and_then (as_int (fields_get fs ''max_tokens'')) (\<lambda>n.
     Inr \<lparr>pf_Model = m, pf_System = s, pf_Prompt = p, pf_Temperature = t, pf_MaxTokens = n\<rparr>))))))"

section \<open>Serving\<close>

text \<open>
  What surrounds one request: the libraries, what the database, the clock and the random source do to it, the answers of
  the gateway, and the parts of the process that handlers only read.
\<close>

record server_io =
  ho_crypto :: crypto
  ho_sealer :: sealer
  ho_lib :: golib
  ho_render :: "json \<Rightarrow> string"
  ho_duration :: "string \<Rightarrow> duration option"
  ho_time :: "string \<Rightarrow> time option"
  ho_io :: admin_io
  ho_login :: login_io
  ho_salt :: string
  ho_ident :: string
  ho_random :: "string option"
  ho_ping_fails :: bool
  ho_asset :: bool
  ho_mint :: mint
  ho_gateway :: "ChatRequest \<Rightarrow> ClientKey \<Rightarrow> gateway_answer"
  ho_complete :: "ChatRequest \<Rightarrow> string + ChatResponse"
  ho_took :: duration
  ho_gone :: "nat \<Rightarrow> string option"
  ho_usage :: usage_log
  ho_stats :: Stats
  ho_live :: liveState
  ho_live_order :: "int list"
  ho_ranges :: ranges
  ho_range :: "string list"
  ho_schedule :: "((Spec \<times> string) \<times> refresh_io) list"
  ho_trials :: "(candidate \<times> probe_io) list"
  ho_load :: load_io
  ho_iot :: iot_io
  ho_bridge :: Bridge

record Site =
  si_console :: Console
  si_iot :: IoTStore

datatype served =
    S_reply reply
  | S_users "(string \<times> UserRow) list"
  | S_key key_reply
  | S_console console_reply
  | S_stats "(Summary \<times> Stats \<times> (string, bool) gomap option) view"
  | S_usage "(UsageEntry list \<times> bool) view"
  | S_keys "ClientKey list view"
  | S_breakdown "(ModelBreakdown list \<times> model_row list) view"
  | S_catalogue "catalogue_view view"
  | S_discovered "(nat \<times> nat \<times> (string, nat) gomap) view"
  | S_probed "ProbeSummary view"
  | S_probes "(ListedProbe list \<times> nat \<times> nat) view"
  | S_route "(string \<times> PlannedStep list \<times> TaskType \<times> Unroutable option) view"
  | S_active "active_view view"
  | S_newModels "NewModel list view"
  | S_scores "(modelScore list \<times> TaskType) view"
  | S_chat "chatResult view"
  | S_playground "playgroundResult view"
  | S_http http_reply
  | S_models models_reply
  | S_iot iot_reply
  | S_health health_reply
  | S_page

definition adminListUsers :: "Config \<Rightarrow> crypto \<Rightarrow> bool \<Rightarrow> bool \<Rightarrow> time \<Rightarrow> rq \<Rightarrow> Accounts \<Rightarrow> served \<times> Accounts" where
  "adminListUsers config cy fails list_fails now r a =
     (case adminAuthorized config cy fails now r a of
        (Some no, a') \<Rightarrow> (S_reply no, a')
      | (None, a') \<Rightarrow> (if list_fails then S_reply (reply.Refused 500 ''database error'') else S_users (ListUsers a'), a'))"

text \<open>The embedded page is served at the root; every other path that no pattern names is an error.\<close>

definition serveDashboard :: "bool \<Rightarrow> string list \<Rightarrow> served" where
  "serveDashboard asset path =
     (if path \<noteq> [[]] then S_reply (reply.Refused 404 (''unknown endpoint: '' @ concat (map (Cons CHR ''/'') path)))
      else if \<not> asset then S_reply (reply.Refused 500 ''dashboard asset missing'')
      else S_page)"

definition on_accounts :: "('a \<Rightarrow> served) \<Rightarrow> (Accounts \<Rightarrow> 'a \<times> Accounts) \<Rightarrow> Site \<Rightarrow> served \<times> Site" where
  "on_accounts tag f s =
     (let c = si_console s; (x, a) = f (accounts (co_vault c))
      in (tag x, s\<lparr>si_console := c\<lparr>co_vault := (co_vault c)\<lparr>accounts := a\<rparr>\<rparr>\<rparr>))"

definition on_vault :: "(Vault \<Rightarrow> key_reply \<times> Vault) \<Rightarrow> Site \<Rightarrow> served \<times> Site" where
  "on_vault f s = (let c = si_console s; (x, v) = f (co_vault c) in (S_key x, s\<lparr>si_console := c\<lparr>co_vault := v\<rparr>\<rparr>))"

definition on_console :: "('a \<Rightarrow> served) \<Rightarrow> (Console \<Rightarrow> 'a \<times> Console) \<Rightarrow> Site \<Rightarrow> served \<times> Site" where
  "on_console tag f s = (let (x, c) = f (si_console s) in (tag x, s\<lparr>si_console := c\<rparr>))"

definition on_keys :: "(key_table \<Rightarrow> http_reply \<times> key_table) \<Rightarrow> Site \<Rightarrow> served \<times> Site" where
  "on_keys f s =
     (let c = si_console s; (x, ks) = f (client_keys (co_vault c))
      in (S_http x, s\<lparr>si_console := c\<lparr>co_vault := (co_vault c)\<lparr>client_keys := ks\<rparr>\<rparr>\<rparr>))"

definition on_devices :: "(key_table \<Rightarrow> IoTStore \<Rightarrow> iot_reply \<times> key_table \<times> IoTStore) \<Rightarrow> Site \<Rightarrow> served \<times> Site" where
  "on_devices f s =
     (let c = si_console s; (x, ks, st) = f (client_keys (co_vault c)) (si_iot s)
      in (S_iot x, s\<lparr>si_console := c\<lparr>co_vault := (co_vault c)\<lparr>client_keys := ks\<rparr>\<rparr>, si_iot := st\<rparr>))"

text \<open>The handler of an endpoint; \<open>vals\<close> are the values of the wildcards of its pattern.\<close>

definition path_value :: "string list \<Rightarrow> string" where
  "path_value vals = (case vals of [] \<Rightarrow> [] | v # _ \<Rightarrow> v)"

fun handle :: "server_io \<Rightarrow> endpoint \<Rightarrow> string list \<Rightarrow> http_request \<Rightarrow> Site \<Rightarrow> served \<times> Site" where
  "handle h EP_login vals q s =
     on_accounts S_reply (handleLogin (cfg (co_gateway (si_console s))) (ho_crypto h) (ho_login h) (hq_From q)
       (decodeBody credentials_body (hq_Json q))) s"
| "handle h EP_logout vals q s = on_accounts S_reply (handleLogout (ho_crypto h) (ai_auth_fails (ho_io h)) (hq_From q)) s"
| "handle h EP_me vals q s =
     on_accounts S_reply (handleMe (cfg (co_gateway (si_console s))) (ho_crypto h) (ai_auth_fails (ho_io h)) (ai_now (ho_io h))
       (hq_From q)) s"
| "handle h EP_password vals q s =
     on_accounts S_reply (handleChangePassword (ho_crypto h) (ai_auth_fails (ho_io h)) (ho_salt h) (ai_now (ho_io h)) (hq_From q)
       (decodeBody change_body (hq_Json q))) s"
| "handle h EP_listUsers vals q s =
     on_accounts id (adminListUsers (cfg (co_gateway (si_console s))) (ho_crypto h) (ai_auth_fails (ho_io h)) (ai_read_fails (ho_io h))
       (ai_now (ho_io h)) (hq_From q)) s"
| "handle h EP_createUser vals q s =
     on_accounts S_reply (adminCreateUser (cfg (co_gateway (si_console s))) (ho_crypto h) (ai_auth_fails (ho_io h)) (ho_salt h)
       (ho_ident h) (ai_now (ho_io h)) (hq_From q) (decodeBody credentials_body (hq_Json q))) s"
| "handle h EP_updateUser vals q s =
     on_accounts S_reply (adminUpdateUser (cfg (co_gateway (si_console s))) (ho_crypto h) (ai_auth_fails (ho_io h)) (ho_salt h)
       (ai_now (ho_io h)) (hq_From q) (path_value vals) (decodeBody update_body (hq_Json q))) s"
| "handle h EP_listKeys vals q s =
     on_vault (adminListKeys (cfg (co_gateway (si_console s))) (ho_crypto h) (ai_auth_fails (ho_io h)) (ai_now (ho_io h)) (hq_From q)) s"
| "handle h EP_createKey vals q s =
     on_vault (adminCreateKey (cfg (co_gateway (si_console s))) (ho_crypto h) (ho_sealer h) (ai_auth_fails (ho_io h)) (ho_random h)
       (ai_nonce (ho_io h)) (ho_ident h) (ai_now (ho_io h)) (hq_From q) (decodeBody key_body (hq_Json q))) s"
| "handle h EP_revealKey vals q s =
     on_vault (adminRevealKey (cfg (co_gateway (si_console s))) (ho_crypto h) (ho_sealer h) (ai_auth_fails (ho_io h)) (ai_now (ho_io h))
       (hq_From q) (path_value vals)) s"
| "handle h EP_revokeKey vals q s =
     on_vault (adminRevokeKey (cfg (co_gateway (si_console s))) (ho_crypto h) (ai_auth_fails (ho_io h)) (ai_now (ho_io h))
       (hq_From q) (path_value vals)) s"
| "handle h EP_listProviders vals q s = on_console S_console (adminListProviders (ho_crypto h) (ho_sealer h) (ho_io h) (hq_From q)) s"
| "handle h EP_setProviderKey vals q s =
     on_console S_console (adminSetProviderKey (ho_lib h) (ho_crypto h) (ho_sealer h) (ho_io h) (hq_From q) (path_value vals)
       (decodeBody provider_key_body (hq_Json q))) s"
| "handle h EP_deleteProviderKey vals q s =
     on_console S_console (adminDeleteProviderKey (ho_lib h) (ho_crypto h) (ho_sealer h) (ho_io h) (hq_From q) (path_value vals)) s"
| "handle h EP_listModelTags vals q s = on_console S_console (adminListModelTags (ho_crypto h) (ho_io h) (hq_From q)) s"
| "handle h EP_setModelTags vals q s =
     on_console S_console (adminSetModelTags (ho_crypto h) (ho_io h) (hq_From q) (decodeBody tags_body (hq_Json q))) s"
| "handle h EP_listBlacklist vals q s = on_console S_console (adminListBlacklist (ho_crypto h) (ho_io h) (hq_From q)) s"
| "handle h EP_blacklistModel vals q s =
     on_console S_console (adminBlacklistModel (ho_crypto h) (ho_io h) (hq_From q) (decodeBody blacklistRequest (hq_Json q))) s"
| "handle h EP_unblacklistModel vals q s =
     on_console S_console (adminUnblacklistModel (ho_crypto h) (ho_io h) (hq_From q) (decodeBody blacklistRequest (hq_Json q))) s"
| "handle h EP_getSettings vals q s = on_console S_console (dashboardGetSettings (ho_crypto h) (ho_io h) (hq_From q)) s"
| "handle h EP_putSettings vals q s =
     on_console S_console (dashboardPutSettings (ho_crypto h) (ho_io h) (hq_From q) (decodeBody settings_body (hq_Json q))) s"
| "handle h EP_stats vals q s =
     on_console S_stats (dashboardStats (ho_crypto h) (ho_sealer h) (ho_io h) (hq_From q) (ho_duration h) (hq_Query q ''window'')
       (ho_usage h) (ho_stats h)) s"
| "handle h EP_usage vals q s =
     on_console S_usage (dashboardUsage (ho_crypto h) (ho_io h) (hq_From q) (hq_Query q ''limit'') (hq_Query q ''offset'') (ho_usage h)) s"
| "handle h EP_keys vals q s = on_console S_keys (dashboardKeys (ho_crypto h) (ho_io h) (hq_From q)) s"
| "handle h EP_models vals q s =
     on_console S_breakdown (dashboardModels (ho_crypto h) (ho_io h) (hq_From q) (ho_duration h) (hq_Query q ''window'') (ho_usage h)) s"
| "handle h EP_catalogue vals q s =
     on_console S_catalogue (dashboardCatalogue (ho_crypto h) (ho_io h) (hq_From q) (hq_Query q ''provider'')) s"
| "handle h EP_discover vals q s =
     on_console S_discovered (dashboardDiscover (ho_crypto h) (ho_sealer h) (ho_lib h) (ho_io h) (hq_From q) (ho_schedule h)) s"
| "handle h EP_probe vals q s =
     on_console S_probed (dashboardProbe (ho_crypto h) (ho_sealer h) (ho_io h) (hq_From q) (ho_range h) (ho_trials h) (ho_load h)) s"
| "handle h EP_probes vals q s = on_console S_probes (dashboardProbes (ho_crypto h) (ho_io h) (hq_From q)) s"
| "handle h EP_route vals q s =
     on_console S_route (dashboardRoute (ho_crypto h) (ho_sealer h) (ho_io h) (hq_From q) (ho_ranges h) (hq_Query q ''model'')) s"
| "handle h EP_active vals q s =
     on_console S_active (dashboardActive (ho_crypto h) (ho_sealer h) (ho_io h) (hq_From q) (ho_ranges h) (hq_Query q ''model'')
       (ho_live_order h) (ho_live h)) s"
| "handle h EP_newModels vals q s =
     on_console S_newModels (dashboardNewModels (ho_crypto h) (ho_io h) (hq_From q) (ho_duration h) (hq_Query q ''window'')) s"
| "handle h EP_scores vals q s =
     on_console S_scores (dashboardScores (ho_crypto h) (ho_io h) (hq_From q) (hq_Query q ''task'') (ho_usage h)) s"
| "handle h EP_chat vals q s =
     on_console S_chat (chat (ho_crypto h) (ho_io h) (hq_From q) (decodeBody (chat_body_form (ho_lib h)) (hq_Json q)) (ho_complete h)
       (ho_took h)) s"
| "handle h EP_playground vals q s =
     on_console S_playground (playground (ho_crypto h) (ho_io h) (hq_From q) (decodeBody (playground_body (ho_lib h)) (hq_Json q))
       (ho_complete h) (ho_took h)) s"
| "handle h EP_completions vals q s =
     on_keys (handleChatCompletions (ho_lib h) (ho_render h) (DefaultModel (cfg (co_gateway (si_console s)))) (ho_crypto h)
       (ai_auth_fails (ho_io h)) (ai_now (ho_io h)) (hq_Method q) (hq_From q) (hq_Bytes q) (ho_gateway h) (ho_gone h)) s"
| "handle h EP_responses vals q s =
     on_keys (handleResponses (ho_lib h) (ho_render h) (ho_mint h) (DefaultModel (cfg (co_gateway (si_console s)))) (ho_crypto h)
       (ai_auth_fails (ho_io h)) (ai_now (ho_io h)) (hq_Method q) (hq_From q) (hq_Bytes q) (ho_gateway h)) s"
| "handle h EP_modelList vals q s =
     on_console S_models (handleModels (ho_crypto h) (ho_sealer h) (ho_io h) (hq_From q) (hq_Query q ''free'')) s"
| "handle h EP_telemetry vals q s =
     on_devices (handleTelemetry (ho_time h) (ho_crypto h) (ai_auth_fails (ho_io h)) (ho_iot h) (ho_bridge h) (hq_From q) (hq_Method q)
       (hq_Json q) (hq_Query q ''device_id'') (hq_Query q ''limit'')) s"
| "handle h EP_inference vals q s =
     on_devices (handleIoTInference (ho_lib h) (ho_crypto h) (ai_auth_fails (ho_io h)) (ho_iot h) (ho_bridge h) (hq_From q)
       (hq_Method q) (hq_Json q)) s"
| "handle h EP_health vals q s =
     (S_health (handleHealth (ho_sealer h) (ho_ping_fails h) (ai_read_fails (ho_io h)) (br_connected (ho_bridge h)) (ho_stats h)
       (si_console s)), s)"
| "handle h EP_page vals q s = (serveDashboard (ho_asset h) (hq_Path q), s)"

text \<open>The handler the mux finds; the last pattern matches every path, so none is not found.\<close>

definition serve :: "server_io \<Rightarrow> http_request \<Rightarrow> Site \<Rightarrow> served \<times> Site" where
  "serve h q s =
     (case mux_find mux (hq_Method q) (hq_Path q) of
        None \<Rightarrow> (S_reply (reply.Refused 404 ''404 page not found''), s)
      | Some (_, e, vals) \<Rightarrow> handle h e vals q s)"

end
