(* ===== verification/Routes_Facts.thy ===== *)
theory Routes_Facts
  imports Routes
begin

text \<open>
  The HTTP surface as a whole: every request has one handler, the one its pattern names, and what the handlers of the
  operator and of the clients do to a request without credentials.
\<close>

section \<open>One handler for every request\<close>

fun segs_clash :: "seg list \<Rightarrow> seg list \<Rightarrow> bool" where
  "segs_clash (p # ps) (q # qs) \<longleftrightarrow>
     p \<noteq> Rest \<and> q \<noteq> Rest \<and> (p \<noteq> q \<and> p \<noteq> Wild \<and> q \<noteq> Wild \<or> segs_clash ps qs)"
| "segs_clash [] [] = False"
| "segs_clash _ _ = True"

lemma seg_match_tl: "s \<noteq> Rest \<Longrightarrow> seg_match (s # ps) path \<noteq> None \<Longrightarrow> seg_match ps (tl path) \<noteq> None"
  by (cases path; cases s) (auto split: if_splits)

lemma segs_clash_apart: "segs_clash ps qs \<Longrightarrow> seg_match ps path \<noteq> None \<Longrightarrow> seg_match qs path = None"
proof (induction ps qs arbitrary: path rule: segs_clash.induct)
  case (1 p ps q qs)
  show ?case
  proof (cases "segs_clash ps qs")
    case True
    with 1 have "seg_match ps (tl path) \<noteq> None" "q \<noteq> Rest" using seg_match_tl [of p ps path] by auto
    moreover from this True 1(1,2) have "seg_match qs (tl path) = None" by auto
    ultimately show ?thesis using seg_match_tl [of q qs path] by metis
  next
    case False
    with 1 show ?thesis by (cases p; cases q; cases path) (auto split: if_splits)
  qed
qed (auto elim: seg_match.elims)

definition method_clash :: "string \<Rightarrow> string \<Rightarrow> bool" where
  "method_clash a b \<longleftrightarrow> a \<noteq> [] \<and> b \<noteq> [] \<and> a \<noteq> b \<and> a \<noteq> ''HEAD'' \<and> b \<noteq> ''HEAD''"

definition clash :: "pattern \<Rightarrow> pattern \<Rightarrow> bool" where
  "clash p q \<longleftrightarrow> method_clash (pa_Method p) (pa_Method q) \<or> segs_clash (pa_Segs p) (pa_Segs q)"

lemma clash_apart: "clash p q \<Longrightarrow> pattern_match m path p \<noteq> None \<Longrightarrow> pattern_match m path q = None"
  by (auto simp: clash_def pattern_match_def method_match_def method_clash_def dest: segs_clash_apart split: if_splits)

fun apart :: "(pattern \<times> 'e) list \<Rightarrow> bool" where
  "apart [] = True"
| "apart ((p, e) # rs) \<longleftrightarrow> list_all (\<lambda>(q, f). clash p q) rs \<and> apart rs"

definition starts_literal :: "pattern \<Rightarrow> bool" where
  "starts_literal p \<longleftrightarrow> (case pa_Segs p of Lit l # ps \<Rightarrow> True | _ \<Rightarrow> False)"

definition everything :: pattern where
  "everything = \<lparr>pa_Method = [], pa_Segs = [Rest]\<rparr>"

lemma everything_match: "path \<noteq> [] \<Longrightarrow> pattern_match m path everything = Some []"
  by (cases path) (simp_all add: pattern_match_def everything_def method_match_def)

lemma literal_first: "starts_literal p \<Longrightarrow> method_match m (pa_Method p) \<Longrightarrow> rank m p < rank m everything"
  by (auto simp: method_match_def starts_literal_def rank_def everything_def method_rank_def split: list.splits seg.splits)

lemma mux_find_none: "list_all (\<lambda>(p, e). pattern_match m path p = None) rs \<Longrightarrow> mux_find (rs @ rest) m path = mux_find rest m path"
  by (induction rs) auto

lemma mux_find_only:
  assumes "apart rs" and "list_all (\<lambda>(p, e). starts_literal p) rs" and "(p, e) \<in> set rs"
    and "pattern_match m path p = Some vals" and "path \<noteq> []"
  shows "mux_find (rs @ [(everything, pg)]) m path = Some (p, e, vals)"
  using assms
proof (induction rs)
  case (Cons r rs)
  obtain q f where r: "r = (q, f)" by fastforce
  have last: "mux_find [(everything, pg)] m path = Some (everything, pg, [])"
    using everything_match [OF Cons.prems(5)] by simp
  show ?case
  proof (cases "(p, e) = r")
    case True
    with Cons.prems(1) r have "list_all (\<lambda>(q', f). clash p q') rs" by simp
    with Cons.prems(4) clash_apart [of p _ m path] have "list_all (\<lambda>(q', f). pattern_match m path q' = None) rs"
      by (fastforce simp: list_all_iff)
    from mux_find_none [OF this, of "[(everything, pg)]"] last
    have "mux_find (rs @ [(everything, pg)]) m path = Some (everything, pg, [])" by simp
    moreover have "rank m p < rank m everything"
      using Cons.prems(2,4) True literal_first by (auto simp: pattern_match_def split: if_splits)
    ultimately show ?thesis using True Cons.prems(4) by auto
  next
    case False
    with Cons.prems(3) have in_rs: "(p, e) \<in> set rs" by auto
    with Cons.prems(1) r have "clash q p" by (auto simp: list_all_iff)
    with Cons.prems(4) have "pattern_match m path q = None" using clash_apart [of q p m path] by fastforce
    with Cons.IH Cons.prems in_rs r show ?thesis by simp
  qed
qed simp

definition named_routes :: "(pattern \<times> endpoint) list" where
  "named_routes = butlast mux"

lemma routes_apart: "apart named_routes"
  by code_simp

lemma routes_start_literal: "list_all (\<lambda>(p, e). starts_literal p) named_routes"
  by code_simp

lemma mux_split: "mux = named_routes @ [(everything, EP_page)]"
  by code_simp

text \<open>
  C20. The table of patterns is unambiguous, and complete: a request is handled by the one pattern that matches its method and
  path, and by the page's handler when none does. So no handler shadows another, whatever the order of registration.
\<close>

theorem every_request_has_one_handler:
  assumes "path \<noteq> []"
  shows "(\<forall>p e vals. (p, e) \<in> set named_routes \<and> pattern_match m path p = Some vals \<longrightarrow> mux_find mux m path = Some (p, e, vals)) \<and>
    (list_all (\<lambda>(p, e). pattern_match m path p = None) named_routes \<longrightarrow> mux_find mux m path = Some (everything, EP_page, [])) \<and>
    (\<forall>p e q f. (p, e) \<in> set named_routes \<and> (q, f) \<in> set named_routes \<and> pattern_match m path p \<noteq> None \<and>
       pattern_match m path q \<noteq> None \<longrightarrow> p = q \<and> e = f)"
proof -
  have found: "mux_find mux m path = Some (p, e, vals)"
    if "(p, e) \<in> set named_routes" "pattern_match m path p = Some vals" for p e vals
    unfolding mux_split using mux_find_only [OF routes_apart routes_start_literal that assms] .
  have "mux_find mux m path = Some (everything, EP_page, [])"
    if "list_all (\<lambda>(p, e). pattern_match m path p = None) named_routes"
    unfolding mux_split using mux_find_none [OF that] everything_match [OF assms] by simp
  moreover have "p = q \<and> e = f"
    if "(p, e) \<in> set named_routes" "(q, f) \<in> set named_routes" "pattern_match m path p \<noteq> None" "pattern_match m path q \<noteq> None"
    for p e q f
  proof -
    from that obtain v w where "pattern_match m path p = Some v" "pattern_match m path q = Some w" by blast
    from found [OF that(1) this(1)] found [OF that(2) this(2)] show ?thesis by simp
  qed
  ultimately show ?thesis using found by blast
qed

lemma every_request_has_one_handler_witness:
  "mux_find mux ''DELETE'' [''v1'', ''admin'', ''keys'', ''k7''] =
     Some (parse_pattern ''DELETE /v1/admin/keys/{id}'', EP_revokeKey, [''k7'']) \<and>
   mux_find mux ''POST'' [''v1'', ''admin'', ''keys'', ''k7''] = Some (everything, EP_page, [])"
proof -
  have "(parse_pattern ''DELETE /v1/admin/keys/{id}'', EP_revokeKey) \<in> set named_routes" by code_simp
  moreover have "pattern_match ''DELETE'' [''v1'', ''admin'', ''keys'', ''k7''] (parse_pattern ''DELETE /v1/admin/keys/{id}'') = Some [''k7'']"
    by code_simp
  moreover have "list_all (\<lambda>(p, e). pattern_match ''POST'' [''v1'', ''admin'', ''keys'', ''k7''] p = None) named_routes" by code_simp
  ultimately show ?thesis
    using every_request_has_one_handler [of "[''v1'', ''admin'', ''keys'', ''k7'']" "''DELETE''"]
      every_request_has_one_handler [of "[''v1'', ''admin'', ''keys'', ''k7'']" "''POST''"] by blast
qed

section \<open>Who may ask\<close>

datatype audience = Anyone | Clients | Operators

definition audience_of :: "endpoint \<Rightarrow> audience" where
  "audience_of e =
     (if e \<in> {EP_login, EP_logout, EP_health, EP_page} then Anyone
      else if e \<in> {EP_completions, EP_responses, EP_modelList, EP_telemetry, EP_inference} then Clients
      else Operators)"

text \<open>The status of a refusal.\<close>

definition reply_status :: "reply \<Rightarrow> int option" where
  "reply_status r = (case r of reply.Refused code why \<Rightarrow> Some code | RetryAfter wait \<Rightarrow> Some 429 | _ \<Rightarrow> None)"

definition view_status :: "'a view \<Rightarrow> int option" where
  "view_status v = (case v of ViewRefused r \<Rightarrow> reply_status r | View x \<Rightarrow> None)"

definition http_status :: "http_reply \<Rightarrow> int option" where
  "http_status r = (case r of ErrorReply code why kind \<Rightarrow> Some code | _ \<Rightarrow> None)"

definition refusal :: "served \<Rightarrow> int option" where
  "refusal x =
     (case x of
        S_reply r \<Rightarrow> reply_status r
      | S_key (KeysRefused r) \<Rightarrow> reply_status r
      | S_console (ConsoleRefused r) \<Rightarrow> reply_status r
      | S_stats v \<Rightarrow> view_status v | S_usage v \<Rightarrow> view_status v | S_keys v \<Rightarrow> view_status v | S_breakdown v \<Rightarrow> view_status v
      | S_catalogue v \<Rightarrow> view_status v | S_discovered v \<Rightarrow> view_status v | S_probed v \<Rightarrow> view_status v | S_probes v \<Rightarrow> view_status v
      | S_route v \<Rightarrow> view_status v | S_active v \<Rightarrow> view_status v | S_newModels v \<Rightarrow> view_status v | S_scores v \<Rightarrow> view_status v
      | S_chat v \<Rightarrow> view_status v | S_playground v \<Rightarrow> view_status v
      | S_http r \<Rightarrow> http_status r
      | S_models (ModelsRefused r) \<Rightarrow> reply_status r
      | S_iot (IoTRefused r) \<Rightarrow> http_status r
      | _ \<Rightarrow> None)"

text \<open>The credentials an audience has to show: a client key that is not revoked; a live session, or the admin token.\<close>

definition site_accounts :: "Site \<Rightarrow> Accounts" where
  "site_accounts s = accounts (co_vault (si_console s))"

definition operator_session :: "server_io \<Rightarrow> http_request \<Rightarrow> Site \<Rightarrow> Session option \<times> Accounts" where
  "operator_session h q s =
     handler_session (ho_crypto h) (ai_auth_fails (ho_io h)) (ai_now (ho_io h)) (hq_From q) (site_accounts s)"

definition admitted :: "server_io \<Rightarrow> http_request \<Rightarrow> Site \<Rightarrow> endpoint \<Rightarrow> bool" where
  "admitted h q s e \<longleftrightarrow>
     (case audience_of e of
        Anyone \<Rightarrow> True
      | Clients \<Rightarrow>
          (case fst (authorize (ho_crypto h) (ai_auth_fails (ho_io h)) (ai_now (ho_io h)) (hq_From q)
                  (client_keys (co_vault (si_console s)))) of Inl no \<Rightarrow> False | Inr key \<Rightarrow> True)
      | Operators \<Rightarrow>
          fst (operator_session h q s) \<noteq> None \<or>
          (adminTokenPresented (cfg (co_gateway (si_console s))) (hq_From q) \<and> e \<noteq> EP_password))"

definition with_accounts :: "Accounts \<Rightarrow> Site \<Rightarrow> Site" where
  "with_accounts a s = s\<lparr>si_console := (si_console s)\<lparr>co_vault := (co_vault (si_console s))\<lparr>accounts := a\<rparr>\<rparr>\<rparr>"

section \<open>Without credentials\<close>

lemma denied:
  assumes "fst (handler_session cy fails now r a) = None" and "\<not> adminTokenPresented config r"
  shows "\<exists>code why. adminAuthorized config cy fails now r a = (Some (reply.Refused code why), snd (handler_session cy fails now r a)) \<and>
    code \<in> {401, 503}"
  using assms by (auto simp: adminAuthorized_def Let_def split: prod.splits)

lemma dead_session:
  assumes "fst (handler_session cy fails now r a) = None"
  shows "users (snd (handler_session cy fails now r a)) = users a \<and> throttle (snd (handler_session cy fails now r a)) = throttle a \<and>
    set (sessions (snd (handler_session cy fails now r a))) \<subseteq> set (sessions a)"
  using assms
  by (auto simp: handler_session_def ValidateSession_def Let_def AList.delete_eq split: option.splits if_splits prod.splits sum.splits)

lemma refused_key:
  assumes "fst (authorize cy fails now r ks) = Inl no"
  shows "\<exists>code why. no = reply.Refused code why \<and> code \<in> {401, 500} \<and> authorize cy fails now' r ks = (Inl no, ks)"
  using assms
  by (auto simp: authorize_def ValidateClientKey_def Let_def split: option.splits if_splits prod.splits sum.splits)

lemma denied_guard:
  assumes "fst (operator_session h q s) = None" and "\<not> adminTokenPresented (cfg (co_gateway (si_console s))) (hq_From q)"
  shows "\<exists>code why. admin_guard (ho_crypto h) (ai_auth_fails (ho_io h)) (ai_now (ho_io h)) (hq_From q) (si_console s) =
      (Some (reply.Refused code why), si_console (with_accounts (snd (operator_session h q s)) s)) \<and> code \<in> {401, 503} \<and>
    guarded (cfg (co_gateway (si_console s))) (ho_crypto h) (ai_auth_fails (ho_io h)) (ai_now (ho_io h)) (hq_From q)
        (co_vault (si_console s)) =
      (Some (reply.Refused code why), (co_vault (si_console s))\<lparr>accounts := snd (operator_session h q s)\<rparr>) \<and>
    adminAuthorized (cfg (co_gateway (si_console s))) (ho_crypto h) (ai_auth_fails (ho_io h)) (ai_now (ho_io h)) (hq_From q)
        (accounts (co_vault (si_console s))) = (Some (reply.Refused code why), snd (operator_session h q s))"
  using denied [OF assms(1) [unfolded operator_session_def] assms(2)]
  by (auto simp: admin_guard_def guarded_def operator_session_def site_accounts_def with_accounts_def)

lemmas console_handlers =
  adminListProviders_def adminSetProviderKey_def adminDeleteProviderKey_def adminListModelTags_def adminSetModelTags_def
  adminListBlacklist_def adminBlacklistModel_def adminUnblacklistModel_def dashboardGetSettings_def dashboardPutSettings_def

lemmas view_handlers =
  dashboardStats_def dashboardUsage_def dashboardKeys_def dashboardModels_def dashboardCatalogue_def dashboardDiscover_def
  dashboardProbe_def dashboardProbes_def dashboardRoute_def dashboardActive_def dashboardNewModels_def dashboardScores_def
  chat_def playground_def viewing_def entering_def

lemmas vault_handlers = adminListKeys_def adminCreateKey_def adminRevealKey_def adminRevokeKey_def

lemmas account_handlers = adminListUsers_def adminCreateUser_def adminUpdateUser_def

lemmas statuses = refusal_def reply_status_def view_status_def http_status_def

lemma operators_are_refused:
  assumes "audience_of e = Operators" and "\<not> admitted h q s e"
  shows "refusal (fst (handle h e vals q s)) \<in> {Some 401, Some 503} \<and>
    snd (handle h e vals q s) = with_accounts (snd (operator_session h q s)) s"
proof (cases "e = EP_password \<or> e = EP_me")
  case True
  from assms True have "fst (operator_session h q s) = None"
    "e = EP_me \<longrightarrow> \<not> adminTokenPresented (cfg (co_gateway (si_console s))) (hq_From q)"
    by (auto simp: admitted_def)
  moreover obtain x a' where "operator_session h q s = (x, a')" by fastforce
  ultimately show ?thesis using True
    by (auto simp: handleChangePassword_def handleMe_def on_accounts_def operator_session_def site_accounts_def with_accounts_def statuses Let_def)
next
  case False
  from assms False have "fst (operator_session h q s) = None"
    "\<not> adminTokenPresented (cfg (co_gateway (si_console s))) (hq_From q)"
    by (auto simp: admitted_def)
  from denied_guard [OF this] obtain code why where *:
    "admin_guard (ho_crypto h) (ai_auth_fails (ho_io h)) (ai_now (ho_io h)) (hq_From q) (si_console s) =
      (Some (reply.Refused code why), si_console (with_accounts (snd (operator_session h q s)) s))" "code \<in> {401, 503}"
    "guarded (cfg (co_gateway (si_console s))) (ho_crypto h) (ai_auth_fails (ho_io h)) (ai_now (ho_io h)) (hq_From q)
        (co_vault (si_console s)) =
      (Some (reply.Refused code why), (co_vault (si_console s))\<lparr>accounts := snd (operator_session h q s)\<rparr>)"
    "adminAuthorized (cfg (co_gateway (si_console s))) (ho_crypto h) (ai_auth_fails (ho_io h)) (ai_now (ho_io h)) (hq_From q)
        (accounts (co_vault (si_console s))) = (Some (reply.Refused code why), snd (operator_session h q s))" by blast
  have same: "s\<lparr>si_console := si_console (with_accounts a s)\<rparr> = with_accounts a s"
    "s\<lparr>si_console := (si_console s)\<lparr>co_vault := (co_vault (si_console s))\<lparr>accounts := a\<rparr>\<rparr>\<rparr> = with_accounts a s" for a
    by (simp_all add: with_accounts_def)
  show ?thesis
    using False assms(1) *(2)
    by (cases e) (simp_all add: *(1,3,4) same audience_of_def on_console_def on_vault_def on_accounts_def console_handlers view_handlers
      vault_handlers account_handlers statuses)
qed

lemma clients_are_refused:
  assumes "audience_of e = Clients" and "\<not> admitted h q s e"
  shows "refusal (fst (handle h e vals q s)) \<in> {Some 401, Some 405, Some 500} \<and> snd (handle h e vals q s) = s"
proof -
  obtain no where "fst (authorize (ho_crypto h) (ai_auth_fails (ho_io h)) (ai_now (ho_io h)) (hq_From q)
      (client_keys (co_vault (si_console s)))) = Inl no"
    using assms by (auto simp: admitted_def split: sum.splits)
  from refused_key [OF this] obtain code why where *: "code \<in> {401, 500}"
    "authorize (ho_crypto h) (ai_auth_fails (ho_io h)) now (hq_From q) (client_keys (co_vault (si_console s))) =
      (Inl (reply.Refused code why), client_keys (co_vault (si_console s)))" for now by metis
  show ?thesis
    using assms(1) *(1)
    by (cases e) (auto simp: *(2) audience_of_def on_console_def on_keys_def on_devices_def handleChatCompletions_def handleResponses_def
      handleModels_def handleTelemetry_def handleIoTInference_def reply_of_def statuses Let_def)
qed

text \<open>
  C6. The whole surface is guarded. A request without the credentials of its endpoint is refused, whatever its body, and changes
  nothing: a console request forgets at most the dead session it presented. The only endpoints open to anyone are signing in
  and out, the health check and the page; management, the console's views and its playground need a live session or the
  admin token, and the completions, the model list and the device endpoints a client key that was not revoked.
\<close>

theorem surface_is_guarded:
  assumes "mux_find mux (hq_Method q) (hq_Path q) = Some (p, e, vals)" and "\<not> admitted h q s e"
  shows "refusal (fst (serve h q s)) \<in> (if audience_of e = Operators then {Some 401, Some 503} else {Some 401, Some 405, Some 500}) \<and>
    snd (serve h q s) = (if audience_of e = Operators then with_accounts (snd (operator_session h q s)) s else s) \<and>
    users (site_accounts (snd (serve h q s))) = users (site_accounts s) \<and>
    set (sessions (site_accounts (snd (serve h q s)))) \<subseteq> set (sessions (site_accounts s))"
proof (cases "audience_of e")
  case Anyone
  with assms(2) show ?thesis by (simp add: admitted_def)
next
  case Clients
  with assms(1) clients_are_refused [OF Clients assms(2)] show ?thesis by (simp add: serve_def)
next
  case Operators
  with assms(2) have "fst (operator_session h q s) = None" by (simp add: admitted_def)
  from dead_session [OF this [unfolded operator_session_def]] operators_are_refused [OF Operators assms(2), of vals] assms(1) Operators
  show ?thesis by (simp add: serve_def operator_session_def site_accounts_def with_accounts_def)
qed

definition open_site :: Site where
  "open_site = \<lparr>si_console = open_console, si_iot = \<lparr>devices = [], telemetry = []\<rparr>\<rparr>"

definition stranger :: "string \<Rightarrow> string list \<Rightarrow> http_request" where
  "stranger m path =
     \<lparr>hq_Method = m, hq_Path = path, hq_Query = (\<lambda>k. []), hq_From = no_request, hq_Json = Inr JNull, hq_Bytes = None\<rparr>"

lemma surface_is_guarded_witness:
  "\<forall>h. refusal (fst (serve h (stranger ''DELETE'' [''v1'', ''admin'', ''keys'', ''k7'']) open_site)) \<in> {Some 401, Some 503} \<and>
   refusal (fst (serve h (stranger ''POST'' [''v1'', ''chat'', ''completions'']) open_site)) \<in> {Some 401, Some 405, Some 500}"
proof (intro allI)
  fix h :: server_io
  have 1: "mux_find mux ''DELETE'' [''v1'', ''admin'', ''keys'', ''k7''] =
      Some (parse_pattern ''DELETE /v1/admin/keys/{id}'', EP_revokeKey, [''k7''])" by code_simp
  have 2: "mux_find mux ''POST'' [''v1'', ''chat'', ''completions''] = Some (parse_pattern ''/v1/chat/completions'', EP_completions, [])"
    by code_simp
  have "\<not> admitted h (stranger m path) open_site EP_revokeKey" "\<not> admitted h (stranger m path) open_site EP_completions" for m path
    by (simp_all add: admitted_def audience_of_def operator_session_def handler_session_def stranger_def no_request_def open_site_def
      adminTokenPresented_def open_console_def open_gateway_def authorize_def ValidateClientKey_def with_hash_def Let_def)
  then show "refusal (fst (serve h (stranger ''DELETE'' [''v1'', ''admin'', ''keys'', ''k7'']) open_site)) \<in> {Some 401, Some 503} \<and>
   refusal (fst (serve h (stranger ''POST'' [''v1'', ''chat'', ''completions'']) open_site)) \<in> {Some 401, Some 405, Some 500}"
    using surface_is_guarded [of "stranger ''DELETE'' [''v1'', ''admin'', ''keys'', ''k7'']" _ EP_revokeKey _ h open_site]
      surface_is_guarded [of "stranger ''POST'' [''v1'', ''chat'', ''completions'']" _ EP_completions _ h open_site] 1 2
    by (simp add: stranger_def audience_of_def)
qed

end
