(* ===== verification/Process.thy ===== *)
theory Process
  imports Routes Connect Migrations
begin

text \<open>
  The life of the server process (\<open>cmd/server/main.go\<close>): the start, the loops in the background (\<open>StartDiscovery\<close>,
  \<open>StartProbing\<close> and \<open>StartLatencyFeedback\<close> of \<open>internal/gateway\<close>, \<open>startSessionSweeper\<close>), the requests, the devices'
  messages, and the shutdown. A step of the process is one whole handler or one whole pass of a loop.
\<close>

section \<open>The loops\<close>

datatype background = Loop_discovery | Loop_probing | Loop_feedback | Loop_sweeper

text \<open>About to work at once; waiting for the delay before the first pass; waiting for the ticker; returned.\<close>

datatype phase = At_once | Delayed | Ticking | Ended

text \<open>What a \<open>select\<close> picks: the end of the context, or the timer.\<close>

datatype signal = Cancelled | Fired

definition StartDiscovery :: "duration \<Rightarrow> phase" where
  "StartDiscovery interval = At_once"

definition StartProbing :: "duration \<Rightarrow> phase" where
  "StartProbing interval = (if interval \<le> 0 then Ended else Delayed)"

definition StartLatencyFeedback :: "duration \<Rightarrow> phase" where
  "StartLatencyFeedback interval = (if interval \<le> 0 then Ended else At_once)"

definition startSessionSweeper :: phase where
  "startSessionSweeper = Ticking"

text \<open>Whether the loop works, and where it is afterwards; a loop that does not repeat returns after its first pass.\<close>

fun loop_step :: "bool \<Rightarrow> signal \<Rightarrow> phase \<Rightarrow> bool \<times> phase" where
  "loop_step repeats sg At_once = (True, if repeats then Ticking else Ended)"
| "loop_step repeats Cancelled Delayed = (False, Ended)"
| "loop_step repeats Fired Delayed = (True, Ticking)"
| "loop_step repeats Cancelled Ticking = (False, Ended)"
| "loop_step repeats Fired Ticking = (True, Ticking)"
| "loop_step repeats sg Ended = (False, Ended)"

fun start_phase :: "Config \<Rightarrow> background \<Rightarrow> phase" where
  "start_phase config Loop_discovery = StartDiscovery (DiscoveryInterval config)"
| "start_phase config Loop_probing = StartProbing (ProbeInterval config)"
| "start_phase config Loop_feedback = StartLatencyFeedback (LatencyFeedback config)"
| "start_phase config Loop_sweeper = startSessionSweeper"

definition loop_repeats :: "Config \<Rightarrow> background \<Rightarrow> bool" where
  "loop_repeats config b \<longleftrightarrow> b = Loop_discovery \<longrightarrow> 0 < DiscoveryInterval config"

text \<open>One pass of a loop; an error of the pass is logged and changes nothing else.\<close>

fun loop_pass :: "server_io \<Rightarrow> background \<Rightarrow> Console \<Rightarrow> Console" where
  "loop_pass h Loop_discovery c =
     with_known (RefreshModels (ho_lib h) (ConfiguredKeys (ho_sealer h) (ai_reload_fails (ho_io h)) c) (ho_schedule h) (known_of c)) c"
| "loop_pass h Loop_probing c =
     (let stored_keys = (case ConfiguredKeys (ho_sealer h) (ai_reload_fails (ho_io h)) c of Inl _ \<Rightarrow> None | Inr ks \<Rightarrow> Some ks) in
      case ProbeModels (co_gateway c) stored_keys (ai_range (ho_io h)) (ho_range h) (ho_trials h) (ho_load h) (co_health c) (co_probes c) of
        (_, s, cat) \<Rightarrow> (with_catalog cat c)\<lparr>co_health := sw_health s, co_probes := sw_probes s\<rparr>)"
| "loop_pass h Loop_feedback c =
     with_catalog (snd (RefreshObservations (ai_read_fails (ho_io h)) (ai_now (ho_io h)) (co_gateway c) (ho_usage h))) c"
| "loop_pass h Loop_sweeper c =
     (if ai_write_fails (ho_io h) then c
      else c\<lparr>co_vault := (co_vault c)\<lparr>accounts := snd (PruneSessions (ai_now (ho_io h)) (accounts (co_vault c)))\<rparr>\<rparr>)"

section \<open>The process\<close>

text \<open>\<open>Serving\<close> until the signal, then \<open>Draining\<close> while requests in flight end, then \<open>Closed\<close>.\<close>

datatype stage = Serving | Draining | Closed

record Proc =
  pr_site :: Site
  pr_loops :: "background \<Rightarrow> phase"
  pr_stage :: stage

definition begin_process :: "Config \<Rightarrow> Console \<Rightarrow> IoTStore \<Rightarrow> Proc" where
  "begin_process config c st =
     \<lparr>pr_site = \<lparr>si_console = c, si_iot = st\<rparr>, pr_loops = start_phase config, pr_stage = Serving\<rparr>"

text \<open>
  From the database to the running process: connecting, applying the schema, then seeding, starting and wiring the bridge, which is
  the one requests and messages are served with (\<open>ho_bridge\<close>). \<open>None\<close> is \<open>log.Fatal\<close>. What the files of the schema do is an argument.
\<close>

definition main_start ::
  "crypto \<Rightarrow> sealer \<Rightarrow> golib \<Rightarrow> (string \<Rightarrow> (bool \<times> ModelProfile list) option) \<Rightarrow> boot_io \<Rightarrow> Config \<Rightarrow>
    string option \<Rightarrow> (nat \<Rightarrow> ping_io) \<Rightarrow> time \<Rightarrow>
    (string \<Rightarrow> Tables \<Rightarrow> Tables option) \<Rightarrow> (string \<Rightarrow> bool) \<Rightarrow> bool \<Rightarrow> (string, string) gomap \<Rightarrow> Tables Schema \<Rightarrow> IoTStore \<Rightarrow> (Proc \<times> Bridge) option" where
  "main_start cy sl lib decode io config open_error pings start exec fails versions_fail files schema st =
     (case Connect open_error pings start of
        Some (Inr _, _, _, _) \<Rightarrow>
          (case Migrate exec fails versions_fail files schema of
             (None, schema') \<Rightarrow>
               (case startup cy sl lib decode io config (sm_db schema') of
                  None \<Rightarrow> None
                | Some (c, bridge) \<Rightarrow> Some (begin_process config c st, bridge))
           | (Some _, _) \<Rightarrow> None)
      | _ \<Rightarrow> None)"

definition config_of :: "Proc \<Rightarrow> Config" where
  "config_of p = cfg (co_gateway (si_console (pr_site p)))"

definition run_loop :: "server_io \<Rightarrow> background \<Rightarrow> signal \<Rightarrow> Proc \<Rightarrow> Proc" where
  "run_loop h b sg p =
     (let (works, ph) = loop_step (loop_repeats (config_of p) b) sg (pr_loops p b); s = pr_site p in
      p\<lparr>pr_loops := (pr_loops p)(b := ph),
        pr_site := (if works then s\<lparr>si_console := loop_pass h b (si_console s)\<rparr> else s)\<rparr>)"

definition run_request :: "server_io \<Rightarrow> http_request \<Rightarrow> Proc \<Rightarrow> served \<times> Proc" where
  "run_request h q p = (let (x, s) = serve h q (pr_site p) in (x, p\<lparr>pr_site := s\<rparr>))"

text \<open>The trip of a request through the gateway, as it leaves the bench and the breakers.\<close>

definition run_trip ::
  "vectors \<Rightarrow> route_io \<Rightarrow> ChatRequest \<Rightarrow> string option \<Rightarrow> bool \<Rightarrow> World \<Rightarrow> Proc \<Rightarrow> Proc" where
  "run_trip v io req key streaming w p =
     (let s = pr_site p; c = si_console s; w' = snd (route v (co_gateway c) io req key streaming (w\<lparr>health := co_health c\<rparr>))
      in p\<lparr>pr_site := s\<lparr>si_console := c\<lparr>co_health := health w'\<rparr>\<rparr>\<rparr>)"

definition run_message :: "server_io \<Rightarrow> MQTTMessage \<Rightarrow> Proc \<Rightarrow> Proc" where
  "run_message h msg p =
     (let s = pr_site p
      in p\<lparr>pr_site := s\<lparr>si_iot := hm_store (HandleMQTTMessage (ho_lib h) (ho_time h) (ho_iot h) (ho_bridge h) msg (si_iot s))\<rparr>\<rparr>)"

fun next_stage :: "stage \<Rightarrow> stage" where
  "next_stage Serving = Draining" | "next_stage Draining = Closed" | "next_stage Closed = Closed"

text \<open>The tokens a sign-in hands out.\<close>

definition handed_out :: "served \<Rightarrow> issued" where
  "handed_out x = (case x of S_reply r \<Rightarrow> issued_by r | _ \<Rightarrow> [])"

text \<open>
  A run of the process, one whole handler or pass after another: handlers that overlap and interleave their calls to the
  database are not among the runs. Requests and messages are taken until the server has closed; only a loop whose context has ended
  may see it; the trace is the tokens handed out, those of earlier processes included.
\<close>

inductive running :: "Config \<Rightarrow> crypto \<Rightarrow> Proc \<Rightarrow> issued \<Rightarrow> Proc \<Rightarrow> issued \<Rightarrow> bool"
  for config cy p0 iss0 where
  started: "running config cy p0 iss0 p0 iss0"
| requested: "running config cy p0 iss0 p iss \<Longrightarrow> ho_crypto h = cy \<Longrightarrow> pr_stage p \<noteq> Closed \<Longrightarrow> run_request h q p = (x, p') \<Longrightarrow>
    running config cy p0 iss0 p' (handed_out x @ iss)"
| travelled: "running config cy p0 iss0 p iss \<Longrightarrow> running config cy p0 iss0 (run_trip v io req key streaming w p) iss"
| messaged: "running config cy p0 iss0 p iss \<Longrightarrow> pr_stage p \<noteq> Closed \<Longrightarrow> running config cy p0 iss0 (run_message h msg p) iss"
| looped: "running config cy p0 iss0 p iss \<Longrightarrow> sg = Cancelled \<longrightarrow> pr_stage p \<noteq> Serving \<Longrightarrow>
    running config cy p0 iss0 (run_loop h b sg p) iss"
| signalled: "running config cy p0 iss0 p iss \<Longrightarrow> running config cy p0 iss0 (p\<lparr>pr_stage := next_stage (pr_stage p)\<rparr>) iss"

end
