(* ===== verification/Process_Facts.thy ===== *)
theory Process_Facts
  imports Process Routes_Facts Startup_Facts
begin

text \<open>
  What every run of the process keeps, whatever requests, device messages and passes of the loops come in whatever order:
  the laws of the catalogue, of the accounts and of the sessions, proved of their components, carried through all handlers.
\<close>

section \<open>The catalogue through the reloads and refreshes\<close>

lemma reach_SetDiscovered:
  "catalog_reachable c \<Longrightarrow> \<forall>m \<in> set models. dm_Provider m = name \<Longrightarrow> catalog_reachable (SetDiscovered name models c)"
  by (rule catalog_reachable.step) (auto intro: catalog_step.set_discovered)

lemma reach_LoadModelTags: "catalog_reachable c \<Longrightarrow> catalog_reachable (snd (LoadModelTags fails rows c))"
  by (auto simp: LoadModelTags_def intro: catalog_reachable.step catalog_step.set_tags split: option.splits)

lemma fold_gm_set_ok: "gm_ok m \<Longrightarrow> gm_ok (fold (\<lambda>x. gm_set (k x) (v x)) xs m)"
  by (induction xs arbitrary: m) simp_all

lemma reach_LoadBlacklist: "catalog_reachable c \<Longrightarrow> catalog_reachable (snd (LoadBlacklist fails bs c))"
  by (auto simp: LoadBlacklist_def intro!: catalog_reachable.step [OF _ catalog_step.set_blacklist] fold_gm_set_ok split: option.splits)

lemma ConfirmedModels_ok: "gm_ok (ConfirmedModels now window t)"
proof -
  have "fold (\<lambda>(pm, row). gm_set (row_key pm) True) xs m = fold (\<lambda>x. gm_set (row_key (fst x)) True) xs m" for xs :: probes and m
    by (rule fold_cong) (auto simp: case_prod_unfold)
  then show ?thesis unfolding ConfirmedModels_def by (simp add: fold_gm_set_ok)
qed

lemma reach_LoadConfirmed: "catalog_reachable c \<Longrightarrow> catalog_reachable (snd (LoadConfirmedModels io g t c))"
  by (auto simp: LoadConfirmedModels_def ConfirmedModels_ok
      intro!: catalog_reachable.step [OF _ catalog_step.mark_probed] catalog_reachable.step [OF _ catalog_step.set_confirmed])

lemma reach_ProbeModels:
  "catalog_reachable (catalog g) \<Longrightarrow> ProbeModels g ks r r' steps io h t = (x, s, cat) \<Longrightarrow> catalog_reachable cat"
  by (auto simp: ProbeModels_def Let_def reach_LoadConfirmed split: option.splits if_splits)

lemma reach_RefreshObservations:
  "catalog_reachable (catalog g) \<Longrightarrow> catalog_reachable (snd (RefreshObservations fails now g ul))"
  by (auto simp: RefreshObservations_def intro: catalog_reachable.step catalog_step.observe_reliability split: option.splits)

lemma reach_refreshOne: "catalog_reachable (kn_catalog k) \<Longrightarrow> catalog_reachable (kn_catalog (refreshOne lib io spec apiKey k))"
  by (auto simp: refreshOne_def intro!: reach_SetDiscovered dest: listed_provider split: sum.splits)

lemma reach_RefreshModels: "catalog_reachable (kn_catalog k) \<Longrightarrow> catalog_reachable (kn_catalog (RefreshModels lib keys schedule k))"
proof -
  have "catalog_reachable (kn_catalog k) \<Longrightarrow>
      catalog_reachable (kn_catalog (fold (\<lambda>((spec, apiKey), io). refreshOne lib io spec apiKey) schedule k))"
    by (induction schedule arbitrary: k) (auto simp: reach_refreshOne)
  then show "catalog_reachable (kn_catalog k) \<Longrightarrow> ?thesis" by (simp add: RefreshModels_def split: sum.splits)
qed

lemma reach_RefreshProvider:
  "catalog_reachable (kn_catalog k) \<Longrightarrow> catalog_reachable (kn_catalog (RefreshProvider lib io ff pf sps keys name k))"
  by (auto simp: RefreshProvider_def reach_refreshOne intro: catalog_reachable.step catalog_step.forget_discovered
      split: option.splits sum.splits)

lemma reach_AdoptModels:
  "catalog_reachable (kn_catalog k) \<Longrightarrow> \<forall>m \<in> set models. dm_Provider m = name \<Longrightarrow>
    catalog_reachable (kn_catalog (AdoptModels fails now name models k))"
  by (simp add: AdoptModels_def reach_SetDiscovered)

lemma verified_provider:
  "VerifyProviderKey lib sps name apiKey ans = Inr models \<Longrightarrow> \<forall>m \<in> set models. dm_Provider m = name"
  using listed_provider Spec_named_Name by (fastforce simp: VerifyProviderKey_def split: option.splits)

section \<open>What a console keeps\<close>

definition console_sound :: "Config \<Rightarrow> crypto \<Rightarrow> issued \<Rightarrow> Console \<Rightarrow> bool" where
  "console_sound config cy iss c \<longleftrightarrow>
     catalog_reachable (catalog (co_gateway c)) \<and> cfg (co_gateway c) = config \<and> reachable_accounts config cy (accounts (co_vault c)) iss"

lemma sound_guard:
  assumes "console_sound config cy iss c" and "admin_guard cy fails now r c = (no, c')"
  shows "console_sound config cy iss c'"
proof -
  obtain a where "adminAuthorized config cy fails now r (accounts (co_vault c)) = (no, a)" "c' = c\<lparr>co_vault := (co_vault c)\<lparr>accounts := a\<rparr>\<rparr>"
    using assms by (auto simp: admin_guard_def guarded_def console_sound_def Let_def split: prod.splits)
  then show ?thesis using assms(1) reachable_accounts.guard by (fastforce simp: console_sound_def)
qed

lemma sound_guard_snd: "console_sound config cy iss c \<Longrightarrow> console_sound config cy iss (snd (admin_guard cy fails now r c))"
  by (rule sound_guard) (auto intro: prod.collapse [symmetric])

lemma sound_catalog:
  "console_sound config cy iss c \<Longrightarrow> catalog_reachable cat \<Longrightarrow> console_sound config cy iss (with_catalog cat c)"
  by (simp add: console_sound_def with_catalog_def)

lemma sound_known:
  "console_sound config cy iss c \<Longrightarrow> catalog_reachable (kn_catalog k) \<Longrightarrow> console_sound config cy iss (with_known k c)"
  by (simp add: console_sound_def with_known_def)

lemma sound_fields [simp]:
  "console_sound config cy iss (c\<lparr>co_tags := t\<rparr>) = console_sound config cy iss c"
  "console_sound config cy iss (c\<lparr>co_black := b\<rparr>) = console_sound config cy iss c"
  "console_sound config cy iss (c\<lparr>co_settings := st\<rparr>) = console_sound config cy iss c"
  "console_sound config cy iss (c\<lparr>co_probes := pr\<rparr>) = console_sound config cy iss c"
  "console_sound config cy iss (c\<lparr>co_health := hl\<rparr>) = console_sound config cy iss c"
  "console_sound config cy iss (c\<lparr>co_vault := (co_vault c)\<lparr>client_keys := ks\<rparr>\<rparr>) = console_sound config cy iss c"
  "console_sound config cy iss (c\<lparr>co_vault := (co_vault c)\<lparr>provider_keys := ps\<rparr>\<rparr>) = console_sound config cy iss c"
  "console_sound config cy iss (c\<lparr>co_gateway := SetFreeOnly on (co_gateway c)\<rparr>) = console_sound config cy iss c"
  by (simp_all add: console_sound_def SetFreeOnly_def)

lemma sound_catalogD [simp]: "console_sound config cy iss c \<Longrightarrow> catalog_reachable (catalog (co_gateway c))"
  by (simp add: console_sound_def)

lemma sound_knownD [simp]: "console_sound config cy iss c \<Longrightarrow> catalog_reachable (kn_catalog (known_of c))"
  by (simp add: known_of_def)

lemma sound_entering:
  assumes "console_sound config cy iss c" and "\<And>c'. console_sound config cy iss c' \<Longrightarrow> console_sound config cy iss (snd (bdy c'))"
  shows "console_sound config cy iss (snd (entering cy io r c bdy))"
  using assms sound_guard [OF assms(1)] by (auto simp: entering_def split: prod.splits option.splits)

lemma sound_viewing: "console_sound config cy iss c \<Longrightarrow> console_sound config cy iss (snd (viewing cy io r c bdy))"
  unfolding viewing_def by (rule sound_entering) simp_all

section \<open>Every handler keeps it\<close>

lemma sound_behind_guard:
  assumes "console_sound config cy iss c" and "\<And>c'. console_sound config cy iss c' \<Longrightarrow> console_sound config cy iss (snd (bdy c'))"
  shows "console_sound config cy iss
    (snd (case admin_guard cy fails now r c of (Some no, c') \<Rightarrow> (refuse no, c') | (None, c') \<Rightarrow> bdy c'))"
  using assms sound_guard [OF assms(1)] by (auto split: prod.splits option.splits)

lemma sound_reload:
  "console_sound config cy iss c \<Longrightarrow> console_sound config cy iss (snd (reload_blacklist io p m flag c))"
  using reach_LoadBlacklist [of "catalog (co_gateway c)" "ai_reload_fails io" "co_black c"]
  by (auto simp: reload_blacklist_def split: prod.splits bool.splits intro: sound_catalog)

lemma sound_after_store:
  assumes "console_sound config cy iss c" and "\<forall>m \<in> set models. dm_Provider m = name"
  shows "console_sound config cy iss (after_store lib sl io name models c)"
  using assms by (simp add: after_store_def Let_def sound_known reach_AdoptModels reach_RefreshProvider)

lemma sound_save_key:
  assumes "console_sound config cy iss c" and "\<forall>m \<in> set models. dm_Provider m = name"
  shows "console_sound config cy iss (snd (save_key lib cy' sl io name apiKey skip models c))"
  using assms sound_after_store by (auto simp: save_key_def Let_def split: prod.splits option.splits)

lemma sound_setProviderKey:
  assumes "console_sound config cy iss c"
  shows "console_sound config cy iss (snd (adminSetProviderKey lib cy sl io r name got c))"
  unfolding adminSetProviderKey_def
  by (rule sound_behind_guard [OF assms])
    (auto simp: Let_def split: option.splits sum.splits intro!: sound_save_key dest: verified_provider)

lemma sound_deleteProviderKey:
  assumes "console_sound config cy iss c"
  shows "console_sound config cy iss (snd (adminDeleteProviderKey lib cy sl io r name c))"
  unfolding adminDeleteProviderKey_def
  by (rule sound_behind_guard [OF assms])
    (auto simp: Let_def split: option.splits sum.splits prod.splits bool.splits intro!: sound_known reach_RefreshProvider)

lemma sound_tagged:
  assumes "console_sound config cy iss c" and "LoadModelTags fails rows (catalog (co_gateway c)) = (ok, cat)"
  shows "console_sound config cy iss (with_catalog cat (c\<lparr>co_tags := rows\<rparr>))"
  using reach_LoadModelTags [of "catalog (co_gateway c)" fails rows] assms by (simp add: sound_catalog)

lemma sound_setModelTags:
  assumes "console_sound config cy iss c"
  shows "console_sound config cy iss (snd (adminSetModelTags cy io r got c))"
  unfolding adminSetModelTags_def
proof (rule sound_behind_guard [OF assms])
  fix c' assume c': "console_sound config cy iss c'"
  show "console_sound config cy iss (snd (case got of
      None \<Rightarrow> (ConsoleRefused (reply.Refused 400 ''invalid JSON body''), c')
    | Some (p0, m0, tasks) \<Rightarrow>
        (let p = TrimSpace p0; m = TrimSpace m0 in
         if p = [] \<or> m = [] then (ConsoleRefused (reply.Refused 400 ''provider and model are required''), c')
         else if \<not> KnowsProvider (co_gateway c') p then (ConsoleRefused (reply.Refused 404 (''unknown provider '' @ p)), c')
         else case find (\<lambda>t. \<not> isTaggableTask t) tasks of
             Some t \<Rightarrow> (ConsoleRefused (reply.Refused 400 (''unknown task '' @ t)), c')
           | None \<Rightarrow>
               (case SetModelTags (ai_write_fails io) p m tasks (co_tags c') of
                  (False, _) \<Rightarrow> (db_error, c')
                | (True, rows) \<Rightarrow>
                    (let c1 = c'\<lparr>co_tags := rows\<rparr> in
                     case LoadModelTags (ai_reload_fails io) rows (catalog (co_gateway c1)) of
                       (False, _) \<Rightarrow> (db_error, c1)
                     | (True, cat) \<Rightarrow> (TagsSet p m (SortedTasks tasks) (TaggedCount cat), with_catalog cat c1))))))"
    using sound_tagged [OF c'] by (simp add: Let_def c' split: prod.split option.split bool.split)
qed

lemma sound_blacklist:
  assumes "console_sound config cy iss c"
  shows "console_sound config cy iss (snd (adminBlacklistModel cy io r got c))"
    and "console_sound config cy iss (snd (adminUnblacklistModel cy io r got c))"
  unfolding adminBlacklistModel_def adminUnblacklistModel_def
  by (rule sound_behind_guard [OF assms]; auto simp: Let_def split: sum.splits prod.splits bool.splits intro!: sound_reload)+

lemma sound_switched:
  "console_sound config cy iss (c\<lparr>co_settings := st, co_gateway := SetFreeOnly on (co_gateway c)\<rparr>) = console_sound config cy iss c"
  by (simp add: console_sound_def SetFreeOnly_def)

lemma sound_getSettings:
  "console_sound config cy iss c \<Longrightarrow> console_sound config cy iss (snd (dashboardGetSettings cy io r c))"
  unfolding dashboardGetSettings_def by (rule sound_behind_guard) simp_all

lemma sound_putSettings:
  assumes "console_sound config cy iss c"
  shows "console_sound config cy iss (snd (dashboardPutSettings cy io r got c))"
  unfolding dashboardPutSettings_def
  by (rule sound_behind_guard [OF assms]) (simp add: Let_def sound_switched split: option.split prod.split bool.split)

lemma sound_lists:
  assumes "console_sound config cy iss c"
  shows "console_sound config cy iss (snd (adminListModelTags cy io r c))"
    and "console_sound config cy iss (snd (adminListBlacklist cy io r c))"
    and "console_sound config cy iss (snd (adminListProviders cy sl io r c))"
  unfolding adminListModelTags_def adminListBlacklist_def adminListProviders_def
  by (rule sound_behind_guard [OF assms]; auto simp: Let_def split: option.splits)+

lemma sound_plan_for: "console_sound config cy iss c \<Longrightarrow> console_sound config cy iss (snd (plan_for sl io rs m c))"
  by (simp add: plan_for_def Let_def split: prod.splits)

lemma sound_discover:
  assumes "console_sound config cy iss c"
  shows "console_sound config cy iss (snd (dashboardDiscover cy sl lib io r schedule c))"
  unfolding dashboardDiscover_def
  by (rule sound_entering [OF assms]) (auto simp: Let_def split: sum.splits intro!: sound_known reach_RefreshModels)

lemma sound_probe:
  assumes "console_sound config cy iss c"
  shows "console_sound config cy iss (snd (dashboardProbe cy sl io r r' steps lio c))"
  unfolding dashboardProbe_def
  by (rule sound_entering [OF assms])
    (auto simp: Let_def split: prod.splits option.splits intro!: sound_catalog dest: reach_ProbeModels [OF sound_catalogD])

lemma sound_route:
  assumes "console_sound config cy iss c"
  shows "console_sound config cy iss (snd (dashboardRoute cy sl io r rs m c))"
  unfolding dashboardRoute_def
proof (rule sound_entering [OF assms])
  fix c' assume "console_sound config cy iss c'"
  moreover obtain ans c2 where p: "plan_for sl io rs (if m = [] then ''auto'' else m) c' = (ans, c2)" by fastforce
  ultimately have "console_sound config cy iss c2" by (metis sound_plan_for snd_conv)
  then show "console_sound config cy iss (snd (let mm = (if m = [] then ''auto'' else m) in
      case plan_for sl io rs mm c' of
        (None, c2) \<Rightarrow> (ViewRefused (reply.Refused 500 ''provider keys unreadable''), c2)
      | (Some (steps, task, why), c2) \<Rightarrow> (View (mm, steps, task, why), c2)))"
    using p by (simp add: Let_def split: option.split prod.split)
qed

lemma sound_active:
  assumes "console_sound config cy iss c"
  shows "console_sound config cy iss (snd (dashboardActive cy sl io r rs m ord ls c))"
  unfolding dashboardActive_def
  by (rule sound_entering [OF assms]) (simp add: Let_def case_prod_unfold sound_plan_for)

lemmas sound_handlers =
  sound_setProviderKey sound_deleteProviderKey sound_setModelTags sound_blacklist sound_getSettings sound_putSettings sound_lists sound_discover
  sound_probe sound_route sound_active

text \<open>The handlers of the accounts: only a sign-in hands out a token.\<close>

lemma refused_hands_out_nothing [simp]: "issued_by (reply.Refused code why) = []"
  by (simp add: issued_by_def)

lemma guard_hands_out_nothing: "adminAuthorized config cy fails now r a = (Some no, a') \<Longrightarrow> issued_by no = []"
  by (auto simp: adminAuthorized_def Let_def split: prod.splits if_splits)

lemma other_handlers_hand_out_nothing:
  "handleLogout cy fails r a = (rep, a') \<Longrightarrow> issued_by rep = []"
  "handleMe config cy fails now r a = (rep, a') \<Longrightarrow> issued_by rep = []"
  "handleChangePassword cy fails salt now r pws a = (rep, a') \<Longrightarrow> issued_by rep = []"
  "adminCreateUser config cy fails salt ident now r pws a = (rep, a') \<Longrightarrow> issued_by rep = []"
  by (auto simp: handleLogout_def handleMe_def handleChangePassword_def adminCreateUser_def issued_by_def
      dest: guard_hands_out_nothing [unfolded issued_by_def] split: option.splits prod.splits sum.splits if_splits)

lemma update_hands_out_nothing:
  assumes "adminUpdateUser config cy fails salt now r ident changes a = (rep, a')"
  shows "issued_by rep = []"
proof -
  have "issued_by no = []" if "update_disabled config fails now ident flag b = (Some no, b')" for no flag b b'
    using that by (auto simp: update_disabled_def split: option.splits if_splits prod.splits)
  moreover have "issued_by no = []" if "update_password cy fails salt ident new b = (Some no, b')" for no new b b'
    using that by (auto simp: update_password_def split: option.splits prod.splits)
  ultimately show ?thesis using assms guard_hands_out_nothing
    by (fastforce simp: adminUpdateUser_def issued_by_def split: option.splits prod.splits if_splits)
qed

lemma sound_accounts:
  assumes "console_sound config cy iss c" and "reachable_accounts config cy a iss'"
  shows "console_sound config cy iss' (c\<lparr>co_vault := (co_vault c)\<lparr>accounts := a\<rparr>\<rparr>)"
  using assms by (simp add: console_sound_def)

lemma sound_on_accounts:
  assumes "console_sound config cy iss (si_console s)" and "on_accounts tag f s = (x, s')"
    and "\<And>y a. f (accounts (co_vault (si_console s))) = (y, a) \<Longrightarrow>
      reachable_accounts config cy a (handed_out (tag y) @ iss)"
  shows "console_sound config cy (handed_out x @ iss) (si_console s')"
proof -
  obtain y a where f: "f (accounts (co_vault (si_console s))) = (y, a)" by fastforce
  with assms(2) have "x = tag y" "si_console s' = (si_console s)\<lparr>co_vault := (co_vault (si_console s))\<lparr>accounts := a\<rparr>\<rparr>"
    by (auto simp: on_accounts_def Let_def)
  then show ?thesis using sound_accounts [OF assms(1) assms(3) [OF f]] by simp
qed

lemma sound_vault:
  assumes "console_sound config cy iss c" and "guarded config cy fails now r (co_vault c) = (no, v)" and "accounts v' = accounts v"
  shows "console_sound config cy iss (c\<lparr>co_vault := v'\<rparr>)"
  using sound_guard [of config cy iss c fails now r no "c\<lparr>co_vault := v\<rparr>"] assms by (simp add: admin_guard_def console_sound_def)

lemma sound_on_vault:
  assumes "console_sound config cy iss (si_console s)" and "on_vault f s = (x, s')"
    and "\<exists>no v. guarded config cy fails now r (co_vault (si_console s)) = (no, v) \<and>
      accounts (snd (f (co_vault (si_console s)))) = accounts v"
  shows "console_sound config cy (handed_out x @ iss) (si_console s')"
proof -
  obtain y v where f: "f (co_vault (si_console s)) = (y, v)" by fastforce
  with assms(2) have "x = S_key y" "si_console s' = (si_console s)\<lparr>co_vault := v\<rparr>" by (auto simp: on_vault_def Let_def)
  with assms(3) f show ?thesis using sound_vault [OF assms(1)] by (auto simp: handed_out_def)
qed

lemma sound_on_console:
  assumes "console_sound config cy iss (snd (f (si_console s)))" and "on_console tag f s = (x, s')" and "\<And>y. handed_out (tag y) = []"
  shows "console_sound config cy (handed_out x @ iss) (si_console s')"
proof -
  obtain y c where f: "f (si_console s) = (y, c)" by fastforce
  with assms(2) have "x = tag y" "si_console s' = c" by (auto simp: on_console_def)
  with assms(1,3) f show ?thesis by simp
qed

lemma sound_on_keys:
  assumes "console_sound config cy iss (si_console s)" and "on_keys f s = (x, s')"
  shows "console_sound config cy (handed_out x @ iss) (si_console s')"
  using assms by (auto simp: on_keys_def Let_def handed_out_def split: prod.splits)

lemma sound_on_devices:
  assumes "console_sound config cy iss (si_console s)" and "on_devices f s = (x, s')"
  shows "console_sound config cy (handed_out x @ iss) (si_console s')"
  using assms by (auto simp: on_devices_def Let_def handed_out_def split: prod.splits)

lemma sound_handleModels:
  "console_sound config cy iss c \<Longrightarrow> console_sound config cy iss (snd (handleModels cy' sl io r q c))"
  by (auto simp: handleModels_def Let_def split: prod.splits sum.splits)

lemma vault_accounts:
  "\<exists>no v'. guarded config cy fails now r v = (no, v') \<and> accounts (snd (adminListKeys config cy fails now r v)) = accounts v'"
  "\<exists>no v'. guarded config cy fails now r v = (no, v') \<and>
     accounts (snd (adminCreateKey config cy sl fails random nonce ident now r got v)) = accounts v'"
  "\<exists>no v'. guarded config cy fails now r v = (no, v') \<and> accounts (snd (adminRevealKey config cy sl fails now r ident v)) = accounts v'"
  "\<exists>no v'. guarded config cy fails now r v = (no, v') \<and> accounts (snd (adminRevokeKey config cy fails now r ident v)) = accounts v'"
  by (auto simp: vault_handlers split: prod.splits option.splits sum.splits)

lemma handed_out_simps [simp]:
  "handed_out (S_users x0) = []" "handed_out (S_key x1) = []" "handed_out (S_console x2) = []" "handed_out (S_stats x3) = []"
  "handed_out (S_usage x4) = []" "handed_out (S_keys x5) = []" "handed_out (S_breakdown x6) = []" "handed_out (S_catalogue x7) = []"
  "handed_out (S_discovered x8) = []" "handed_out (S_probed x9) = []" "handed_out (S_probes x10) = []" "handed_out (S_route x11) = []"
  "handed_out (S_active x12) = []" "handed_out (S_newModels x13) = []" "handed_out (S_scores x14) = []" "handed_out (S_chat x15) = []"
  "handed_out (S_playground x16) = []" "handed_out (S_http x17) = []" "handed_out (S_models x18) = []" "handed_out (S_iot x19) = []"
  "handed_out (S_health x20) = []"
  "handed_out S_page = []" "handed_out (S_reply r) = issued_by r"
  by (simp_all add: handed_out_def)

lemma sound_view_handlers:
  assumes "console_sound config cy iss c"
  shows "console_sound config cy iss (snd (dashboardStats cy sl io r pdur qw ul st c))"
    and "console_sound config cy iss (snd (dashboardUsage cy io r ql qo ul c))"
    and "console_sound config cy iss (snd (dashboardKeys cy io r c))"
    and "console_sound config cy iss (snd (dashboardModels cy io r pdur qw ul c))"
    and "console_sound config cy iss (snd (dashboardCatalogue cy io r want c))"
    and "console_sound config cy iss (snd (dashboardProbes cy io r c))"
    and "console_sound config cy iss (snd (dashboardNewModels cy io r pdur qw c))"
    and "console_sound config cy iss (snd (dashboardScores cy io r task ul c))"
    and "console_sound config cy iss (snd (chat cy io r form gw took c))"
    and "console_sound config cy iss (snd (playground cy io r form2 gw took c))"
  by (simp_all only: dashboardStats_def dashboardUsage_def dashboardKeys_def dashboardModels_def dashboardCatalogue_def
    dashboardProbes_def dashboardNewModels_def dashboardScores_def chat_def playground_def sound_viewing [OF assms])

lemma adminListUsers_step:
  "adminListUsers config cy fails lf now r a = (x, a') \<Longrightarrow>
     (\<exists>no. adminAuthorized config cy fails now r a = (no, a')) \<and> handed_out x = []"
  by (auto simp: adminListUsers_def handed_out_def dest: guard_hands_out_nothing split: prod.splits option.splits)

lemma handle_sound:
  assumes "console_sound config (ho_crypto h) iss (si_console s)" and "handle h e vals q s = (x, s')"
  shows "console_sound config (ho_crypto h) (handed_out x @ iss) (si_console s')"
proof -
  note inv = assms(1)
  have cfg: "cfg (co_gateway (si_console s)) = config" and acc: "reachable_accounts config (ho_crypto h) (accounts (co_vault (si_console s))) iss"
    using inv by (simp_all add: console_sound_def)
  show ?thesis
  proof (cases e)
    case EP_login
    with assms(2) show ?thesis
      by (intro sound_on_accounts [OF inv]) (auto simp: cfg intro: reachable_accounts.login [OF acc])
  next
    case EP_logout
    with assms(2) show ?thesis
      by (intro sound_on_accounts [OF inv]) (auto simp: cfg other_handlers_hand_out_nothing intro: reachable_accounts.logout [OF acc])
  next
    case EP_me
    with assms(2) show ?thesis
      by (intro sound_on_accounts [OF inv]) (auto simp: cfg other_handlers_hand_out_nothing intro: reachable_accounts.me [OF acc])
  next
    case EP_password
    with assms(2) show ?thesis
      by (intro sound_on_accounts [OF inv]) (auto simp: cfg other_handlers_hand_out_nothing intro: reachable_accounts.change [OF acc])
  next
    case EP_listUsers
    with assms(2) show ?thesis
      by (intro sound_on_accounts [OF inv]) (auto simp: cfg dest!: adminListUsers_step intro: reachable_accounts.guard [OF acc])
  next
    case EP_createUser
    with assms(2) show ?thesis
      by (intro sound_on_accounts [OF inv]) (auto simp: cfg other_handlers_hand_out_nothing intro: reachable_accounts.create [OF acc])
  next
    case EP_updateUser
    with assms(2) show ?thesis
      by (intro sound_on_accounts [OF inv]) (auto simp: cfg update_hands_out_nothing intro: reachable_accounts.update [OF acc])
  next
    case EP_listKeys
    from assms(2) [unfolded this handle.simps cfg] show ?thesis by (rule sound_on_vault [OF inv]) (rule vault_accounts)
  next
    case EP_createKey
    from assms(2) [unfolded this handle.simps cfg] show ?thesis by (rule sound_on_vault [OF inv]) (rule vault_accounts)
  next
    case EP_revealKey
    from assms(2) [unfolded this handle.simps cfg] show ?thesis by (rule sound_on_vault [OF inv]) (rule vault_accounts)
  next
    case EP_revokeKey
    from assms(2) [unfolded this handle.simps cfg] show ?thesis by (rule sound_on_vault [OF inv]) (rule vault_accounts)
  qed (use assms(2) inv in \<open>auto simp: sound_handlers [OF inv] sound_view_handlers [OF inv] sound_handleModels [OF inv] inv serveDashboard_def
    elim!: sound_on_console [rotated] sound_on_keys [OF inv] sound_on_devices [OF inv]\<close>)
qed

section \<open>Every run keeps it\<close>

lemma sound_loop_pass:
  assumes "console_sound config cy iss c"
  shows "console_sound config cy iss (loop_pass h b c)"
proof (cases b)
  case Loop_discovery
  with assms show ?thesis by (simp add: sound_known reach_RefreshModels)
next
  case Loop_probing
  obtain x sw cat where pm: "ProbeModels (co_gateway c) (case ConfiguredKeys (ho_sealer h) (ai_reload_fails (ho_io h)) c of
      Inl _ \<Rightarrow> None | Inr ks \<Rightarrow> Some ks) (ai_range (ho_io h)) (ho_range h) (ho_trials h) (ho_load h) (co_health c) (co_probes c) = (x, sw, cat)"
    by (metis prod_cases3)
  from reach_ProbeModels [OF sound_catalogD [OF assms] this] have "console_sound config cy iss (with_catalog cat c)"
    by (rule sound_catalog [OF assms])
  with Loop_probing pm show ?thesis by (simp add: Let_def)
next
  case Loop_feedback
  with assms show ?thesis by (simp add: sound_catalog reach_RefreshObservations)
next
  case Loop_sweeper
  have "reachable_accounts config cy (snd (PruneSessions now (accounts (co_vault c)))) iss" for now
    using assms by (auto simp: console_sound_def intro: reachable_accounts.prune prod.collapse [symmetric])
  with Loop_sweeper assms show ?thesis by (simp add: sound_accounts)
qed

lemma reach_LoadDiscovered: "catalog_reachable c \<Longrightarrow> catalog_reachable (LoadDiscoveredModels fails t c)"
proof -
  have grouped: "\<forall>m \<in> set ms. dm_Provider m = name" if "(name, ms) \<in> set (group_models xs [])" for xs name ms
    using map_of_is_SomeI [OF gm_ok_group that] by (auto simp: group_models_lookup split: if_splits)
  have folded: "catalog_reachable (fold (\<lambda>(name, models). SetDiscovered name models) by_provider c)"
    if "catalog_reachable c" "\<forall>(name, models) \<in> set by_provider. \<forall>m \<in> set models. dm_Provider m = name" for by_provider c
    using that by (induction by_provider arbitrary: c) (auto simp: reach_SetDiscovered)
  assume "catalog_reachable c"
  then show ?thesis
    by (auto simp: LoadDiscoveredModels_def DiscoveredModels_def split: if_splits
        intro!: folded dest: grouped)
qed

lemma startup_sound:
  assumes "startup cy sl lib decode io config tb = Some (c, bridge)" and "reachable_accounts config cy (accounts (tb_vault tb)) iss"
  shows "console_sound config cy iss c"
proof -
  obtain v1 cat g ks where v1: "bootstrap cy sl io config (tb_vault tb) = (None, v1)" and cat: "ConfigCatalog decode config = Inr cat"
    and g: "NewGateway config (Some cat) = Inr g"
    and c: "c = \<lparr>co_vault = v1\<lparr>accounts := (snd (bootstrapAdminUser cy io config (accounts v1)))\<lparr>throttle := newLoginThrottle\<rparr>,
          client_keys := ks\<rparr>,
        co_gateway = switch_of lib io tb (g\<lparr>catalog := filled io g tb\<rparr>),
        co_table = tb_models tb, co_probes = tb_probes tb, co_health = healthy, co_tags = tb_tags tb,
        co_black = tb_black tb, co_settings = tb_settings tb\<rparr>"
    by (rule startup_parts [OF assms(1)])
  have "catalog_reachable cat"
    using cat by (auto simp: ConfigCatalog_def intro: catalog_reachable.built_in catalog_reachable.loaded
        split: option.splits if_splits sum.splits)
  then have "catalog_reachable (filled io g tb)"
    using NewGateway_fields [OF g] by (simp add: filled_def Let_def reach_LoadConfirmed reach_LoadBlacklist reach_LoadModelTags reach_LoadDiscovered)
  moreover have "reachable_accounts config cy (snd (bootstrapAdminUser cy io config (accounts v1))) iss"
    using assms(2) bootstrap_accounts [OF v1] reachable_accounts.bootstrap
    by (fastforce simp: bootstrapAdminUser_def split: prod.splits sum.splits)
  ultimately show ?thesis
    using NewGateway_fields [OF g] by (simp add: c console_sound_def reachable_accounts.restart)
qed

text \<open>Which loops a configuration has at work for as long as the process serves.\<close>

definition loop_enabled :: "Config \<Rightarrow> background \<Rightarrow> bool" where
  "loop_enabled config b \<longleftrightarrow>
     (case b of Loop_discovery \<Rightarrow> 0 < DiscoveryInterval config | Loop_probing \<Rightarrow> 0 < ProbeInterval config
      | Loop_feedback \<Rightarrow> 0 < LatencyFeedback config | Loop_sweeper \<Rightarrow> True)"

definition loops_sound :: "Config \<Rightarrow> Proc \<Rightarrow> bool" where
  "loops_sound config p \<longleftrightarrow>
     (\<forall>b. (pr_stage p = Serving \<and> loop_enabled config b \<longrightarrow> pr_loops p b \<noteq> Ended) \<and>
          (\<not> loop_enabled config b \<longrightarrow> pr_loops p b = Ended \<or> b = Loop_discovery \<and> pr_loops p b = At_once))"

lemma loops_sound_start: "loops_sound config (begin_process config c st)"
proof -
  have "(loop_enabled config b \<longrightarrow> start_phase config b \<noteq> Ended) \<and>
      (\<not> loop_enabled config b \<longrightarrow> start_phase config b = Ended \<or> b = Loop_discovery \<and> start_phase config b = At_once)" for b
    by (cases b) (simp_all add: loop_enabled_def StartDiscovery_def StartProbing_def StartLatencyFeedback_def startSessionSweeper_def)
  then show ?thesis by (simp add: loops_sound_def begin_process_def)
qed

lemma loops_sound_step:
  assumes "loops_sound config p" and "sg = Cancelled \<longrightarrow> pr_stage p \<noteq> Serving" and "config_of p = config"
  shows "loops_sound config (run_loop h b sg p)"
proof -
  have rep: "loop_repeats config b \<longleftrightarrow> b \<noteq> Loop_discovery \<or> loop_enabled config b"
    by (auto simp: loop_repeats_def loop_enabled_def)
  have b: "pr_stage p = Serving \<and> loop_enabled config b \<longrightarrow> pr_loops p b \<noteq> Ended"
    "\<not> loop_enabled config b \<longrightarrow> pr_loops p b = Ended \<or> b = Loop_discovery \<and> pr_loops p b = At_once"
    using assms(1) by (auto simp: loops_sound_def)
  obtain works ph where st: "loop_step (loop_repeats config b) sg (pr_loops p b) = (works, ph)" by fastforce
  have "(pr_stage p = Serving \<and> loop_enabled config b \<longrightarrow> ph \<noteq> Ended) \<and> (\<not> loop_enabled config b \<longrightarrow> ph = Ended)"
    using b st rep assms(2) by (cases "pr_loops p b"; cases sg) (auto split: if_splits)
  then show ?thesis using assms(1,3) st by (auto simp: loops_sound_def run_loop_def Let_def)
qed

lemma running_sound:
  assumes "running config cy p0 iss0 p iss" and "console_sound config cy iss0 (si_console (pr_site p0))" and "loops_sound config p0"
  shows "console_sound config cy iss (si_console (pr_site p)) \<and> loops_sound config p"
  using assms
proof (induction rule: running.induct)
  case (requested p iss h q x p')
  obtain s' where s: "serve h q (pr_site p) = (x, s')" "p' = p\<lparr>pr_site := s'\<rparr>"
    using requested.hyps(4) by (auto simp: run_request_def split: prod.splits)
  have "console_sound config cy (handed_out x @ iss) (si_console s')"
  proof (cases "mux_find mux (hq_Method q) (hq_Path q)")
    case None
    with s requested.IH requested.prems show ?thesis by (auto simp: serve_def)
  next
    case (Some f)
    then obtain pt e vals where "f = (pt, e, vals)" by (cases f) auto
    with Some s(1) have "handle h e vals q (pr_site p) = (x, s')" by (simp add: serve_def)
    with handle_sound [of config h iss "pr_site p" e vals q x s'] requested show ?thesis by simp
  qed
  with s(2) requested show ?case by (simp add: loops_sound_def)
next
  case (travelled p iss v io req key streaming w)
  then show ?case by (simp add: run_trip_def Let_def loops_sound_def)
next
  case (messaged p iss h msg)
  then show ?case by (simp add: run_message_def Let_def loops_sound_def)
next
  case (looped p iss sg h b)
  then have "config_of p = config" by (simp add: config_of_def console_sound_def)
  with looped loops_sound_step [of config p sg h b] sound_loop_pass [of config cy iss "si_console (pr_site p)" h b]
  show ?case by (auto simp: run_loop_def Let_def split: prod.splits)
next
  case (signalled p iss)
  then show ?case by (cases "pr_stage p") (auto simp: loops_sound_def)
qed simp

text \<open>
  C7. The process keeps its laws in every run that takes its handlers and passes one at a time. From a start on tables of an earlier process, whatever requests, device messages,
  trips of requests and passes of the loops follow in whatever order, up to the shutdown and through it: the configuration
  never changes; the catalogue keeps a profile, no name twice, valid priced curated entries, each discovered model under its
  own provider, and counts no model as confirmed that was not probed; without an admin token some enabled account remains
  from the first one on; while the process serves no enabled loop has ended, and a disabled one never runs again.
  Two requests that overlap inside a handler are not such a run: two operators who disable each other at the same
  moment can both succeed and leave no enabled account (\<open>overlapping_disables_lock_out\<close> in \<open>Account_Safety\<close>).
\<close>

theorem running_process_is_sound:
  assumes "startup cy sl lib decode io config tb = Some (c, bridge)" and "reachable_accounts config cy (accounts (tb_vault tb)) iss0"
    and "running config cy (begin_process config c st) iss0 p iss"
  shows "let cat = catalog (co_gateway (si_console (pr_site p))); us = users (site_accounts (pr_site p)) in
    config_of p = config \<and> profiles cat \<noteq> [] \<and> profiles_ok (profiles cat) \<and>
    (\<forall>name models q. map_of (discovered cat) name = Some models \<and> q \<in> set models \<longrightarrow> Provider q = name) \<and>
    (\<forall>prov m. Confirmed cat prov m \<longrightarrow> Probed cat prov m) \<and>
    (AdminToken config = [] \<and> us \<noteq> [] \<longrightarrow> (\<exists>ident u. map_of us ident = Some u \<and> \<not> Disabled u)) \<and>
    (pr_stage p = Serving \<longrightarrow> (\<forall>b. loop_enabled config b \<longrightarrow> pr_loops p b \<noteq> Ended)) \<and>
    (\<forall>b. \<not> loop_enabled config b \<and> b \<noteq> Loop_discovery \<longrightarrow> pr_loops p b = Ended)"
proof -
  from startup_sound [OF assms(1,2)] have "console_sound config cy iss0 (si_console (pr_site (begin_process config c st)))"
    by (simp add: begin_process_def)
  from running_sound [OF assms(3) this loops_sound_start]
  have sound: "catalog_reachable (catalog (co_gateway (si_console (pr_site p))))" "cfg (co_gateway (si_console (pr_site p))) = config"
    "reachable_accounts config cy (site_accounts (pr_site p)) iss" and loops: "loops_sound config p"
    by (simp_all add: console_sound_def site_accounts_def)
  from loops have l: "pr_stage p = Serving \<Longrightarrow> loop_enabled config b \<Longrightarrow> pr_loops p b \<noteq> Ended"
    "\<not> loop_enabled config b \<Longrightarrow> b \<noteq> Loop_discovery \<Longrightarrow> pr_loops p b = Ended" for b
    by (auto simp: loops_sound_def)
  have "\<exists>ident u. map_of (users (site_accounts (pr_site p))) ident = Some u \<and> \<not> Disabled u"
    if "AdminToken config = []" "users (site_accounts (pr_site p)) \<noteq> []"
    using operators_never_locked_out [OF sound(3) that] by blast
  with reachable_catalog_invariant [OF sound(1)] sound(2) l show ?thesis
    unfolding Let_def config_of_def by blast
qed

text \<open>
  C4. Only operators manage, in every run: an answer other than a refusal from the console, the management endpoints or the
  playground went to a caller that presented the admin token, or the token of a session that a sign-in handed out, in this
  process or an earlier one, to an account that is still enabled, and that has not expired. The hash must not map the
  presented token and another one that was handed out to one value.
\<close>

theorem only_operators_manage:
  assumes "startup cy sl lib decode io config tb = Some (c, bridge)" and "reachable_accounts config cy (accounts (tb_vault tb)) iss0"
    and "running config cy (begin_process config c st) iss0 p iss" and "ho_crypto h = cy"
    and "mux_find mux (hq_Method q) (hq_Path q) = Some (pt, e, vals)" and "audience_of e = Operators"
    and "run_request h q p = (x, p')" and "refusal x = None"
    and "\<forall>token. Cookie (hq_From q) = Some token \<longrightarrow> (\<forall>(t, i, ex) \<in> set iss. sha256 cy t = sha256 cy token \<longrightarrow> t = token)"
  shows "adminTokenPresented config (hq_From q) \<or>
    (\<exists>token ident expires u. Cookie (hq_From q) = Some token \<and> (token, ident, expires) \<in> set iss \<and> ai_now (ho_io h) \<le> expires \<and>
       map_of (users (site_accounts (pr_site p))) ident = Some u \<and> \<not> Disabled u)"
proof -
  from startup_sound [OF assms(1,2)] have "console_sound config cy iss0 (si_console (pr_site (begin_process config c st)))"
    by (simp add: begin_process_def)
  from running_sound [OF assms(3) this loops_sound_start]
  have sound: "cfg (co_gateway (si_console (pr_site p))) = config" "reachable_accounts config cy (site_accounts (pr_site p)) iss"
    by (simp_all add: console_sound_def site_accounts_def)
  have "x = fst (handle h e vals q (pr_site p))"
    using assms(5,7) by (auto simp: run_request_def serve_def split: prod.splits)
  with assms(8) operators_are_refused [OF assms(6), of h q "pr_site p" vals] have "admitted h q (pr_site p) e" by auto
  then have "adminTokenPresented config (hq_From q) \<or> fst (operator_session h q (pr_site p)) \<noteq> None"
    using assms(6) sound(1) by (auto simp: admitted_def)
  then show ?thesis
  proof
    assume "fst (operator_session h q (pr_site p)) \<noteq> None"
    then obtain token s a' where token: "Cookie (hq_From q) = Some token"
      "ValidateSession cy (ai_auth_fails (ho_io h)) (ai_now (ho_io h)) token (site_accounts (pr_site p)) = (Inr s, a')"
      by (auto simp: operator_session_def handler_session_def assms(4) split: option.splits prod.splits sum.splits)
    from session_is_a_sign_in [OF sound(2) token(2)] assms(9) token(1) show ?thesis by blast
  qed simp
qed

section \<open>A process that runs\<close>

definition kept_tables :: Tables where
  "kept_tables = old_tables\<lparr>tb_vault := (tb_vault old_tables)\<lparr>accounts := opened\<rparr>\<rparr>"

lemma plain_loaded: "Load bare_host two_providers = plain_config"
proof -
  have "getEnvBool two_providers ''TRUST_PROXY_HEADERS'' False = False" "two_providers ''ADMIN_TOKEN'' = []" by code_simp+
  then show ?thesis by (simp add: plain_config_def Load_def Let_def)
qed

lemma kept_start:
  "\<exists>c bridge. startup toy_crypto toy_sealer price_lib (\<lambda>_. None) quiet_boot plain_config kept_tables = Some (c, bridge) \<and>
     accounts (co_vault c) = opened\<lparr>throttle := newLoginThrottle\<rparr> \<and> cfg (co_gateway c) = plain_config"
proof -
  have v: "Validate (\<lambda>_. None) plain_config = None" using two_providers_config plain_loaded by simp
  obtain cat where cat: "ConfigCatalog (\<lambda>_. None) plain_config = Inr cat" using Validate_None [OF v] by blast
  obtain reg where reg: "NewRegistry (ResolvedProviders plain_config) = Inr reg"
    using validated_config_starts_witness plain_loaded by auto
  have b: "bootstrap toy_crypto toy_sealer quiet_boot plain_config (tb_vault kept_tables) = (None, tb_vault kept_tables)"
    by (simp add: bootstrap_def from_environment_def quiet_boot_def kept_tables_def old_tables_def CountClientKeys_def)
  obtain b0 ks where "startBridge toy_crypto (bt_iot_fails quiet_boot) (bt_iot_at quiet_boot) (bt_broker_answers quiet_boot)
      plain_config (bt_router quiet_boot) (client_keys (tb_vault kept_tables)) = (b0, ks)" by fastforce
  with v cat reg b obtain c bridge where
    c: "startup toy_crypto toy_sealer price_lib (\<lambda>_. None) quiet_boot plain_config kept_tables = Some (c, bridge)"
    by (simp add: startup_def NewGateway_def Let_def)
  moreover have "accounts (co_vault c) = opened\<lparr>throttle := newLoginThrottle\<rparr> \<and> cfg (co_gateway c) = plain_config"
    by (rule startup_parts [OF c])
      (use b in \<open>auto simp: bootstrapAdminUser_def quiet_boot_def kept_tables_def dest: NewGateway_fields\<close>)
  ultimately show ?thesis by blast
qed

lemma kept_reachable:
  "reachable_accounts plain_config toy_crypto (accounts (tb_vault kept_tables)) [(''crs_r'', ''u1'', 43200000000005)]"
  using opened_reachable by (simp add: kept_tables_def)

lemma running_process_is_sound_witness:
  "\<exists>c bridge. startup toy_crypto toy_sealer price_lib (\<lambda>_. None) quiet_boot plain_config kept_tables = Some (c, bridge) \<and>
     (\<forall>h st. let p = run_loop h Loop_discovery Fired (begin_process plain_config c st) in
        profiles (catalog (co_gateway (si_console (pr_site p)))) \<noteq> [] \<and> pr_loops p Loop_sweeper \<noteq> Ended)"
proof -
  obtain c bridge where c: "startup toy_crypto toy_sealer price_lib (\<lambda>_. None) quiet_boot plain_config kept_tables = Some (c, bridge)"
    using kept_start by blast
  have "profiles (catalog (co_gateway (si_console (pr_site p)))) \<noteq> [] \<and> pr_loops p Loop_sweeper \<noteq> Ended"
    if p: "p = run_loop h Loop_discovery Fired (begin_process plain_config c st)" for h st p
  proof -
    have "running plain_config toy_crypto (begin_process plain_config c st) [(''crs_r'', ''u1'', 43200000000005)] p
        [(''crs_r'', ''u1'', 43200000000005)]"
      unfolding p by (rule running.looped [OF running.started]) simp
    moreover have "pr_stage p = Serving" by (simp add: p run_loop_def begin_process_def Let_def split: prod.split)
    moreover have "loop_enabled plain_config Loop_sweeper" by (simp add: loop_enabled_def)
    ultimately show ?thesis using running_process_is_sound [OF c kept_reachable, of st p] unfolding Let_def by blast
  qed
  with c show ?thesis unfolding Let_def by blast
qed

definition cookie_request :: http_request where
  "cookie_request = (stranger ''GET'' [''v1'', ''admin'', ''users''])\<lparr>hq_From := no_request\<lparr>Cookie := Some ''crs_r''\<rparr>\<rparr>"

lemma users_route: "mux_find mux ''GET'' [''v1'', ''admin'', ''users''] = Some (parse_pattern ''GET /v1/admin/users'', EP_listUsers, [])"
  by code_simp

lemma users_answered:
  assumes "accounts (co_vault c) = opened\<lparr>throttle := newLoginThrottle\<rparr>"
  shows "refusal (fst (run_request (h\<lparr>ho_crypto := toy_crypto, ho_io := calm\<rparr>) cookie_request (begin_process config c st))) = None"
  using users_route assms
  by (simp add: run_request_def serve_def cookie_request_def stranger_def begin_process_def on_accounts_def adminListUsers_def adminAuthorized_def
      handler_session_def ValidateSession_def opened_def one_account_def operator_def toy_crypto_def no_request_def After_def Disabled_def
      refusal_def Let_def)

lemma only_operators_manage_witness:
  "\<exists>c bridge. startup toy_crypto toy_sealer price_lib (\<lambda>_. None) quiet_boot plain_config kept_tables = Some (c, bridge) \<and>
     (\<forall>h st. refusal (fst (run_request (h\<lparr>ho_crypto := toy_crypto, ho_io := calm\<rparr>) cookie_request (begin_process plain_config c st))) = None \<and>
        (\<exists>ident expires u. (''crs_r'', ident, expires) \<in> set [(''crs_r'', ''u1'', 43200000000005)] \<and>
           map_of (users (accounts (co_vault c))) ident = Some u \<and> \<not> Disabled u))"
proof -
  obtain c bridge where c: "startup toy_crypto toy_sealer price_lib (\<lambda>_. None) quiet_boot plain_config kept_tables = Some (c, bridge)"
    and acc: "accounts (co_vault c) = opened\<lparr>throttle := newLoginThrottle\<rparr>" using kept_start by blast
  have "\<exists>ident expires u. (''crs_r'', ident, expires) \<in> set [(''crs_r'', ''u1'', 43200000000005)] \<and>
      map_of (users (accounts (co_vault c))) ident = Some u \<and> \<not> Disabled u" for h :: server_io and st :: IoTStore
  proof -
    let ?h = "h\<lparr>ho_crypto := toy_crypto, ho_io := calm\<rparr>" and ?p = "begin_process plain_config c st"
    obtain x p' where run: "run_request ?h cookie_request ?p = (x, p')" by fastforce
    with users_answered [OF acc, of h plain_config st] have "refusal x = None" by simp
    from only_operators_manage [OF c kept_reachable running.started, where h = ?h and q = cookie_request and e = EP_listUsers, OF _ _ _ run this]
    show ?thesis
      using users_route
      by (auto simp: cookie_request_def stranger_def audience_of_def adminTokenPresented_def site_accounts_def begin_process_def toy_crypto_def)
  qed
  with c users_answered [OF acc] show ?thesis by blast
qed

end
