(* ===== verification/Device_Link.thy ===== *)
theory Device_Link
  imports IoT_Facts
begin

text \<open>
  The bridge's connection to the broker (\<open>Connect\<close>, \<open>subscribe\<close>, \<open>Close\<close> and \<open>Connected\<close> of \<open>internal/iot/bridge.go\<close>): the
  options of the client, the subscriptions made on every connect, and which topics they let through. The broker is a
  parameter: it settles each request in time or not, and delivers what the filters asked for match, level by level.
\<close>

section \<open>The link\<close>

datatype token = Timed_out | Settled "string option"

record client_options =
  op_Broker :: string
  op_ClientID :: string
  op_Login :: "(string \<times> string) option"
  op_AutoReconnect :: bool

record Link =
  lk_client :: "client_options option"
  lk_up :: bool
  lk_filters :: "string list"

definition no_link :: Link where
  "no_link = \<lparr>lk_client = None, lk_up = False, lk_filters = []\<rparr>"

definition link_options :: "Bridge \<Rightarrow> string \<Rightarrow> string \<Rightarrow> client_options" where
  "link_options b user password =
     \<lparr>op_Broker = bc_Broker (br_cfg b), op_ClientID = bc_ClientID (br_cfg b),
      op_Login = (if user \<noteq> [] then Some (user, password) else None), op_AutoReconnect = True\<rparr>"

text \<open>The subscriptions stop at the first that fails; every filter asked for may be in force.\<close>

fun subscribe_each :: "(string \<Rightarrow> token) \<Rightarrow> string list \<Rightarrow> string option \<times> string list" where
  "subscribe_each broker [] = (None, [])"
| "subscribe_each broker (t # ts) =
     (case broker t of
        Timed_out \<Rightarrow> (Some (''timed out subscribing to '' @ t), [t])
      | Settled (Some e) \<Rightarrow> (Some e, [t])
      | Settled None \<Rightarrow> (case subscribe_each broker ts of (err, asked) \<Rightarrow> (err, t # asked)))"

definition subscribe :: "Bridge \<Rightarrow> (string \<Rightarrow> token) \<Rightarrow> string option \<times> string list" where
  "subscribe b broker = subscribe_each broker [telemetryTopic b, inferenceTopic b]"

definition bridge_Connect :: "Bridge \<Rightarrow> string \<Rightarrow> string \<Rightarrow> token \<Rightarrow> Link \<Rightarrow> string option \<times> Link" where
  "bridge_Connect b user password dialled l =
     (if \<not> bridge_Enabled b then (None, l)
      else (case dialled of Timed_out \<Rightarrow> Some (''iot: timed out connecting to '' @ bc_Broker (br_cfg b)) | Settled e \<Rightarrow> e,
        l\<lparr>lk_client := Some (link_options b user password)\<rparr>))"

text \<open>
  What the client reports: a connect, the first or a later one, subscribes; the loss of the connection only logs.
\<close>

datatype link_event = Link_up "string \<Rightarrow> token" | Link_lost

fun link_handler :: "Bridge \<Rightarrow> link_event \<Rightarrow> Link \<Rightarrow> Link" where
  "link_handler b (Link_up broker) l = l\<lparr>lk_up := True, lk_filters := snd (subscribe b broker)\<rparr>"
| "link_handler b Link_lost l = l\<lparr>lk_up := False, lk_filters := []\<rparr>"

definition bridge_Connected :: "Link \<Rightarrow> bool" where
  "bridge_Connected l \<longleftrightarrow> lk_client l \<noteq> None \<and> lk_up l"

definition bridge_Close :: "Link \<Rightarrow> Link" where
  "bridge_Close l = (if bridge_Connected l then l\<lparr>lk_up := False, lk_filters := []\<rparr> else l)"

section \<open>Filters\<close>

text \<open>A filter matches level by level; \<open>+\<close> stands for any one level, an empty one too.\<close>

fun levels_match :: "string list \<Rightarrow> string list \<Rightarrow> bool" where
  "levels_match [] [] = True"
| "levels_match (f # fs) (t # ts) \<longleftrightarrow> (f = ''+'' \<or> f = t) \<and> levels_match fs ts"
| "levels_match _ _ = False"

definition filter_matches :: "string \<Rightarrow> string \<Rightarrow> bool" where
  "filter_matches f topic \<longleftrightarrow> levels_match (Split f slash) (Split topic slash)"

lemma Split_at: "Split (a @ c # b) c = Split a c @ Split b c"
  by (induction a) (auto split: list.splits)

lemma Split_parts: "p \<in> set (Split s c) \<Longrightarrow> c \<notin> set p"
  by (induction s arbitrary: p) (fastforce split: list.splits if_splits)+

lemma Join_Cons: "xs \<noteq> [] \<Longrightarrow> Join (x # xs) sep = x @ sep @ Join xs sep"
  by (cases xs) simp_all

lemma Join_Split: "Join (Split s c) [c] = s"
proof (induction s)
  case (Cons x s)
  obtain p ps where sp: "Split s c = p # ps" using Split_nonempty [of s c] by (meson list.exhaust)
  show ?case
  proof (cases "x = c")
    case True
    with Cons show ?thesis by (simp add: Join_Cons)
  next
    case False
    with Cons sp show ?thesis by (cases ps) simp_all
  qed
qed simp

lemma levels_match_append:
  "levels_match (fs @ gs) ts \<Longrightarrow> ''+'' \<notin> set fs \<Longrightarrow> \<exists>us. ts = fs @ us \<and> levels_match gs us"
proof (induction fs arbitrary: ts)
  case (Cons f fs)
  then obtain t us where "ts = t # us" by (cases ts) auto
  with Cons show ?case by auto
qed simp

lemma Split_eqD: "Split s c = Split t c \<Longrightarrow> s = t"
  using Join_Split by metis

text \<open>
  What comes in through the bridge's own subscriptions is a device's reading or request: each filter lets through exactly
  the topics the bridge reads as that kind, one level for the device, so no message of theirs is left without a handler.
\<close>

theorem subscriptions_are_read:
  assumes "trimmed_prefix (bc_TopicPrefix (br_cfg b))" and "''+'' \<notin> set (Split (bc_TopicPrefix (br_cfg b)) slash)"
    and "f \<in> set (snd (subscribe b broker))" and "filter_matches f topic"
  shows "\<exists>dev kind. parseTopic (bc_TopicPrefix (br_cfg b)) topic = (dev, kind) \<and> slash \<notin> set dev \<and>
    (f = telemetryTopic b \<and> kind = ''telemetry'' \<and> topic = bc_TopicPrefix (br_cfg b) @ ''/devices/'' @ dev @ ''/telemetry'' \<or>
     f = inferenceTopic b \<and> kind = ''inference'' \<and> topic = bc_TopicPrefix (br_cfg b) @ ''/devices/'' @ dev @ ''/inference/request'')"
proof -
  let ?p = "bc_TopicPrefix (br_cfg b)"
  have no: "slash \<notin> set ''devices''" "slash \<notin> set ''telemetry''" "slash \<notin> set ''inference''" "slash \<notin> set ''request''"
    "slash \<notin> set ''+''" by (simp_all add: slash_def)
  have tel: "Split (?p @ ''/devices/'' @ x @ ''/telemetry'') slash = Split ?p slash @ [''devices'', x, ''telemetry'']"
    if "slash \<notin> set x" for x
    using Split_at [of ?p slash "''devices'' @ slash # x @ slash # ''telemetry''"] Split_append [OF no(1)] Split_append [OF that]
      Split_no_sep [OF no(2)] by (simp add: slash_def)
  have inf: "Split (?p @ ''/devices/'' @ x @ ''/inference/request'') slash = Split ?p slash @ [''devices'', x, ''inference'', ''request'']"
    if "slash \<notin> set x" for x
    using Split_at [of ?p slash "''devices'' @ slash # x @ slash # ''inference'' @ slash # ''request''"] Split_append [OF no(1)]
      Split_append [OF that] Split_append [OF no(3)] Split_no_sep [OF no(4)] by (simp add: slash_def)
  have "f = telemetryTopic b \<or> f = inferenceTopic b"
    using assms(3) by (auto simp: subscribe_def split: token.splits option.splits)
  then show ?thesis
  proof
    assume f: "f = telemetryTopic b"
    with assms(4) tel [OF no(5)] have "levels_match (Split ?p slash @ [''devices'', ''+'', ''telemetry'']) (Split topic slash)"
      by (simp add: filter_matches_def telemetryTopic_def)
    from levels_match_append [OF this assms(2)] obtain us where us: "Split topic slash = Split ?p slash @ us"
      "levels_match [''devices'', ''+'', ''telemetry''] us" by blast
    then obtain dev where "us = [''devices'', dev, ''telemetry'']"
      by (cases us; cases "tl us"; cases "tl (tl us)"; cases "tl (tl (tl us))") auto
    with us Split_parts [of dev topic slash] have dev: "slash \<notin> set dev" "Split topic slash = Split ?p slash @ [''devices'', dev, ''telemetry'']"
      by auto
    with tel [OF dev(1)] have "topic = ?p @ ''/devices/'' @ dev @ ''/telemetry''" using Split_eqD by metis
    with f dev(1) parse_device_topic [OF assms(1) dev(1) no(2)] show ?thesis by (auto simp: slash_def)
  next
    assume f: "f = inferenceTopic b"
    with assms(4) inf [OF no(5)] have "levels_match (Split ?p slash @ [''devices'', ''+'', ''inference'', ''request'']) (Split topic slash)"
      by (simp add: filter_matches_def inferenceTopic_def)
    from levels_match_append [OF this assms(2)] obtain us where us: "Split topic slash = Split ?p slash @ us"
      "levels_match [''devices'', ''+'', ''inference'', ''request''] us" by blast
    then obtain dev where "us = [''devices'', dev, ''inference'', ''request'']"
      by (cases us; cases "tl us"; cases "tl (tl us)"; cases "tl (tl (tl us))"; cases "tl (tl (tl (tl us)))") auto
    with us Split_parts [of dev topic slash] have dev: "slash \<notin> set dev"
      "Split topic slash = Split ?p slash @ [''devices'', dev, ''inference'', ''request'']" by auto
    with inf [OF dev(1)] have "topic = ?p @ ''/devices/'' @ dev @ ''/inference/request''" using Split_eqD by metis
    with f dev(1) parse_inference_topic [OF assms(1) dev(1)] show ?thesis by auto
  qed
qed

text \<open>
  The level of the device may be empty: the filter lets such a topic through, and the bridge then believes the payload
  (\<open>empty_level_is_believed\<close> of \<open>IoT_Facts\<close>).
\<close>

lemma nameless_level_is_subscribed: "filter_matches (telemetryTopic hub) (bc_TopicPrefix (br_cfg hub) @ ''/devices//telemetry'')"
  by code_simp

section \<open>The life of the link\<close>

text \<open>
  While the client is connected its filters are the bridge's own, reconnections included: each connect asks for the readings
  first, and for the requests unless the readings could not be subscribed to.
\<close>

fun link_run :: "Bridge \<Rightarrow> link_event list \<Rightarrow> Link \<Rightarrow> Link" where
  "link_run b [] l = l"
| "link_run b (e # es) l = link_run b es (link_handler b e l)"

lemma subscribe_filters: "snd (subscribe b broker) \<in> {[telemetryTopic b], [telemetryTopic b, inferenceTopic b]}"
  by (auto simp: subscribe_def split: token.split option.split)

lemma link_filters:
  assumes "lk_up l \<longrightarrow> lk_filters l \<in> {[telemetryTopic b], [telemetryTopic b, inferenceTopic b]}"
  shows "lk_up (link_run b es l) \<longrightarrow> lk_filters (link_run b es l) \<in> {[telemetryTopic b], [telemetryTopic b, inferenceTopic b]}"
  using assms
proof (induction es arbitrary: l)
  case (Cons e es)
  then show ?case using subscribe_filters by (cases e) auto
qed simp

lemma healthy_broker_subscribes_both:
  "(\<And>t. broker t = Settled None) \<Longrightarrow> subscribe b broker = (None, [telemetryTopic b, inferenceTopic b])"
  by (simp add: subscribe_def)

end
