(* ===== verification/Trip.thy ===== *)
theory Trip
  imports Gateway_Safety Process_Facts
begin

text \<open>
  A completion from end to end: the HTTP request, the key, the body, the trip through the gateway (\<open>route\<close>) over the keys
  stored in the vault, and the reply (\<open>handleChatCompletions\<close> and \<open>handleResponses\<close> over \<open>Complete\<close> and \<open>Stream\<close>), with the
  texts of the errors a client reads (\<open>unroutable\<close> of \<open>gateway.go\<close>). \<open>strconv.Quote\<close> is a parameter.
\<close>

section \<open>Error texts\<close>

definition no_provider :: "string \<Rightarrow> string" where
  "no_provider why = ErrNoProvider @ '': '' @ why"

definition not_available :: "(string \<Rightarrow> string) \<Rightarrow> string \<Rightarrow> string \<Rightarrow> string" where
  "not_available quoted m detail =
     no_provider (''model '' @ quoted m @ '' is not available ('' @ detail @
       ''). Free routing only uses free models a probe has shown to answer; ask for '' @ quoted freeSentinel @
       '' (or leave the model empty) to let routing pick one'')"

fun unroutable_text :: "(string \<Rightarrow> string) \<Rightarrow> Unroutable \<Rightarrow> string" where
  "unroutable_text quoted NoKeysStored = no_provider ''no provider keys are stored; add one from the dashboard''"
| "unroutable_text quoted (NamedRefusingTraffic m) =
     not_available quoted m
       ''that free model is currently refusing traffic; it stays watched and routing will use it again once a probe shows it answering''"
| "unroutable_text quoted (NamedNotFree m) = not_available quoted m ''this gateway routes to free models only''"
| "unroutable_text quoted (NoFreeModelsKnown names) =
     no_provider (''no free models are known for '' @ Join names '', '' @
       ''. Free routing only uses models whose provider publishes a zero price, and none of the configured providers has '' @
       ''reported one yet'')"
| "unroutable_text quoted (MarkedModelsUnavailable task names) =
     no_provider (''every model marked for '' @ task @ '' is unavailable '' @ em_dash @
       '' its provider has no key, it has been withdrawn, or it recently refused access. Providers with keys: '' @
       Join names '', '' @ ''. Mark another model for '' @ task @ '', or clear the marks to let routing choose'')"
| "unroutable_text quoted (NothingDiscovered names) =
     no_provider (''automatic routing found nothing to use. Providers with keys: '' @ Join names '', '' @
       '', but none has reported a model yet '' @ em_dash @ '' try again once discovery has run, or name a model directly'')"
| "unroutable_text quoted (NothingServes m names) =
     no_provider (''nothing serves model '' @ quoted m @ ''. Providers with keys: '' @ Join names '', '' @
       ''. Pin one with '' @ CHR 0x22 # ''provider:model'' @ CHR 0x22 # '' if the model list is not yet discovered'')"

fun route_error_text :: "(string \<Rightarrow> string) \<Rightarrow> RouteError \<Rightarrow> string" where
  "route_error_text quoted KeysUnreadable = ''failed to load provider keys: database error''"
| "route_error_text quoted (NoRoute why) = unroutable_text quoted why"
| "route_error_text quoted (ChainFailed why) = why"

section \<open>The trip\<close>

record trip_io =
  tr_vectors :: vectors
  tr_route :: route_io
  tr_keys_fail :: bool
  tr_keys_fail_again :: bool
  tr_quoted :: "string \<Rightarrow> string"

definition stored_in :: "sealer \<Rightarrow> bool \<Rightarrow> Console \<Rightarrow> keys option" where
  "stored_in sl fails c = (case ConfiguredKeys sl fails c of Inl _ \<Rightarrow> None | Inr ks \<Rightarrow> Some ks)"

text \<open>The keys come from the vault, and every chunk goes to the one client.\<close>

definition trip_route :: "trip_io \<Rightarrow> sealer \<Rightarrow> (nat \<Rightarrow> string option) \<Rightarrow> Console \<Rightarrow> route_io" where
  "trip_route t sl emit c =
     (tr_route t)\<lparr>cache_emit := emit, stored := stored_in sl (tr_keys_fail t) c, stored_again := stored_in sl (tr_keys_fail_again t) c,
       attempts := (\<lambda>n. (attempts (tr_route t) n)\<lparr>client_emit := emit\<rparr>)\<rparr>"

definition take_trip ::
  "trip_io \<Rightarrow> sealer \<Rightarrow> (nat \<Rightarrow> string option) \<Rightarrow> Console \<Rightarrow> World \<Rightarrow> ChatRequest \<Rightarrow> ClientKey \<Rightarrow> gateway_answer \<times> World" where
  "take_trip t sl emit c w req key =
     (let io = trip_route t sl emit c; g = co_gateway c in
      if Stream req then
        (let (e, w1) = StreamRequest (tr_vectors t) g io req (Some (ck_ID key)) w in
         (\<lparr>ga_whole = Inl [], ga_chunks = drop (length (delivered w)) (delivered w1),
            ga_error = map_option (route_error_text (tr_quoted t)) e\<rparr>, w1))
      else
        (let (r, w1) = Complete (tr_vectors t) g io req (Some (ck_ID key)) w in
         (\<lparr>ga_whole =
             (case r of Inl e \<Rightarrow> Inl (route_error_text (tr_quoted t) e) | Inr None \<Rightarrow> Inl [] | Inr (Some resp) \<Rightarrow> Inr resp),
            ga_chunks = [], ga_error = None\<rparr>, w1)))"

text \<open>The request a completion endpoint hands to the gateway, and for whom.\<close>

definition asked_body :: "server_io \<Rightarrow> endpoint \<Rightarrow> http_request \<Rightarrow> Site \<Rightarrow> ChatRequest option" where
  "asked_body h e q s =
     (let dm = DefaultModel (cfg (co_gateway (si_console s))) in
      if e = EP_responses then
        (case read_responses_request (ho_lib h) dm (hq_Bytes q) of Inl no \<Rightarrow> None | Inr (rr, req) \<Rightarrow> Some req)
      else (case read_chat_request (ho_lib h) dm (hq_Bytes q) of Inl no \<Rightarrow> None | Inr req \<Rightarrow> Some req))"

definition asked :: "server_io \<Rightarrow> endpoint \<Rightarrow> http_request \<Rightarrow> Site \<Rightarrow> (ChatRequest \<times> ClientKey) option" where
  "asked h e q s =
     (if hq_Method q \<noteq> ''POST'' then None
      else case fst (authorize (ho_crypto h) (ai_auth_fails (ho_io h)) (ai_now (ho_io h)) (hq_From q)
            (client_keys (co_vault (si_console s)))) of
          Inl no \<Rightarrow> None
        | Inr key \<Rightarrow> map_option (\<lambda>req. (req, key)) (asked_body h e q s))"

text \<open>Only the chat surface reports a failed write to the gateway.\<close>

definition emitter :: "server_io \<Rightarrow> endpoint \<Rightarrow> nat \<Rightarrow> string option" where
  "emitter h e = (if e = EP_completions then ho_gone h else (\<lambda>_. None))"

definition serve_trip :: "server_io \<Rightarrow> trip_io \<Rightarrow> endpoint \<Rightarrow> http_request \<Rightarrow> Site \<Rightarrow> World \<Rightarrow> served \<times> Site \<times> World" where
  "serve_trip h t e q s w =
     (let c = si_console s;
          trip = take_trip t (ho_sealer h) (emitter h e) c (w\<lparr>health := co_health c\<rparr>);
          (x, s1) = handle (h\<lparr>ho_gateway := (\<lambda>req key. fst (trip req key))\<rparr>) e [] q s
      in case asked h e q s of
           None \<Rightarrow> (x, s1, w)
         | Some (req, key) \<Rightarrow>
             (let w1 = snd (trip req key)
              in (x, s1\<lparr>si_console := (si_console s1)\<lparr>co_health := health w1\<rparr>\<rparr>, w1)))"

section \<open>Who pays, who is asked, who is answered\<close>

definition billed_to :: "string option \<Rightarrow> World \<Rightarrow> World \<Rightarrow> bool" where
  "billed_to key w w' \<longleftrightarrow> (\<exists>rows. usage_logs w' = usage_logs w @ rows \<and> list_all (\<lambda>r. api_key_id r = key) rows)"

lemma billed_to_refl: "usage_logs w' = usage_logs w \<Longrightarrow> billed_to key w w'"
  by (simp add: billed_to_def)

lemma billed_to_trans: "billed_to key w w' \<Longrightarrow> billed_to key w' w'' \<Longrightarrow> billed_to key w w''"
  unfolding billed_to_def by (elim exE conjE) (auto intro!: exI [of _ "_ @ _"])

lemma logUsage_billed: "u_key u = key \<Longrightarrow> usage_logs w1 = usage_logs w \<Longrightarrow> billed_to key w (logUsage ord ok cat u w1)"
  by (auto simp: logUsage_def billed_to_def)

interpretation chain_billing: chain_relation v g req streaming keys key task "billed_to key"
  for v g req streaming keys key task
proof
  fix c io w i out err w1
  assume "run_attempt g io req streaming c (gm_at [] keys (cand_provider c)) task w = (i, out, Inl err, w1)"
  from run_attempt_result [OF this] show "billed_to key w (after_failure g io c key task i err w1)"
    by (auto simp: after_failure_def Let_def intro: logUsage_billed)
next
  fix c io w i out resp usage w1 t
  assume "run_attempt g io req streaming c (gm_at [] keys (cand_provider c)) task w = (i, out, Inr (resp, usage), w1)"
  from run_attempt_result [OF this] show "billed_to key w (after_success v g io req c key task i usage t w1)"
    by (auto simp: after_success_def Let_def billed_to_def logUsage_def)
qed (simp_all add: billed_to_refl, erule (1) billed_to_trans)

definition hands_over :: "bool \<Rightarrow> World \<Rightarrow> World \<Rightarrow> bool" where
  "hands_over streaming w w' \<longleftrightarrow> (\<exists>out. delivered w' = delivered w @ out \<and> (\<not> streaming \<longrightarrow> out = []))"

lemma hands_over_refl: "delivered w' = delivered w \<Longrightarrow> hands_over streaming w w'"
  by (simp add: hands_over_def)

lemma hands_over_trans: "hands_over streaming w w' \<Longrightarrow> hands_over streaming w' w'' \<Longrightarrow> hands_over streaming w w''"
  unfolding hands_over_def by (elim exE conjE) (auto intro!: exI [of _ "_ @ _"])

lemma whole_attempt: "attempt inet reg name req k None = (out, result) \<Longrightarrow> out = [] \<and> (\<forall>r us. result = Inr (r, us) \<longrightarrow> r \<noteq> None)"
  by (auto simp: attempt_def Let_def split: option.splits sum.splits if_splits)

lemma run_attempt_hands:
  assumes "run_attempt g io req streaming c (gm_at [] keys (cand_provider c)) task w = (i, out, result, w1)"
    and "delivered w2 = delivered w1"
  shows "hands_over streaming w w2"
proof (cases streaming)
  case False
  then have "attempt (net io) (registry g) (cand_provider c) (req\<lparr>ReqModel := cand_model c\<rparr>)
      (gm_at [] keys (cand_provider c)) None = (out, result)"
    using run_attempt_result [OF assms(1)] by (simp add: result_of_def)
  from whole_attempt [OF this] have "out = []" by blast
  with run_attempt_result [OF assms(1)] assms(2) show ?thesis by (simp add: hands_over_def)
qed (use run_attempt_result [OF assms(1)] assms(2) in \<open>simp add: hands_over_def\<close>)

interpretation chain_handing: chain_relation v g req streaming keys key task "hands_over streaming"
  for v g req streaming keys key task
proof
  fix c io w i out err w1
  assume "run_attempt g io req streaming c (gm_at [] keys (cand_provider c)) task w = (i, out, Inl err, w1)"
  then show "hands_over streaming w (after_failure g io c key task i err w1)" by (rule run_attempt_hands) simp
next
  fix c io w i out resp usage w1 t
  assume "run_attempt g io req streaming c (gm_at [] keys (cand_provider c)) task w = (i, out, Inr (resp, usage), w1)"
  then show "hands_over streaming w (after_success v g io req c key task i usage t w1)" by (rule run_attempt_hands) simp
qed (simp_all add: hands_over_refl, erule (1) hands_over_trans)

lemma whole_answer: "fst (attemptChain v g req False keys key task cs fs w) \<noteq> Inr None"
proof (induction cs arbitrary: fs w)
  case (Cons ci cs)
  obtain c io where ci: "ci = (c, io)" by fastforce
  obtain i out result w1 where run:
    "run_attempt g io req False c (gm_at [] keys (cand_provider c)) task w = (i, out, result, w1)" by (metis prod_cases4)
  then have "(out, result) = attempt (net io) (registry g) (cand_provider c) (req\<lparr>ReqModel := cand_model c\<rparr>)
      (gm_at [] keys (cand_provider c)) None"
    using run_attempt_result [OF run] by (simp add: result_of_def)
  from whole_attempt [OF this [symmetric]] run Cons.IH show ?case
    by (auto simp: ci Let_def split: sum.splits)
qed simp

lemma cache_billed:
  "serveFromCache v g io req key emit w = (r, w1) \<Longrightarrow>
    billed_to key w w1 \<and> hands_over (emit \<noteq> None) w w1 \<and> r \<noteq> Some None \<or> emit \<noteq> None \<and> billed_to key w w1 \<and> hands_over True w w1"
  by (auto simp: serveFromCache_def billed_to_def hands_over_def logUsage_def Let_def split: if_splits option.splits prod.splits
      LookupResult.splits)

lemma route_billed:
  "billed_to key w (snd (route v g io req key streaming w)) \<and> hands_over streaming w (snd (route v g io req key streaming w)) \<and>
   (\<not> streaming \<longrightarrow> fst (route v g io req key streaming w) \<noteq> Inr None)"
proof -
  let ?emit = "if streaming then Some (cache_emit io) else None"
  obtain served w1 where cache: "serveFromCache v g (cache_answers io) req key ?emit w = (served, w1)" by force
  from cache_billed [OF cache] have c: "billed_to key w w1" "hands_over streaming w w1" "\<not> streaming \<Longrightarrow> served \<noteq> Some None"
    by (auto split: if_splits)
  show ?thesis
  proof (cases "served = None \<and> stored io \<noteq> None")
    case False
    with cache c show ?thesis by (auto simp: route_def split: option.splits)
  next
    case True
    then obtain keys where keys: "stored io = Some keys" by auto
    obtain cs task h1 where p: "plan (ranges_of io) (plan_at io) g req keys (health w1) = ((cs, task), h1)" by (metis prod.collapse)
    let ?w2 = "w1\<lparr>health := h1\<rparr>" and ?cs = "zip cs (map (attempts io) [0..<length cs])"
    have w2: "billed_to key w ?w2" "hands_over streaming w ?w2" using c(1,2) by (simp_all add: billed_to_def hands_over_def)
    let ?r = "attemptChain v g req streaming keys key task ?cs [] ?w2"
    have "billed_to key w (snd ?r)" by (rule billed_to_trans [OF w2(1) chain_billing.chain])
    moreover have "hands_over streaming w (snd ?r)" by (rule hands_over_trans [OF w2(2) chain_handing.chain])
    moreover have "\<not> streaming \<longrightarrow> fst ?r \<noteq> Inr None" using whole_answer by (cases streaming) simp_all
    ultimately show ?thesis using True keys cache p c w2
      by (auto simp: route_def Let_def billed_to_def hands_over_def split: prod.splits sum.splits)
  qed
qed

lemma planned_allowed:
  "list_all (\<lambda>c. \<not> Blacklisted (catalog g) (cand_provider c) (cand_model c) \<and>
      (gw_freeOnly g (ReqModel req) \<longrightarrow> served_free (catalog g) c)) (fst (fst (plan r now g req keys h)))"
  using free_only_candidates [of g req]
  by (auto simp: plan_query spec_plan_def excludeBlacklisted_def list_all_iff)

text \<open>What a request may do upstream, with the keys of the vault.\<close>

definition within_bounds :: "sealer \<Rightarrow> bool \<Rightarrow> Console \<Rightarrow> ChatRequest \<Rightarrow> (string \<times> string \<times> string) list \<Rightarrow> bool" where
  "within_bounds sl fails c req calls \<longleftrightarrow>
     list_all (\<lambda>(p, m, apiKey). \<not> Blacklisted (catalog (co_gateway c)) p m \<and>
       (gw_freeOnly (co_gateway c) (ReqModel req) \<longrightarrow> served_free (catalog (co_gateway c)) (cand p m)) \<and>
       (\<exists>keys. ConfiguredKeys sl fails c = Inr keys \<and> map_of keys p = Some apiKey \<and> apiKey \<noteq> [])) calls"

lemma trip_within_bounds:
  "\<exists>calls. sent_upstream (snd (route v (co_gateway c) (trip_route t sl emit c) req key streaming w)) = sent_upstream w @ calls \<and>
    within_bounds sl (tr_keys_fail t) c req calls"
proof -
  from route_asks [OF planned_allowed, of v "co_gateway c" "trip_route t sl emit c" req key streaming w]
  obtain calls where "sent_upstream (snd (route v (co_gateway c) (trip_route t sl emit c) req key streaming w)) = sent_upstream w @ calls"
    "list_all (\<lambda>(p, m, apiKey). (\<not> Blacklisted (catalog (co_gateway c)) (cand_provider (cand p m)) (cand_model (cand p m)) \<and>
        (gw_freeOnly (co_gateway c) (ReqModel req) \<longrightarrow> served_free (catalog (co_gateway c)) (cand p m))) \<and>
      (\<exists>keys. stored (trip_route t sl emit c) = Some keys \<and> map_of keys p = Some apiKey \<and> apiKey \<noteq> [])) calls" by blast
  moreover have "stored (trip_route t sl emit c) = Some keys \<longleftrightarrow> ConfiguredKeys sl (tr_keys_fail t) c = Inr keys" for keys
    by (auto simp: trip_route_def stored_in_def split: sum.splits)
  ultimately show ?thesis by (auto simp: within_bounds_def list_all_iff)
qed

lemma take_trip_effects:
  assumes "take_trip t sl emit c w req key = (ans, w1)"
  shows "\<exists>rows calls out. usage_logs w1 = usage_logs w @ rows \<and> list_all (\<lambda>r. api_key_id r = Some (ck_ID key)) rows \<and>
    sent_upstream w1 = sent_upstream w @ calls \<and> within_bounds sl (tr_keys_fail t) c req calls \<and>
    delivered w1 = delivered w @ out \<and> ga_chunks ans = out \<and> (\<not> Stream req \<longrightarrow> out = [])"
proof -
  let ?r = "route (tr_vectors t) (co_gateway c) (trip_route t sl emit c) req (Some (ck_ID key)) (Stream req) w"
  have w1: "w1 = snd ?r" using assms
    by (auto simp: take_trip_def StreamRequest_def Complete_def Let_def split: if_splits prod.splits)
  from route_billed [of "Some (ck_ID key)" w "tr_vectors t" "co_gateway c" "trip_route t sl emit c" req "Stream req"]
  obtain rows out where r: "usage_logs w1 = usage_logs w @ rows" "list_all (\<lambda>r. api_key_id r = Some (ck_ID key)) rows"
    "delivered w1 = delivered w @ out" "\<not> Stream req \<longrightarrow> out = []"
    unfolding w1 billed_to_def hands_over_def by blast
  moreover have "ga_chunks ans = out" using assms r(3,4)
    by (auto simp: take_trip_def Let_def split: if_splits prod.splits)
  ultimately show ?thesis
    using trip_within_bounds [of "tr_vectors t" c t sl emit req "Some (ck_ID key)" "Stream req" w] unfolding w1 by blast
qed

text \<open>The answer of the trip is the result of the route, and its world is the route's.\<close>

lemma take_trip_result:
  assumes "take_trip t sl emit c w req key = (ans, w1)"
    and "routed = route (tr_vectors t) (co_gateway c) (trip_route t sl emit c) req (Some (ck_ID key)) (Stream req) w"
  shows "w1 = snd routed \<and>
    (if Stream req then ga_error ans = (case fst routed of Inl err \<Rightarrow> Some (route_error_text (tr_quoted t) err) | Inr _ \<Rightarrow> None)
     else case fst routed of Inl err \<Rightarrow> ga_whole ans = Inl (route_error_text (tr_quoted t) err)
       | Inr answer \<Rightarrow> (\<exists>resp. answer = Some resp \<and> ga_whole ans = Inr resp))"
proof -
  from route_billed [of "Some (ck_ID key)" w "tr_vectors t" "co_gateway c" "trip_route t sl emit c" req "Stream req"]
  have "Stream req \<or> fst routed \<noteq> Inr None" unfolding assms(2) by (cases "Stream req") simp_all
  then show ?thesis
    using assms by (auto simp: take_trip_def StreamRequest_def Complete_def Let_def split: if_splits prod.splits sum.splits option.splits)
qed

lemma with_hash_in: "with_hash d ks = Some (i, k) \<Longrightarrow> (i, k) \<in> set ks \<and> kr_Hash k = d"
  unfolding with_hash_def find_Some_iff using nth_mem by fastforce

lemma authorized_key:
  assumes "fst (authorize cy fails now r ks) = Inr key"
  shows "\<exists>k. (ck_ID key, k) \<in> set ks \<and> kr_DisabledAt k = None \<and>
    kr_Hash k = sha256 cy (TrimSpace (TrimPrefix (Authorization r) ''Bearer ''))"
  using assms
  by (auto simp: authorize_def ValidateClientKey_def Let_def split: if_splits option.splits prod.splits sum.splits dest!: with_hash_in)

section \<open>The reply\<close>

text \<open>What a client reads of the chunks handed over, and of an answer in one piece.\<close>

definition streamed_reply :: "server_io \<Rightarrow> endpoint \<Rightarrow> string \<Rightarrow> ChatResponse list \<Rightarrow> string option \<Rightarrow> http_reply" where
  "streamed_reply h e m out err =
     (if e = EP_completions then streamCompletions (ho_render h) (ho_gone h) out err
      else case streamResponses (ho_mint h) m out err of
          Inl (code, why) \<Rightarrow> ErrorReply code why ''upstream_error''
        | Inr st \<Rightarrow> EventStream (stream_bytes (ho_render h) st))"

definition whole_reply :: "server_io \<Rightarrow> endpoint \<Rightarrow> string \<Rightarrow> ChatResponse \<Rightarrow> http_reply" where
  "whole_reply h e m resp =
     JsonReply 200 (if e = EP_completions then encode_ChatResponse resp else encode_responsesBody (responsesFromChat (ho_mint h) resp m))"

lemma asked_stream:
  "read_responses_request lib dm bytes = Inr (rr, req) \<Longrightarrow> Stream req = rr_Stream rr"
  using responses_ask_a_chat_request by (cases bytes) (auto simp: read_responses_request_def)

lemma completion_reply:
  assumes "e \<in> {EP_completions, EP_responses}" and "asked h e q s = Some (req, key)"
  shows "fst (handle (h\<lparr>ho_gateway := gw\<rparr>) e [] q s) =
    S_http (if Stream req then streamed_reply h e (ReqModel req) (ga_chunks (gw req key)) (ga_error (gw req key))
      else case ga_whole (gw req key) of Inl why \<Rightarrow> ErrorReply 502 why ''upstream_error''
        | Inr resp \<Rightarrow> whole_reply h e (ReqModel req) resp)"
  using assms
  by (auto simp: asked_def asked_body_def on_keys_def handleChatCompletions_def handleResponses_def streamed_reply_def whole_reply_def
      Let_def asked_stream split: if_splits sum.splits prod.splits)

lemma errors_have_a_status:
  "http_status (reply_of no) \<noteq> None"
  "read_chat_request lib dm bytes = Inl err \<Longrightarrow> http_status err \<noteq> None"
  "read_responses_request lib dm bytes = Inl err \<Longrightarrow> http_status err \<noteq> None"
  by (auto simp: reply_of_def http_status_def read_chat_request_def read_responses_request_def Let_def
      split: reply.splits option.splits sum.splits if_splits)

lemma completion_refused:
  assumes "e \<in> {EP_completions, EP_responses}" and "asked h e q s = None"
  shows "refusal (fst (handle (h\<lparr>ho_gateway := gw\<rparr>) e [] q s)) \<noteq> None"
proof -
  have "\<exists>err. fst (handle (h\<lparr>ho_gateway := gw\<rparr>) e [] q s) = S_http err \<and> http_status err \<noteq> None"
    using assms
    by (auto simp: asked_def asked_body_def on_keys_def handleChatCompletions_def handleResponses_def errors_have_a_status Let_def
        http_status_def [of "ErrorReply _ _ _"] simp del: not_None_eq split: if_splits sum.splits prod.splits)
  then show ?thesis by (auto simp: refusal_def)
qed

lemma completion_site:
  assumes "e \<in> {EP_completions, EP_responses}"
  shows "\<exists>ks. snd (handle h e [] q s) = s\<lparr>si_console := (si_console s)\<lparr>co_vault := (co_vault (si_console s))\<lparr>client_keys := ks\<rparr>\<rparr>\<rparr>"
  using assms by (auto simp: on_keys_def Let_def split: prod.splits)

section \<open>In every run\<close>

text \<open>A completion is two steps of the process: the handler, and the trip it sends through the gateway.\<close>

lemma completion_is_a_run:
  assumes "running config cy p0 iss0 p iss" and "ho_crypto h = cy" and "pr_stage p \<noteq> Closed"
    and "mux_find mux (hq_Method q) (hq_Path q) = Some (pt, e, [])" and e: "e \<in> {EP_completions, EP_responses}"
    and trip: "serve_trip h t e q (pr_site p) w = (x, s', w')"
  shows "running config cy p0 iss0 (p\<lparr>pr_site := s'\<rparr>) iss"
proof -
  define c where "c = si_console (pr_site p)"
  define gw where "gw = (\<lambda>req key. fst (take_trip t (ho_sealer h) (emitter h e) c (w\<lparr>health := co_health c\<rparr>) req key))"
  let ?h = "h\<lparr>ho_gateway := gw\<rparr>"
  obtain y s1 where s1: "handle ?h e [] q (pr_site p) = (y, s1)" by fastforce
  then have run: "run_request ?h q p = (y, p\<lparr>pr_site := s1\<rparr>)" by (simp add: run_request_def serve_def assms(4))
  have "\<exists>r. y = S_http r" using e s1 by (auto simp: on_keys_def Let_def split: prod.splits)
  then have "handed_out y = []" by (auto simp: handed_out_def)
  with requested [OF assms(1) _ assms(3) run] assms(2) have step: "running config cy p0 iss0 (p\<lparr>pr_site := s1\<rparr>) iss" by simp
  from completion_site [OF e, of ?h q "pr_site p"] s1 obtain ks where
    ks: "s1 = (pr_site p)\<lparr>si_console := c\<lparr>co_vault := (co_vault c)\<lparr>client_keys := ks\<rparr>\<rparr>\<rparr>" by (auto simp: c_def)
  show ?thesis
  proof (cases "asked h e q (pr_site p)")
    case None
    with trip s1 have "s' = s1" by (auto simp: serve_trip_def c_def gw_def Let_def)
    with step show ?thesis by simp
  next
    case (Some a)
    obtain req key where a: "a = (req, key)" by fastforce
    let ?v = "tr_vectors t" and ?io = "trip_route t (ho_sealer h) (emitter h e) c"
    have "snd (take_trip t (ho_sealer h) (emitter h e) c (w\<lparr>health := co_health c\<rparr>) req key) =
        snd (route ?v (co_gateway c) ?io req (Some (ck_ID key)) (Stream req) (w\<lparr>health := co_health c\<rparr>))"
      by (auto simp: take_trip_def StreamRequest_def Complete_def Let_def split: prod.splits)
    with Some a trip s1 ks have "p\<lparr>pr_site := s'\<rparr> = run_trip ?v ?io req (Some (ck_ID key)) (Stream req) w (p\<lparr>pr_site := s1\<rparr>)"
      by (auto simp: serve_trip_def run_trip_def c_def gw_def Let_def)
    with travelled [OF step, of ?v ?io req "Some (ck_ID key)" "Stream req" w] show ?thesis by simp
  qed
qed

text \<open>
  C5. A completion from end to end, on either surface. A request that is not a POST, without a client key that passes, or with a
  body that is not a request, is refused, and reaches no provider and leaves no row. Any other is made for a key of the table that is not
  revoked and hashes to what was presented, and: every usage row it leaves is that key's; every call it makes upstream
  carries the key the vault holds for that provider, never goes to a blacklisted model, and in free-only mode only to one
  published at zero price. The trip is the one \<open>route\<close> over the gateway the process has, and the reply is its result: the
  chunks it handed over, in order and none besides, closed by its error exactly when it has one, or, in one piece, its
  answer, or its error with 502. The health it leaves is the health the process goes on with.
\<close>

theorem completion_end_to_end:
  assumes "e \<in> {EP_completions, EP_responses}" and "serve_trip h t e q s w = (x, s', w')"
  shows "case asked h e q s of
      None \<Rightarrow> refusal x \<noteq> None \<and> w' = w
    | Some (req, key) \<Rightarrow>
        (\<exists>k. (ck_ID key, k) \<in> set (client_keys (co_vault (si_console s))) \<and> kr_DisabledAt k = None \<and>
           kr_Hash k = sha256 (ho_crypto h) (TrimSpace (TrimPrefix (Authorization (hq_From q)) ''Bearer ''))) \<and>
        (\<exists>rows calls out routed.
           routed = route (tr_vectors t) (co_gateway (si_console s)) (trip_route t (ho_sealer h) (emitter h e) (si_console s)) req
             (Some (ck_ID key)) (Stream req) (w\<lparr>health := co_health (si_console s)\<rparr>) \<and>
           w' = snd routed \<and> co_health (si_console s') = health w' \<and>
           usage_logs w' = usage_logs w @ rows \<and> list_all (\<lambda>r. api_key_id r = Some (ck_ID key)) rows \<and>
           sent_upstream w' = sent_upstream w @ calls \<and> within_bounds (ho_sealer h) (tr_keys_fail t) (si_console s) req calls \<and>
           delivered w' = delivered w @ out \<and>
           (if Stream req
            then x = S_http (streamed_reply h e (ReqModel req) out
              (case fst routed of Inl err \<Rightarrow> Some (route_error_text (tr_quoted t) err) | Inr _ \<Rightarrow> None))
            else out = [] \<and>
              (case fst routed of
                 Inl err \<Rightarrow> x = S_http (ErrorReply 502 (route_error_text (tr_quoted t) err) ''upstream_error'')
               | Inr answer \<Rightarrow> (\<exists>resp. answer = Some resp \<and> x = S_http (whole_reply h e (ReqModel req) resp)))))"
proof -
  define c where "c = si_console s"
  define trip where "trip = take_trip t (ho_sealer h) (emitter h e) c (w\<lparr>health := co_health c\<rparr>)"
  let ?gw = "\<lambda>req key. fst (trip req key)"
  have x: "x = fst (handle (h\<lparr>ho_gateway := ?gw\<rparr>) e [] q s)" using assms(2)
    by (auto simp: serve_trip_def trip_def c_def Let_def split: prod.splits option.splits)
  show ?thesis
  proof (cases "asked h e q s")
    case None
    with assms(2) completion_refused [OF assms(1) None, of ?gw] x show ?thesis
      by (auto simp: serve_trip_def Let_def split: prod.splits)
  next
    case (Some a)
    obtain req key where a: "a = (req, key)" by fastforce
    obtain ans w1 where tr: "trip req key = (ans, w1)" by fastforce
    with Some a assms(2) have w': "w' = w1" by (auto simp: serve_trip_def trip_def c_def Let_def split: prod.splits)
    from Some a have "fst (authorize (ho_crypto h) (ai_auth_fails (ho_io h)) (ai_now (ho_io h)) (hq_From q)
        (client_keys (co_vault (si_console s)))) = Inr key"
      by (auto simp: asked_def split: if_splits sum.splits)
    from authorized_key [OF this] have k: "\<exists>k. (ck_ID key, k) \<in> set (client_keys (co_vault (si_console s))) \<and>
        kr_DisabledAt k = None \<and> kr_Hash k = sha256 (ho_crypto h) (TrimSpace (TrimPrefix (Authorization (hq_From q)) ''Bearer ''))" .
    from take_trip_effects [OF tr [unfolded trip_def]] obtain rows calls out where eff:
      "usage_logs w1 = usage_logs w @ rows" "list_all (\<lambda>r. api_key_id r = Some (ck_ID key)) rows"
      "sent_upstream w1 = sent_upstream w @ calls" "within_bounds (ho_sealer h) (tr_keys_fail t) c req calls"
      "delivered w1 = delivered w @ out" "ga_chunks ans = out" "\<not> Stream req \<longrightarrow> out = []"
      by auto
    from Some a tr assms(2) have after: "co_health (si_console s') = health w'"
      unfolding w' by (auto simp: serve_trip_def trip_def c_def Let_def split: prod.splits)
    define routed where "routed = route (tr_vectors t) (co_gateway c) (trip_route t (ho_sealer h) (emitter h e) c) req
      (Some (ck_ID key)) (Stream req) (w\<lparr>health := co_health c\<rparr>)"
    note result = take_trip_result [OF tr [unfolded trip_def] routed_def]
    have "if Stream req
       then x = S_http (streamed_reply h e (ReqModel req) out
         (case fst routed of Inl err \<Rightarrow> Some (route_error_text (tr_quoted t) err) | Inr _ \<Rightarrow> None))
       else out = [] \<and>
         (case fst routed of
            Inl err \<Rightarrow> x = S_http (ErrorReply 502 (route_error_text (tr_quoted t) err) ''upstream_error'')
          | Inr answer \<Rightarrow> (\<exists>resp. answer = Some resp \<and> x = S_http (whole_reply h e (ReqModel req) resp)))"
      using completion_reply [OF assms(1) Some [unfolded a], of ?gw] x tr eff(6,7) result
      by (cases "fst routed") auto
    with Some a k eff after result show ?thesis unfolding w' c_def routed_def by auto
  qed
qed

definition hop_site :: Site where
  "hop_site = \<lparr>si_console = \<lparr>co_vault = \<lparr>accounts = no_accounts, client_keys = one_key,
       provider_keys = [(''groq'', \<lparr>pk_Encrypted = toy_nonce @ toy_key @ ''secret'', pk_CreatedAt = 0, pk_UpdatedAt = 0\<rparr>)]\<rparr>,
     co_gateway = (small_gateway True)\<lparr>cfg := (cfg (small_gateway True))\<lparr>EncryptionKey := toy_key\<rparr>\<rparr>,
     co_table = [], co_probes = [], co_health = healthy, co_tags = [], co_black = [], co_settings = []\<rparr>,
   si_iot = \<lparr>devices = [], telemetry = []\<rparr>\<rparr>"

definition hop_request :: http_request where
  "hop_request = (stranger ''POST'' [''v1'', ''chat'', ''completions''])
     \<lparr>hq_From := no_request\<lparr>Authorization := ''Bearer cr_s''\<rparr>, hq_Bytes := Some ''q''\<rparr>"

lemma hop_asked:
  assumes "ho_crypto h = toy_crypto" and "ho_lib h = hop_lib" and "ho_io h = calm"
  shows "\<exists>req key. asked h EP_completions hop_request hop_site = Some (req, key) \<and> ck_ID key = ''k1''"
proof -
  have k: "TrimSpace (TrimPrefix ''Bearer cr_s'' ''Bearer '') = ''cr_s''" by code_simp
  have "\<exists>req. decode_ChatRequest hop_lib (JObj [(''messages'', JArr [JObj [(''role'', JStr ''user'')]]), (''stream'', JBool True)]) = Inr req \<and>
      Messages req \<noteq> []"
    by (simp add: decode_ChatRequest_def decode_Message_def UnmarshalContent.simps fields_get_def raw_field_def json_simps)
  then have "\<exists>req. read_chat_request hop_lib dm (Some ''q'') = Inr req" for dm
    by (auto simp: read_chat_request_def unmarshal_def maxRequestBytes_def hop_lib_def)
  then obtain req where "read_chat_request hop_lib (DefaultModel (cfg (co_gateway (si_console hop_site)))) (Some ''q'') = Inr req" by blast
  then show ?thesis using k assms
    by (auto simp: asked_def asked_body_def hop_request_def stranger_def authorize_def ValidateClientKey_def with_hash_def hop_site_def
        one_key_def toy_crypto_def no_request_def Let_def)
qed

lemma hop_keys: "ConfiguredKeys toy_sealer fails (si_console hop_site) = Inr keys \<Longrightarrow> keys = [(''groq'', ''secret'')]"
  using decrypt_encrypt [OF toy_sealer_laws toy_encrypt, of "''secret''"]
  by (auto simp: ConfiguredKeys_def ProviderKeys_def hop_site_def open_row_def toy_nonce_def NonceSize_def and_then_Inr split: if_splits)

lemma hop_bounds:
  assumes "within_bounds toy_sealer fails (si_console hop_site) req calls"
  shows "list_all (\<lambda>(p, m, apiKey). p = ''groq'' \<and> apiKey = ''secret'' \<and> served_free small_catalog (cand p m)) calls"
proof -
  have "gw_freeOnly (co_gateway (si_console hop_site)) m" "catalog (co_gateway (si_console hop_site)) = small_catalog" for m
    by (simp_all add: gw_freeOnly_def hop_site_def small_gateway_def)
  with assms show ?thesis by (auto simp: within_bounds_def list_all_iff dest!: hop_keys split: if_splits)
qed

lemma completion_end_to_end_witness:
  "\<forall>h t w. \<exists>x s' w' rows calls.
     serve_trip (h\<lparr>ho_crypto := toy_crypto, ho_lib := hop_lib, ho_io := calm, ho_sealer := toy_sealer\<rparr>) t EP_completions hop_request
       hop_site w = (x, s', w') \<and>
     usage_logs w' = usage_logs w @ rows \<and> list_all (\<lambda>r. api_key_id r = Some ''k1'') rows \<and>
     sent_upstream w' = sent_upstream w @ calls \<and>
     list_all (\<lambda>(p, m, apiKey). p = ''groq'' \<and> apiKey = ''secret'' \<and> served_free small_catalog (cand p m)) calls"
proof (intro allI)
  fix h :: server_io and t :: trip_io and w :: World
  let ?h = "h\<lparr>ho_crypto := toy_crypto, ho_lib := hop_lib, ho_io := calm, ho_sealer := toy_sealer\<rparr>"
  obtain x s' w' where trip: "serve_trip ?h t EP_completions hop_request hop_site w = (x, s', w')" by (metis prod_cases3)
  from hop_asked [of ?h] obtain req key where a: "asked ?h EP_completions hop_request hop_site = Some (req, key)"
    "ck_ID key = ''k1''" by auto
  from completion_end_to_end [OF _ trip] a obtain rows calls where
    "usage_logs w' = usage_logs w @ rows" "list_all (\<lambda>r. api_key_id r = Some ''k1'') rows" "sent_upstream w' = sent_upstream w @ calls"
    "within_bounds toy_sealer (tr_keys_fail t) (si_console hop_site) req calls" by auto
  with trip hop_bounds show "\<exists>x s' w' rows calls.
     serve_trip ?h t EP_completions hop_request hop_site w = (x, s', w') \<and>
     usage_logs w' = usage_logs w @ rows \<and> list_all (\<lambda>r. api_key_id r = Some ''k1'') rows \<and>
     sent_upstream w' = sent_upstream w @ calls \<and>
     list_all (\<lambda>(p, m, apiKey). p = ''groq'' \<and> apiKey = ''secret'' \<and> served_free small_catalog (cand p m)) calls" by blast
qed

end
