(* ===== verification/Spec2Isabelle.thy ===== *)
theory Spec2Isabelle
  imports Gateway_Safety Cache_Facts Dialects Probing Account_Safety Responses_Facts Responses_Equivalence Keys_Facts
    Chat_Handler Discovery_Facts Operator_Facts IoT_Facts Analytics Dashboard_Facts Playground Model_List Startup_Facts
    Embeddings Responses_Handler Migrations Connect Routes_Facts Process_Facts Device_Link Trip
begin

text \<open>
  A verification development of codeRoute, an LLM gateway written in Go. A client asks for a chat completion over HTTP
  with a key of the gateway's own; the gateway decides which provider and model may serve it, tries the candidates in
  order until one answers, hands the answer back whole or as a stream, and records what happened. An operator keeps
  accounts, keys, marks and a blacklist in a console; devices reach the same gateway over MQTT.

  Everything is a function of its state and of what it meets outside: each operation takes the state it reads (a
  record, a table as an association list, a Go map as a \<open>gomap\<close>) and gives the changed state back; what the clock, the
  database, the network, the random source and the order of a map range do is an argument (the records named
  \<open>..._io\<close>). Errors are values. A statement that quantifies over these arguments holds for whatever happens outside.

  How a request passes through, and the theories in that order:

  \<^item> \<open>Prelude\<close>, \<open>Float64\<close>, \<open>Json\<close>: Go's maps, strings, stable sorting and clock; binary64 arithmetic rounded to nearest
    even (no overflow or NaN); JSON values with the decoding rules of \<open>encoding/json\<close> (null, missing and repeated
    fields, and field names in whatever case of ASCII letters). Parsing and printing a text are the record \<open>golib\<close>.
  \<^item> \<open>Chat\<close>, \<open>Chat_Codec\<close> (\<open>provider/types.go\<close>): requests, chunks and answers, and their round trip through JSON.
  \<^item> \<open>Config\<close> (\<open>config/config.go\<close>), \<open>Specs\<close> (\<open>provider/specs.go\<close>, \<open>provider.go\<close>): the environment, validation, the
    provider specifications and the registry. A configuration that validates starts.
  \<^item> \<open>Profiles\<close>, \<open>Scoring\<close>, \<open>Routing_Catalog\<close>, \<open>Catalog_Facts\<close> (\<open>routing/smart.go\<close>, \<open>scoring.go\<close>, \<open>suitability.go\<close>):
    the catalogue of models with its marks, prices, evidence, blacklist and confirmations, and the invariant of every
    catalogue that can be reached.
  \<^item> \<open>Health\<close>, \<open>Health_Facts\<close>: the circuit breaker and the bench of \<open>gateway.go\<close>; under any interleaving of their
    operations a provider or model is out only while a recent failure or refusal justifies it.
  \<^item> \<open>Planning\<close>, \<open>Planning_Spec\<close>, \<open>Planning_Facts\<close>: from a request to the chain of candidates. The planner in state-passing
    style refines a specification without state (\<open>plan_refines_spec\<close>), on which fairness, the free-only guarantees and
    the vetoes are proved.
  \<^item> \<open>Gateway_State\<close>, \<open>Live\<close>, \<open>Semantic_Cache\<close>, \<open>Cache_Facts\<close>, \<open>Embeddings\<close> (\<open>gateway/cache.go\<close>, \<open>live.go\<close>,
    \<open>cache/semantic.go\<close>, \<open>provider/embeddings.go\<close>): the usage log, the status view, the cache and its embedding client.
  \<^item> \<open>Attempts\<close>, \<open>Attempts_Facts\<close>, \<open>Gateway_Safety\<close>: one attempt, the chain of attempts and a whole request (\<open>route\<close>),
    with the traces \<open>sent_upstream\<close> and \<open>delivered\<close>; which candidates a chain passes over, why, and which one ends it;
    invariants of a chain are interpretations of one locale.
  \<^item> \<open>Client_Interface\<close>, \<open>OpenAI\<close>, \<open>Anthropic\<close>, \<open>Anthropic_Facts\<close>, \<open>Google\<close>, \<open>Dialects\<close>: the three dialects as
    implementations of one interface, their requests, answers and event streams; an attempt over a dialect is the dialect.
  \<^item> \<open>Chat_Handler\<close>, \<open>Responses\<close>, \<open>Responses_Facts\<close>, \<open>Responses_Stream\<close>, \<open>Responses_Stream_Facts\<close>,
    \<open>Responses_Equivalence\<close>, \<open>Responses_Handler\<close>, \<open>Model_List\<close> (\<open>api/handler.go\<close>, \<open>responses.go\<close>,
    \<open>responses_stream.go\<close>): the HTTP surfaces down to the bytes of the streams; what an OpenAI client reads back, that a
    Responses stream is well framed and carries the items of the whole answer, and what the model list advertises.
  \<^item> \<open>Probing\<close> (\<open>gateway/probe.go\<close>, \<open>db/probes.go\<close>), \<open>Discovery\<close>, \<open>Discovery_Facts\<close> (\<open>provider/discovery.go\<close>,
    \<open>gateway/discovery.go\<close>, \<open>db/models.go\<close>), \<open>Analytics\<close> (\<open>db/analytics.go\<close>): what the gateway learns, from trial
    completions, from the providers' lists and prices and from its own log. Concurrent goroutines are schedules of steps.
  \<^item> \<open>Throttle\<close>, \<open>Accounts\<close>, \<open>Accounts_Facts\<close>, \<open>Account_Safety\<close> (\<open>api/auth.go\<close>, \<open>users.go\<close>, \<open>db/users.go\<close>,
    \<open>sessions.go\<close>), \<open>Keys\<close>, \<open>Keys_Facts\<close> (\<open>db/keys.go\<close>, \<open>api/admin.go\<close>): sign-in, sessions, guessing bounds, client and
    upstream keys. Hashing and sealing are the records \<open>crypto\<close> and \<open>sealer\<close>; the law assumed of a sealer is that base64
    decodes what it encoded and that a sealed text opens under its key and nonce (\<open>sealer_laws\<close>); a toy sealer satisfies it.
  \<^item> \<open>Operator_Settings\<close>, \<open>Operator_Facts\<close>, \<open>Dashboard\<close>, \<open>Dashboard_Facts\<close>, \<open>Playground\<close> (\<open>api/tags.go\<close>,
    \<open>blacklist.go\<close>, \<open>providers.go\<close>, \<open>dashboard.go\<close>, \<open>playground.go\<close> and their tables): what an operator sets and sees.
    A setting takes effect with its reply; the capped list is fair; the dry run is the plan.
  \<^item> \<open>IoT\<close>, \<open>IoT_Facts\<close>, \<open>Device_Link\<close> (\<open>iot/bridge.go\<close>, \<open>store.go\<close>): messages, topics, the edge box, and the link to
    the broker with the filters it subscribes to.
  \<^item> \<open>Connect\<close> (\<open>db/db.go\<close>), \<open>Migrations\<close> (\<open>db/migrate.go\<close>), \<open>Startup\<close>, \<open>Startup_Facts\<close> (\<open>cmd/server/main.go\<close>): from
    the environment and the tables to the running gateway and its bridge; what survives a restart, and what is in force
    when a table cannot be read.
  \<^item> \<open>Routes\<close>, \<open>Routes_Facts\<close> (\<open>NewHandler\<close> and the \<open>register...Routes\<close> of \<open>internal/api\<close>): the table of routes, the
    choice of the library's mux in it, the bodies decoded, and \<open>serve\<close>, which hands a request to the handler of its route.
    Every request has one handler, and without the credentials of its endpoint it is refused and changes nothing.
  \<^item> \<open>Process\<close>, \<open>Process_Facts\<close> (\<open>main\<close> and the loops \<open>Start...\<close>): the composition of all of it as a step relation
    \<open>running\<close>: requests, trips through the gateway, device messages, passes of the loops and the shutdown in any order.
    The invariants of the catalogue, the accounts and the loops hold in every such run, and only operators manage.
  \<^item> \<open>Trip\<close>: a completion from the HTTP request to the reply, over the key table, the vault and \<open>route\<close>, with the texts of
    the errors; the reply is the result of the route, and the whole is two steps of \<open>running\<close>.

  Interfaces are locales: a sort by a key (\<open>stable_order\<close>), a gate that closes for a time (\<open>timed_gate\<close>: breaker and
  bench), a question to the health state that leaves the bench as if swept (\<open>health_query\<close>), a relation kept along a
  chain of attempts (\<open>chain_relation\<close>), a provider dialect and the joining of turns (\<open>dialect\<close>, \<open>turn_joining\<close>), an
  invariant of the accounts (\<open>account_invariant\<close>); each is interpreted on the definitions of the code.

  Bounds. No definition takes fuel: loops are structural or have a measure (the scanner of an event stream shortens its
  input, the fair share of a capped list grows its output towards the cap), apart from \<open>ping_loop\<close>, a partial function
  shown to return after at most twelve pings. The limits of the code are kept: 4 MB for a
  line of a stream, 32 MB for a body, 8 MB from the edge box, twelve hours of a session, five sign-in failures within
  fifteen minutes for a lockout of five, thirty seconds of a cached key. Counters of the cache are 64-bit words; other integers of the code do not
  reach their bounds and are unbounded here.

  Grain. A step of the process is a whole handler or a whole pass of a loop; where goroutines share state inside one step
  (trial completions, refreshed lists) the step takes their schedule as an argument. The start is one step, although the
  discovery loop already runs while its last lines read the stored marks and the switch. In \<open>serve\<close> the answer of the
  gateway to a completion is an argument; what that trip does to the breakers and the bench is the step \<open>travelled\<close>, over
  \<open>route\<close>; \<open>Trip\<close> puts the two together.

  Not modelled, and why: the listening socket and the wait of the shutdown for handlers in flight, the wire protocols of
  HTTP, MQTT and the database driver, and the bytes of the embedded page are libraries or assets; interleavings inside a
  handler are left out: what a mutex or one SQL statement protects is one operation, but a handler of several operations
  (counting the active accounts, then disabling one) is taken as one step, so what is proved of runs is proved of
  handlers taken one at a time (\<open>overlapping_disables_lock_out\<close> and \<open>overlapping_logins_escape\<close> show what overlap can
  do). The database calls of one handler of accounts fail together or not at all, and the answer of the router to a device
  does not depend on the time the edge box took before it. Letters outside ASCII have no case. Log lines, response headers and the explanatory notes in replies carry no behaviour.
  Texts of database errors are replaced by one text.
\<close>

end
